(* ===== verification/Prelude.thy ===== *)
theory Prelude
  imports Main "HOL-Library.Word" "HOL-Library.State_Monad" "HOL-Library.List_Lexorder"
    "HOL-Library.Char_ord"
begin

text \<open>
  Shared vocabulary of the development: the names of the Rust types that the model uses, byte
  strings with the operations of the standard library that the compiler calls, ordered maps and
  sets (\<open>BTreeMap\<close>, \<open>BTreeSet\<close>) as sorted lists behind an interface, the state monad in which
  the builders thread their counters, and a small calculus for code that hands out fresh ids.
\<close>

named_theorems alloc_rules \<open>rules of the id allocation calculus\<close>
named_theorems str_simps \<open>facts on byte strings\<close>

section \<open>Machine types\<close>

text \<open>
  An \<open>i64\<close> is a 64 bit word, read as two's complement by \<open>sint\<close>; an \<open>f64\<close> is its IEEE bit
  pattern, because the modelled code copies floats and never computes with them. A Rust \<open>char\<close>
  is its Unicode scalar value. A Rust \<open>String\<close> is its UTF-8 byte sequence, a HOL \<open>string\<close>;
  lengths and offsets of strings are byte counts, as \<open>str::len\<close> and spans are.
\<close>

type_synonym i64 = "64 word"
type_synonym f64 = "64 word"
type_synonym rchar = nat

abbreviation ret :: "'a \<Rightarrow> ('s, 'a) state" where
  "ret \<equiv> State_Monad.return"

abbreviation traverse :: "('a \<Rightarrow> ('s, 'b) state) \<Rightarrow> 'a list \<Rightarrow> ('s, 'b list) state" where
  "traverse \<equiv> State_Monad.traverse_list"

section \<open>Byte strings\<close>

definition starts_with :: "string \<Rightarrow> string \<Rightarrow> bool" where
  "starts_with s p = (take (length p) s = p)"

definition ends_with :: "string \<Rightarrow> string \<Rightarrow> bool" where
  "ends_with s p = (length p \<le> length s \<and> drop (length s - length p) s = p)"

definition strip_prefix :: "string \<Rightarrow> string \<Rightarrow> string option" where
  "strip_prefix p s = (if starts_with s p then Some (drop (length p) s) else None)"

fun join_with :: "string \<Rightarrow> string list \<Rightarrow> string" where
  "join_with sep [] = []"
| "join_with sep [x] = x"
| "join_with sep (x # xs) = x @ sep @ join_with sep xs"

fun split_on :: "char \<Rightarrow> string \<Rightarrow> string list" where
  "split_on c [] = [[]]"
| "split_on c (x # xs) =
     (if x = c then [] # split_on c xs
      else case split_on c xs of [] \<Rightarrow> [[x]] | w # ws \<Rightarrow> (x # w) # ws)"

definition digit_char :: "nat \<Rightarrow> char" where
  "digit_char d = char_of (48 + d)"

text \<open>Decimal rendering of a number, as \<open>to_string\<close> and \<open>{}\<close> of an unsigned integer.\<close>

fun nat_str :: "nat \<Rightarrow> string" where
  "nat_str n = (if n < 10 then [digit_char n] else nat_str (n div 10) @ [digit_char (n mod 10)])"

declare nat_str.simps [simp del]

lemma starts_with_append [simp, str_simps]: "starts_with (p @ s) p"
  by (simp add: starts_with_def)

lemma starts_with_iff: "starts_with s p \<longleftrightarrow> (\<exists>r. s = p @ r)"
proof
  assume "starts_with s p"
  then have "s = p @ drop (length p) s"
    by (metis append_take_drop_id starts_with_def)
  then show "\<exists>r. s = p @ r" ..
qed (auto simp: starts_with_def)

lemma ends_with_iff: "ends_with s p \<longleftrightarrow> (\<exists>r. s = r @ p)"
proof
  assume "ends_with s p"
  then have "s = take (length s - length p) s @ p"
    by (metis append_take_drop_id ends_with_def)
  then show "\<exists>r. s = r @ p" ..
qed (auto simp: ends_with_def)

lemma strip_prefix_append [simp, str_simps]: "strip_prefix p (p @ s) = Some s"
  by (simp add: strip_prefix_def)

lemma strip_prefix_Some: "strip_prefix p s = Some r \<longleftrightarrow> s = p @ r"
  by (auto simp: strip_prefix_def starts_with_iff)

lemma split_on_not_Nil [simp]: "split_on c s \<noteq> []"
  by (induction s) (auto split: list.splits)

lemma split_on_no_sep: "c \<notin> set s \<Longrightarrow> split_on c s = [s]"
  by (induction s) auto

lemma split_on_append: "c \<notin> set s \<Longrightarrow> split_on c (s @ c # t) = s # split_on c t"
  by (induction s) auto

lemma join_with_Cons: "xs \<noteq> [] \<Longrightarrow> join_with sep (x # xs) = x @ sep @ join_with sep xs"
  by (cases xs) auto

lemma split_on_join:
  assumes "xs \<noteq> []" "\<And>x. x \<in> set xs \<Longrightarrow> c \<notin> set x"
  shows "split_on c (join_with [c] xs) = xs"
  using assms
proof (induction xs rule: list_nonempty_induct)
  case (single x)
  then show ?case by (simp add: split_on_no_sep)
next
  case (cons x xs)
  then show ?case by (simp add: join_with_Cons split_on_append)
qed

lemma of_digit_char: "d < 10 \<Longrightarrow> of_char (digit_char d) = (48 + d :: nat)"
  by (simp add: digit_char_def take_bit_eq_mod)

lemma digit_char_neq: "d < 10 \<Longrightarrow> digit_char d \<noteq> CHR ''.''"
  using of_digit_char [of d] by auto

section \<open>Ordered maps and sets\<close>

text \<open>
  A \<open>BTreeMap\<close> is the list of its entries in ascending key order, which is also the order its
  iterators visit; a \<open>BTreeSet\<close> is the ascending list of its elements. Strings compare
  bytewise, as Rust's \<open>Ord for str\<close> does.
\<close>

type_synonym ('k, 'v) btree_map = "('k \<times> 'v) list"

fun bt_insert :: "'k::linorder \<Rightarrow> 'v \<Rightarrow> ('k, 'v) btree_map \<Rightarrow> ('k, 'v) btree_map" where
  "bt_insert k v [] = [(k, v)]"
| "bt_insert k v ((k', v') # m) =
     (if k < k' then (k, v) # (k', v') # m
      else if k = k' then (k, v) # m
      else (k', v') # bt_insert k v m)"

definition bt_wf :: "('k::linorder, 'v) btree_map \<Rightarrow> bool" where
  "bt_wf m = sorted_wrt (<) (map fst m)"

abbreviation bt_get :: "('k, 'v) btree_map \<Rightarrow> 'k \<Rightarrow> 'v option" where
  "bt_get m k \<equiv> map_of m k"

locale ordered_map =
  fixes empty :: 'm
    and ins :: "'k::linorder \<Rightarrow> 'v \<Rightarrow> 'm \<Rightarrow> 'm"
    and get :: "'m \<Rightarrow> 'k \<Rightarrow> 'v option"
    and keys :: "'m \<Rightarrow> 'k list"
    and wf :: "'m \<Rightarrow> bool"
  assumes get_empty: "get empty k = None"
    and get_ins: "get (ins k v m) k' = (if k' = k then Some v else get m k')"
    and wf_empty: "wf empty"
    and wf_ins: "wf m \<Longrightarrow> wf (ins k v m)"
    and keys_sorted: "wf m \<Longrightarrow> sorted_wrt (<) (keys m)"
    and keys_get: "k \<in> set (keys m) \<longleftrightarrow> get m k \<noteq> None"
begin

lemma get_fold_ins:
  "get (fold (\<lambda>(k, v). ins k v) kvs m) k =
     (case map_of (rev kvs) k of Some v \<Rightarrow> Some v | None \<Rightarrow> get m k)"
proof (induction kvs arbitrary: m)
  case Nil
  then show ?case by simp
next
  case (Cons kv kvs)
  then show ?case
    by (cases kv) (auto simp: get_ins map_add_def split: option.splits)
qed

lemma wf_fold_ins: "wf m \<Longrightarrow> wf (fold (\<lambda>(k, v). ins k v) kvs m)"
  by (induction kvs arbitrary: m) (auto simp: wf_ins)

lemma collect_wf: "wf (fold (\<lambda>(k, v). ins k v) kvs empty)"
  by (rule wf_fold_ins [OF wf_empty])

lemma collect_get: "get (fold (\<lambda>(k, v). ins k v) kvs empty) k = map_of (rev kvs) k"
  by (simp add: get_fold_ins get_empty split: option.splits)

lemma keys_distinct: "wf m \<Longrightarrow> distinct (keys m)"
  using keys_sorted strict_sorted_iff by blast

end

lemma map_of_bt_insert: "map_of (bt_insert k v m) k' = (if k' = k then Some v else map_of m k')"
  by (induction k v m rule: bt_insert.induct) auto

lemma fst_bt_insert: "set (map fst (bt_insert k v m)) = insert k (set (map fst m))"
  by (induction k v m rule: bt_insert.induct) auto

lemma bt_wf_insert: "bt_wf m \<Longrightarrow> bt_wf (bt_insert k v m)"
proof (induction k v m rule: bt_insert.induct)
  case (2 k v k' v' m)
  then show ?case
    using fst_bt_insert [of k v m] by (auto simp: bt_wf_def)
qed (simp add: bt_wf_def)

interpretation bt: ordered_map "[]" bt_insert map_of "map fst" bt_wf
proof unfold_locales
  show "\<And>k m. (k \<in> set (map fst m)) = (map_of m k \<noteq> None)"
    by (auto simp: map_of_eq_None_iff)
next
  show "\<And>m k v. bt_wf m \<Longrightarrow> bt_wf (bt_insert k v m)"
    by (rule bt_wf_insert)
qed (auto simp: map_of_bt_insert bt_wf_def)

definition bt_collect :: "('k::linorder \<times> 'v) list \<Rightarrow> ('k, 'v) btree_map" where
  "bt_collect kvs = fold (\<lambda>(k, v). bt_insert k v) kvs []"

lemma bt_collect_get: "map_of (bt_collect kvs) k = map_of (rev kvs) k"
  by (simp add: bt_collect_def bt.collect_get)

lemma bt_collect_wf: "bt_wf (bt_collect kvs)"
  by (simp add: bt_collect_def bt.collect_wf)

text \<open>A set: the ascending list; \<open>bs_insert\<close> is \<open>BTreeSet::insert\<close>.\<close>

definition bs_insert :: "'k::linorder \<Rightarrow> 'k list \<Rightarrow> 'k list" where
  "bs_insert = insort_insert"

definition bs_wf :: "'k::linorder list \<Rightarrow> bool" where
  "bs_wf s = (sorted s \<and> distinct s)"

lemma set_bs_insert [simp]: "set (bs_insert x s) = insert x (set s)"
  by (simp add: bs_insert_def set_insort_insert)

lemma bs_wf_insert: "bs_wf s \<Longrightarrow> bs_wf (bs_insert x s)"
  by (simp add: bs_wf_def bs_insert_def sorted_insort_insert distinct_insort_insert)

lemma bs_wf_Nil [simp]: "bs_wf []"
  by (simp add: bs_wf_def)

definition bs_collect :: "'k::linorder list \<Rightarrow> 'k list" where
  "bs_collect xs = fold bs_insert xs []"

lemma fold_bs_insert: "set (fold bs_insert xs s) = set xs \<union> set s"
  by (induction xs arbitrary: s) auto

lemma bs_wf_fold: "bs_wf s \<Longrightarrow> bs_wf (fold bs_insert xs s)"
  by (induction xs arbitrary: s) (auto simp: bs_wf_insert)

lemma set_bs_collect [simp]: "set (bs_collect xs) = set xs"
  by (simp add: bs_collect_def fold_bs_insert)

lemma bs_wf_collect: "bs_wf (bs_collect xs)"
  by (simp add: bs_collect_def bs_wf_fold)

section \<open>Traversals in the state monad\<close>

text \<open>
  \<open>traverse f xs\<close> is \<open>xs.iter().map(|x| f(x)).collect()\<close> for an \<open>f\<close> that mutates the state,
  \<open>traverse_opt\<close> the same on an \<open>Option\<close>. The congruence rules let a function recurse through
  them.
\<close>

fun traverse_opt :: "('a \<Rightarrow> ('s, 'b) state) \<Rightarrow> 'a option \<Rightarrow> ('s, 'b option) state" where
  "traverse_opt f None = ret None"
| "traverse_opt f (Some x) = do { y \<leftarrow> f x; ret (Some y) }"

lemma traverse_cong [fundef_cong]:
  "xs = ys \<Longrightarrow> (\<And>x. x \<in> set ys \<Longrightarrow> f x = g x) \<Longrightarrow> traverse f xs = traverse g ys"
proof (induction ys arbitrary: xs)
  case (Cons a ys)
  then show ?case by (auto intro: arg_cong2)
qed simp

lemma traverse_opt_cong [fundef_cong]:
  "xs = ys \<Longrightarrow> (\<And>x. x \<in> set_option ys \<Longrightarrow> f x = g x) \<Longrightarrow> traverse_opt f xs = traverse_opt g ys"
  by (cases ys) auto

text \<open>The traversal of a list of struct literal fields, which rewrites the value of each field.\<close>

definition traverse_fields ::
  "('e \<Rightarrow> ('s, 'f) state) \<Rightarrow> ('n \<times> 'e \<times> 'p) list \<Rightarrow> ('s, ('n \<times> 'f \<times> 'p) list) state" where
  "traverse_fields g fs = traverse (\<lambda>(n, e, p). do { e' \<leftarrow> g e; ret (n, e', p) }) fs"

lemma traverse_fields_cong [fundef_cong]:
  "fs = gs \<Longrightarrow> (\<And>n e p. (n, e, p) \<in> set gs \<Longrightarrow> f e = g e) \<Longrightarrow>
   traverse_fields f fs = traverse_fields g gs"
  unfolding traverse_fields_def by (rule traverse_cong) auto

definition opt_list :: "('a \<Rightarrow> 'b list) \<Rightarrow> 'a option \<Rightarrow> 'b list" where
  "opt_list f x = (case x of None \<Rightarrow> [] | Some y \<Rightarrow> f y)"

lemma opt_list_simps [simp]: "opt_list f None = []" "opt_list f (Some x) = f x"
  by (simp_all add: opt_list_def)

lemma opt_list_empty [simp]: "opt_list (\<lambda>_. []) x = []"
  by (cases x) simp_all

lemma concat_map_empty [simp]: "concat (map (\<lambda>_. []) xs) = []"
  by (induction xs) simp_all

lemma opt_list_cong [fundef_cong]:
  "x = y \<Longrightarrow> (\<And>a. a \<in> set_option y \<Longrightarrow> f a = g a) \<Longrightarrow> opt_list f x = opt_list g y"
  by (cases y) auto

text \<open>The values of struct literal fields, visited by \<open>f\<close>.\<close>

definition concat_fields :: "('e \<Rightarrow> 'b list) \<Rightarrow> ('n \<times> 'e \<times> 'p) list \<Rightarrow> 'b list" where
  "concat_fields f fs = concat (map (\<lambda>(_, e, _). f e) fs)"

lemma concat_fields_simps [simp]:
  "concat_fields f [] = []"
  "concat_fields f ((n, e, p) # fs) = f e @ concat_fields f fs"
  by (simp_all add: concat_fields_def)

lemma concat_fields_cong [fundef_cong]:
  "fs = gs \<Longrightarrow> (\<And>n e p. (n, e, p) \<in> set gs \<Longrightarrow> f e = g e) \<Longrightarrow>
   concat_fields f fs = concat_fields g gs"
  unfolding concat_fields_def by (intro arg_cong [where f = concat] map_cong) auto

lemma set_concat_fields: "set (concat_fields f fs) = (\<Union>(n, e, p) \<in> set fs. set (f e))"
  by (induction fs) auto

lemma run_state_bindE:
  assumes "run_state (State_Monad.bind m f) s = (y, s')"
  obtains x s1 where "run_state m s = (x, s1)" "run_state (f x) s1 = (y, s')"
  using assms by (auto split: prod.splits)

text \<open>A computation that leaves a component of the state alone.\<close>

definition keeps :: "('s \<Rightarrow> 'c) \<Rightarrow> ('s, 'a) state \<Rightarrow> bool" where
  "keeps f m \<longleftrightarrow> (\<forall>s. f (snd (run_state m s)) = f s)"

lemma keeps_return [alloc_rules]: "keeps f (ret x)"
  by (simp add: keeps_def)

lemma keeps_bind [alloc_rules]:
  "keeps f m \<Longrightarrow> (\<And>x. keeps f (k x)) \<Longrightarrow> keeps f (State_Monad.bind m k)"
  by (auto simp: keeps_def split: prod.splits) (metis snd_conv)

section \<open>Fresh ids\<close>

text \<open>
  \<open>allocates c pre ids m\<close>: running \<open>m\<close> never lowers the counter \<open>c\<close>, and the ids carried by
  its result are the already known \<open>pre\<close> followed by exactly the ids the counter passed, in
  order. With one rule per monad operation, a proof that lowering hands out fresh and pairwise
  distinct ids is a syntax-directed application of these rules.
\<close>

definition allocates :: "('s \<Rightarrow> nat) \<Rightarrow> nat list \<Rightarrow> ('a \<Rightarrow> nat list) \<Rightarrow> ('s, 'a) state \<Rightarrow> bool" where
  "allocates c pre ids m \<longleftrightarrow>
     (\<forall>s a s'. run_state m s = (a, s') \<longrightarrow> c s \<le> c s' \<and> ids a = pre @ [c s ..< c s'])"

lemma allocatesD:
  "allocates c pre ids m \<Longrightarrow> run_state m s = (a, s') \<Longrightarrow> c s \<le> c s' \<and> ids a = pre @ [c s ..< c s']"
  unfolding allocates_def by blast

lemma allocates_return [alloc_rules]: "ids a = pre \<Longrightarrow> allocates c pre ids (ret a)"
  by (simp add: allocates_def)

lemma upt_join: "i \<le> j \<Longrightarrow> j \<le> k \<Longrightarrow> [i..<j] @ [j..<k] = [i..<k]"
  by (metis le_Suc_ex upt_add_eq_append)

lemma allocates_bind [alloc_rules]:
  assumes "allocates c [] f m" and "\<And>x. allocates c (pre @ f x) ids (k x)"
  shows "allocates c pre ids (State_Monad.bind m k)"
  unfolding allocates_def
proof (intro allI impI)
  fix s a s'
  assume "run_state (State_Monad.bind m k) s = (a, s')"
  then obtain x s1 where m: "run_state m s = (x, s1)" and k: "run_state (k x) s1 = (a, s')"
    by (rule run_state_bindE)
  have 1: "c s \<le> c s1" "f x = [c s..<c s1]"
    using allocatesD [OF assms(1) m] by auto
  have 2: "c s1 \<le> c s'" "ids a = (pre @ f x) @ [c s1..<c s']"
    using allocatesD [OF assms(2) k] by auto
  show "c s \<le> c s' \<and> ids a = pre @ [c s..<c s']"
    using 1 2 upt_join [of "c s" "c s1" "c s'"] by (metis append_assoc le_trans)
qed

lemma allocates_traverse [alloc_rules]:
  "(\<And>x. x \<in> set xs \<Longrightarrow> allocates c [] f (g x)) \<Longrightarrow>
   allocates c [] (\<lambda>ys. concat (map f ys)) (traverse g xs)"
proof (induction xs)
  case Nil
  then show ?case by (auto intro: alloc_rules)
next
  case (Cons x xs)
  show ?case
    unfolding traverse_list.simps
    by (rule allocates_bind [where f = f], use Cons in simp,
        rule allocates_bind [where f = "\<lambda>ys. concat (map f ys)"], use Cons in simp,
        rule allocates_return, simp)
qed

lemma allocates_traverse_opt [alloc_rules]:
  "(\<And>x. x \<in> set_option xs \<Longrightarrow> allocates c [] f (g x)) \<Longrightarrow>
   allocates c [] (opt_list f) (traverse_opt g xs)"
proof (cases xs)
  case None
  then show ?thesis by (auto intro: alloc_rules)
next
  case (Some x)
  assume "\<And>x. x \<in> set_option xs \<Longrightarrow> allocates c [] f (g x)"
  with Some have "allocates c [] f (g x)" by simp
  then show ?thesis
    unfolding Some traverse_opt.simps
    by (rule allocates_bind) (rule allocates_return, simp)
qed

lemma allocates_traverse_fields [alloc_rules]:
  assumes "\<And>n e p. (n, e, p) \<in> set fs \<Longrightarrow> allocates c [] f (g e)"
  shows "allocates c [] (concat_fields f) (traverse_fields g fs)"
  unfolding traverse_fields_def concat_fields_def
proof (rule allocates_traverse)
  fix x assume "x \<in> set fs"
  then have "allocates c [] f (g (fst (snd x)))"
    using assms by (metis prod.collapse)
  then show "allocates c [] (\<lambda>(_, e, _). f e)
     (case x of (n, e, p) \<Rightarrow> g e \<bind> (\<lambda>e'. ret (n, e', p)))"
    by (cases x) (auto intro!: allocates_bind [where f = f] allocates_return)
qed

lemma keeps_allocates: "keeps c m \<Longrightarrow> allocates c [] (\<lambda>_. []) m"
  unfolding allocates_def
proof (intro allI impI)
  fix s a s'
  assume "keeps c m" "run_state m s = (a, s')"
  then have "c s' = c s" unfolding keeps_def by (metis snd_conv)
  then show "c s \<le> c s' \<and> [] = [] @ [c s..<c s']" by simp
qed

text \<open>The interface of an id counter: \<open>next_id\<close> returns the counter and steps it by one.\<close>

locale id_source =
  fixes next_id :: "('s, nat) state" and counter :: "'s \<Rightarrow> nat"
  assumes next_id_value: "fst (run_state next_id s) = counter s"
    and next_id_step: "counter (snd (run_state next_id s)) = Suc (counter s)"
begin

lemma next_allocates: "allocates counter [] (\<lambda>i. [i]) next_id"
  unfolding allocates_def
proof (intro allI impI)
  fix s a s'
  assume "run_state next_id s = (a, s')"
  then have "a = counter s" "counter s' = Suc (counter s)"
    using next_id_value [of s] next_id_step [of s] by auto
  then show "counter s \<le> counter s' \<and> [a] = [] @ [counter s..<counter s']"
    by simp
qed

lemma next_many_distinct:
  assumes "run_state (traverse (\<lambda>_. next_id) xs) s = (ids, s')"
  shows "distinct ids \<and> (\<forall>i \<in> set ids. counter s \<le> i \<and> i < counter s')"
proof -
  have "allocates counter [] (\<lambda>ys. concat (map (\<lambda>i. [i]) ys)) (traverse (\<lambda>_. next_id) xs)"
    by (rule allocates_traverse) (rule next_allocates)
  from allocatesD [OF this assms] have "ids = [counter s..<counter s']" by simp
  then show ?thesis by simp
qed

end

end
