(* ===== verification/Ast.thy ===== *)
theory Ast
  imports Prelude
begin

text \<open>
  The surface syntax tree: \<open>src/span.rs\<close> and \<open>src/ast.rs\<close>. Structs are records, enums
  datatypes with one constructor per variant; the mutually recursive structs \<open>Expr\<close>, \<open>Block\<close>,
  \<open>MatchArm\<close>, \<open>Pattern\<close> are one-constructor datatypes, because HOL records do not recurse. The
  constructors of the surface tree start with \<open>A\<close>, those of the IR (theory \<open>Ir\<close>) with \<open>I\<close>.
\<close>

section \<open>Spans\<close>

record span =
  span_start :: nat
  span_end :: nat

definition span_new :: "nat \<Rightarrow> nat \<Rightarrow> span" where
  "span_new s e = \<lparr>span_start = s, span_end = e\<rparr>"

definition span_join :: "span \<Rightarrow> span \<Rightarrow> span" where
  "span_join a b =
     \<lparr>span_start = min (span_start a) (span_start b), span_end = max (span_end a) (span_end b)\<rparr>"

lemma span_join_assoc: "span_join (span_join a b) c = span_join a (span_join b c)"
  by (simp add: span_join_def min.assoc max.assoc)

lemma span_join_comm: "span_join a b = span_join b a"
  by (simp add: span_join_def min.commute max.commute)

lemma span_join_idem: "span_join a a = a"
  by (simp add: span_join_def)

section \<open>Internal names\<close>

definition INTERNAL_TYPE_ALIAS_PREFIX :: string where
  "INTERNAL_TYPE_ALIAS_PREFIX = ''__aic_type_alias__''"

definition INTERNAL_CONST_PREFIX :: string where
  "INTERNAL_CONST_PREFIX = ''__aic_const__''"

definition encode_internal_type_alias :: "string \<Rightarrow> string" where
  "encode_internal_type_alias name = INTERNAL_TYPE_ALIAS_PREFIX @ name"

definition decode_internal_type_alias :: "string \<Rightarrow> string option" where
  "decode_internal_type_alias name = strip_prefix INTERNAL_TYPE_ALIAS_PREFIX name"

definition encode_internal_const :: "string \<Rightarrow> string" where
  "encode_internal_const name = INTERNAL_CONST_PREFIX @ name"

definition decode_internal_const :: "string \<Rightarrow> string option" where
  "decode_internal_const name = strip_prefix INTERNAL_CONST_PREFIX name"

definition canonical_primitive_type_name :: "string \<Rightarrow> string" where
  "canonical_primitive_type_name name =
     (if name = ''UInt'' then ''USize'' else if name = ''Float'' then ''Float64'' else name)"

lemma canonical_primitive_type_name_idem:
  "canonical_primitive_type_name (canonical_primitive_type_name n) = canonical_primitive_type_name n"
  by (simp add: canonical_primitive_type_name_def)

lemma decode_encode_alias:
  "decode_internal_type_alias n = Some m \<longleftrightarrow> n = encode_internal_type_alias m"
  by (simp add: decode_internal_type_alias_def encode_internal_type_alias_def strip_prefix_Some)

lemma decode_encode_const:
  "decode_internal_const n = Some m \<longleftrightarrow> n = encode_internal_const m"
  by (simp add: decode_internal_const_def encode_internal_const_def strip_prefix_Some)

lemma alias_not_const: "encode_internal_type_alias n \<noteq> encode_internal_const m"
  by (simp add: encode_internal_type_alias_def encode_internal_const_def
      INTERNAL_TYPE_ALIAS_PREFIX_def INTERNAL_CONST_PREFIX_def)

section \<open>Literal metadata\<close>

datatype visibility = Private | Public | Crate

datatype int_literal_signedness = Signed | Unsigned

datatype int_literal_width = W8 | W16 | W32 | W64 | W128

datatype int_literal_suffix = I8 | I16 | I32 | I64 | U8 | U16 | U32 | U64

record int_literal_kind =
  ilk_signedness :: int_literal_signedness
  ilk_width :: int_literal_width

fun int_suffix_as_str :: "int_literal_suffix \<Rightarrow> string" where
  "int_suffix_as_str I8 = ''i8''"
| "int_suffix_as_str I16 = ''i16''"
| "int_suffix_as_str I32 = ''i32''"
| "int_suffix_as_str I64 = ''i64''"
| "int_suffix_as_str U8 = ''u8''"
| "int_suffix_as_str U16 = ''u16''"
| "int_suffix_as_str U32 = ''u32''"
| "int_suffix_as_str U64 = ''u64''"

fun int_suffix_kind :: "int_literal_suffix \<Rightarrow> int_literal_kind" where
  "int_suffix_kind I8 = \<lparr>ilk_signedness = Signed, ilk_width = W8\<rparr>"
| "int_suffix_kind I16 = \<lparr>ilk_signedness = Signed, ilk_width = W16\<rparr>"
| "int_suffix_kind I32 = \<lparr>ilk_signedness = Signed, ilk_width = W32\<rparr>"
| "int_suffix_kind I64 = \<lparr>ilk_signedness = Signed, ilk_width = W64\<rparr>"
| "int_suffix_kind U8 = \<lparr>ilk_signedness = Unsigned, ilk_width = W8\<rparr>"
| "int_suffix_kind U16 = \<lparr>ilk_signedness = Unsigned, ilk_width = W16\<rparr>"
| "int_suffix_kind U32 = \<lparr>ilk_signedness = Unsigned, ilk_width = W32\<rparr>"
| "int_suffix_kind U64 = \<lparr>ilk_signedness = Unsigned, ilk_width = W64\<rparr>"

record int_literal_metadata =
  ilm_suffix :: int_literal_suffix
  ilm_suffix_text :: string
  ilm_kind :: int_literal_kind
  ilm_raw_value_span :: span
  ilm_raw_literal_text :: string

definition int_metadata_new :: "int_literal_suffix \<Rightarrow> span \<Rightarrow> string \<Rightarrow> int_literal_metadata" where
  "int_metadata_new suffix raw_value_span raw_literal_text =
     \<lparr>ilm_suffix = suffix, ilm_suffix_text = int_suffix_as_str suffix,
      ilm_kind = int_suffix_kind suffix, ilm_raw_value_span = raw_value_span,
      ilm_raw_literal_text = raw_literal_text\<rparr>"

definition int_metadata_with_kind_and_suffix_text ::
  "int_literal_suffix \<Rightarrow> int_literal_kind \<Rightarrow> string \<Rightarrow> span \<Rightarrow> string \<Rightarrow> int_literal_metadata" where
  "int_metadata_with_kind_and_suffix_text suffix kind suffix_text raw_value_span raw_literal_text =
     \<lparr>ilm_suffix = suffix, ilm_suffix_text = suffix_text, ilm_kind = kind,
      ilm_raw_value_span = raw_value_span, ilm_raw_literal_text = raw_literal_text\<rparr>"

datatype float_literal_width = FW32 | FW64

datatype float_literal_suffix = F32 | F64

record float_literal_kind =
  flk_width :: float_literal_width

fun float_suffix_as_str :: "float_literal_suffix \<Rightarrow> string" where
  "float_suffix_as_str F32 = ''f32''"
| "float_suffix_as_str F64 = ''f64''"

fun float_suffix_kind :: "float_literal_suffix \<Rightarrow> float_literal_kind" where
  "float_suffix_kind F32 = \<lparr>flk_width = FW32\<rparr>"
| "float_suffix_kind F64 = \<lparr>flk_width = FW64\<rparr>"

record float_literal_metadata =
  flm_suffix :: float_literal_suffix
  flm_suffix_text :: string
  flm_kind :: float_literal_kind
  flm_raw_value_span :: span
  flm_raw_literal_text :: string

definition float_metadata_new ::
  "float_literal_suffix \<Rightarrow> span \<Rightarrow> string \<Rightarrow> float_literal_metadata" where
  "float_metadata_new suffix raw_value_span raw_literal_text =
     \<lparr>flm_suffix = suffix, flm_suffix_text = float_suffix_as_str suffix,
      flm_kind = float_suffix_kind suffix, flm_raw_value_span = raw_value_span,
      flm_raw_literal_text = raw_literal_text\<rparr>"

definition float_metadata_with_kind_and_suffix_text ::
  "float_literal_suffix \<Rightarrow> float_literal_kind \<Rightarrow> string \<Rightarrow> span \<Rightarrow> string \<Rightarrow>
   float_literal_metadata" where
  "float_metadata_with_kind_and_suffix_text suffix kind suffix_text raw_value_span raw_literal_text =
     \<lparr>flm_suffix = suffix, flm_suffix_text = suffix_text, flm_kind = kind,
      flm_raw_value_span = raw_value_span, flm_raw_literal_text = raw_literal_text\<rparr>"

lemma int_suffix_as_str_inj: "int_suffix_as_str a = int_suffix_as_str b \<Longrightarrow> a = b"
  by (cases a; cases b) simp_all

lemma int_suffix_kind_inj: "int_suffix_kind a = int_suffix_kind b \<Longrightarrow> a = b"
  by (cases a; cases b) simp_all

section \<open>Attributes and types\<close>

datatype bool_literal = BoolTrue | BoolFalse

datatype attribute_value_kind =
    AttrString string
  | AttrInt i64
  | AttrBool bool_literal
  | AttrIdent string

record attribute_value =
  av_kind :: attribute_value_kind
  av_span :: span

datatype attribute_arg =
    Positional attribute_value
  | Named string attribute_value span

record attribute =
  attr_name :: string
  attr_args :: "attribute_arg list"
  attr_span :: span

datatype type_expr = TypeExpr (ty_kind: type_kind) (ty_span: span)
  and type_kind =
    TUnit
  | TNamed string "type_expr list"
  | TDynTrait string
  | THole

section \<open>Operators\<close>

datatype bin_op =
    Add | Sub | Mul | Div | Mod
  | BitAnd | BitOr | BitXor | Shl | Shr | Ushr
  | Eq | Ne | Lt | Le | Gt | Ge
  | And | Or

datatype unary_op = Neg | Not | BitNot

section \<open>Patterns\<close>

datatype pattern = Pattern (pat_kind: pattern_kind) (pat_span: span)
  and pattern_kind =
    APWildcard
  | APVar string
  | APInt i64 "int_literal_metadata option"
  | APBool bool
  | APChar rchar
  | APString string
  | APUnit
  | APOr "pattern list"
  | APVariant string "pattern list"
  | APStruct string "struct_pattern_field list" bool
  and struct_pattern_field = StructPatternField string pattern

section \<open>Expressions, statements, blocks\<close>

record closure_param =
  cp_name :: string
  cp_ty :: "type_expr option"
  cp_span :: span

datatype expr = Expr (e_kind: expr_kind) (e_span: span)
  and expr_kind =
    AInt i64 "int_literal_metadata option"
  | AFloat f64 "float_literal_metadata option"
  | ABool bool
  | AChar rchar
  | AString string
  | ATemplateLiteral string "expr list"
  | AUnit
  | AVar string
  | ACall expr "expr list" "string option list"
  | AClosure "closure_param list" type_expr block
  | AIf expr block block
  | AWhile expr block
  | ALoop block
  | ABreak "expr option"
  | AContinue
  | AReturn "expr option"
  | AMatch expr "match_arm list"
  | ABinary bin_op expr expr
  | AUnary unary_op expr
  | ABorrow bool expr
  | AAwait expr
  | ATry expr
  | AUnsafeBlock block
  | AStructInit string "(string \<times> expr \<times> span) list"
  | AFieldAccess expr string
  and block = Block (b_stmts: "stmt list") (b_tail: "expr option") (b_span: span)
  and stmt =
    ALet string bool "type_expr option" expr span
  | AAssign string expr span
  | AExprStmt expr span
  | AReturnStmt "expr option" span
  | AAssert expr string span
  and match_arm = MatchArm pattern "expr option" expr span

fun stmt_span :: "stmt \<Rightarrow> span" where
  "stmt_span (ALet _ _ _ _ sp) = sp"
| "stmt_span (AAssign _ _ sp) = sp"
| "stmt_span (AExprStmt _ sp) = sp"
| "stmt_span (AReturnStmt _ sp) = sp"
| "stmt_span (AAssert _ _ sp) = sp"

definition expr_var :: "string \<Rightarrow> span \<Rightarrow> expr" where
  "expr_var name sp = Expr (AVar name) sp"

definition expr_bool :: "bool \<Rightarrow> span \<Rightarrow> expr" where
  "expr_bool value sp = Expr (ABool value) sp"

fun expr_int_literal_metadata :: "expr \<Rightarrow> int_literal_metadata option" where
  "expr_int_literal_metadata (Expr (AInt _ meta) _) = meta"
| "expr_int_literal_metadata _ = None"

fun expr_float_literal_metadata :: "expr \<Rightarrow> float_literal_metadata option" where
  "expr_float_literal_metadata (Expr (AFloat _ meta) _) = meta"
| "expr_float_literal_metadata _ = None"

fun pattern_int_literal_metadata :: "pattern \<Rightarrow> int_literal_metadata option" where
  "pattern_int_literal_metadata (Pattern (APInt _ meta) _) = meta"
| "pattern_int_literal_metadata _ = None"

section \<open>Items and programs\<close>

record generic_param =
  gp_name :: string
  gp_bounds :: "string list"
  gp_span :: span

record param =
  p_name :: string
  p_attrs :: "attribute list"
  p_ty :: type_expr
  p_span :: span

record fn_decl =
  fn_name :: string
  fn_visibility :: visibility
  fn_attrs :: "attribute list"
  fn_is_async :: bool
  fn_is_unsafe :: bool
  fn_is_extern :: bool
  fn_extern_abi :: "string option"
  fn_is_intrinsic :: bool
  fn_intrinsic_abi :: "string option"
  fn_generics :: "generic_param list"
  fn_params :: "param list"
  fn_ret_type :: type_expr
  fn_effects :: "string list"
  fn_capabilities :: "string list"
  fn_requires :: "expr option"
  fn_ensures :: "expr option"
  fn_body :: block
  fn_span :: span

record field_decl =
  fd_name :: string
  fd_visibility :: visibility
  fd_attrs :: "attribute list"
  fd_ty :: type_expr
  fd_default_value :: "expr option"
  fd_span :: span

record struct_def =
  sd_name :: string
  sd_visibility :: visibility
  sd_attrs :: "attribute list"
  sd_generics :: "generic_param list"
  sd_fields :: "field_decl list"
  sd_invariant :: "expr option"
  sd_span :: span

record variant_def =
  vd_name :: string
  vd_attrs :: "attribute list"
  vd_payload :: "type_expr option"
  vd_span :: span

record enum_def =
  ed_name :: string
  ed_visibility :: visibility
  ed_attrs :: "attribute list"
  ed_generics :: "generic_param list"
  ed_variants :: "variant_def list"
  ed_span :: span

record trait_def =
  td_name :: string
  td_visibility :: visibility
  td_attrs :: "attribute list"
  td_generics :: "generic_param list"
  td_methods :: "fn_decl list"
  td_span :: span

record impl_def =
  id_trait_name :: string
  id_visibility :: visibility
  id_attrs :: "attribute list"
  id_trait_args :: "type_expr list"
  id_target :: "type_expr option"
  id_methods :: "fn_decl list"
  id_is_inherent :: bool
  id_span :: span

datatype item =
    AFunction fn_decl
  | AStruct struct_def
  | AEnum enum_def
  | ATrait trait_def
  | AImpl impl_def

fun item_name :: "item \<Rightarrow> string" where
  "item_name (AFunction f) = fn_name f"
| "item_name (AStruct s) = sd_name s"
| "item_name (AEnum e) = ed_name e"
| "item_name (ATrait t) = td_name t"
| "item_name (AImpl i) = id_trait_name i"

fun item_span :: "item \<Rightarrow> span" where
  "item_span (AFunction f) = fn_span f"
| "item_span (AStruct s) = sd_span s"
| "item_span (AEnum e) = ed_span e"
| "item_span (ATrait t) = td_span t"
| "item_span (AImpl i) = id_span i"

record module_decl =
  md_path :: "string list"
  md_span :: span

record import_decl =
  imp_path :: "string list"
  imp_span :: span

record ast_program =
  ap_module :: "module_decl option"
  ap_imports :: "import_decl list"
  ap_items :: "item list"
  ap_span :: span

end
