(* ===== verification/Ir.thy ===== *)
theory Ir
  imports Ast
begin

text \<open>
  The intermediate representation: \<open>src/ir.rs\<close>. Every block, expression and pattern carries a
  \<open>NodeId\<close>, every declaration a \<open>SymbolId\<close>, and types are \<open>TypeId\<close>s into the program's type
  table. The id newtypes over \<open>u32\<close> are natural numbers: they are counters that start at 1, and
  a program with \<open>2 ^ 32\<close> nodes does not fit the compiler's memory.

  \<open>expr_nodes\<close> and its companions list the node ids of a tree; the list is in allocation order,
  so a tree built by a counter has an interval of ids.
\<close>

type_synonym symbol_id = nat
type_synonym type_id = nat
type_synonym node_id = nat

definition CURRENT_IR_SCHEMA_VERSION :: nat where
  "CURRENT_IR_SCHEMA_VERSION = 1"

datatype symbol_kind =
    SkFunction | SkStruct | SkEnum | SkTrait | SkImpl
  | SkVariant | SkField | SkParameter | SkLocal

record symbol =
  sym_id :: symbol_id
  sym_name :: string
  sym_kind :: symbol_kind
  sym_span :: span

record type_def =
  tdef_id :: type_id
  tdef_repr :: string

datatype generic_instantiation_kind = GikFunction | GikStruct | GikEnum

record generic_instantiation =
  gi_id :: nat
  gi_kind :: generic_instantiation_kind
  gi_name :: string
  gi_symbol :: "symbol_id option"
  gi_type_args :: "string list"
  gi_mangled :: string

section \<open>Patterns, expressions, blocks\<close>

datatype ir_pattern = IPattern (ipat_node: node_id) (ipat_kind: ir_pattern_kind) (ipat_span: span)
  and ir_pattern_kind =
    IPWildcard
  | IPVar string
  | IPInt i64 "int_literal_metadata option"
  | IPBool bool
  | IPChar rchar
  | IPString string
  | IPUnit
  | IPOr "ir_pattern list"
  | IPVariant string "ir_pattern list"
  | IPStruct string "ir_struct_pattern_field list" bool
  and ir_struct_pattern_field = IStructPatternField string ir_pattern

record ir_closure_param =
  icp_name :: string
  icp_ty :: "type_id option"
  icp_span :: span

datatype ir_expr = IExpr (ie_node: node_id) (ie_kind: ir_expr_kind) (ie_span: span)
  and ir_expr_kind =
    IInt i64 "int_literal_metadata option"
  | IFloat f64 "float_literal_metadata option"
  | IBool bool
  | IChar rchar
  | IString string
  | ITemplateLiteral string "ir_expr list"
  | IUnit
  | IVar string
  | ICall ir_expr "ir_expr list" "string option list" "symbol_id option"
  | IClosure "ir_closure_param list" type_id ir_block
  | IIf ir_expr ir_block ir_block
  | IWhile ir_expr ir_block
  | ILoop ir_block
  | IBreak "ir_expr option"
  | IContinue
  | IReturn "ir_expr option"
  | IMatch ir_expr "ir_match_arm list"
  | IBinary bin_op ir_expr ir_expr
  | IUnary unary_op ir_expr
  | IBorrow bool ir_expr
  | IAwait ir_expr
  | ITry ir_expr
  | IUnsafeBlock ir_block
  | IStructInit string "(string \<times> ir_expr \<times> span) list"
  | IFieldAccess ir_expr string
  and ir_block =
    IBlock (ib_node: node_id) (ib_stmts: "ir_stmt list") (ib_tail: "ir_expr option") (ib_span: span)
  and ir_stmt =
    ILet symbol_id string bool "type_id option" ir_expr span
  | IAssign string ir_expr span
  | IExprStmt ir_expr span
  | IReturnStmt "ir_expr option" span
  | IAssert ir_expr string span
  and ir_match_arm = IMatchArm ir_pattern "ir_expr option" ir_expr span

fun ir_expr_int_literal_metadata :: "ir_expr \<Rightarrow> int_literal_metadata option" where
  "ir_expr_int_literal_metadata (IExpr _ (IInt _ meta) _) = meta"
| "ir_expr_int_literal_metadata _ = None"

fun ir_expr_float_literal_metadata :: "ir_expr \<Rightarrow> float_literal_metadata option" where
  "ir_expr_float_literal_metadata (IExpr _ (IFloat _ meta) _) = meta"
| "ir_expr_float_literal_metadata _ = None"

fun ir_pattern_int_literal_metadata :: "ir_pattern \<Rightarrow> int_literal_metadata option" where
  "ir_pattern_int_literal_metadata (IPattern _ (IPInt _ meta) _) = meta"
| "ir_pattern_int_literal_metadata _ = None"

fun lexical_drop_order :: "ir_block \<Rightarrow> symbol_id list" where
  "lexical_drop_order (IBlock _ stmts _ _) =
     List.map_filter (\<lambda>s. case s of ILet s_id _ _ _ _ _ \<Rightarrow> Some s_id | _ \<Rightarrow> None) stmts"

section \<open>Items and programs\<close>

record ir_generic_param =
  igp_name :: string
  igp_bounds :: "string list"

record ir_param =
  ip_symbol :: symbol_id
  ip_name :: string
  ip_attrs :: "attribute list"
  ip_ty :: type_id
  ip_span :: span

record ir_function =
  if_symbol :: symbol_id
  if_name :: string
  if_visibility :: visibility
  if_attrs :: "attribute list"
  if_is_async :: bool
  if_is_unsafe :: bool
  if_is_extern :: bool
  if_extern_abi :: "string option"
  if_is_intrinsic :: bool
  if_intrinsic_abi :: "string option"
  if_generics :: "ir_generic_param list"
  if_params :: "ir_param list"
  if_ret_type :: type_id
  if_effects :: "string list"
  if_capabilities :: "string list"
  if_requires :: "ir_expr option"
  if_ensures :: "ir_expr option"
  if_body :: ir_block
  if_span :: span

record ir_field =
  ifd_symbol :: symbol_id
  ifd_name :: string
  ifd_visibility :: visibility
  ifd_attrs :: "attribute list"
  ifd_ty :: type_id
  ifd_default_value :: "ir_expr option"
  ifd_span :: span

record ir_struct_def =
  isd_symbol :: symbol_id
  isd_name :: string
  isd_visibility :: visibility
  isd_attrs :: "attribute list"
  isd_generics :: "ir_generic_param list"
  isd_fields :: "ir_field list"
  isd_invariant :: "ir_expr option"
  isd_span :: span

record ir_variant_def =
  ivd_symbol :: symbol_id
  ivd_name :: string
  ivd_attrs :: "attribute list"
  ivd_payload :: "type_id option"
  ivd_span :: span

record ir_enum_def =
  ied_symbol :: symbol_id
  ied_name :: string
  ied_visibility :: visibility
  ied_attrs :: "attribute list"
  ied_generics :: "ir_generic_param list"
  ied_variants :: "ir_variant_def list"
  ied_span :: span

record ir_trait_def =
  itd_symbol :: symbol_id
  itd_name :: string
  itd_visibility :: visibility
  itd_attrs :: "attribute list"
  itd_generics :: "ir_generic_param list"
  itd_methods :: "ir_function list"
  itd_span :: span

record ir_impl_def =
  iid_symbol :: symbol_id
  iid_trait_name :: string
  iid_visibility :: visibility
  iid_attrs :: "attribute list"
  iid_trait_args :: "type_id list"
  iid_target :: "type_id option"
  iid_methods :: "ir_function list"
  iid_is_inherent :: bool
  iid_span :: span

datatype ir_item =
    IFunction ir_function
  | IStruct ir_struct_def
  | IEnum ir_enum_def
  | ITrait ir_trait_def
  | IImpl ir_impl_def

record ir_program =
  irp_schema_version :: nat
  irp_module :: "string list option"
  irp_imports :: "string list list"
  irp_items :: "ir_item list"
  irp_symbols :: "symbol list"
  irp_types :: "type_def list"
  irp_generic_instantiations :: "generic_instantiation list"
  irp_span :: span
  irp_expr_type_hints :: "(node_id, string) btree_map"

section \<open>Node ids of a tree\<close>

text \<open>
  Ids are listed in the order in which lowering and cloning hand them out: a block's id before
  those of its statements, an expression's or pattern's id after those of its children.
\<close>

fun pattern_nodes :: "ir_pattern \<Rightarrow> nat list"
  and pattern_kind_nodes :: "ir_pattern_kind \<Rightarrow> nat list"
  and spf_nodes :: "ir_struct_pattern_field \<Rightarrow> nat list" where
  "pattern_nodes (IPattern n k _) = pattern_kind_nodes k @ [n]"
| "pattern_kind_nodes (IPOr ps) = concat (map pattern_nodes ps)"
| "pattern_kind_nodes (IPVariant _ ps) = concat (map pattern_nodes ps)"
| "pattern_kind_nodes (IPStruct _ fs _) = concat (map spf_nodes fs)"
| "pattern_kind_nodes _ = []"
| "spf_nodes (IStructPatternField _ p) = pattern_nodes p"

fun expr_nodes :: "ir_expr \<Rightarrow> nat list"
  and expr_kind_nodes :: "ir_expr_kind \<Rightarrow> nat list"
  and block_nodes :: "ir_block \<Rightarrow> nat list"
  and stmt_nodes :: "ir_stmt \<Rightarrow> nat list"
  and arm_nodes :: "ir_match_arm \<Rightarrow> nat list" where
  "expr_nodes (IExpr n k _) = expr_kind_nodes k @ [n]"
| "expr_kind_nodes (ITemplateLiteral _ args) = concat (map expr_nodes args)"
| "expr_kind_nodes (ICall c args _ _) = expr_nodes c @ concat (map expr_nodes args)"
| "expr_kind_nodes (IClosure _ _ b) = block_nodes b"
| "expr_kind_nodes (IIf c t e) = expr_nodes c @ block_nodes t @ block_nodes e"
| "expr_kind_nodes (IWhile c b) = expr_nodes c @ block_nodes b"
| "expr_kind_nodes (ILoop b) = block_nodes b"
| "expr_kind_nodes (IBreak e) = opt_list expr_nodes e"
| "expr_kind_nodes (IReturn e) = opt_list expr_nodes e"
| "expr_kind_nodes (IMatch e arms) = expr_nodes e @ concat (map arm_nodes arms)"
| "expr_kind_nodes (IBinary _ l r) = expr_nodes l @ expr_nodes r"
| "expr_kind_nodes (IUnary _ e) = expr_nodes e"
| "expr_kind_nodes (IBorrow _ e) = expr_nodes e"
| "expr_kind_nodes (IAwait e) = expr_nodes e"
| "expr_kind_nodes (ITry e) = expr_nodes e"
| "expr_kind_nodes (IUnsafeBlock b) = block_nodes b"
| "expr_kind_nodes (IStructInit _ fs) = concat_fields expr_nodes fs"
| "expr_kind_nodes (IFieldAccess e _) = expr_nodes e"
| "expr_kind_nodes _ = []"
| "block_nodes (IBlock n ss t _) = n # concat (map stmt_nodes ss) @ opt_list expr_nodes t"
| "stmt_nodes (ILet _ _ _ _ e _) = expr_nodes e"
| "stmt_nodes (IAssign _ e _) = expr_nodes e"
| "stmt_nodes (IExprStmt e _) = expr_nodes e"
| "stmt_nodes (IReturnStmt e _) = opt_list expr_nodes e"
| "stmt_nodes (IAssert e _ _) = expr_nodes e"
| "arm_nodes (IMatchArm p g b _) = pattern_nodes p @ opt_list expr_nodes g @ expr_nodes b"

end
