(* ===== verification/IrBuilder.thy ===== *)
theory IrBuilder
  imports Ir "HOL-Library.Sublist"
begin

text \<open>
  Lowering of the syntax tree to IR: \<open>src/ir_builder.rs\<close>. The \<open>Builder\<close> is the state of a state
  monad; every \<open>&mut self\<close> method is a computation in it, in the code's evaluation order (struct
  fields are evaluated as written, so an expression's node id is taken after its children's, a
  block's before).
\<close>

section \<open>The builder and its counters\<close>

record builder =
  bld_next_symbol :: nat
  bld_next_node :: nat
  bld_next_type :: nat
  bld_symbols :: "symbol list"
  bld_types :: "type_def list"
  bld_type_map :: "(string, type_id) btree_map"

definition new_builder :: builder where
  "new_builder =
     \<lparr>bld_next_symbol = 1, bld_next_node = 1, bld_next_type = 1,
      bld_symbols = [], bld_types = [], bld_type_map = []\<rparr>"

definition push_symbol :: "string \<Rightarrow> symbol_kind \<Rightarrow> span \<Rightarrow> (builder, symbol_id) state" where
  "push_symbol name kind sp = State (\<lambda>b.
     (bld_next_symbol b,
      b\<lparr>bld_next_symbol := bld_next_symbol b + 1,
        bld_symbols := bld_symbols b @
          [\<lparr>sym_id = bld_next_symbol b, sym_name = name, sym_kind = kind, sym_span = sp\<rparr>]\<rparr>))"

definition next_node_id :: "(builder, node_id) state" where
  "next_node_id = State (\<lambda>b. (bld_next_node b, b\<lparr>bld_next_node := bld_next_node b + 1\<rparr>))"

fun type_repr :: "type_expr \<Rightarrow> string" where
  "type_repr (TypeExpr TUnit _) = ''()''"
| "type_repr (TypeExpr (TNamed name args) _) =
     (if args = [] then name
      else name @ ''['' @ join_with '', '' (map type_repr args) @ '']'')"
| "type_repr (TypeExpr (TDynTrait trait_name) _) = ''dyn '' @ trait_name"
| "type_repr (TypeExpr THole _) = ''<?>''"

fun substitute_self_type :: "type_expr \<Rightarrow> type_expr \<Rightarrow> type_expr" where
  "substitute_self_type (TypeExpr (TNamed name args) sp) target =
     (if name = ''Self'' \<and> args = [] then TypeExpr (ty_kind target) sp
      else TypeExpr (TNamed name (map (\<lambda>arg. substitute_self_type arg target) args)) sp)"
| "substitute_self_type ty target = ty"

definition lower_type :: "type_expr \<Rightarrow> (builder, type_id) state" where
  "lower_type ty = State (\<lambda>b.
     let repr = type_repr ty in
     case bt_get (bld_type_map b) repr of
       Some tid \<Rightarrow> (tid, b)
     | None \<Rightarrow>
         (let tid = bld_next_type b in
          (tid, b\<lparr>bld_next_type := bld_next_type b + 1,
                 bld_type_map := bt_insert repr tid (bld_type_map b),
                 bld_types := bld_types b @ [\<lparr>tdef_id = tid, tdef_repr = repr\<rparr>]\<rparr>)))"

definition lower_generics :: "generic_param list \<Rightarrow> ir_generic_param list" where
  "lower_generics gs = map (\<lambda>g. \<lparr>igp_name = gp_name g, igp_bounds = gp_bounds g\<rparr>) gs"

section \<open>Patterns\<close>

fun lower_pattern :: "pattern \<Rightarrow> (builder, ir_pattern) state"
  and lower_pattern_kind :: "pattern_kind \<Rightarrow> (builder, ir_pattern_kind) state"
  and lower_pattern_field :: "struct_pattern_field \<Rightarrow> (builder, ir_struct_pattern_field) state" where
  "lower_pattern (Pattern k sp) =
     do { k' \<leftarrow> lower_pattern_kind k; n \<leftarrow> next_node_id; ret (IPattern n k' sp) }"
| "lower_pattern_kind APWildcard = ret IPWildcard"
| "lower_pattern_kind (APVar v) = ret (IPVar v)"
| "lower_pattern_kind (APInt v meta) = ret (IPInt v meta)"
| "lower_pattern_kind (APBool v) = ret (IPBool v)"
| "lower_pattern_kind (APChar v) = ret (IPChar v)"
| "lower_pattern_kind (APString v) = ret (IPString v)"
| "lower_pattern_kind APUnit = ret IPUnit"
| "lower_pattern_kind (APOr ps) = do { ps' \<leftarrow> traverse lower_pattern ps; ret (IPOr ps') }"
| "lower_pattern_kind (APVariant name args) =
     do { args' \<leftarrow> traverse lower_pattern args; ret (IPVariant name args') }"
| "lower_pattern_kind (APStruct name flds has_rest) =
     do { flds' \<leftarrow> traverse lower_pattern_field flds; ret (IPStruct name flds' has_rest) }"
| "lower_pattern_field (StructPatternField name p) =
     do { p' \<leftarrow> lower_pattern p; ret (IStructPatternField name p') }"

section \<open>Expressions, statements, blocks\<close>

definition lower_closure_param :: "closure_param \<Rightarrow> (builder, ir_closure_param) state" where
  "lower_closure_param p =
     do { ty \<leftarrow> traverse_opt lower_type (cp_ty p);
          ret \<lparr>icp_name = cp_name p, icp_ty = ty, icp_span = cp_span p\<rparr> }"

fun lower_expr :: "expr \<Rightarrow> (builder, ir_expr) state"
  and lower_expr_kind :: "expr_kind \<Rightarrow> (builder, ir_expr_kind) state"
  and lower_block :: "block \<Rightarrow> (builder, ir_block) state"
  and lower_stmt :: "stmt \<Rightarrow> (builder, ir_stmt) state"
  and lower_match_arm :: "match_arm \<Rightarrow> (builder, ir_match_arm) state" where
  "lower_expr (Expr k sp) =
     do { k' \<leftarrow> lower_expr_kind k; n \<leftarrow> next_node_id; ret (IExpr n k' sp) }"
| "lower_expr_kind (AInt v meta) = ret (IInt v meta)"
| "lower_expr_kind (AFloat v meta) = ret (IFloat v meta)"
| "lower_expr_kind (ABool v) = ret (IBool v)"
| "lower_expr_kind (AChar v) = ret (IChar v)"
| "lower_expr_kind (AString v) = ret (IString v)"
| "lower_expr_kind (ATemplateLiteral template args) =
     do { args' \<leftarrow> traverse lower_expr args; ret (ITemplateLiteral template args') }"
| "lower_expr_kind AUnit = ret IUnit"
| "lower_expr_kind (AVar v) = ret (IVar v)"
| "lower_expr_kind (ACall callee args arg_names) =
     do { callee' \<leftarrow> lower_expr callee; args' \<leftarrow> traverse lower_expr args;
          ret (ICall callee' args' arg_names None) }"
| "lower_expr_kind (AClosure params ret_type body) =
     do { params' \<leftarrow> traverse lower_closure_param params; ret_type' \<leftarrow> lower_type ret_type;
          body' \<leftarrow> lower_block body; ret (IClosure params' ret_type' body') }"
| "lower_expr_kind (AIf c t e) =
     do { c' \<leftarrow> lower_expr c; t' \<leftarrow> lower_block t; e' \<leftarrow> lower_block e; ret (IIf c' t' e') }"
| "lower_expr_kind (AWhile c body) =
     do { c' \<leftarrow> lower_expr c; body' \<leftarrow> lower_block body; ret (IWhile c' body') }"
| "lower_expr_kind (ALoop body) = do { body' \<leftarrow> lower_block body; ret (ILoop body') }"
| "lower_expr_kind (ABreak e) = do { e' \<leftarrow> traverse_opt lower_expr e; ret (IBreak e') }"
| "lower_expr_kind AContinue = ret IContinue"
| "lower_expr_kind (AReturn e) = do { e' \<leftarrow> traverse_opt lower_expr e; ret (IReturn e') }"
| "lower_expr_kind (AMatch e arms) =
     do { e' \<leftarrow> lower_expr e; arms' \<leftarrow> traverse lower_match_arm arms; ret (IMatch e' arms') }"
| "lower_expr_kind (ABinary op lhs rhs) =
     do { lhs' \<leftarrow> lower_expr lhs; rhs' \<leftarrow> lower_expr rhs; ret (IBinary op lhs' rhs') }"
| "lower_expr_kind (AUnary op e) = do { e' \<leftarrow> lower_expr e; ret (IUnary op e') }"
| "lower_expr_kind (ABorrow mut e) = do { e' \<leftarrow> lower_expr e; ret (IBorrow mut e') }"
| "lower_expr_kind (AAwait e) = do { e' \<leftarrow> lower_expr e; ret (IAwait e') }"
| "lower_expr_kind (ATry e) = do { e' \<leftarrow> lower_expr e; ret (ITry e') }"
| "lower_expr_kind (AUnsafeBlock b) = do { b' \<leftarrow> lower_block b; ret (IUnsafeBlock b') }"
| "lower_expr_kind (AStructInit name flds) =
     do { flds' \<leftarrow> traverse_fields lower_expr flds;
          ret (IStructInit name flds') }"
| "lower_expr_kind (AFieldAccess base field) =
     do { base' \<leftarrow> lower_expr base; ret (IFieldAccess base' field) }"
| "lower_block (Block stmts tail sp) =
     do { n \<leftarrow> next_node_id; stmts' \<leftarrow> traverse lower_stmt stmts;
          tail' \<leftarrow> traverse_opt lower_expr tail; ret (IBlock n stmts' tail' sp) }"
| "lower_stmt (ALet name mut ty e sp) =
     do { symb \<leftarrow> push_symbol name SkLocal sp; ty' \<leftarrow> traverse_opt lower_type ty;
          e' \<leftarrow> lower_expr e; ret (ILet symb name mut ty' e' sp) }"
| "lower_stmt (AAssign target e sp) = do { e' \<leftarrow> lower_expr e; ret (IAssign target e' sp) }"
| "lower_stmt (AExprStmt e sp) = do { e' \<leftarrow> lower_expr e; ret (IExprStmt e' sp) }"
| "lower_stmt (AReturnStmt e sp) =
     do { e' \<leftarrow> traverse_opt lower_expr e; ret (IReturnStmt e' sp) }"
| "lower_stmt (AAssert e message sp) = do { e' \<leftarrow> lower_expr e; ret (IAssert e' message sp) }"
| "lower_match_arm (MatchArm p guard body sp) =
     do { p' \<leftarrow> lower_pattern p; guard' \<leftarrow> traverse_opt lower_expr guard;
          body' \<leftarrow> lower_expr body; ret (IMatchArm p' guard' body' sp) }"

section \<open>Items\<close>

definition lower_param :: "param \<Rightarrow> (builder, ir_param) state" where
  "lower_param p =
     do { symb \<leftarrow> push_symbol (p_name p) SkParameter (p_span p);
          ty \<leftarrow> lower_type (p_ty p);
          ret \<lparr>ip_symbol = symb, ip_name = p_name p, ip_attrs = p_attrs p, ip_ty = ty,
               ip_span = p_span p\<rparr> }"

definition lower_function :: "fn_decl \<Rightarrow> (builder, ir_function) state" where
  "lower_function f =
     do { symb \<leftarrow> push_symbol (fn_name f) SkFunction (fn_span f);
          params \<leftarrow> traverse lower_param (fn_params f);
          ret_type \<leftarrow> lower_type (fn_ret_type f);
          requires \<leftarrow> traverse_opt lower_expr (fn_requires f);
          ensures \<leftarrow> traverse_opt lower_expr (fn_ensures f);
          body \<leftarrow> lower_block (fn_body f);
          ret \<lparr>if_symbol = symb, if_name = fn_name f, if_visibility = fn_visibility f,
               if_attrs = fn_attrs f, if_is_async = fn_is_async f, if_is_unsafe = fn_is_unsafe f,
               if_is_extern = fn_is_extern f, if_extern_abi = fn_extern_abi f,
               if_is_intrinsic = fn_is_intrinsic f, if_intrinsic_abi = fn_intrinsic_abi f,
               if_generics = lower_generics (fn_generics f), if_params = params,
               if_ret_type = ret_type, if_effects = fn_effects f,
               if_capabilities = fn_capabilities f, if_requires = requires,
               if_ensures = ensures, if_body = body, if_span = fn_span f\<rparr> }"

definition lower_field :: "field_decl \<Rightarrow> (builder, ir_field) state" where
  "lower_field fd =
     do { symb \<leftarrow> push_symbol (fd_name fd) SkField (fd_span fd);
          ty \<leftarrow> lower_type (fd_ty fd);
          dflt \<leftarrow> traverse_opt lower_expr (fd_default_value fd);
          ret \<lparr>ifd_symbol = symb, ifd_name = fd_name fd, ifd_visibility = fd_visibility fd,
               ifd_attrs = fd_attrs fd, ifd_ty = ty, ifd_default_value = dflt,
               ifd_span = fd_span fd\<rparr> }"

definition lower_struct :: "struct_def \<Rightarrow> (builder, ir_struct_def) state" where
  "lower_struct d =
     do { symb \<leftarrow> push_symbol (sd_name d) SkStruct (sd_span d);
          flds \<leftarrow> traverse lower_field (sd_fields d);
          invariant \<leftarrow> traverse_opt lower_expr (sd_invariant d);
          ret \<lparr>isd_symbol = symb, isd_name = sd_name d, isd_visibility = sd_visibility d,
               isd_attrs = sd_attrs d, isd_generics = lower_generics (sd_generics d),
               isd_fields = flds, isd_invariant = invariant, isd_span = sd_span d\<rparr> }"

definition default_fn_type :: "struct_def \<Rightarrow> type_expr" where
  "default_fn_type d =
     TypeExpr (TNamed (sd_name d)
       (map (\<lambda>g. TypeExpr (TNamed (gp_name g) []) (gp_span g)) (sd_generics d))) (sd_span d)"

definition lower_struct_default_fn :: "struct_def \<Rightarrow> (builder, ir_function option) state" where
  "lower_struct_default_fn d =
     (if \<not> list_all (\<lambda>fd. fd_default_value fd \<noteq> None) (sd_fields d) then ret None
      else do {
        symb \<leftarrow> push_symbol (sd_name d @ ''::default'') SkFunction (sd_span d);
        ret_type \<leftarrow> lower_type (default_fn_type d);
        block_node \<leftarrow> next_node_id;
        tail_node \<leftarrow> next_node_id;
        ret (Some
          \<lparr>if_symbol = symb, if_name = sd_name d @ ''::default'', if_visibility = Private,
           if_attrs = [], if_is_async = False, if_is_unsafe = False, if_is_extern = False,
           if_extern_abi = None, if_is_intrinsic = False, if_intrinsic_abi = None,
           if_generics = lower_generics (sd_generics d), if_params = [],
           if_ret_type = ret_type, if_effects = [], if_capabilities = [],
           if_requires = None, if_ensures = None,
           if_body = IBlock block_node []
             (Some (IExpr tail_node (IStructInit (sd_name d) []) (sd_span d))) (sd_span d),
           if_span = sd_span d\<rparr>) })"

definition lower_variant :: "variant_def \<Rightarrow> (builder, ir_variant_def) state" where
  "lower_variant v =
     do { symb \<leftarrow> push_symbol (vd_name v) SkVariant (vd_span v);
          payload \<leftarrow> traverse_opt lower_type (vd_payload v);
          ret \<lparr>ivd_symbol = symb, ivd_name = vd_name v, ivd_attrs = vd_attrs v,
               ivd_payload = payload, ivd_span = vd_span v\<rparr> }"

definition lower_enum :: "enum_def \<Rightarrow> (builder, ir_enum_def) state" where
  "lower_enum d =
     do { symb \<leftarrow> push_symbol (ed_name d) SkEnum (ed_span d);
          variants \<leftarrow> traverse lower_variant (ed_variants d);
          ret \<lparr>ied_symbol = symb, ied_name = ed_name d, ied_visibility = ed_visibility d,
               ied_attrs = ed_attrs d, ied_generics = lower_generics (ed_generics d),
               ied_variants = variants, ied_span = ed_span d\<rparr> }"

definition lower_trait_method :: "fn_decl \<Rightarrow> (builder, ir_function) state" where
  "lower_trait_method m =
     do { symb \<leftarrow> push_symbol (fn_name m) SkFunction (fn_span m);
          params \<leftarrow> traverse lower_param (fn_params m);
          ret_type \<leftarrow> lower_type (fn_ret_type m);
          body \<leftarrow> lower_block (fn_body m);
          ret \<lparr>if_symbol = symb, if_name = fn_name m, if_visibility = fn_visibility m,
               if_attrs = fn_attrs m, if_is_async = fn_is_async m, if_is_unsafe = fn_is_unsafe m,
               if_is_extern = False, if_extern_abi = None,
               if_is_intrinsic = False, if_intrinsic_abi = None,
               if_generics = lower_generics (fn_generics m), if_params = params,
               if_ret_type = ret_type, if_effects = fn_effects m,
               if_capabilities = fn_capabilities m, if_requires = None,
               if_ensures = None, if_body = body, if_span = fn_span m\<rparr> }"

definition lower_trait :: "trait_def \<Rightarrow> (builder, ir_trait_def) state" where
  "lower_trait d =
     do { symb \<leftarrow> push_symbol (td_name d) SkTrait (td_span d);
          methods \<leftarrow> traverse lower_trait_method (td_methods d);
          ret \<lparr>itd_symbol = symb, itd_name = td_name d, itd_visibility = td_visibility d,
               itd_attrs = td_attrs d, itd_generics = lower_generics (td_generics d),
               itd_methods = methods, itd_span = td_span d\<rparr> }"

definition lower_impl_param :: "type_expr \<Rightarrow> param \<Rightarrow> (builder, ir_param) state" where
  "lower_impl_param target p =
     do { symb \<leftarrow> push_symbol (p_name p) SkParameter (p_span p);
          ty \<leftarrow> lower_type (substitute_self_type (p_ty p) target);
          ret \<lparr>ip_symbol = symb, ip_name = p_name p, ip_attrs = p_attrs p, ip_ty = ty,
               ip_span = p_span p\<rparr> }"

definition lower_impl_method ::
  "type_expr \<Rightarrow> string \<Rightarrow> fn_decl \<Rightarrow> (builder, ir_function) state" where
  "lower_impl_method target target_name m =
     do { symb \<leftarrow> push_symbol (target_name @ ''::'' @ fn_name m) SkFunction (fn_span m);
          params \<leftarrow> traverse (lower_impl_param target) (fn_params m);
          ret_type \<leftarrow> lower_type (substitute_self_type (fn_ret_type m) target);
          requires \<leftarrow> traverse_opt lower_expr (fn_requires m);
          ensures \<leftarrow> traverse_opt lower_expr (fn_ensures m);
          body \<leftarrow> lower_block (fn_body m);
          ret \<lparr>if_symbol = symb, if_name = target_name @ ''::'' @ fn_name m,
               if_visibility = fn_visibility m, if_attrs = fn_attrs m,
               if_is_async = fn_is_async m, if_is_unsafe = fn_is_unsafe m,
               if_is_extern = fn_is_extern m, if_extern_abi = fn_extern_abi m,
               if_is_intrinsic = fn_is_intrinsic m, if_intrinsic_abi = fn_intrinsic_abi m,
               if_generics = lower_generics (fn_generics m), if_params = params,
               if_ret_type = ret_type, if_effects = fn_effects m,
               if_capabilities = fn_capabilities m, if_requires = requires,
               if_ensures = ensures, if_body = body, if_span = fn_span m\<rparr> }"

text \<open>The name under which the methods of an \<open>impl\<close> are lowered; the name of unit differs
  between inherent and trait impls.\<close>

fun impl_target_name :: "string \<Rightarrow> type_kind \<Rightarrow> string" where
  "impl_target_name unit_name (TNamed name _) = name"
| "impl_target_name unit_name (TDynTrait trait_name) = ''dyn '' @ trait_name"
| "impl_target_name unit_name TUnit = unit_name"
| "impl_target_name unit_name THole = ''<?>''"

definition lower_impl :: "impl_def \<Rightarrow> (builder, ir_impl_def) state" where
  "lower_impl d =
     do { symb \<leftarrow> push_symbol (id_trait_name d) SkImpl (id_span d);
          let own_type = TypeExpr (TNamed (id_trait_name d) []) (id_span d);
          if id_is_inherent d
          then do {
            let target = (case id_target d of Some t \<Rightarrow> t | None \<Rightarrow> own_type);
            let target_name = impl_target_name (id_trait_name d) (ty_kind target);
            methods \<leftarrow> traverse (lower_impl_method target target_name) (id_methods d);
            target_id \<leftarrow> lower_type target;
            ret \<lparr>iid_symbol = symb, iid_trait_name = id_trait_name d,
                 iid_visibility = id_visibility d, iid_attrs = id_attrs d, iid_trait_args = [],
                 iid_target = Some target_id, iid_methods = methods, iid_is_inherent = True,
                 iid_span = id_span d\<rparr> }
          else do {
            let target = (case id_trait_args d of t # _ \<Rightarrow> t | [] \<Rightarrow> own_type);
            let target_name = impl_target_name ''()'' (ty_kind target);
            trait_args \<leftarrow> traverse lower_type (id_trait_args d);
            target_id \<leftarrow> traverse_opt lower_type
              (case id_trait_args d of t # _ \<Rightarrow> Some t | [] \<Rightarrow> None);
            methods \<leftarrow> traverse (lower_impl_method target target_name) (id_methods d);
            ret \<lparr>iid_symbol = symb, iid_trait_name = id_trait_name d,
                 iid_visibility = id_visibility d, iid_attrs = id_attrs d,
                 iid_trait_args = trait_args, iid_target = target_id, iid_methods = methods,
                 iid_is_inherent = False, iid_span = id_span d\<rparr> } }"

fun lower_item :: "item \<Rightarrow> (builder, ir_item) state" where
  "lower_item (AFunction f) = do { f' \<leftarrow> lower_function f; ret (IFunction f') }"
| "lower_item (AStruct d) = do { d' \<leftarrow> lower_struct d; ret (IStruct d') }"
| "lower_item (AEnum d) = do { d' \<leftarrow> lower_enum d; ret (IEnum d') }"
| "lower_item (ATrait d) = do { d' \<leftarrow> lower_trait d; ret (ITrait d') }"
| "lower_item (AImpl d) = do { d' \<leftarrow> lower_impl d; ret (IImpl d') }"

text \<open>One turn of the loop of \<open>build\<close>: a struct may be followed by its default constructor.\<close>

fun build_item :: "item \<Rightarrow> (builder, ir_item list) state" where
  "build_item (AStruct d) =
     do { d' \<leftarrow> lower_struct d;
          default_fn \<leftarrow> lower_struct_default_fn d;
          ret (IStruct d' # (case default_fn of None \<Rightarrow> [] | Some f \<Rightarrow> [IFunction f])) }"
| "build_item it = do { it' \<leftarrow> lower_item it; ret [it'] }"

definition build :: "ast_program \<Rightarrow> ir_program" where
  "build p =
     (case run_state (traverse build_item (ap_items p)) new_builder of (itemss, b) \<Rightarrow>
        \<lparr>irp_schema_version = CURRENT_IR_SCHEMA_VERSION,
         irp_module = map_option md_path (ap_module p),
         irp_imports = map imp_path (ap_imports p),
         irp_items = concat itemss,
         irp_symbols = bld_symbols b,
         irp_types = bld_types b,
         irp_generic_instantiations = [],
         irp_span = ap_span p,
         irp_expr_type_hints = []\<rparr>)"


section \<open>Node ids are allocated in order\<close>

definition function_nodes :: "ir_function \<Rightarrow> nat list" where
  "function_nodes f =
     opt_list expr_nodes (if_requires f) @ opt_list expr_nodes (if_ensures f) @
     block_nodes (if_body f)"

definition field_nodes :: "ir_field \<Rightarrow> nat list" where
  "field_nodes f = opt_list expr_nodes (ifd_default_value f)"

definition struct_nodes :: "ir_struct_def \<Rightarrow> nat list" where
  "struct_nodes d =
     concat (map field_nodes (isd_fields d)) @ opt_list expr_nodes (isd_invariant d)"

fun item_nodes :: "ir_item \<Rightarrow> nat list" where
  "item_nodes (IFunction f) = function_nodes f"
| "item_nodes (IStruct d) = struct_nodes d"
| "item_nodes (IEnum d) = []"
| "item_nodes (ITrait d) = concat (map function_nodes (itd_methods d))"
| "item_nodes (IImpl d) = concat (map function_nodes (iid_methods d))"

definition program_nodes :: "ir_program \<Rightarrow> nat list" where
  "program_nodes p = concat (map item_nodes (irp_items p))"

interpretation node: id_source next_node_id bld_next_node
  by unfold_locales (simp_all add: next_node_id_def)

lemma push_symbol_keeps_node: "keeps bld_next_node (push_symbol name k sp)"
  by (simp add: keeps_def push_symbol_def)

lemma lower_type_keeps_node: "keeps bld_next_node (lower_type ty)"
  by (simp add: keeps_def lower_type_def Let_def split: option.splits)

lemmas node_rules = node.next_allocates
  push_symbol_keeps_node [THEN keeps_allocates] lower_type_keeps_node [THEN keeps_allocates]

lemma allocates_no_ids:
  "(\<And>x. x \<in> set xs \<Longrightarrow> allocates c [] (\<lambda>_. []) (g x)) \<Longrightarrow>
   allocates c [] (\<lambda>_. []) (traverse g xs)"
  using allocates_traverse [of xs c "\<lambda>_. []" g] by simp

lemma allocates_no_ids_opt:
  "(\<And>x. x \<in> set_option xs \<Longrightarrow> allocates c [] (\<lambda>_. []) (g x)) \<Longrightarrow>
   allocates c [] (\<lambda>_. []) (traverse_opt g xs)"
  using allocates_traverse_opt [of xs c "\<lambda>_. []" g] by (simp add: opt_list_empty [abs_def])

lemma lower_pattern_nodes:
  "allocates bld_next_node [] pattern_nodes (lower_pattern p)"
  "allocates bld_next_node [] pattern_kind_nodes (lower_pattern_kind k)"
  "allocates bld_next_node [] spf_nodes (lower_pattern_field fp)"
  apply (induction p and k and fp rule: lower_pattern_lower_pattern_kind_lower_pattern_field.induct)
  apply (simp_all only: lower_pattern.simps lower_pattern_kind.simps lower_pattern_field.simps
      triv_forall_equality)
  apply ((rule alloc_rules node_rules | assumption | simp)+)
  done

lemma lower_closure_param_nodes:
  "allocates bld_next_node [] (\<lambda>_. []) (lower_closure_param p)"
  unfolding lower_closure_param_def
  by (rule allocates_bind, rule allocates_no_ids_opt, rule node_rules) (rule alloc_rules, simp)

lemmas closure_params_nodes = allocates_no_ids [OF lower_closure_param_nodes]

lemma lower_expr_nodes:
  "allocates bld_next_node [] expr_nodes (lower_expr e)"
  "allocates bld_next_node [] expr_kind_nodes (lower_expr_kind k)"
  "allocates bld_next_node [] block_nodes (lower_block b)"
  "allocates bld_next_node [] stmt_nodes (lower_stmt s)"
  "allocates bld_next_node [] arm_nodes (lower_match_arm a)"
  apply (induction e and k and b and s and a
      rule: lower_expr_lower_expr_kind_lower_block_lower_stmt_lower_match_arm.induct)
  apply (simp_all only: lower_expr.simps lower_expr_kind.simps lower_block.simps lower_stmt.simps
      lower_match_arm.simps triv_forall_equality)
  apply ((rule closure_params_nodes alloc_rules node_rules lower_pattern_nodes | assumption | simp)+)
  done


lemma lower_param_nodes: "allocates bld_next_node [] (\<lambda>_. []) (lower_param p)"
  unfolding lower_param_def by ((rule alloc_rules node_rules | simp)+)

lemma lower_impl_param_nodes: "allocates bld_next_node [] (\<lambda>_. []) (lower_impl_param t p)"
  unfolding lower_impl_param_def by ((rule alloc_rules node_rules | simp)+)

lemmas params_nodes = allocates_no_ids [OF lower_param_nodes]
  allocates_no_ids [OF lower_impl_param_nodes]

lemma lower_types_nodes:
  "allocates bld_next_node [] (\<lambda>_. []) (traverse lower_type ts)"
  "allocates bld_next_node [] (\<lambda>_. []) (traverse_opt lower_type t)"
  by (rule allocates_no_ids allocates_no_ids_opt, rule node_rules)+

lemma lower_function_nodes: "allocates bld_next_node [] function_nodes (lower_function f)"
  unfolding lower_function_def
  by ((rule params_nodes alloc_rules node_rules lower_expr_nodes | simp add: function_nodes_def)+)

lemma lower_trait_method_nodes:
  "allocates bld_next_node [] function_nodes (lower_trait_method f)"
  unfolding lower_trait_method_def
  by ((rule params_nodes alloc_rules node_rules lower_expr_nodes | simp add: function_nodes_def)+)

lemma lower_impl_method_nodes:
  "allocates bld_next_node [] function_nodes (lower_impl_method t n f)"
  unfolding lower_impl_method_def
  by ((rule params_nodes alloc_rules node_rules lower_expr_nodes | simp add: function_nodes_def)+)

lemma lower_field_nodes: "allocates bld_next_node [] field_nodes (lower_field f)"
  unfolding lower_field_def
  by ((rule alloc_rules node_rules lower_expr_nodes | simp add: field_nodes_def)+)

lemma lower_struct_nodes: "allocates bld_next_node [] struct_nodes (lower_struct d)"
  unfolding lower_struct_def
  by ((rule alloc_rules node_rules lower_field_nodes lower_expr_nodes |
      simp add: struct_nodes_def)+)

lemma lower_variant_nodes: "allocates bld_next_node [] (\<lambda>_. []) (lower_variant v)"
  unfolding lower_variant_def by ((rule lower_types_nodes alloc_rules node_rules | simp)+)

lemma lower_enum_nodes: "allocates bld_next_node [] (\<lambda>_. []) (lower_enum d)"
  unfolding lower_enum_def
  by ((rule allocates_no_ids [OF lower_variant_nodes] alloc_rules node_rules | simp)+)

lemma lower_trait_nodes:
  "allocates bld_next_node [] (\<lambda>d. concat (map function_nodes (itd_methods d))) (lower_trait d)"
  unfolding lower_trait_def
  by ((rule alloc_rules node_rules lower_trait_method_nodes | simp)+)

lemma allocates_if [alloc_rules]:
  "(P \<Longrightarrow> allocates c pre ids m) \<Longrightarrow> (\<not> P \<Longrightarrow> allocates c pre ids n) \<Longrightarrow>
   allocates c pre ids (if P then m else n)"
  by simp

lemma lower_impl_nodes:
  "allocates bld_next_node [] (\<lambda>d. concat (map function_nodes (iid_methods d))) (lower_impl d)"
  unfolding lower_impl_def Let_def
  by ((rule lower_types_nodes alloc_rules node_rules lower_impl_method_nodes | simp)+)

lemma lower_struct_default_fn_nodes:
  "allocates bld_next_node [] (opt_list function_nodes) (lower_struct_default_fn d)"
  unfolding lower_struct_default_fn_def
  by ((rule alloc_rules node_rules | simp add: function_nodes_def)+)

lemma lower_item_nodes: "allocates bld_next_node [] item_nodes (lower_item it)"
proof (cases it)
  case (AEnum d)
  show ?thesis unfolding AEnum lower_item.simps
    by (rule allocates_bind, rule lower_enum_nodes, rule allocates_return) simp
qed ((simp only: lower_item.simps),
    (rule allocates_bind, rule lower_function_nodes lower_struct_nodes lower_trait_nodes
      lower_impl_nodes, rule allocates_return, simp))+

lemma build_item_nodes:
  "allocates bld_next_node [] (\<lambda>its. concat (map item_nodes its)) (build_item it)"
proof (cases it)
  case (AStruct d)
  show ?thesis unfolding AStruct build_item.simps
    by (rule allocates_bind, rule lower_struct_nodes, rule allocates_bind,
        rule lower_struct_default_fn_nodes, rule allocates_return) (simp split: option.split)
qed ((simp only: build_item.simps),
    (rule allocates_bind, rule lower_item_nodes, rule allocates_return, simp))+

lemma concat_map_concat: "concat (map f (concat xss)) = concat (map (\<lambda>xs. concat (map f xs)) xss)"
  by (induction xss) auto

lemma build_nodes:
  assumes "run_state (traverse build_item (ap_items p)) new_builder = (itemss, b)"
  shows "program_nodes (build p) = [1..<bld_next_node b]"
proof -
  have "allocates bld_next_node [] (\<lambda>ys. concat (map (\<lambda>its. concat (map item_nodes its)) ys))
      (traverse build_item (ap_items p))"
    by (rule allocates_traverse) (rule build_item_nodes)
  from allocatesD [OF this assms] show ?thesis
    using assms by (simp add: program_nodes_def build_def concat_map_concat new_builder_def)
qed

end
