(* ===== verification/IrBuilderSim.thy ===== *)
theory IrBuilderSim
  imports IrBuilder
begin

text \<open>
  What lowering promises: the type table is interned (ids \<open>1, 2, ...\<close>, no representation
  twice), the symbol table is indexed by its ids, and the IR is the syntax tree with every type
  replaced by an id that the table resolves to the type's representation, and every declared name
  by a symbol that the table resolves to that name, kind and span.
\<close>

section \<open>The tables\<close>

type_synonym tables = "type_def list \<times> symbol list"

definition lookup_type :: "type_def list \<Rightarrow> type_id \<Rightarrow> string option" where
  "lookup_type ts i = map_of (map (\<lambda>d. (tdef_id d, tdef_repr d)) ts) i"

definition lookup_symbol :: "symbol list \<Rightarrow> symbol_id \<Rightarrow> symbol option" where
  "lookup_symbol ss i = map_of (map (\<lambda>s. (sym_id s, s)) ss) i"

definition type_sim :: "tables \<Rightarrow> type_expr \<Rightarrow> type_id \<Rightarrow> bool" where
  "type_sim T ty i = (lookup_type (fst T) i = Some (type_repr ty))"

definition symbol_sim :: "tables \<Rightarrow> string \<Rightarrow> symbol_kind \<Rightarrow> span \<Rightarrow> symbol_id \<Rightarrow> bool" where
  "symbol_sim T name kind sp i =
     (lookup_symbol (snd T) i =
        Some \<lparr>sym_id = i, sym_name = name, sym_kind = kind, sym_span = sp\<rparr>)"

definition builder_inv :: "builder \<Rightarrow> bool" where
  "builder_inv b \<longleftrightarrow>
     1 \<le> bld_next_type b \<and> map tdef_id (bld_types b) = [1..<bld_next_type b] \<and>
     distinct (map tdef_repr (bld_types b)) \<and>
     (\<forall>r. bt_get (bld_type_map b) r =
        map_of (map (\<lambda>d. (tdef_repr d, tdef_id d)) (bld_types b)) r) \<and>
     1 \<le> bld_next_symbol b \<and> map sym_id (bld_symbols b) = [1..<bld_next_symbol b]"

lemma builder_inv_new: "builder_inv new_builder"
  by (simp add: builder_inv_def new_builder_def)

lemma lookup_type_prefix:
  "lookup_type ts i = Some r \<Longrightarrow> prefix ts ts' \<Longrightarrow> lookup_type ts' i = Some r"
  by (auto simp: lookup_type_def prefix_def)

lemma lookup_symbol_prefix:
  "lookup_symbol ts i = Some r \<Longrightarrow> prefix ts ts' \<Longrightarrow> lookup_symbol ts' i = Some r"
  by (auto simp: lookup_symbol_def prefix_def)

section \<open>The calculus\<close>

text \<open>
  \<open>lowers T R m\<close>: \<open>m\<close> keeps the builder invariant and only extends the tables, and its result
  satisfies \<open>R\<close> whenever the final tables \<open>T\<close> extend the ones it leaves behind.
\<close>

definition lowers :: "tables \<Rightarrow> ('a \<Rightarrow> bool) \<Rightarrow> (builder, 'a) state \<Rightarrow> bool" where
  "lowers T R m \<longleftrightarrow> (\<forall>b a b'. builder_inv b \<longrightarrow> run_state m b = (a, b') \<longrightarrow>
     builder_inv b' \<and> prefix (bld_types b) (bld_types b') \<and>
     prefix (bld_symbols b) (bld_symbols b') \<and>
     (prefix (bld_types b') (fst T) \<and> prefix (bld_symbols b') (snd T) \<longrightarrow> R a))"

named_theorems lowers_rules

lemma lowersD:
  assumes "lowers T R m" "builder_inv b" "run_state m b = (a, b')"
  shows "builder_inv b'" "prefix (bld_types b) (bld_types b')"
    "prefix (bld_symbols b) (bld_symbols b')"
    "prefix (bld_types b') (fst T) \<Longrightarrow> prefix (bld_symbols b') (snd T) \<Longrightarrow> R a"
  using assms unfolding lowers_def by blast+

lemma lowers_return [lowers_rules]: "R a \<Longrightarrow> lowers T R (ret a)"
  by (simp add: lowers_def)

lemma lowers_bind [lowers_rules]:
  assumes m: "lowers T R m" and k: "\<And>x. lowers T (\<lambda>a. R x \<longrightarrow> Q a) (k x)"
  shows "lowers T Q (State_Monad.bind m k)"
  unfolding lowers_def
proof (intro allI impI)
  fix b a b'
  assume b: "builder_inv b" and run: "run_state (State_Monad.bind m k) b = (a, b')"
  obtain x b1 where mx: "run_state m b = (x, b1)" and kx: "run_state (k x) b1 = (a, b')"
    using run by (rule run_state_bindE)
  note 1 = lowersD [OF m b mx]
  note 2 = lowersD [OF k 1(1) kx]
  have "prefix (bld_types b) (bld_types b')" "prefix (bld_symbols b) (bld_symbols b')"
    using 1(2,3) 2(2,3) by (blast intro: prefix_order.order_trans)+
  moreover have "Q a" if T: "prefix (bld_types b') (fst T)" "prefix (bld_symbols b') (snd T)"
  proof -
    have "R x"
      by (rule 1(4)) (rule prefix_order.order_trans [OF 2(2) T(1)]
          prefix_order.order_trans [OF 2(3) T(2)])+
    then show ?thesis
      using 2(4) [OF T] by simp
  qed
  ultimately show "builder_inv b' \<and> prefix (bld_types b) (bld_types b') \<and>
      prefix (bld_symbols b) (bld_symbols b') \<and>
      (prefix (bld_types b') (fst T) \<and> prefix (bld_symbols b') (snd T) \<longrightarrow> Q a)"
    using 2(1) by simp
qed

lemma lowers_weaken: "lowers T R m \<Longrightarrow> (\<And>a. R a \<Longrightarrow> Q a) \<Longrightarrow> lowers T Q m"
  unfolding lowers_def by blast

lemma lowers_traverse [lowers_rules]:
  "(\<And>x. x \<in> set xs \<Longrightarrow> lowers T (R x) (g x)) \<Longrightarrow> lowers T (list_all2 R xs) (traverse g xs)"
proof (induction xs)
  case Nil
  then show ?case by (auto intro: lowers_return)
next
  case (Cons x xs)
  show ?case
    unfolding traverse_list.simps
    by (rule lowers_bind [where R = "R x"], use Cons in simp,
        rule lowers_bind [where R = "list_all2 R xs"],
        rule lowers_weaken [where R = "list_all2 R xs"], use Cons in simp_all)
      (rule lowers_return, simp)
qed

lemma lowers_traverse_opt [lowers_rules]:
  "(\<And>x. x \<in> set_option xs \<Longrightarrow> lowers T (R x) (g x)) \<Longrightarrow>
   lowers T (rel_option R xs) (traverse_opt g xs)"
proof (cases xs)
  case None
  then show ?thesis by (simp add: lowers_return)
next
  case (Some x)
  assume "\<And>x. x \<in> set_option xs \<Longrightarrow> lowers T (R x) (g x)"
  with Some have "lowers T (R x) (g x)" by simp
  then show ?thesis
    unfolding Some traverse_opt.simps by (rule lowers_bind) (rule lowers_return, simp)
qed

definition fields_sim ::
  "('e \<Rightarrow> 'f \<Rightarrow> bool) \<Rightarrow> ('n \<times> 'e \<times> 'p) list \<Rightarrow> ('n \<times> 'f \<times> 'p) list \<Rightarrow> bool" where
  "fields_sim R fs gs = list_all2 (\<lambda>(n, e, p) (n', f, p'). n' = n \<and> p' = p \<and> R e f) fs gs"

lemma fields_sim_cong [fundef_cong]:
  assumes "fs = fs'" "gs = gs'"
    and "\<And>n e p n' f p'. (n, e, p) \<in> set fs' \<Longrightarrow> (n', f, p') \<in> set gs' \<Longrightarrow> R e f = S e f"
  shows "fields_sim R fs gs = fields_sim S fs' gs'"
  unfolding fields_sim_def using assms
  by (auto simp: list_all2_conv_all_nth split: prod.splits) (metis nth_mem)+

lemma lowers_traverse_fields [lowers_rules]:
  assumes "\<And>n e p. (n, e, p) \<in> set fs \<Longrightarrow> lowers T (R e) (g e)"
  shows "lowers T (fields_sim R fs) (traverse_fields g fs)"
  unfolding traverse_fields_def fields_sim_def
proof (rule lowers_traverse)
  fix x assume "x \<in> set fs"
  then have "lowers T (R (fst (snd x))) (g (fst (snd x)))"
    using assms by (metis prod.collapse)
  then show "lowers T ((\<lambda>(n, e, p) (n', f, p'). n' = n \<and> p' = p \<and> R e f) x)
     (case x of (n, e, p) \<Rightarrow> g e \<bind> (\<lambda>e'. ret (n, e', p)))"
    by (cases x) (auto intro!: lowers_bind lowers_return)
qed

lemma next_node_id_lowers [lowers_rules]: "lowers T (\<lambda>_. True) next_node_id"
  by (simp add: lowers_def next_node_id_def builder_inv_def)

lemma map_of_new_id: "i \<notin> set (map fst xs) \<Longrightarrow> map_of (xs @ [(i, v)]) i = Some v"
  by (induction xs) auto

lemma map_of_new_entry:
  "i \<notin> set (map fst xs) \<Longrightarrow> map_of (xs @ [(i, v)]) r = (if r = i then Some v else map_of xs r)"
  by (induction xs) auto

lemma push_symbol_lowers [lowers_rules]:
  "lowers T (symbol_sim T name kind sp) (push_symbol name kind sp)"
  unfolding lowers_def
proof (intro allI impI)
  fix b a b'
  assume inv: "builder_inv b" and run: "run_state (push_symbol name kind sp) b = (a, b')"
  let ?s = "\<lparr>sym_id = a, sym_name = name, sym_kind = kind, sym_span = sp\<rparr>"
  have a: "a = bld_next_symbol b" and b': "bld_symbols b' = bld_symbols b @ [?s]"
    using run by (auto simp: push_symbol_def)
  have "a \<notin> set (map sym_id (bld_symbols b))"
    using inv by (simp add: builder_inv_def a)
  then have "lookup_symbol (bld_symbols b') a = Some ?s"
    using map_of_new_id [of a "map (\<lambda>s. (sym_id s, s)) (bld_symbols b)" ?s]
    by (simp add: lookup_symbol_def b' comp_def)
  then have sim: "prefix (bld_symbols b') (snd T) \<Longrightarrow> symbol_sim T name kind sp a"
    unfolding symbol_sim_def by (rule lookup_symbol_prefix)
  have "builder_inv b'"
    using inv run by (auto simp: builder_inv_def push_symbol_def)
  then show "builder_inv b' \<and> prefix (bld_types b) (bld_types b') \<and>
      prefix (bld_symbols b) (bld_symbols b') \<and>
      (prefix (bld_types b') (fst T) \<and> prefix (bld_symbols b') (snd T) \<longrightarrow>
        symbol_sim T name kind sp a)"
    using sim run by (auto simp: push_symbol_def)
qed

text \<open>Interning: the representation is found, or entered under the next id.\<close>

lemma lower_type_lowers [lowers_rules]: "lowers T (type_sim T ty) (lower_type ty)"
  unfolding lowers_def
proof (intro allI impI)
  fix b a b'
  assume inv: "builder_inv b" and run: "run_state (lower_type ty) b = (a, b')"
  let ?P = "lookup_type (bld_types b') a = Some (type_repr ty)"
  have "builder_inv b' \<and> prefix (bld_types b) (bld_types b') \<and> bld_symbols b' = bld_symbols b \<and> ?P"
  proof (cases "bt_get (bld_type_map b) (type_repr ty)")
    case (Some i)
    then have i: "map_of (map (\<lambda>d. (tdef_repr d, tdef_id d)) (bld_types b)) (type_repr ty) = Some i"
      and ab: "a = i" "b' = b"
      using inv run by (auto simp: builder_inv_def lower_type_def)
    from i obtain d where d: "d \<in> set (bld_types b)" "tdef_repr d = type_repr ty" "tdef_id d = i"
      using map_of_SomeD by fastforce
    have "distinct (map tdef_id (bld_types b))"
      using inv by (simp add: builder_inv_def)
    then have "lookup_type (bld_types b) i = Some (tdef_repr d)"
      unfolding lookup_type_def using d by (intro map_of_is_SomeI) (auto simp: comp_def)
    then show ?thesis
      using d ab inv by simp
  next
    case None
    have a: "a = bld_next_type b"
      and ts: "bld_types b' = bld_types b @ [\<lparr>tdef_id = a, tdef_repr = type_repr ty\<rparr>]"
      and rest: "bld_next_type b' = Suc a" "bld_symbols b' = bld_symbols b"
        "bld_type_map b' = bt_insert (type_repr ty) a (bld_type_map b)"
        "bld_next_symbol b' = bld_next_symbol b"
      using run None by (auto simp: lower_type_def Let_def)
    have fresh: "type_repr ty \<notin> set (map tdef_repr (bld_types b))"
      using inv None by (simp add: builder_inv_def map_of_eq_None_iff image_image)
    have "a \<notin> set (map tdef_id (bld_types b))"
      using inv by (simp add: builder_inv_def a)
    then have P: ?P
      using map_of_new_id [of a "map (\<lambda>d. (tdef_id d, tdef_repr d)) (bld_types b)" "type_repr ty"]
      by (simp add: lookup_type_def ts comp_def)
    have m: "bt_get (bld_type_map b') r =
        map_of (map (\<lambda>d. (tdef_repr d, tdef_id d)) (bld_types b')) r" for r
      using inv fresh map_of_new_entry [of "type_repr ty"
          "map (\<lambda>d. (tdef_repr d, tdef_id d)) (bld_types b)" a r]
      by (simp add: builder_inv_def bt.get_ins ts rest image_image)
    have ids: "map tdef_id (bld_types b') = [1..<Suc a]" and nt: "1 \<le> a"
      using inv by (auto simp: builder_inv_def ts a)
    have "distinct (map tdef_repr (bld_types b'))"
      using inv fresh by (simp add: builder_inv_def ts)
    with m ids nt inv have "builder_inv b'"
      by (simp add: builder_inv_def rest)
    with P ts rest show ?thesis
      by simp
  qed
  then show "builder_inv b' \<and> prefix (bld_types b) (bld_types b') \<and>
      prefix (bld_symbols b) (bld_symbols b') \<and>
      (prefix (bld_types b') (fst T) \<and> prefix (bld_symbols b') (snd T) \<longrightarrow> type_sim T ty a)"
    by (auto simp: type_sim_def intro: lookup_type_prefix)
qed

section \<open>Syntax tree and IR correspond\<close>

lemmas [fundef_cong] = list.rel_cong option.rel_cong

definition closure_param_sim :: "tables \<Rightarrow> closure_param \<Rightarrow> ir_closure_param \<Rightarrow> bool" where
  "closure_param_sim T p q \<longleftrightarrow>
     icp_name q = cp_name p \<and> icp_span q = cp_span p \<and>
     rel_option (type_sim T) (cp_ty p) (icp_ty q)"

fun pattern_sim :: "pattern \<Rightarrow> ir_pattern \<Rightarrow> bool"
  and pattern_kind_sim :: "pattern_kind \<Rightarrow> ir_pattern_kind \<Rightarrow> bool"
  and pattern_field_sim :: "struct_pattern_field \<Rightarrow> ir_struct_pattern_field \<Rightarrow> bool" where
  "pattern_sim (Pattern k sp) ip =
     (case ip of IPattern _ k' sp' \<Rightarrow> sp' = sp \<and> pattern_kind_sim k k')"
| "pattern_kind_sim APWildcard k = (k = IPWildcard)"
| "pattern_kind_sim (APVar v) k = (k = IPVar v)"
| "pattern_kind_sim (APInt v meta) k = (k = IPInt v meta)"
| "pattern_kind_sim (APBool v) k = (k = IPBool v)"
| "pattern_kind_sim (APChar v) k = (k = IPChar v)"
| "pattern_kind_sim (APString v) k = (k = IPString v)"
| "pattern_kind_sim APUnit k = (k = IPUnit)"
| "pattern_kind_sim (APOr ps) k =
     (case k of IPOr ps' \<Rightarrow> list_all2 pattern_sim ps ps' | _ \<Rightarrow> False)"
| "pattern_kind_sim (APVariant name args) k =
     (case k of IPVariant name' args' \<Rightarrow> name' = name \<and> list_all2 pattern_sim args args'
      | _ \<Rightarrow> False)"
| "pattern_kind_sim (APStruct name flds rest) k =
     (case k of IPStruct name' flds' rest' \<Rightarrow>
        name' = name \<and> rest' = rest \<and> list_all2 pattern_field_sim flds flds'
      | _ \<Rightarrow> False)"
| "pattern_field_sim (StructPatternField name p) f =
     (case f of IStructPatternField name' p' \<Rightarrow> name' = name \<and> pattern_sim p p')"

fun expr_sim :: "tables \<Rightarrow> expr \<Rightarrow> ir_expr \<Rightarrow> bool"
  and expr_kind_sim :: "tables \<Rightarrow> expr_kind \<Rightarrow> ir_expr_kind \<Rightarrow> bool"
  and block_sim :: "tables \<Rightarrow> block \<Rightarrow> ir_block \<Rightarrow> bool"
  and stmt_sim :: "tables \<Rightarrow> stmt \<Rightarrow> ir_stmt \<Rightarrow> bool"
  and arm_sim :: "tables \<Rightarrow> match_arm \<Rightarrow> ir_match_arm \<Rightarrow> bool" where
  "expr_sim T (Expr k sp) ie =
     (case ie of IExpr _ k' sp' \<Rightarrow> sp' = sp \<and> expr_kind_sim T k k')"
| "expr_kind_sim T (AInt v meta) k = (k = IInt v meta)"
| "expr_kind_sim T (AFloat v meta) k = (k = IFloat v meta)"
| "expr_kind_sim T (ABool v) k = (k = IBool v)"
| "expr_kind_sim T (AChar v) k = (k = IChar v)"
| "expr_kind_sim T (AString v) k = (k = IString v)"
| "expr_kind_sim T (ATemplateLiteral s args) k =
     (case k of ITemplateLiteral s' args' \<Rightarrow> s' = s \<and> list_all2 (expr_sim T) args args'
      | _ \<Rightarrow> False)"
| "expr_kind_sim T AUnit k = (k = IUnit)"
| "expr_kind_sim T (AVar v) k = (k = IVar v)"
| "expr_kind_sim T (ACall c args names) k =
     (case k of ICall c' args' names' target \<Rightarrow>
        expr_sim T c c' \<and> list_all2 (expr_sim T) args args' \<and> names' = names \<and> target = None
      | _ \<Rightarrow> False)"
| "expr_kind_sim T (AClosure ps ty b) k =
     (case k of IClosure ps' ty' b' \<Rightarrow>
        list_all2 (closure_param_sim T) ps ps' \<and> type_sim T ty ty' \<and> block_sim T b b'
      | _ \<Rightarrow> False)"
| "expr_kind_sim T (AIf c t e) k =
     (case k of IIf c' t' e' \<Rightarrow> expr_sim T c c' \<and> block_sim T t t' \<and> block_sim T e e' | _ \<Rightarrow> False)"
| "expr_kind_sim T (AWhile c b) k =
     (case k of IWhile c' b' \<Rightarrow> expr_sim T c c' \<and> block_sim T b b' | _ \<Rightarrow> False)"
| "expr_kind_sim T (ALoop b) k = (case k of ILoop b' \<Rightarrow> block_sim T b b' | _ \<Rightarrow> False)"
| "expr_kind_sim T (ABreak e) k =
     (case k of IBreak e' \<Rightarrow> rel_option (expr_sim T) e e' | _ \<Rightarrow> False)"
| "expr_kind_sim T AContinue k = (k = IContinue)"
| "expr_kind_sim T (AReturn e) k =
     (case k of IReturn e' \<Rightarrow> rel_option (expr_sim T) e e' | _ \<Rightarrow> False)"
| "expr_kind_sim T (AMatch e arms) k =
     (case k of IMatch e' arms' \<Rightarrow> expr_sim T e e' \<and> list_all2 (arm_sim T) arms arms'
      | _ \<Rightarrow> False)"
| "expr_kind_sim T (ABinary op l r) k =
     (case k of IBinary op' l' r' \<Rightarrow> op' = op \<and> expr_sim T l l' \<and> expr_sim T r r' | _ \<Rightarrow> False)"
| "expr_kind_sim T (AUnary op e) k =
     (case k of IUnary op' e' \<Rightarrow> op' = op \<and> expr_sim T e e' | _ \<Rightarrow> False)"
| "expr_kind_sim T (ABorrow mut e) k =
     (case k of IBorrow mut' e' \<Rightarrow> mut' = mut \<and> expr_sim T e e' | _ \<Rightarrow> False)"
| "expr_kind_sim T (AAwait e) k = (case k of IAwait e' \<Rightarrow> expr_sim T e e' | _ \<Rightarrow> False)"
| "expr_kind_sim T (ATry e) k = (case k of ITry e' \<Rightarrow> expr_sim T e e' | _ \<Rightarrow> False)"
| "expr_kind_sim T (AUnsafeBlock b) k = (case k of IUnsafeBlock b' \<Rightarrow> block_sim T b b' | _ \<Rightarrow> False)"
| "expr_kind_sim T (AStructInit name fs) k =
     (case k of IStructInit name' fs' \<Rightarrow> name' = name \<and> fields_sim (expr_sim T) fs fs'
      | _ \<Rightarrow> False)"
| "expr_kind_sim T (AFieldAccess e field) k =
     (case k of IFieldAccess e' field' \<Rightarrow> field' = field \<and> expr_sim T e e' | _ \<Rightarrow> False)"
| "block_sim T (Block ss t sp) b =
     (case b of IBlock _ ss' t' sp' \<Rightarrow>
        sp' = sp \<and> list_all2 (stmt_sim T) ss ss' \<and> rel_option (expr_sim T) t t')"
| "stmt_sim T (ALet name mut ty e sp) s =
     (case s of ILet symb name' mut' ty' e' sp' \<Rightarrow>
        name' = name \<and> mut' = mut \<and> sp' = sp \<and> symbol_sim T name SkLocal sp symb \<and>
        rel_option (type_sim T) ty ty' \<and> expr_sim T e e'
      | _ \<Rightarrow> False)"
| "stmt_sim T (AAssign x e sp) s =
     (case s of IAssign x' e' sp' \<Rightarrow> x' = x \<and> sp' = sp \<and> expr_sim T e e' | _ \<Rightarrow> False)"
| "stmt_sim T (AExprStmt e sp) s =
     (case s of IExprStmt e' sp' \<Rightarrow> sp' = sp \<and> expr_sim T e e' | _ \<Rightarrow> False)"
| "stmt_sim T (AReturnStmt e sp) s =
     (case s of IReturnStmt e' sp' \<Rightarrow> sp' = sp \<and> rel_option (expr_sim T) e e' | _ \<Rightarrow> False)"
| "stmt_sim T (AAssert e msg sp) s =
     (case s of IAssert e' msg' sp' \<Rightarrow> msg' = msg \<and> sp' = sp \<and> expr_sim T e e' | _ \<Rightarrow> False)"
| "arm_sim T (MatchArm p g b sp) a =
     (case a of IMatchArm p' g' b' sp' \<Rightarrow>
        sp' = sp \<and> pattern_sim p p' \<and> rel_option (expr_sim T) g g' \<and> expr_sim T b b')"

lemma lower_pattern_lowers [lowers_rules]:
  "lowers T (pattern_sim p) (lower_pattern p)"
  "lowers T (pattern_kind_sim k) (lower_pattern_kind k)"
  "lowers T (pattern_field_sim fp) (lower_pattern_field fp)"
  apply (induction p and k and fp rule: lower_pattern_lower_pattern_kind_lower_pattern_field.induct)
  apply (simp_all only: lower_pattern.simps lower_pattern_kind.simps lower_pattern_field.simps
      triv_forall_equality)
  apply ((rule lowers_rules | assumption | simp)+)
  done

lemma lower_closure_param_lowers [lowers_rules]:
  "lowers T (closure_param_sim T p) (lower_closure_param p)"
  unfolding lower_closure_param_def
  by ((rule lowers_rules | simp add: closure_param_sim_def)+)

lemma lower_expr_lowers [lowers_rules]:
  "lowers T (expr_sim T e) (lower_expr e)"
  "lowers T (expr_kind_sim T k) (lower_expr_kind k)"
  "lowers T (block_sim T b) (lower_block b)"
  "lowers T (stmt_sim T s) (lower_stmt s)"
  "lowers T (arm_sim T a) (lower_match_arm a)"
  apply (induction e and k and b and s and a
      rule: lower_expr_lower_expr_kind_lower_block_lower_stmt_lower_match_arm.induct)
  apply (simp_all only: lower_expr.simps lower_expr_kind.simps lower_block.simps lower_stmt.simps
      lower_match_arm.simps triv_forall_equality)
  apply ((rule lowers_rules | assumption | simp)+)
  done

section \<open>Items correspond\<close>

text \<open>\<open>sub\<close> is what an \<open>impl\<close> does to the types of its methods: \<open>Self\<close> becomes the target.\<close>

definition param_sim :: "tables \<Rightarrow> (type_expr \<Rightarrow> type_expr) \<Rightarrow> param \<Rightarrow> ir_param \<Rightarrow> bool" where
  "param_sim T sub p q \<longleftrightarrow>
     symbol_sim T (p_name p) SkParameter (p_span p) (ip_symbol q) \<and> ip_name q = p_name p \<and>
     ip_attrs q = p_attrs p \<and> ip_span q = p_span p \<and> type_sim T (sub (p_ty p)) (ip_ty q)"

definition signature_sim ::
  "tables \<Rightarrow> string \<Rightarrow> (type_expr \<Rightarrow> type_expr) \<Rightarrow> fn_decl \<Rightarrow> ir_function \<Rightarrow> bool" where
  "signature_sim T name sub f g \<longleftrightarrow>
     symbol_sim T name SkFunction (fn_span f) (if_symbol g) \<and> if_name g = name \<and>
     if_visibility g = fn_visibility f \<and> if_attrs g = fn_attrs f \<and>
     if_is_async g = fn_is_async f \<and> if_is_unsafe g = fn_is_unsafe f \<and>
     if_generics g = lower_generics (fn_generics f) \<and> if_effects g = fn_effects f \<and>
     if_capabilities g = fn_capabilities f \<and> if_span g = fn_span f \<and>
     list_all2 (param_sim T sub) (fn_params f) (if_params g) \<and>
     type_sim T (sub (fn_ret_type f)) (if_ret_type g) \<and> block_sim T (fn_body f) (if_body g)"

definition function_sim ::
  "tables \<Rightarrow> string \<Rightarrow> (type_expr \<Rightarrow> type_expr) \<Rightarrow> fn_decl \<Rightarrow> ir_function \<Rightarrow> bool" where
  "function_sim T name sub f g \<longleftrightarrow> signature_sim T name sub f g \<and>
     if_is_extern g = fn_is_extern f \<and> if_extern_abi g = fn_extern_abi f \<and>
     if_is_intrinsic g = fn_is_intrinsic f \<and> if_intrinsic_abi g = fn_intrinsic_abi f \<and>
     rel_option (expr_sim T) (fn_requires f) (if_requires g) \<and>
     rel_option (expr_sim T) (fn_ensures f) (if_ensures g)"

definition field_sim :: "tables \<Rightarrow> field_decl \<Rightarrow> ir_field \<Rightarrow> bool" where
  "field_sim T f g \<longleftrightarrow>
     symbol_sim T (fd_name f) SkField (fd_span f) (ifd_symbol g) \<and> ifd_name g = fd_name f \<and>
     ifd_visibility g = fd_visibility f \<and> ifd_attrs g = fd_attrs f \<and> ifd_span g = fd_span f \<and>
     type_sim T (fd_ty f) (ifd_ty g) \<and>
     rel_option (expr_sim T) (fd_default_value f) (ifd_default_value g)"

definition struct_sim :: "tables \<Rightarrow> struct_def \<Rightarrow> ir_struct_def \<Rightarrow> bool" where
  "struct_sim T d e \<longleftrightarrow>
     symbol_sim T (sd_name d) SkStruct (sd_span d) (isd_symbol e) \<and> isd_name e = sd_name d \<and>
     isd_visibility e = sd_visibility d \<and> isd_attrs e = sd_attrs d \<and>
     isd_generics e = lower_generics (sd_generics d) \<and> isd_span e = sd_span d \<and>
     list_all2 (field_sim T) (sd_fields d) (isd_fields e) \<and>
     rel_option (expr_sim T) (sd_invariant d) (isd_invariant e)"

definition variant_sim :: "tables \<Rightarrow> variant_def \<Rightarrow> ir_variant_def \<Rightarrow> bool" where
  "variant_sim T v w \<longleftrightarrow>
     symbol_sim T (vd_name v) SkVariant (vd_span v) (ivd_symbol w) \<and> ivd_name w = vd_name v \<and>
     ivd_attrs w = vd_attrs v \<and> ivd_span w = vd_span v \<and>
     rel_option (type_sim T) (vd_payload v) (ivd_payload w)"

definition enum_sim :: "tables \<Rightarrow> enum_def \<Rightarrow> ir_enum_def \<Rightarrow> bool" where
  "enum_sim T d e \<longleftrightarrow>
     symbol_sim T (ed_name d) SkEnum (ed_span d) (ied_symbol e) \<and> ied_name e = ed_name d \<and>
     ied_visibility e = ed_visibility d \<and> ied_attrs e = ed_attrs d \<and>
     ied_generics e = lower_generics (ed_generics d) \<and> ied_span e = ed_span d \<and>
     list_all2 (variant_sim T) (ed_variants d) (ied_variants e)"

definition trait_sim :: "tables \<Rightarrow> trait_def \<Rightarrow> ir_trait_def \<Rightarrow> bool" where
  "trait_sim T d e \<longleftrightarrow>
     symbol_sim T (td_name d) SkTrait (td_span d) (itd_symbol e) \<and> itd_name e = td_name d \<and>
     itd_visibility e = td_visibility d \<and> itd_attrs e = td_attrs d \<and>
     itd_generics e = lower_generics (td_generics d) \<and> itd_span e = td_span d \<and>
     list_all2 (\<lambda>m. signature_sim T (fn_name m) (\<lambda>ty. ty) m) (td_methods d) (itd_methods e)"

text \<open>The type an \<open>impl\<close> is for, and the prefix of the names of its methods.\<close>

definition impl_target :: "impl_def \<Rightarrow> type_expr" where
  "impl_target d =
     (let own = TypeExpr (TNamed (id_trait_name d) []) (id_span d) in
      if id_is_inherent d then (case id_target d of Some t \<Rightarrow> t | None \<Rightarrow> own)
      else (case id_trait_args d of t # _ \<Rightarrow> t | [] \<Rightarrow> own))"

definition impl_prefix :: "impl_def \<Rightarrow> string" where
  "impl_prefix d =
     impl_target_name (if id_is_inherent d then id_trait_name d else ''()'')
       (ty_kind (impl_target d))"

definition impl_sim :: "tables \<Rightarrow> impl_def \<Rightarrow> ir_impl_def \<Rightarrow> bool" where
  "impl_sim T d e \<longleftrightarrow>
     symbol_sim T (id_trait_name d) SkImpl (id_span d) (iid_symbol e) \<and>
     iid_trait_name e = id_trait_name d \<and> iid_visibility e = id_visibility d \<and>
     iid_attrs e = id_attrs d \<and> iid_is_inherent e = id_is_inherent d \<and> iid_span e = id_span d \<and>
     list_all2 (\<lambda>m. function_sim T (impl_prefix d @ ''::'' @ fn_name m)
         (\<lambda>ty. substitute_self_type ty (impl_target d)) m) (id_methods d) (iid_methods e) \<and>
     list_all2 (type_sim T) (if id_is_inherent d then [] else id_trait_args d) (iid_trait_args e) \<and>
     rel_option (type_sim T)
       (if id_is_inherent d \<or> id_trait_args d \<noteq> [] then Some (impl_target d) else None)
       (iid_target e)"

text \<open>A default constructor is generated exactly when every field has a default value.\<close>

definition default_fn_sim :: "tables \<Rightarrow> struct_def \<Rightarrow> ir_function option \<Rightarrow> bool" where
  "default_fn_sim T d g \<longleftrightarrow>
     (if list_all (\<lambda>fd. fd_default_value fd \<noteq> None) (sd_fields d)
      then (case g of None \<Rightarrow> False | Some g \<Rightarrow>
        symbol_sim T (sd_name d @ ''::default'') SkFunction (sd_span d) (if_symbol g) \<and>
        if_name g = sd_name d @ ''::default'' \<and> if_params g = [] \<and> if_effects g = [] \<and>
        if_requires g = None \<and> if_ensures g = None \<and>
        type_sim T (default_fn_type d) (if_ret_type g) \<and>
        block_sim T
          (Block [] (Some (Expr (AStructInit (sd_name d) []) (sd_span d))) (sd_span d)) (if_body g))
      else g = None)"

fun items_sim :: "tables \<Rightarrow> item \<Rightarrow> ir_item list \<Rightarrow> bool" where
  "items_sim T (AFunction f) its =
     (case its of [IFunction g] \<Rightarrow> function_sim T (fn_name f) (\<lambda>ty. ty) f g | _ \<Rightarrow> False)"
| "items_sim T (AStruct d) its =
     (case its of
        [IStruct e] \<Rightarrow> struct_sim T d e \<and> default_fn_sim T d None
      | [IStruct e, IFunction g] \<Rightarrow> struct_sim T d e \<and> default_fn_sim T d (Some g)
      | _ \<Rightarrow> False)"
| "items_sim T (AEnum d) its = (case its of [IEnum e] \<Rightarrow> enum_sim T d e | _ \<Rightarrow> False)"
| "items_sim T (ATrait d) its = (case its of [ITrait e] \<Rightarrow> trait_sim T d e | _ \<Rightarrow> False)"
| "items_sim T (AImpl d) its = (case its of [IImpl e] \<Rightarrow> impl_sim T d e | _ \<Rightarrow> False)"

lemma lower_param_lowers:
  "lowers T (param_sim T (\<lambda>ty. ty) p) (lower_param p)"
  unfolding lower_param_def by ((rule lowers_rules | simp add: param_sim_def)+)

lemma lower_impl_param_lowers:
  "lowers T (param_sim T (\<lambda>ty. substitute_self_type ty t) p) (lower_impl_param t p)"
  unfolding lower_impl_param_def by ((rule lowers_rules | simp add: param_sim_def)+)

lemma lower_function_lowers:
  "lowers T (function_sim T (fn_name f) (\<lambda>ty. ty) f) (lower_function f)"
  unfolding lower_function_def
  by ((rule lower_param_lowers lowers_rules | simp add: function_sim_def signature_sim_def)+)

lemma lower_trait_method_lowers:
  "lowers T (signature_sim T (fn_name f) (\<lambda>ty. ty) f) (lower_trait_method f)"
  unfolding lower_trait_method_def
  by ((rule lower_param_lowers lowers_rules | simp add: signature_sim_def)+)

lemma lower_impl_method_lowers:
  "lowers T (function_sim T (n @ ''::'' @ fn_name f) (\<lambda>ty. substitute_self_type ty t) f)
     (lower_impl_method t n f)"
  unfolding lower_impl_method_def
  by ((rule lower_impl_param_lowers lowers_rules | simp add: function_sim_def signature_sim_def)+)

lemma lower_field_lowers: "lowers T (field_sim T f) (lower_field f)"
  unfolding lower_field_def by ((rule lowers_rules | simp add: field_sim_def)+)

lemma lower_struct_lowers: "lowers T (struct_sim T d) (lower_struct d)"
  unfolding lower_struct_def
  by ((rule lower_field_lowers lowers_rules | simp add: struct_sim_def)+)

lemma lower_variant_lowers: "lowers T (variant_sim T v) (lower_variant v)"
  unfolding lower_variant_def by ((rule lowers_rules | simp add: variant_sim_def)+)

lemma lower_enum_lowers: "lowers T (enum_sim T d) (lower_enum d)"
  unfolding lower_enum_def
  by ((rule lower_variant_lowers lowers_rules | simp add: enum_sim_def)+)

lemma lower_trait_lowers: "lowers T (trait_sim T d) (lower_trait d)"
  unfolding lower_trait_def
  by ((rule lower_trait_method_lowers lowers_rules | simp add: trait_sim_def)+)

lemma lowers_if [lowers_rules]:
  "(P \<Longrightarrow> lowers T R m) \<Longrightarrow> (\<not> P \<Longrightarrow> lowers T R n) \<Longrightarrow> lowers T R (if P then m else n)"
  by simp

lemma lower_impl_lowers: "lowers T (impl_sim T d) (lower_impl d)"
  unfolding lower_impl_def Let_def
  by ((rule lower_impl_method_lowers lowers_rules |
      simp add: impl_sim_def impl_prefix_def impl_target_def split: list.splits)+)

lemma lower_struct_default_fn_lowers:
  "lowers T (default_fn_sim T d) (lower_struct_default_fn d)"
  unfolding lower_struct_default_fn_def
  by ((rule lowers_rules | simp add: default_fn_sim_def fields_sim_def)+)

lemma lowers_singleton:
  assumes "lowers T R m" "\<And>x. R x \<Longrightarrow> Q [f x]"
  shows "lowers T Q (State_Monad.bind (State_Monad.bind m (\<lambda>x. ret (f x))) (\<lambda>y. ret [y]))"
  by (rule lowers_bind, rule lowers_bind, rule assms(1),
      rule lowers_return [where R = "\<lambda>a. R x \<longrightarrow> Q [a]" for x])
    (simp_all add: assms(2) lowers_return)

lemma build_item_lowers: "lowers T (items_sim T it) (build_item it)"
proof (cases it)
  case (AStruct d)
  show ?thesis unfolding AStruct build_item.simps
    by (rule lowers_bind, rule lower_struct_lowers, rule lowers_bind,
        rule lower_struct_default_fn_lowers, rule lowers_return) (simp split: option.split)
qed (simp_all only: build_item.simps lower_item.simps,
    (rule lowers_singleton, rule lower_function_lowers lower_enum_lowers lower_trait_lowers
      lower_impl_lowers, simp)+)

lemma build_lowers:
  assumes "run_state (traverse build_item (ap_items p)) new_builder = (itemss, b)"
  shows "builder_inv b" "list_all2 (items_sim (bld_types b, bld_symbols b)) (ap_items p) itemss"
proof -
  have "lowers (bld_types b, bld_symbols b)
      (list_all2 (items_sim (bld_types b, bld_symbols b)) (ap_items p))
      (traverse build_item (ap_items p))"
    by (rule lowers_traverse) (rule build_item_lowers)
  from lowersD [OF this builder_inv_new assms]
  show "builder_inv b" "list_all2 (items_sim (bld_types b, bld_symbols b)) (ap_items p) itemss"
    by simp_all
qed

section \<open>What \<open>build\<close> promises\<close>

text \<open>
  C1: The IR of a program is its syntax tree, item by item and in order: every expression,
  statement, pattern and signature is carried over, every type is replaced by an id that the
  program's type table resolves to the type's rendering, every declaration by a symbol that the
  symbol table resolves to its name, kind and span, \<open>Self\<close> in an \<open>impl\<close> by its target, and a
  struct whose fields all have defaults is followed by its default constructor.
\<close>

theorem build_refines:
  "\<exists>iss. irp_items (build p) = concat iss \<and>
     list_all2 (items_sim (irp_types (build p), irp_symbols (build p))) (ap_items p) iss"
proof -
  obtain iss b where run: "run_state (traverse build_item (ap_items p)) new_builder = (iss, b)"
    by fastforce
  show ?thesis
    using build_lowers(2) [OF run] by (intro exI [of _ iss]) (simp add: build_def run)
qed

text \<open>
  C13: The tables of a lowered program are well formed: type ids are 1, 2, ... in order and no
  type representation is entered twice, and symbol ids are 1, 2, ... in order.
\<close>

theorem build_tables:
  "\<exists>n m. map tdef_id (irp_types (build p)) = [1..<n] \<and>
     distinct (map tdef_repr (irp_types (build p))) \<and>
     map sym_id (irp_symbols (build p)) = [1..<m]"
proof -
  obtain iss b where run: "run_state (traverse build_item (ap_items p)) new_builder = (iss, b)"
    by fastforce
  show ?thesis
    using build_lowers(1) [OF run] by (simp add: build_def run builder_inv_def) blast
qed

text \<open>
  C14: Every node of a lowered program (pattern, expression or block, in contracts, bodies, field
  defaults and invariants) has its own id: in allocation order the ids are 1, 2, ... without a gap.
\<close>

theorem build_node_ids: "\<exists>n. program_nodes (build p) = [1..<n] \<and> distinct (program_nodes (build p))"
proof -
  obtain iss b where run: "run_state (traverse build_item (ap_items p)) new_builder = (iss, b)"
    by fastforce
  show ?thesis
    using build_nodes [OF run] by auto
qed

end
