(* ===== verification/Utf8.thy ===== *)
theory Utf8
  imports Prelude
begin

text \<open>
  The characters of a Rust \<open>str\<close>. A string is its UTF-8 bytes; \<open>next_char\<close> is what
  \<open>chars().next()\<close> reads from it (the scalar value and its \<open>len_utf8\<close>), \<open>char_indices\<close> is the
  iterator of that name. Both are used on valid UTF-8 only, which is what a \<open>str\<close> holds: the
  bytes of \<open>utf8_encode_all cs\<close>.
\<close>

definition byte :: "nat \<Rightarrow> char" where
  "byte n = char_of n"

definition utf8_encode :: "rchar \<Rightarrow> string" where
  "utf8_encode c =
     (if c < 0x80 then [byte c]
      else if c < 0x800 then [byte (0xC0 + c div 64), byte (0x80 + c mod 64)]
      else if c < 0x10000 then
        [byte (0xE0 + c div 4096), byte (0x80 + c div 64 mod 64), byte (0x80 + c mod 64)]
      else
        [byte (0xF0 + c div 262144), byte (0x80 + c div 4096 mod 64),
         byte (0x80 + c div 64 mod 64), byte (0x80 + c mod 64)])"

definition utf8_encode_all :: "rchar list \<Rightarrow> string" where
  "utf8_encode_all cs = concat (map utf8_encode cs)"

definition scalar_value :: "rchar \<Rightarrow> bool" where
  "scalar_value c = (c < 0xD800 \<or> 0xE000 \<le> c \<and> c < 0x110000)"

text \<open>\<open>char::len_utf8\<close>, as the first byte of the character tells it.\<close>

definition lead_width :: "char \<Rightarrow> nat" where
  "lead_width b =
     (let n = of_char b :: nat in if n < 0x80 then 1 else if n < 0xE0 then 2 else if n < 0xF0 then 3 else 4)"

definition cont_bits :: "char \<Rightarrow> nat" where
  "cont_bits b = of_char b mod 64"

definition lead_bits :: "char \<Rightarrow> nat" where
  "lead_bits b =
     (let n = of_char b :: nat in
      if n < 0x80 then n else if n < 0xE0 then n mod 32 else if n < 0xF0 then n mod 16 else n mod 8)"

fun next_char :: "string \<Rightarrow> (rchar \<times> nat) option" where
  "next_char [] = None"
| "next_char (b # bs) =
     (let w = lead_width b in
      Some (foldl (\<lambda>acc c. acc * 64 + cont_bits c) (lead_bits b) (take (w - 1) bs), w))"

lemma lead_width_pos: "0 < lead_width b"
  by (simp add: lead_width_def Let_def)

text \<open>The characters of a string with the offset at which each starts, counted from \<open>i\<close>.\<close>

function char_indices_from :: "nat \<Rightarrow> string \<Rightarrow> (nat \<times> rchar \<times> nat) list" where
  "char_indices_from i s =
     (case next_char s of
        None \<Rightarrow> []
      | Some (c, w) \<Rightarrow> (i, c, w) # char_indices_from (i + w) (drop w s))"
  by pat_completeness auto
termination
proof (relation "measure (\<lambda>(i, s). length s)", simp)
  fix i :: nat and s x c w
  assume "next_char s = Some x" "(c, w) = x"
  then show "((i + w, drop w s), i, s) \<in> measure (\<lambda>(i, s). length s)"
    using lead_width_pos by (cases s) (auto simp: Let_def)
qed

declare char_indices_from.simps [simp del]

definition char_indices :: "string \<Rightarrow> (nat \<times> rchar \<times> nat) list" where
  "char_indices = char_indices_from 0"

section \<open>Decoding undoes encoding\<close>

lemma of_byte [simp]: "n < 256 \<Longrightarrow> of_char (byte n) = (n :: nat)"
  by (simp add: byte_def take_bit_eq_mod)

lemma utf8_encode_not_Nil [simp]: "utf8_encode c \<noteq> []"
  by (simp add: utf8_encode_def)

lemma next_char_ascii: "of_char b < (0x80 :: nat) \<Longrightarrow> next_char (b # bs) = Some (of_char b, 1)"
  by (simp add: lead_width_def lead_bits_def)

lemma mod_add_dvd: "m dvd k \<Longrightarrow> (k + x) mod m = x mod (m :: nat)"
  by (simp add: mod_add_eq [symmetric, of k x m])

lemma cont_byte: "x < 64 \<Longrightarrow> cont_bits (byte (128 + x)) = x"
  by (simp add: cont_bits_def mod_add_dvd)

lemma lead_byte2:
  "x < 32 \<Longrightarrow> lead_width (byte (192 + x)) = 2 \<and> lead_bits (byte (192 + x)) = x"
  by (simp add: lead_width_def lead_bits_def mod_add_dvd)

lemma lead_byte3:
  "x < 16 \<Longrightarrow> lead_width (byte (224 + x)) = 3 \<and> lead_bits (byte (224 + x)) = x"
  by (simp add: lead_width_def lead_bits_def mod_add_dvd)

lemma lead_byte4:
  "x < 8 \<Longrightarrow> lead_width (byte (240 + x)) = 4 \<and> lead_bits (byte (240 + x)) = x"
  by (simp add: lead_width_def lead_bits_def mod_add_dvd)

lemmas utf8_bytes = cont_byte lead_byte2 lead_byte3 lead_byte4

lemma next_char_encode:
  assumes "c < 0x110000"
  shows "next_char (utf8_encode c @ s) = Some (c, length (utf8_encode c))"
proof -
  have split: "c div 4096 * 64 + c div 64 mod 64 = c div 64"
      "c div 262144 * 64 + c div 4096 mod 64 = c div 4096"
    using div_mult_mod_eq [of "c div 64" 64] div_mult_mod_eq [of "c div 4096" 64]
    by (simp_all add: div_mult2_eq [symmetric])
  consider "c < 0x80" | "0x80 \<le> c" "c < 0x800" | "0x800 \<le> c" "c < 0x10000" | "0x10000 \<le> c"
    by linarith
  then show ?thesis
  proof cases
    case 1
    then show ?thesis
      using next_char_ascii [of "byte c" s] by (simp add: utf8_encode_def del: next_char.simps)
  next
    case 2
    then have "c div 64 < 32" by auto
    with 2 show ?thesis
      by (simp add: utf8_encode_def utf8_bytes)
  next
    case 3
    then have "c div 4096 < 16" by auto
    with 3 split show ?thesis
      by (simp add: utf8_encode_def utf8_bytes)
  next
    case 4
    then have "c div 262144 < 8" using assms by auto
    with 4 split show ?thesis
      by (simp add: utf8_encode_def utf8_bytes numeral_3_eq_3)
  qed
qed

lemma utf8_encode_all_simps [simp]:
  "utf8_encode_all [] = []"
  "utf8_encode_all (c # cs) = utf8_encode c @ utf8_encode_all cs"
  "utf8_encode_all (cs @ ds) = utf8_encode_all cs @ utf8_encode_all ds"
  by (simp_all add: utf8_encode_all_def)

lemma scalar_value_less: "scalar_value c \<Longrightarrow> c < 0x110000"
  by (auto simp: scalar_value_def)

text \<open>The character list that \<open>char_indices\<close> yields on an encoded string.\<close>

fun indexed_chars :: "nat \<Rightarrow> rchar list \<Rightarrow> (nat \<times> rchar \<times> nat) list" where
  "indexed_chars i [] = []"
| "indexed_chars i (c # cs) =
     (i, c, length (utf8_encode c)) # indexed_chars (i + length (utf8_encode c)) cs"

lemma char_indices_from_encode:
  "list_all scalar_value cs \<Longrightarrow> char_indices_from i (utf8_encode_all cs) = indexed_chars i cs"
proof (induction cs arbitrary: i)
  case Nil
  then show ?case by (simp add: char_indices_from.simps)
next
  case (Cons c cs)
  then show ?case
    by (subst char_indices_from.simps) (simp add: next_char_encode scalar_value_less)
qed

lemma char_indices_encode:
  "list_all scalar_value cs \<Longrightarrow> char_indices (utf8_encode_all cs) = indexed_chars 0 cs"
  by (simp add: char_indices_def char_indices_from_encode)

text \<open>\<open>str::chars\<close>.\<close>

definition str_chars :: "string \<Rightarrow> rchar list" where
  "str_chars s = map (\<lambda>(_, c, _). c) (char_indices s)"

lemma map_indexed_chars: "map (\<lambda>(_, c, _). c) (indexed_chars i cs) = cs"
  by (induction cs arbitrary: i) auto

lemma str_chars_encode: "list_all scalar_value cs \<Longrightarrow> str_chars (utf8_encode_all cs) = cs"
  by (simp add: str_chars_def char_indices_encode map_indexed_chars)

lemma str_chars_Nil [simp]: "str_chars [] = []"
  by (simp add: str_chars_def char_indices_def char_indices_from.simps)

lemma char_indices_from_Nil_iff: "char_indices_from i s = [] \<longleftrightarrow> s = []"
  by (cases s) (simp_all add: char_indices_from.simps Let_def)

lemma str_chars_Nil_iff [simp]: "str_chars s = [] \<longleftrightarrow> s = []"
  by (simp add: str_chars_def char_indices_def char_indices_from_Nil_iff)

text \<open>Decoding never grows a text, even one that is not well-formed UTF-8.\<close>

lemma cont_bits_less: "cont_bits b < 64"
  by (simp add: cont_bits_def)

lemma lead_width_cases: "lead_width b \<in> {1, 2, 3, 4}"
  by (simp add: lead_width_def Let_def)

lemma next_char_width:
  assumes "next_char s = Some (c, w)"
  shows "length (utf8_encode c) + length (drop w s) \<le> length s"
proof -
  from assms obtain b bs where s: "s = b # bs" by (cases s) auto
  have lead: "lead_bits b < (if lead_width b = 1 then 128 else if lead_width b = 2 then 32
      else if lead_width b = 3 then 16 else 8)"
    by (simp add: lead_bits_def lead_width_def Let_def)
  have w: "w = lead_width b" using assms s by (simp add: Let_def)
  with lead_width_cases have "w \<in> {1, 2, 3, 4}" by simp
  note w = w this
  have c: "c = foldl (\<lambda>acc x. acc * 64 + cont_bits x) (lead_bits b) (take (w - 1) bs)"
    using assms s w(1) by (auto simp: Let_def)
  consider "bs = []" | x where "bs = [x]" | x y where "bs = [x, y]" | x y z zs where "bs = x # y # z # zs"
    by (metis neq_Nil_conv)
  then show ?thesis
  proof cases
    case 1
    with lead w c s show ?thesis by (auto simp: utf8_encode_def)
  next
    case (2 x)
    with lead w c s cont_bits_less [of x] show ?thesis by (auto simp: utf8_encode_def)
  next
    case (3 x y)
    with lead w c s cont_bits_less [of x] cont_bits_less [of y] show ?thesis
      by (auto simp: utf8_encode_def)
  next
    case (4 x y z zs)
    with lead w c s cont_bits_less [of x] cont_bits_less [of y] cont_bits_less [of z] show ?thesis
      by (auto simp: utf8_encode_def)
  qed
qed

lemma length_encode_chars_from:
  "length (utf8_encode_all (map (\<lambda>(_, c, _). c) (char_indices_from i s))) \<le> length s"
proof (induction i s rule: char_indices_from.induct)
  case (1 i s)
  show ?case
  proof (cases "next_char s")
    case None
    then show ?thesis by (simp add: char_indices_from.simps)
  next
    case (Some cw)
    obtain c w where cw: "cw = (c, w)" by force
    from "1.IH" [OF Some cw [symmetric]] next_char_width [of s c w] Some cw
    show ?thesis by (simp add: char_indices_from.simps [of i s])
  qed
qed

lemma length_encode_chars: "length (utf8_encode_all (str_chars s)) \<le> length s"
  by (simp add: str_chars_def char_indices_def length_encode_chars_from)

end
