(* ===== verification/Diagnostics.thy ===== *)
theory Diagnostics
  imports Ast Utf8
begin

text \<open>
  Diagnostics: \<open>src/diagnostics.rs\<close> and the code registry \<open>src/diagnostic_codes.rs\<close>. The
  explanation text attached by \<open>src/diagnostic_reasoning.rs\<close> is an argument \<open>derive\<close> of the
  operations that refresh it; it never changes another field. \<open>assert_registered\<close> panics on an
  unknown code, so constructors return an option and \<open>None\<close> is that panic.
\<close>

section \<open>The code registry\<close>

definition REGISTERED_DIAGNOSTIC_CODES :: "string list" where
  "REGISTERED_DIAGNOSTIC_CODES = [
    ''E0001'', ''E0002'', ''E0003'', ''E0004'', ''E0005'', ''E0006'', ''E0007'', ''E0008'', ''E0009'',
    ''E0010'', ''E1001'', ''E1002'', ''E1003'', ''E1004'', ''E1005'', ''E1006'', ''E1007'', ''E1008'',
    ''E1009'', ''E1010'', ''E1011'', ''E1012'', ''E1013'', ''E1014'', ''E1015'', ''E1016'', ''E1017'',
    ''E1018'', ''E1019'', ''E1020'', ''E1021'', ''E1022'', ''E1023'', ''E1024'', ''E1025'', ''E1026'',
    ''E1027'', ''E1028'', ''E1029'', ''E1030'', ''E1031'', ''E1032'', ''E1033'', ''E1034'', ''E1035'',
    ''E1036'', ''E1037'', ''E1038'', ''E1039'', ''E1040'', ''E1041'', ''E1042'', ''E1043'', ''E1044'',
    ''E1045'', ''E1046'', ''E1047'', ''E1048'', ''E1049'', ''E1050'', ''E1051'', ''E1052'', ''E1053'',
    ''E1054'', ''E1055'', ''E1056'', ''E1057'', ''E1058'', ''E1059'', ''E1060'', ''E1061'', ''E1062'',
    ''E1063'', ''E1064'', ''E1065'', ''E1066'', ''E1067'', ''E1068'', ''E1069'', ''E1070'', ''E1071'',
    ''E1072'', ''E1073'', ''E1074'', ''E1075'', ''E1076'', ''E1077'', ''E1078'', ''E1079'', ''E1080'',
    ''E1081'', ''E1082'', ''E1083'', ''E1084'', ''E1085'', ''E1086'', ''E1087'', ''E1088'', ''E1089'',
    ''E1090'', ''E1091'', ''E1092'', ''E1093'', ''E1094'', ''E1095'', ''E1096'', ''E1097'', ''E1098'',
    ''E1099'', ''E1100'', ''E1101'', ''E1102'', ''E1103'', ''E1104'', ''E1105'', ''E1106'', ''E1107'',
    ''E1108'', ''E1109'', ''E1200'', ''E1201'', ''E1202'', ''E1203'', ''E1204'', ''E1205'', ''E1206'',
    ''E1207'', ''E1208'', ''E1209'', ''E1210'', ''E1211'', ''E1212'', ''E1213'', ''E1214'', ''E1215'',
    ''E1216'', ''E1217'', ''E1218'', ''E1219'', ''E1220'', ''E1221'', ''E1222'', ''E1223'', ''E1224'',
    ''E1225'', ''E1226'', ''E1227'', ''E1228'', ''E1229'', ''E1230'', ''E1231'', ''E1232'', ''E1233'',
    ''E1234'', ''E1235'', ''E1236'', ''E1237'', ''E1238'', ''E1239'', ''E1240'', ''E1241'', ''E1242'',
    ''E1243'', ''E1244'', ''E1245'', ''E1246'', ''E1247'', ''E1248'', ''E1249'', ''E1250'', ''E1251'',
    ''E1252'', ''E1253'', ''E1254'', ''E1255'', ''E1256'', ''E1257'', ''E1258'', ''E1259'', ''E1260'',
    ''E1261'', ''E1262'', ''E1263'', ''E1264'', ''E1265'', ''E1266'', ''E1267'', ''E1268'', ''E1269'',
    ''E1270'', ''E1271'', ''E1272'', ''E1273'', ''E1274'', ''E1275'', ''E1276'', ''E1277'', ''E1278'',
    ''E1279'', ''E1280'', ''E1281'', ''E1282'', ''E1283'', ''E1284'', ''E1285'', ''E1286'', ''E1287'',
    ''E1288'', ''E1289'', ''E1290'', ''E1291'', ''E1292'', ''E1293'', ''E1294'', ''E1295'', ''E1296'',
    ''E1300'', ''E1301'', ''E2001'', ''E2002'', ''E2003'', ''E2004'', ''E2005'', ''E2006'', ''E2007'',
    ''E2008'', ''E2009'', ''E2100'', ''E2101'', ''E2102'', ''E2103'', ''E2104'', ''E2105'', ''E2106'',
    ''E2107'', ''E2108'', ''E2109'', ''E2110'', ''E2111'', ''E2112'', ''E2113'', ''E2114'', ''E2115'',
    ''E2116'', ''E2117'', ''E2118'', ''E2119'', ''E2120'', ''E2121'', ''E2122'', ''E2123'', ''E2124'',
    ''E2125'', ''E2126'', ''E4001'', ''E4002'', ''E4003'', ''E4004'', ''E4005'', ''E5001'', ''E5002'',
    ''E5003'', ''E5004'', ''E5005'', ''E5006'', ''E5007'', ''E5008'', ''E5009'', ''E5010'', ''E5011'',
    ''E5012'', ''E5013'', ''E5014'', ''E5015'', ''E5016'', ''E5017'', ''E5018'', ''E5019'', ''E5020'',
    ''E5021'', ''E5022'', ''E5023'', ''E5024'', ''E5025'', ''E5026'', ''E5031'', ''E5032'', ''E5033'',
    ''E5034'', ''E5035'', ''E5036'', ''E5037'', ''E5101'', ''E5102'', ''E5103'', ''E5104'', ''E5105'',
    ''E5200'', ''E5201'', ''E5202'', ''E5203'', ''E5204'', ''E5205'', ''E6001'', ''E6002'', ''E6003'',
    ''E6004'', ''E6005'', ''E6006'', ''E6007''
  ]"

definition is_ascii_digit :: "char \<Rightarrow> bool" where
  "is_ascii_digit c = (48 \<le> (of_char c :: nat) \<and> (of_char c :: nat) \<le> 57)"

definition is_valid_format :: "string \<Rightarrow> bool" where
  "is_valid_format code =
     (length code = 5 \<and> code ! 0 = CHR ''E'' \<and> is_ascii_digit (code ! 1) \<and>
      is_ascii_digit (code ! 2) \<and> is_ascii_digit (code ! 3) \<and> is_ascii_digit (code ! 4))"

text \<open>
  \<open>binary_search\<close> on a slice sorted without duplicates finds exactly its members;
  \<open>registry_sorted\<close> below is what the code relies on for that.
\<close>

definition is_registered :: "string \<Rightarrow> bool" where
  "is_registered code = (code \<in> set REGISTERED_DIAGNOSTIC_CODES)"

text \<open>\<open>assert_registered\<close>: \<open>None\<close> is the panic.\<close>

definition assert_registered :: "string \<Rightarrow> unit option" where
  "assert_registered code =
     (if \<not> is_valid_format code then None else if \<not> is_registered code then None else Some ())"

section \<open>Diagnostics\<close>

datatype severity = SevError | SevWarning | SevNote

record diag_span =
  ds_file :: string
  ds_start :: nat
  ds_end :: nat
  ds_label :: "string option"
  ds_start_line :: "nat option"
  ds_start_column :: "nat option"
  ds_end_line :: "nat option"
  ds_end_column :: "nat option"

record suggested_fix =
  sf_message :: string
  sf_replacement :: "string option"
  sf_start :: "nat option"
  sf_end :: "nat option"

record diag_hypothesis =
  dh_kind :: string
  dh_title :: string
  dh_detail :: string
  dh_confidence :: nat

record diag_reasoning =
  dr_schema_version :: string
  dr_strategy :: string
  dr_summary :: string
  dr_confidence :: nat
  dr_evidence :: "string list"
  dr_hypotheses :: "diag_hypothesis list"
  dr_next_actions :: "string list"
  dr_spec_refs :: "string list"

record diagnostic =
  d_code :: string
  d_severity :: severity
  d_message :: string
  d_spans :: "diag_span list"
  d_help :: "string list"
  d_suggested_fixes :: "suggested_fix list"
  d_reasoning :: "diag_reasoning option"

type_synonym derive_reasoning = "diagnostic \<Rightarrow> diag_reasoning option"

definition refresh_reasoning :: "derive_reasoning \<Rightarrow> diagnostic \<Rightarrow> diagnostic" where
  "refresh_reasoning derive d = d\<lparr>d_reasoning := derive d\<rparr>"

definition plain_span :: "string \<Rightarrow> span \<Rightarrow> diag_span" where
  "plain_span file sp =
     \<lparr>ds_file = file, ds_start = span_start sp, ds_end = span_end sp, ds_label = None,
      ds_start_line = None, ds_start_column = None, ds_end_line = None, ds_end_column = None\<rparr>"

definition diagnostic_error ::
  "derive_reasoning \<Rightarrow> string \<Rightarrow> string \<Rightarrow> string \<Rightarrow> span \<Rightarrow> diagnostic option" where
  "diagnostic_error derive code message file sp =
     map_option (\<lambda>_. refresh_reasoning derive
       \<lparr>d_code = code, d_severity = SevError, d_message = message,
        d_spans = [plain_span file sp], d_help = [], d_suggested_fixes = [],
        d_reasoning = None\<rparr>) (assert_registered code)"

definition diagnostic_warning ::
  "derive_reasoning \<Rightarrow> string \<Rightarrow> string \<Rightarrow> string \<Rightarrow> span \<Rightarrow> diagnostic option" where
  "diagnostic_warning derive code message file sp =
     map_option (\<lambda>_. refresh_reasoning derive
       \<lparr>d_code = code, d_severity = SevWarning, d_message = message,
        d_spans = [plain_span file sp], d_help = [], d_suggested_fixes = [],
        d_reasoning = None\<rparr>) (assert_registered code)"

definition with_label :: "derive_reasoning \<Rightarrow> string \<Rightarrow> diagnostic \<Rightarrow> diagnostic" where
  "with_label derive label d =
     refresh_reasoning derive
       (d\<lparr>d_spans := (case d_spans d of [] \<Rightarrow> [] | s # ss \<Rightarrow> s\<lparr>ds_label := Some label\<rparr> # ss)\<rparr>)"

definition with_help :: "derive_reasoning \<Rightarrow> string \<Rightarrow> diagnostic \<Rightarrow> diagnostic" where
  "with_help derive help d = refresh_reasoning derive (d\<lparr>d_help := d_help d @ [help]\<rparr>)"

definition with_fix :: "derive_reasoning \<Rightarrow> suggested_fix \<Rightarrow> diagnostic \<Rightarrow> diagnostic" where
  "with_fix derive fx d =
     refresh_reasoning derive (d\<lparr>d_suggested_fixes := d_suggested_fixes d @ [fx]\<rparr>)"

definition is_error :: "diagnostic \<Rightarrow> bool" where
  "is_error d = (d_severity d = SevError)"

type_synonym diagnostic_bag = "diagnostic list"

definition bag_push :: "diagnostic \<Rightarrow> diagnostic_bag \<Rightarrow> diagnostic_bag" where
  "bag_push d bag = bag @ [d]"

definition bag_extend :: "diagnostic list \<Rightarrow> diagnostic_bag \<Rightarrow> diagnostic_bag" where
  "bag_extend ds bag = bag @ ds"

definition bag_has_errors :: "diagnostic_bag \<Rightarrow> bool" where
  "bag_has_errors bag = list_ex is_error bag"

section \<open>Lines and columns\<close>

fun line_col_loop :: "nat \<Rightarrow> nat \<Rightarrow> nat \<Rightarrow> (nat \<times> rchar \<times> nat) list \<Rightarrow> nat \<times> nat" where
  "line_col_loop clamped line col [] = (line, col)"
| "line_col_loop clamped line col ((idx, ch, width) # rest) =
     (if idx \<ge> clamped \<or> idx + width > clamped then (line, col)
      else if ch = 10 then line_col_loop clamped (line + 1) 1 rest
      else line_col_loop clamped line (col + 1) rest)"

definition offset_to_line_col :: "string \<Rightarrow> nat \<Rightarrow> nat \<times> nat" where
  "offset_to_line_col source offset =
     line_col_loop (min offset (length source)) 1 1 (char_indices source)"

definition fill_span_position :: "string \<Rightarrow> diag_span \<Rightarrow> diag_span" where
  "fill_span_position source s =
     (if ds_start_line s \<noteq> None then s
      else let (sl, sc) = offset_to_line_col source (ds_start s);
               (el, ec) = offset_to_line_col source (max (ds_end s) (ds_start s)) in
        s\<lparr>ds_start_line := Some sl, ds_start_column := Some sc,
          ds_end_line := Some el, ds_end_column := Some ec\<rparr>)"

definition map_spans :: "(diag_span \<Rightarrow> diag_span) \<Rightarrow> diagnostic list \<Rightarrow> diagnostic list" where
  "map_spans f ds = map (\<lambda>d. d\<lparr>d_spans := map f (d_spans d)\<rparr>) ds"

definition attach_line_columns_with_source ::
  "string \<Rightarrow> string \<Rightarrow> diagnostic list \<Rightarrow> diagnostic list" where
  "attach_line_columns_with_source file source ds =
     map_spans (\<lambda>s. if ds_file s = file then fill_span_position source s else s) ds"

text \<open>\<open>read\<close> is \<open>fs::read_to_string(..).ok()\<close>; the cache of the code reads every file once.\<close>

definition attach_line_columns :: "(string \<Rightarrow> string option) \<Rightarrow> diagnostic list \<Rightarrow> diagnostic list" where
  "attach_line_columns read ds =
     map_spans (\<lambda>s.
       if ds_start_line s = None \<and> ds_file s \<noteq> []
       then (case read (ds_file s) of None \<Rightarrow> s | Some source \<Rightarrow> fill_span_position source s)
       else s) ds"

fun dedup_loop :: "diagnostic list \<Rightarrow> diagnostic list \<Rightarrow> diagnostic list" where
  "dedup_loop seen [] = []"
| "dedup_loop seen (d # ds) =
     (if d \<in> set seen then dedup_loop seen ds else d # dedup_loop (seen @ [d]) ds)"

definition dedup_diagnostics :: "diagnostic list \<Rightarrow> diagnostic list" where
  "dedup_diagnostics = dedup_loop []"

section \<open>Facts\<close>

definition line_of :: "rchar list \<Rightarrow> nat" where
  "line_of cs = 1 + count_list cs 10"

definition col_of :: "rchar list \<Rightarrow> nat" where
  "col_of cs = 1 + length (takeWhile (\<lambda>c. c \<noteq> 10) (rev cs))"

lemma line_col_snoc:
  "line_of (cs @ [c]) = (if c = 10 then line_of cs + 1 else line_of cs)"
  "col_of (cs @ [c]) = (if c = 10 then 1 else col_of cs + 1)"
  by (simp_all add: line_of_def col_of_def)

lemma indexed_chars_ge:
  "(i, c, w) \<in> set (indexed_chars j cs) \<Longrightarrow> j \<le> i"
  by (induction cs arbitrary: j) fastforce+

lemma line_col_loop_stop:
  assumes "k \<le> length cs"
    and "i + length (utf8_encode_all (take k cs)) \<le> o'"
    and "k < length cs \<Longrightarrow> o' < i + length (utf8_encode_all (take (Suc k) cs))"
  shows "line_col_loop o' (line_of pre) (col_of pre) (indexed_chars i cs) =
    (line_of (pre @ take k cs), col_of (pre @ take k cs))"
  using assms
proof (induction k arbitrary: pre i cs)
  case 0
  then show ?case
    by (cases cs) auto
next
  case (Suc k)
  then obtain c cs' where cs: "cs = c # cs'"
    by (cases cs) auto
  moreover have "0 < length (utf8_encode c)"
    by simp
  ultimately have "i < o'" "i + length (utf8_encode c) \<le> o'"
    using Suc.prems(2) by (simp_all add: cs del: length_greater_0_conv)
  moreover have "line_col_loop o' (line_of (pre @ [c])) (col_of (pre @ [c]))
      (indexed_chars (i + length (utf8_encode c)) cs') =
      (line_of ((pre @ [c]) @ take k cs'), col_of ((pre @ [c]) @ take k cs'))"
    using Suc.prems by (intro Suc.IH) (auto simp: cs add.assoc)
  ultimately show ?case
    by (simp add: cs line_col_snoc split: if_splits)
qed

lemma dedup_loop_set: "set (dedup_loop seen ds) = set ds - set seen"
  by (induction ds arbitrary: seen) auto

lemma dedup_loop_distinct: "distinct (dedup_loop seen ds)"
  by (induction ds arbitrary: seen) (auto simp: dedup_loop_set)

lemma dedup_loop_seen: "set seen = set seen' \<Longrightarrow> dedup_loop seen ds = dedup_loop seen' ds"
proof (induction ds arbitrary: seen seen')
  case (Cons d ds)
  show ?case
    using Cons.IH [of seen seen'] Cons.IH [of "seen @ [d]" "seen' @ [d]"] Cons.prems by simp
qed simp

lemma dedup_loop_append:
  "dedup_loop seen (xs @ ys) = dedup_loop seen xs @ dedup_loop (seen @ xs) ys"
proof (induction xs arbitrary: seen)
  case Nil
  then show ?case by simp
next
  case (Cons x xs)
  have "dedup_loop (seen @ xs) ys = dedup_loop (seen @ x # xs) ys" if "x \<in> set seen"
    using that by (intro dedup_loop_seen) auto
  then show ?case
    using Cons by simp
qed



text \<open>
  Removing duplicate diagnostics keeps every diagnostic exactly once, and keeps the first
  occurrences in their order: what a prefix contributes does not depend on what follows, and a
  later diagnostic is kept only when it did not occur before.
\<close>

theorem dedup_diagnostics_correct:
  "distinct (dedup_diagnostics ds) \<and> set (dedup_diagnostics ds) = set ds \<and>
   dedup_diagnostics (xs @ [d]) =
     dedup_diagnostics xs @ (if d \<in> set xs then [] else [d])"
  by (simp add: dedup_diagnostics_def dedup_loop_distinct dedup_loop_set dedup_loop_append)

lemma registry_successive: "successively (<) REGISTERED_DIAGNOSTIC_CODES"
  by code_simp

lemma registry_valid: "list_all is_valid_format REGISTERED_DIAGNOSTIC_CODES"
  by code_simp

lemma assert_registered_iff: "assert_registered code = Some () \<longleftrightarrow> is_registered code"
  using registry_valid by (auto simp: assert_registered_def is_registered_def list_all_iff)

text \<open>
  The code registry is strictly ascending, as its binary search needs, every entry has the
  form E followed by four digits, and so constructing a diagnostic panics exactly for a code that
  is not in the registry.
\<close>

theorem registry_wellformed:
  "sorted_wrt (<) REGISTERED_DIAGNOSTIC_CODES \<and>
   list_all is_valid_format REGISTERED_DIAGNOSTIC_CODES \<and>
   (diagnostic_error derive code message file sp \<noteq> None \<longleftrightarrow> is_registered code)"
proof -
  have "sorted_wrt (<) REGISTERED_DIAGNOSTIC_CODES"
    using registry_successive by (subst (asm) successively_conv_sorted_wrt) (auto intro: transpI)
  then show ?thesis
    using registry_valid assert_registered_iff [of code] by (auto simp: diagnostic_error_def)
qed

end
