(* ===== verification/ContractRanges.thy ===== *)
theory ContractRanges
  imports Ir "HOL-Library.Signed_Division"
begin

text \<open>
  The static side of \<open>src/contracts.rs\<close>: the interval analysis that decides whether a
  \<open>requires\<close>, \<open>ensures\<close> or struct invariant always holds, never holds, or must be checked at run
  time. The constant folder computes with plain \<open>i64\<close> operators, so it panics on a division by
  zero and, in a build with overflow checks (\<open>oc\<close>), on overflow; \<open>None\<close> of the outer option is
  that panic.
\<close>

section \<open>\<open>i64\<close> arithmetic\<close>

definition i64_fits :: "int \<Rightarrow> bool" where
  "i64_fits i = (- (2 ^ 63) \<le> i \<and> i < 2 ^ 63)"

definition checked :: "(int \<Rightarrow> int \<Rightarrow> int) \<Rightarrow> i64 \<Rightarrow> i64 \<Rightarrow> i64 option" where
  "checked f a b =
     (if i64_fits (f (sint a) (sint b)) then Some (word_of_int (f (sint a) (sint b))) else None)"

abbreviation checked_add :: "i64 \<Rightarrow> i64 \<Rightarrow> i64 option" where
  "checked_add \<equiv> checked (+)"

abbreviation checked_sub :: "i64 \<Rightarrow> i64 \<Rightarrow> i64 option" where
  "checked_sub \<equiv> checked (-)"

definition checked_neg :: "i64 \<Rightarrow> i64 option" where
  "checked_neg a = checked (\<lambda>_ x. - x) 0 a"

text \<open>The plain operators \<open>+\<close>, \<open>-\<close>, \<open>*\<close>: with overflow checks they panic, without they wrap.\<close>

definition rust_op :: "bool \<Rightarrow> (int \<Rightarrow> int \<Rightarrow> int) \<Rightarrow> i64 \<Rightarrow> i64 \<Rightarrow> i64 option" where
  "rust_op oc f a b =
     (if oc \<and> \<not> i64_fits (f (sint a) (sint b)) then None
      else Some (word_of_int (f (sint a) (sint b))))"

text \<open>\<open>/\<close> and \<open>%\<close> truncate towards zero and panic on zero and on overflow in every build.\<close>

definition rust_div :: "(int \<Rightarrow> int \<Rightarrow> int) \<Rightarrow> i64 \<Rightarrow> i64 \<Rightarrow> i64 option" where
  "rust_div f a b =
     (if b = 0 \<or> \<not> i64_fits (sint a sdiv sint b) then None
      else Some (word_of_int (f (sint a) (sint b))))"

lemma i64_fits_sint [simp]: "i64_fits (sint (a :: i64))"
  using sint_greater_eq [of a] sint_less [of a] by (simp add: i64_fits_def)

lemma sint_word_of_int [simp]: "i64_fits i \<Longrightarrow> sint (word_of_int i :: i64) = i"
  by (simp add: i64_fits_def signed_of_int signed_take_bit_int_eq_self)

lemma checked_Some:
  "checked f a b = Some c \<longleftrightarrow> i64_fits (f (sint a) (sint b)) \<and> sint c = f (sint a) (sint b)"
  by (auto simp: checked_def) (metis of_int_sint scast_id)

section \<open>Intervals\<close>

datatype proof_state = PTrue | PFalse | PUnknown

record int_range =
  rng_lower :: "i64 option"
  rng_upper :: "i64 option"

definition unbounded :: int_range where
  "unbounded = \<lparr>rng_lower = None, rng_upper = None\<rparr>"

definition singleton :: "i64 \<Rightarrow> int_range" where
  "singleton v = \<lparr>rng_lower = Some v, rng_upper = Some v\<rparr>"

fun checked_add_bound :: "i64 option \<Rightarrow> i64 option \<Rightarrow> i64 option" where
  "checked_add_bound (Some l) (Some r) = checked_add l r"
| "checked_add_bound _ _ = None"

fun checked_sub_bound :: "i64 option \<Rightarrow> i64 option \<Rightarrow> i64 option" where
  "checked_sub_bound (Some l) (Some r) = checked_sub l r"
| "checked_sub_bound _ _ = None"

definition range_add :: "int_range \<Rightarrow> int_range \<Rightarrow> int_range" where
  "range_add a b =
     \<lparr>rng_lower = checked_add_bound (rng_lower a) (rng_lower b),
      rng_upper = checked_add_bound (rng_upper a) (rng_upper b)\<rparr>"

definition range_sub :: "int_range \<Rightarrow> int_range \<Rightarrow> int_range" where
  "range_sub a b =
     \<lparr>rng_lower = checked_sub_bound (rng_lower a) (rng_upper b),
      rng_upper = checked_sub_bound (rng_upper a) (rng_lower b)\<rparr>"

definition range_neg :: "int_range \<Rightarrow> int_range" where
  "range_neg a =
     \<lparr>rng_lower = Option.bind (rng_upper a) checked_neg,
      rng_upper = Option.bind (rng_lower a) checked_neg\<rparr>"

fun bounds_conflict :: "i64 option \<Rightarrow> i64 option \<Rightarrow> bool" where
  "bounds_conflict (Some l) (Some u) = (sint u < sint l)"
| "bounds_conflict _ _ = False"

definition i64_min :: "i64 \<Rightarrow> i64 \<Rightarrow> i64" where
  "i64_min a b = (if sint a \<le> sint b then a else b)"

definition i64_max :: "i64 \<Rightarrow> i64 \<Rightarrow> i64" where
  "i64_max a b = (if sint a \<le> sint b then b else a)"

fun min_bound :: "i64 option \<Rightarrow> i64 option \<Rightarrow> i64 option" where
  "min_bound (Some l) (Some r) = Some (i64_min l r)"
| "min_bound (Some l) None = Some l"
| "min_bound None r = r"

fun max_bound :: "i64 option \<Rightarrow> i64 option \<Rightarrow> i64 option" where
  "max_bound (Some l) (Some r) = Some (i64_max l r)"
| "max_bound (Some l) None = Some l"
| "max_bound None r = r"

text \<open>\<open>if let (Some(a), Some(b)) = .. { if a OP b { .. } }\<close>\<close>

definition both :: "(int \<Rightarrow> int \<Rightarrow> bool) \<Rightarrow> i64 option \<Rightarrow> i64 option \<Rightarrow> bool" where
  "both P x y = (case (x, y) of (Some a, Some b) \<Rightarrow> P (sint a) (sint b) | _ \<Rightarrow> False)"

definition ranges_disjoint :: "int_range \<Rightarrow> int_range \<Rightarrow> bool" where
  "ranges_disjoint l r \<longleftrightarrow>
     both (<) (rng_upper l) (rng_lower r) \<or> both (<) (rng_upper r) (rng_lower l)"

section \<open>The constant folder\<close>

datatype cvalue = CInt i64 | CBool bool

fun const_unop :: "bool \<Rightarrow> unary_op \<Rightarrow> cvalue \<Rightarrow> cvalue option option" where
  "const_unop oc Neg (CInt i) = map_option (Some \<circ> CInt) (rust_op oc (\<lambda>_ x. - x) 0 i)"
| "const_unop oc Not (CBool b) = Some (Some (CBool (\<not> b)))"
| "const_unop _ _ _ = Some None"

fun const_binop :: "bool \<Rightarrow> bin_op \<Rightarrow> cvalue \<Rightarrow> cvalue \<Rightarrow> cvalue option option" where
  "const_binop oc Add (CInt a) (CInt b) = map_option (Some \<circ> CInt) (rust_op oc (+) a b)"
| "const_binop oc Sub (CInt a) (CInt b) = map_option (Some \<circ> CInt) (rust_op oc (-) a b)"
| "const_binop oc Mul (CInt a) (CInt b) = map_option (Some \<circ> CInt) (rust_op oc (*) a b)"
| "const_binop oc Div (CInt a) (CInt b) = map_option (Some \<circ> CInt) (rust_div (sdiv) a b)"
| "const_binop oc Mod (CInt a) (CInt b) = map_option (Some \<circ> CInt) (rust_div (smod) a b)"
| "const_binop _ Eq (CInt a) (CInt b) = Some (Some (CBool (a = b)))"
| "const_binop _ Eq (CBool a) (CBool b) = Some (Some (CBool (a = b)))"
| "const_binop _ Ne (CInt a) (CInt b) = Some (Some (CBool (a \<noteq> b)))"
| "const_binop _ Ne (CBool a) (CBool b) = Some (Some (CBool (a \<noteq> b)))"
| "const_binop _ Lt (CInt a) (CInt b) = Some (Some (CBool (sint a < sint b)))"
| "const_binop _ Le (CInt a) (CInt b) = Some (Some (CBool (sint a \<le> sint b)))"
| "const_binop _ Gt (CInt a) (CInt b) = Some (Some (CBool (sint a > sint b)))"
| "const_binop _ Ge (CInt a) (CInt b) = Some (Some (CBool (sint a \<ge> sint b)))"
| "const_binop _ And (CBool a) (CBool b) = Some (Some (CBool (a \<and> b)))"
| "const_binop _ Or (CBool a) (CBool b) = Some (Some (CBool (a \<or> b)))"
| "const_binop _ _ _ _ = Some None"

text \<open>The \<open>?\<close> of the code on an \<open>Option\<close> whose computation may panic.\<close>

definition try_opt :: "'a option option \<Rightarrow> ('a \<Rightarrow> 'b option option) \<Rightarrow> 'b option option" where
  "try_opt m f = (case m of None \<Rightarrow> None | Some None \<Rightarrow> Some None | Some (Some x) \<Rightarrow> f x)"

lemma try_opt_cong [fundef_cong]:
  "m = m' \<Longrightarrow> (\<And>x. m' = Some (Some x) \<Longrightarrow> f x = g x) \<Longrightarrow> try_opt m f = try_opt m' g"
  by (auto simp: try_opt_def split: option.split)

lemma try_opt_Some_Some:
  "try_opt m f = Some (Some y) \<longleftrightarrow> (\<exists>x. m = Some (Some x) \<and> f x = Some (Some y))"
  by (auto simp: try_opt_def split: option.split)

fun eval_const :: "bool \<Rightarrow> ir_expr \<Rightarrow> cvalue option option" where
  "eval_const oc (IExpr _ (IInt v _) _) = Some (Some (CInt v))"
| "eval_const oc (IExpr _ (IBool v) _) = Some (Some (CBool v))"
| "eval_const oc (IExpr _ (IUnary op e) _) = try_opt (eval_const oc e) (const_unop oc op)"
| "eval_const oc (IExpr _ (IBinary op l r) _) =
     try_opt (eval_const oc l) (\<lambda>a. try_opt (eval_const oc r) (const_binop oc op a))"
| "eval_const oc _ = Some None"

section \<open>The interval evaluator\<close>

type_synonym range_env = "(string, int_range) btree_map"

definition env_range :: "range_env \<Rightarrow> string \<Rightarrow> int_range" where
  "env_range env x = (case bt_get env x of None \<Rightarrow> unbounded | Some r \<Rightarrow> r)"

text \<open>The last match arm: only a constant integer has a range.\<close>

definition const_range :: "bool \<Rightarrow> ir_expr \<Rightarrow> int_range option option" where
  "const_range oc e =
     map_option (\<lambda>v. case v of Some (CInt i) \<Rightarrow> Some (singleton i) | _ \<Rightarrow> None) (eval_const oc e)"

function eval_int_range ::
  "bool \<Rightarrow> ir_expr \<Rightarrow> range_env \<Rightarrow> ir_expr option \<Rightarrow> int_range option option" where
  "eval_int_range oc (IExpr n k sp) env res =
     (case k of
        IInt v _ \<Rightarrow> Some (Some (singleton v))
      | IVar name \<Rightarrow>
          (if name = ''result''
           then (case res of None \<Rightarrow> Some None | Some v \<Rightarrow> eval_int_range oc v env None)
           else Some (Some (env_range env name)))
      | IUnary Neg e \<Rightarrow> try_opt (eval_int_range oc e env res) (\<lambda>r. Some (Some (range_neg r)))
      | IBinary Add l r \<Rightarrow>
          try_opt (eval_int_range oc l env res) (\<lambda>a.
            try_opt (eval_int_range oc r env res) (\<lambda>b. Some (Some (range_add a b))))
      | IBinary Sub l r \<Rightarrow>
          try_opt (eval_int_range oc l env res) (\<lambda>a.
            try_opt (eval_int_range oc r env res) (\<lambda>b. Some (Some (range_sub a b))))
      | _ \<Rightarrow> const_range oc (IExpr n k sp))"
  by pat_completeness auto
termination
  by (relation "measure (\<lambda>(_, e, _, res). size e + (case res of None \<Rightarrow> 0 | Some v \<Rightarrow> size v))") auto

declare eval_int_range.simps [simp del]

fun same_int_expr :: "ir_expr \<Rightarrow> ir_expr \<Rightarrow> bool" where
  "same_int_expr (IExpr n k sp) e' =
     (case k of
        IInt a _ \<Rightarrow> (case ie_kind e' of IInt b _ \<Rightarrow> a = b | _ \<Rightarrow> False)
      | IVar a \<Rightarrow> (case ie_kind e' of IVar b \<Rightarrow> a = b | _ \<Rightarrow> False)
      | IUnary op a \<Rightarrow>
          (case ie_kind e' of
             IUnary op' b \<Rightarrow> op = Neg \<and> op' = Neg \<and> same_int_expr a b
           | _ \<Rightarrow> False)
      | IBinary op l r \<Rightarrow>
          (case ie_kind e' of
             IBinary op' l' r' \<Rightarrow>
               op = op' \<and> (op = Add \<or> op = Sub) \<and> same_int_expr l l' \<and> same_int_expr r r'
           | _ \<Rightarrow> False)
      | _ \<Rightarrow> False)"

declare same_int_expr.simps [simp del]

fun compare_same :: "bin_op \<Rightarrow> proof_state" where
  "compare_same op =
     (if op \<in> {Eq, Le, Ge} then PTrue else if op \<in> {Ne, Lt, Gt} then PFalse else PUnknown)"

fun negate_state :: "proof_state \<Rightarrow> proof_state" where
  "negate_state PTrue = PFalse"
| "negate_state PFalse = PTrue"
| "negate_state PUnknown = PUnknown"

definition decide :: "bool \<Rightarrow> bool \<Rightarrow> proof_state" where
  "decide t f = (if t then PTrue else if f then PFalse else PUnknown)"

definition compare_eq :: "int_range \<Rightarrow> int_range \<Rightarrow> proof_state" where
  "compare_eq l r =
     decide (rng_lower l = rng_upper l \<and> rng_lower l \<noteq> None \<and> rng_lower l = rng_lower r \<and>
             rng_lower r = rng_upper r) (ranges_disjoint l r)"

fun compare_ranges :: "bin_op \<Rightarrow> int_range \<Rightarrow> int_range \<Rightarrow> proof_state" where
  "compare_ranges Lt l r =
     decide (both (<) (rng_upper l) (rng_lower r)) (both (\<ge>) (rng_lower l) (rng_upper r))"
| "compare_ranges Le l r =
     decide (both (\<le>) (rng_upper l) (rng_lower r)) (both (>) (rng_lower l) (rng_upper r))"
| "compare_ranges Gt l r =
     decide (both (>) (rng_lower l) (rng_upper r)) (both (\<le>) (rng_upper l) (rng_lower r))"
| "compare_ranges Ge l r =
     decide (both (\<ge>) (rng_lower l) (rng_upper r)) (both (<) (rng_upper l) (rng_lower r))"
| "compare_ranges Eq l r = compare_eq l r"
| "compare_ranges Ne l r = negate_state (compare_eq l r)"
| "compare_ranges _ l r = PUnknown"

text \<open>\<open>Ne\<close> recurses in the code with \<open>Eq\<close>, which finds the same ranges again.\<close>

definition eval_comparison ::
  "bool \<Rightarrow> bin_op \<Rightarrow> ir_expr \<Rightarrow> ir_expr \<Rightarrow> range_env \<Rightarrow> ir_expr option \<Rightarrow> proof_state option" where
  "eval_comparison oc op l r env res =
     (if same_int_expr l r then Some (compare_same op)
      else map_option (\<lambda>s. case s of None \<Rightarrow> PUnknown | Some s \<Rightarrow> s)
        (try_opt (eval_int_range oc l env res) (\<lambda>a.
           try_opt (eval_int_range oc r env res) (\<lambda>b. Some (Some (compare_ranges op a b))))))"

fun and_state :: "proof_state \<Rightarrow> proof_state \<Rightarrow> proof_state" where
  "and_state PFalse _ = PFalse"
| "and_state _ PFalse = PFalse"
| "and_state PTrue PTrue = PTrue"
| "and_state _ _ = PUnknown"

fun or_state :: "proof_state \<Rightarrow> proof_state \<Rightarrow> proof_state" where
  "or_state PTrue _ = PTrue"
| "or_state _ PTrue = PTrue"
| "or_state PFalse PFalse = PFalse"
| "or_state _ _ = PUnknown"

definition const_state :: "bool \<Rightarrow> ir_expr \<Rightarrow> proof_state option" where
  "const_state oc e =
     map_option (\<lambda>v. case v of Some (CBool b) \<Rightarrow> (if b then PTrue else PFalse) | _ \<Rightarrow> PUnknown)
       (eval_const oc e)"

fun eval_logic :: "bool \<Rightarrow> ir_expr \<Rightarrow> range_env \<Rightarrow> ir_expr option \<Rightarrow> proof_state option" where
  "eval_logic oc (IExpr n k sp) env res =
     (case k of
        IBool v \<Rightarrow> Some (if v then PTrue else PFalse)
      | IUnary Not e \<Rightarrow> map_option negate_state (eval_logic oc e env res)
      | IBinary And l r \<Rightarrow>
          Option.bind (eval_logic oc l env res) (\<lambda>a.
            map_option (and_state a) (eval_logic oc r env res))
      | IBinary Or l r \<Rightarrow>
          Option.bind (eval_logic oc l env res) (\<lambda>a.
            map_option (or_state a) (eval_logic oc r env res))
      | IBinary op l r \<Rightarrow> eval_comparison oc op l r env res
      | _ \<Rightarrow> const_state oc (IExpr n k sp))"

declare eval_logic.simps [simp del]

definition prove_expression ::
  "bool \<Rightarrow> ir_expr \<Rightarrow> range_env \<Rightarrow> ir_expr option \<Rightarrow> proof_state option" where
  "prove_expression = eval_logic"

section \<open>Paths to the result\<close>

fun invert_cmp :: "bin_op \<Rightarrow> bin_op option" where
  "invert_cmp Lt = Some Ge"
| "invert_cmp Le = Some Gt"
| "invert_cmp Gt = Some Le"
| "invert_cmp Ge = Some Lt"
| "invert_cmp Eq = Some Ne"
| "invert_cmp Ne = Some Eq"
| "invert_cmp _ = None"

fun flip_cmp :: "bin_op \<Rightarrow> bin_op option" where
  "flip_cmp Lt = Some Gt"
| "flip_cmp Le = Some Ge"
| "flip_cmp Gt = Some Lt"
| "flip_cmp Ge = Some Le"
| "flip_cmp Eq = Some Eq"
| "flip_cmp Ne = Some Ne"
| "flip_cmp _ = None"

definition extract_var_const_cmp ::
  "ir_expr \<Rightarrow> ir_expr \<Rightarrow> bin_op \<Rightarrow> (string \<times> bin_op \<times> i64) option" where
  "extract_var_const_cmp l r op =
     (case (ie_kind l, ie_kind r) of
        (IVar name, IInt v _) \<Rightarrow> Some (name, op, v)
      | (IInt v _, IVar name) \<Rightarrow> map_option (\<lambda>op'. (name, op', v)) (flip_cmp op)
      | _ \<Rightarrow> None)"

fun narrow :: "bin_op \<Rightarrow> i64 \<Rightarrow> int_range \<Rightarrow> int_range option" where
  "narrow Lt v r = Some (r\<lparr>rng_upper := min_bound (rng_upper r) (checked_sub v 1)\<rparr>)"
| "narrow Le v r = Some (r\<lparr>rng_upper := min_bound (rng_upper r) (Some v)\<rparr>)"
| "narrow Gt v r = Some (r\<lparr>rng_lower := max_bound (rng_lower r) (checked_add v 1)\<rparr>)"
| "narrow Ge v r = Some (r\<lparr>rng_lower := max_bound (rng_lower r) (Some v)\<rparr>)"
| "narrow Eq v r = Some \<lparr>rng_lower = Some v, rng_upper = Some v\<rparr>"
| "narrow Ne v r = Some r"
| "narrow _ v r = None"

fun refine_env_for_condition :: "range_env \<Rightarrow> ir_expr \<Rightarrow> bool \<Rightarrow> range_env option" where
  "refine_env_for_condition env (IExpr _ (IBinary op l r) _) truth =
     (case (if truth then Some op else invert_cmp op) of
        None \<Rightarrow> None
      | Some cmp \<Rightarrow>
          (case extract_var_const_cmp l r cmp of
             None \<Rightarrow> Some env
           | Some (name, cmp', v) \<Rightarrow>
               (case narrow cmp' v (env_range env name) of
                  None \<Rightarrow> Some env
                | Some rng \<Rightarrow>
                    (if bounds_conflict (rng_lower rng) (rng_upper rng) then None
                     else Some (bt_insert name rng env)))))"
| "refine_env_for_condition env _ truth = Some env"

record tail_path =
  tp_env :: range_env
  tp_result_expr :: "ir_expr option"

text \<open>The paths of one branch of an \<open>if\<close>: none when the condition excludes it.\<close>

definition branch_paths ::
  "range_env option \<Rightarrow> (range_env \<Rightarrow> tail_path list option) \<Rightarrow> tail_path list option" where
  "branch_paths env f = (case env of None \<Rightarrow> Some [] | Some e \<Rightarrow> f e)"

lemma branch_paths_cong [fundef_cong]:
  "env = env' \<Longrightarrow> (\<And>e. env' = Some e \<Longrightarrow> f e = g e) \<Longrightarrow> branch_paths env f = branch_paths env' g"
  by (auto simp: branch_paths_def split: option.split)

fun collect_expr_paths :: "ir_expr \<Rightarrow> range_env \<Rightarrow> tail_path list option"
  and collect_tail_paths :: "ir_block \<Rightarrow> range_env \<Rightarrow> tail_path list option" where
  "collect_expr_paths (IExpr n k sp) env =
     (case k of
        IIf c t e \<Rightarrow>
          Option.bind (branch_paths (refine_env_for_condition env c True) (collect_tail_paths t))
            (\<lambda>ps. Option.bind
              (branch_paths (refine_env_for_condition env c False) (collect_tail_paths e))
              (\<lambda>qs. Some (ps @ qs)))
      | IReturn v \<Rightarrow> Some [\<lparr>tp_env = env, tp_result_expr = v\<rparr>]
      | _ \<Rightarrow> Some [\<lparr>tp_env = env, tp_result_expr = Some (IExpr n k sp)\<rparr>])"
| "collect_tail_paths (IBlock n ss t sp) env =
     (if ss \<noteq> [] then None
      else case t of
        Some e \<Rightarrow> collect_expr_paths e env
      | None \<Rightarrow> Some [\<lparr>tp_env = env, tp_result_expr = None\<rparr>])"

declare collect_expr_paths.simps [simp del]

text \<open>The loop over the paths: \<open>PFalse\<close> on one of them ends it.\<close>

fun prove_paths :: "bool \<Rightarrow> ir_expr \<Rightarrow> bool \<Rightarrow> tail_path list \<Rightarrow> proof_state option" where
  "prove_paths oc ens saw [] = Some (if saw then PUnknown else PTrue)"
| "prove_paths oc ens saw (p # ps) =
     Option.bind (prove_expression oc ens (tp_env p) (tp_result_expr p)) (\<lambda>s.
       case s of
         PFalse \<Rightarrow> Some PFalse
       | PTrue \<Rightarrow> prove_paths oc ens saw ps
       | PUnknown \<Rightarrow> prove_paths oc ens True ps)"

definition prove_ensures :: "bool \<Rightarrow> ir_function \<Rightarrow> ir_expr \<Rightarrow> range_env \<Rightarrow> proof_state option" where
  "prove_ensures oc f ens env =
     Option.bind (prove_expression oc ens env None) (\<lambda>direct.
       if direct \<noteq> PUnknown then Some direct
       else case collect_tail_paths (if_body f) env of
         None \<Rightarrow> Some PUnknown
       | Some paths \<Rightarrow> if paths = [] then Some PUnknown else prove_paths oc ens False paths)"

definition unconstrained_env :: "string list \<Rightarrow> range_env" where
  "unconstrained_env names = bt_collect (map (\<lambda>x. (x, unbounded)) names)"

definition unconstrained_param_env :: "ir_function \<Rightarrow> range_env" where
  "unconstrained_param_env f = unconstrained_env (map ip_name (if_params f))"

definition unconstrained_field_env :: "ir_struct_def \<Rightarrow> range_env" where
  "unconstrained_field_env d = unconstrained_env (map ifd_name (isd_fields d))"

end
