(* ===== verification/ContractLowering.thy ===== *)
theory ContractLowering
  imports ContractRanges
begin

text \<open>
  The run-time side of \<open>src/contracts.rs\<close>: contracts that are not discharged become assertions,
  struct literals of types with an invariant become calls of a generated constructor, and every
  exit of a function with a residual \<open>ensures\<close> binds its result and asserts the contract on it.
  \<open>IdAlloc\<close> is the state of a state monad. A panic of the constant folder (theory
  \<open>ContractRanges\<close>) ends the compiler before anything is lowered, so it is the option around
  \<open>lower_function_contracts\<close> and what calls it.
\<close>

section \<open>Fresh ids\<close>

record id_alloc =
  alc_next_symbol :: nat
  alc_next_node :: nat
  alc_next_type :: nat

definition alloc_symbol :: "(id_alloc, symbol_id) state" where
  "alloc_symbol = State (\<lambda>a. (alc_next_symbol a, a\<lparr>alc_next_symbol := alc_next_symbol a + 1\<rparr>))"

definition alloc_node :: "(id_alloc, node_id) state" where
  "alloc_node = State (\<lambda>a. (alc_next_node a, a\<lparr>alc_next_node := alc_next_node a + 1\<rparr>))"

definition alloc_type :: "(id_alloc, type_id) state" where
  "alloc_type = State (\<lambda>a. (alc_next_type a, a\<lparr>alc_next_type := alc_next_type a + 1\<rparr>))"

definition max_list :: "nat list \<Rightarrow> nat" where
  "max_list xs = fold max xs 0"

fun max_node_pattern :: "ir_pattern \<Rightarrow> nat"
  and max_node_pattern_field :: "ir_struct_pattern_field \<Rightarrow> nat" where
  "max_node_pattern (IPattern n k sp) =
     max n (case k of
        IPOr ps \<Rightarrow> max_list (map max_node_pattern ps)
      | IPVariant _ ps \<Rightarrow> max_list (map max_node_pattern ps)
      | IPStruct _ fs _ \<Rightarrow> max_list (map max_node_pattern_field fs)
      | _ \<Rightarrow> 0)"
| "max_node_pattern_field (IStructPatternField _ p) = max_node_pattern p"

fun max_node_expr :: "ir_expr \<Rightarrow> nat"
  and max_node_kind :: "ir_expr_kind \<Rightarrow> nat"
  and max_node_block :: "ir_block \<Rightarrow> nat"
  and max_node_stmt :: "ir_stmt \<Rightarrow> nat"
  and max_node_arm :: "ir_match_arm \<Rightarrow> nat" where
  "max_node_expr (IExpr n k sp) = max n (max_node_kind k)"
| "max_node_kind (ICall c args _ _) = max (max_node_expr c) (max_list (map max_node_expr args))"
| "max_node_kind (IClosure _ _ b) = max_node_block b"
| "max_node_kind (IIf c t e) = max (max_node_expr c) (max (max_node_block t) (max_node_block e))"
| "max_node_kind (IMatch e arms) = max (max_node_expr e) (max_list (map max_node_arm arms))"
| "max_node_kind (IBinary _ l r) = max (max_node_expr l) (max_node_expr r)"
| "max_node_kind (IUnary _ e) = max_node_expr e"
| "max_node_kind (IBorrow _ e) = max_node_expr e"
| "max_node_kind (IAwait e) = max_node_expr e"
| "max_node_kind (ITry e) = max_node_expr e"
| "max_node_kind (IUnsafeBlock b) = max_node_block b"
| "max_node_kind (IStructInit _ fs) = max_list (concat_fields (\<lambda>e. [max_node_expr e]) fs)"
| "max_node_kind (IFieldAccess e _) = max_node_expr e"
| "max_node_kind (ITemplateLiteral _ args) = max_list (map max_node_expr args)"
| "max_node_kind (IWhile c b) = max (max_node_expr c) (max_node_block b)"
| "max_node_kind (ILoop b) = max_node_block b"
| "max_node_kind (IBreak e) = max_list (opt_list (\<lambda>x. [max_node_expr x]) e)"
| "max_node_kind (IReturn e) = max_list (opt_list (\<lambda>x. [max_node_expr x]) e)"
| "max_node_kind _ = 0"
| "max_node_block (IBlock n ss t sp) =
     max n (max (max_list (map max_node_stmt ss)) (max_list (opt_list (\<lambda>x. [max_node_expr x]) t)))"
| "max_node_stmt (ILet _ _ _ _ e _) = max_node_expr e"
| "max_node_stmt (IAssign _ e _) = max_node_expr e"
| "max_node_stmt (IExprStmt e _) = max_node_expr e"
| "max_node_stmt (IReturnStmt e _) = max_list (opt_list (\<lambda>x. [max_node_expr x]) e)"
| "max_node_stmt (IAssert e _ _) = max_node_expr e"
| "max_node_arm (IMatchArm p g b _) =
     max (max_node_pattern p) (max (max_list (opt_list (\<lambda>x. [max_node_expr x]) g)) (max_node_expr b))"

definition max_node_function :: "ir_function \<Rightarrow> nat" where
  "max_node_function f =
     max (max_node_block (if_body f))
       (max (max_list (opt_list (\<lambda>e. [max_node_expr e]) (if_requires f)))
         (max_list (opt_list (\<lambda>e. [max_node_expr e]) (if_ensures f))))"

fun max_node_item :: "ir_item \<Rightarrow> nat" where
  "max_node_item (IFunction f) = max_node_function f"
| "max_node_item (IImpl d) = max_list (map max_node_function (iid_methods d))"
| "max_node_item (IStruct d) = max_list (opt_list (\<lambda>e. [max_node_expr e]) (isd_invariant d))"
| "max_node_item _ = 0"

definition max_node :: "ir_program \<Rightarrow> nat" where
  "max_node p = max_list (map max_node_item (irp_items p))"

definition alloc_from_program :: "ir_program \<Rightarrow> id_alloc" where
  "alloc_from_program p =
     \<lparr>alc_next_symbol = max_list (map sym_id (irp_symbols p)) + 1,
      alc_next_node = max_node p + 1,
      alc_next_type = max_list (map tdef_id (irp_types p)) + 1\<rparr>"

text \<open>Code that also adds types to the program threads the type table with the counters.\<close>

definition with_alloc :: "(id_alloc, 'a) state \<Rightarrow> (type_def list \<times> id_alloc, 'a) state" where
  "with_alloc m = State (\<lambda>(ts, a). case run_state m a of (x, a') \<Rightarrow> (x, (ts, a')))"

definition intern_type :: "string \<Rightarrow> (type_def list \<times> id_alloc, type_id) state" where
  "intern_type repr = State (\<lambda>(ts, a).
     case List.find (\<lambda>t. tdef_repr t = repr) ts of
       Some t \<Rightarrow> (tdef_id t, (ts, a))
     | None \<Rightarrow>
         (case run_state alloc_type a of (i, a') \<Rightarrow>
            (i, (ts @ [\<lparr>tdef_id = i, tdef_repr = repr\<rparr>], a'))))"

section \<open>Copies with fresh ids\<close>

fun clone_pattern :: "ir_pattern \<Rightarrow> (id_alloc, ir_pattern) state"
  and clone_pattern_kind :: "ir_pattern_kind \<Rightarrow> (id_alloc, ir_pattern_kind) state"
  and clone_pattern_field :: "ir_struct_pattern_field \<Rightarrow> (id_alloc, ir_struct_pattern_field) state" where
  "clone_pattern (IPattern n k sp) =
     do { k' \<leftarrow> clone_pattern_kind k; n' \<leftarrow> alloc_node; ret (IPattern n' k' sp) }"
| "clone_pattern_kind (IPOr ps) = do { ps' \<leftarrow> traverse clone_pattern ps; ret (IPOr ps') }"
| "clone_pattern_kind (IPVariant name args) =
     do { args' \<leftarrow> traverse clone_pattern args; ret (IPVariant name args') }"
| "clone_pattern_kind (IPStruct name flds rest) =
     do { flds' \<leftarrow> traverse clone_pattern_field flds; ret (IPStruct name flds' rest) }"
| "clone_pattern_kind k = ret k"
| "clone_pattern_field (IStructPatternField name p) =
     do { p' \<leftarrow> clone_pattern p; ret (IStructPatternField name p') }"

fun clone_expr :: "ir_expr \<Rightarrow> (id_alloc, ir_expr) state"
  and clone_kind :: "ir_expr_kind \<Rightarrow> (id_alloc, ir_expr_kind) state"
  and clone_block :: "ir_block \<Rightarrow> (id_alloc, ir_block) state"
  and clone_stmt :: "ir_stmt \<Rightarrow> (id_alloc, ir_stmt) state"
  and clone_arm :: "ir_match_arm \<Rightarrow> (id_alloc, ir_match_arm) state" where
  "clone_expr (IExpr n k sp) =
     do { k' \<leftarrow> clone_kind k; n' \<leftarrow> alloc_node; ret (IExpr n' k' sp) }"
| "clone_kind (ICall c args names s) =
     do { c' \<leftarrow> clone_expr c; args' \<leftarrow> traverse clone_expr args; ret (ICall c' args' names s) }"
| "clone_kind (ITemplateLiteral s args) =
     do { args' \<leftarrow> traverse clone_expr args; ret (ITemplateLiteral s args') }"
| "clone_kind (IClosure ps t b) = do { b' \<leftarrow> clone_block b; ret (IClosure ps t b') }"
| "clone_kind (IIf c t e) =
     do { c' \<leftarrow> clone_expr c; t' \<leftarrow> clone_block t; e' \<leftarrow> clone_block e; ret (IIf c' t' e') }"
| "clone_kind (IWhile c b) = do { c' \<leftarrow> clone_expr c; b' \<leftarrow> clone_block b; ret (IWhile c' b') }"
| "clone_kind (ILoop b) = do { b' \<leftarrow> clone_block b; ret (ILoop b') }"
| "clone_kind (IBreak e) = do { e' \<leftarrow> traverse_opt clone_expr e; ret (IBreak e') }"
| "clone_kind (IReturn e) = do { e' \<leftarrow> traverse_opt clone_expr e; ret (IReturn e') }"
| "clone_kind (IMatch e arms) =
     do { e' \<leftarrow> clone_expr e; arms' \<leftarrow> traverse clone_arm arms; ret (IMatch e' arms') }"
| "clone_kind (IBinary op l r) =
     do { l' \<leftarrow> clone_expr l; r' \<leftarrow> clone_expr r; ret (IBinary op l' r') }"
| "clone_kind (IUnary op e) = do { e' \<leftarrow> clone_expr e; ret (IUnary op e') }"
| "clone_kind (IBorrow m e) = do { e' \<leftarrow> clone_expr e; ret (IBorrow m e') }"
| "clone_kind (IAwait e) = do { e' \<leftarrow> clone_expr e; ret (IAwait e') }"
| "clone_kind (ITry e) = do { e' \<leftarrow> clone_expr e; ret (ITry e') }"
| "clone_kind (IUnsafeBlock b) = do { b' \<leftarrow> clone_block b; ret (IUnsafeBlock b') }"
| "clone_kind (IStructInit name fs) =
     do { fs' \<leftarrow> traverse_fields clone_expr fs; ret (IStructInit name fs') }"
| "clone_kind (IFieldAccess e f) = do { e' \<leftarrow> clone_expr e; ret (IFieldAccess e' f) }"
| "clone_kind k = ret k"
| "clone_block (IBlock n ss t sp) =
     do { n' \<leftarrow> alloc_node; ss' \<leftarrow> traverse clone_stmt ss; t' \<leftarrow> traverse_opt clone_expr t;
          ret (IBlock n' ss' t' sp) }"
| "clone_stmt (ILet s x m t e sp) = do { e' \<leftarrow> clone_expr e; ret (ILet s x m t e' sp) }"
| "clone_stmt (IAssign x e sp) = do { e' \<leftarrow> clone_expr e; ret (IAssign x e' sp) }"
| "clone_stmt (IExprStmt e sp) = do { e' \<leftarrow> clone_expr e; ret (IExprStmt e' sp) }"
| "clone_stmt (IReturnStmt e sp) =
     do { e' \<leftarrow> traverse_opt clone_expr e; ret (IReturnStmt e' sp) }"
| "clone_stmt (IAssert e msg sp) = do { e' \<leftarrow> clone_expr e; ret (IAssert e' msg sp) }"
| "clone_arm (IMatchArm p g b sp) =
     do { p' \<leftarrow> clone_pattern p; g' \<leftarrow> traverse_opt clone_expr g; b' \<leftarrow> clone_expr b;
          ret (IMatchArm p' g' b' sp) }"

text \<open>Blocks nested in a contract are copied without the substitution.\<close>

fun substitute_result_var :: "string \<Rightarrow> ir_expr \<Rightarrow> (id_alloc, ir_expr) state"
  and substitute_result_kind :: "string \<Rightarrow> ir_expr_kind \<Rightarrow> (id_alloc, ir_expr_kind) state"
  and substitute_result_arm :: "string \<Rightarrow> ir_match_arm \<Rightarrow> (id_alloc, ir_match_arm) state" where
  "substitute_result_var r (IExpr n k sp) =
     do { k' \<leftarrow> substitute_result_kind r k; n' \<leftarrow> alloc_node; ret (IExpr n' k' sp) }"
| "substitute_result_kind r (IVar x) = ret (IVar (if x = ''result'' then r else x))"
| "substitute_result_kind r (ICall c args names s) =
     do { c' \<leftarrow> substitute_result_var r c; args' \<leftarrow> traverse (substitute_result_var r) args;
          ret (ICall c' args' names s) }"
| "substitute_result_kind r (ITemplateLiteral s args) =
     do { args' \<leftarrow> traverse (substitute_result_var r) args; ret (ITemplateLiteral s args') }"
| "substitute_result_kind r (IClosure ps t b) = do { b' \<leftarrow> clone_block b; ret (IClosure ps t b') }"
| "substitute_result_kind r (IIf c t e) =
     do { c' \<leftarrow> substitute_result_var r c; t' \<leftarrow> clone_block t; e' \<leftarrow> clone_block e;
          ret (IIf c' t' e') }"
| "substitute_result_kind r (IWhile c b) =
     do { c' \<leftarrow> substitute_result_var r c; b' \<leftarrow> clone_block b; ret (IWhile c' b') }"
| "substitute_result_kind r (ILoop b) = do { b' \<leftarrow> clone_block b; ret (ILoop b') }"
| "substitute_result_kind r (IBreak e) =
     do { e' \<leftarrow> traverse_opt (substitute_result_var r) e; ret (IBreak e') }"
| "substitute_result_kind r (IReturn e) =
     do { e' \<leftarrow> traverse_opt (substitute_result_var r) e; ret (IReturn e') }"
| "substitute_result_kind r (IMatch e arms) =
     do { e' \<leftarrow> substitute_result_var r e; arms' \<leftarrow> traverse (substitute_result_arm r) arms;
          ret (IMatch e' arms') }"
| "substitute_result_kind r (IBinary op a b) =
     do { a' \<leftarrow> substitute_result_var r a; b' \<leftarrow> substitute_result_var r b; ret (IBinary op a' b') }"
| "substitute_result_kind r (IUnary op e) = do { e' \<leftarrow> substitute_result_var r e; ret (IUnary op e') }"
| "substitute_result_kind r (IBorrow m e) = do { e' \<leftarrow> substitute_result_var r e; ret (IBorrow m e') }"
| "substitute_result_kind r (IAwait e) = do { e' \<leftarrow> substitute_result_var r e; ret (IAwait e') }"
| "substitute_result_kind r (ITry e) = do { e' \<leftarrow> substitute_result_var r e; ret (ITry e') }"
| "substitute_result_kind r (IUnsafeBlock b) = do { b' \<leftarrow> clone_block b; ret (IUnsafeBlock b') }"
| "substitute_result_kind r (IStructInit name fs) =
     do { fs' \<leftarrow> traverse_fields (substitute_result_var r) fs; ret (IStructInit name fs') }"
| "substitute_result_kind r (IFieldAccess e f) =
     do { e' \<leftarrow> substitute_result_var r e; ret (IFieldAccess e' f) }"
| "substitute_result_kind r k = ret k"
| "substitute_result_arm r (IMatchArm p g b sp) =
     do { p' \<leftarrow> clone_pattern p; g' \<leftarrow> traverse_opt (substitute_result_var r) g;
          b' \<leftarrow> substitute_result_var r b; ret (IMatchArm p' g' b' sp) }"

section \<open>Struct literals of types with an invariant\<close>

type_synonym name_map = "(string, string) btree_map"
type_synonym order_map = "(string, string list) btree_map"

text \<open>The two maps that the rewriting functions pass along.\<close>

record ctor_tables =
  ct_helper_names :: name_map
  ct_field_orders :: order_map

text \<open>The arguments of the constructor call, in declaration order; \<open>None\<close> if a field is missing,
  after the ids of the earlier copies are spent.\<close>

fun ctor_args ::
  "string list \<Rightarrow> (string \<times> ir_expr \<times> span) list \<Rightarrow> (id_alloc, ir_expr list option) state" where
  "ctor_args [] fs = ret (Some [])"
| "ctor_args (x # xs) fs =
     (case List.find (\<lambda>(n, _, _). n = x) fs of
        None \<Rightarrow> ret None
      | Some (_, v, _) \<Rightarrow>
          do { v' \<leftarrow> clone_expr v; rest \<leftarrow> ctor_args xs fs; ret (map_option ((#) v') rest) })"

definition route_struct_init ::
  "ctor_tables \<Rightarrow> span \<Rightarrow> string \<Rightarrow> (string \<times> ir_expr \<times> span) list \<Rightarrow>
   (id_alloc, ir_expr_kind) state" where
  "route_struct_init ct sp name fs =
     (case (bt_get (ct_helper_names ct) name, bt_get (ct_field_orders ct) name) of
        (Some helper_name, Some order) \<Rightarrow>
          do { args \<leftarrow> ctor_args order fs;
               (case args of
                  None \<Rightarrow> ret (IStructInit name fs)
                | Some args \<Rightarrow>
                    do { n \<leftarrow> alloc_node;
                         ret (ICall (IExpr n (IVar helper_name) sp) args [] None) }) }
      | _ \<Rightarrow> ret (IStructInit name fs))"

fun rewrite_struct_inits_in_expr ::
    "ctor_tables \<Rightarrow> ir_expr \<Rightarrow> (id_alloc, ir_expr) state"
  and rewrite_struct_inits_in_kind ::
    "ctor_tables \<Rightarrow> span \<Rightarrow> ir_expr_kind \<Rightarrow> (id_alloc, ir_expr_kind) state"
  and rewrite_struct_inits_in_block ::
    "ctor_tables \<Rightarrow> ir_block \<Rightarrow> (id_alloc, ir_block) state"
  and rewrite_struct_inits_in_stmt ::
    "ctor_tables \<Rightarrow> ir_stmt \<Rightarrow> (id_alloc, ir_stmt) state"
  and rewrite_struct_inits_in_arm ::
    "ctor_tables \<Rightarrow> ir_match_arm \<Rightarrow> (id_alloc, ir_match_arm) state" where
  "rewrite_struct_inits_in_expr ct (IExpr n k sp) =
     do { k' \<leftarrow> rewrite_struct_inits_in_kind ct sp k; ret (IExpr n k' sp) }"
| "rewrite_struct_inits_in_kind ct sp (ICall c args names s) =
     do { c' \<leftarrow> rewrite_struct_inits_in_expr ct c;
          args' \<leftarrow> traverse (rewrite_struct_inits_in_expr ct) args; ret (ICall c' args' names s) }"
| "rewrite_struct_inits_in_kind ct sp (ITemplateLiteral s args) =
     do { args' \<leftarrow> traverse (rewrite_struct_inits_in_expr ct) args;
          ret (ITemplateLiteral s args') }"
| "rewrite_struct_inits_in_kind ct sp (IClosure ps t b) =
     do { b' \<leftarrow> rewrite_struct_inits_in_block ct b; ret (IClosure ps t b') }"
| "rewrite_struct_inits_in_kind ct sp (IIf c t e) =
     do { c' \<leftarrow> rewrite_struct_inits_in_expr ct c; t' \<leftarrow> rewrite_struct_inits_in_block ct t;
          e' \<leftarrow> rewrite_struct_inits_in_block ct e; ret (IIf c' t' e') }"
| "rewrite_struct_inits_in_kind ct sp (IWhile c b) =
     do { c' \<leftarrow> rewrite_struct_inits_in_expr ct c; b' \<leftarrow> rewrite_struct_inits_in_block ct b;
          ret (IWhile c' b') }"
| "rewrite_struct_inits_in_kind ct sp (ILoop b) =
     do { b' \<leftarrow> rewrite_struct_inits_in_block ct b; ret (ILoop b') }"
| "rewrite_struct_inits_in_kind ct sp (IBreak e) =
     do { e' \<leftarrow> traverse_opt (rewrite_struct_inits_in_expr ct) e; ret (IBreak e') }"
| "rewrite_struct_inits_in_kind ct sp (IReturn e) =
     do { e' \<leftarrow> traverse_opt (rewrite_struct_inits_in_expr ct) e; ret (IReturn e') }"
| "rewrite_struct_inits_in_kind ct sp (IMatch e arms) =
     do { e' \<leftarrow> rewrite_struct_inits_in_expr ct e;
          arms' \<leftarrow> traverse (rewrite_struct_inits_in_arm ct) arms; ret (IMatch e' arms') }"
| "rewrite_struct_inits_in_kind ct sp (IBinary op l r) =
     do { l' \<leftarrow> rewrite_struct_inits_in_expr ct l; r' \<leftarrow> rewrite_struct_inits_in_expr ct r;
          ret (IBinary op l' r') }"
| "rewrite_struct_inits_in_kind ct sp (IUnary op e) =
     do { e' \<leftarrow> rewrite_struct_inits_in_expr ct e; ret (IUnary op e') }"
| "rewrite_struct_inits_in_kind ct sp (IBorrow m e) =
     do { e' \<leftarrow> rewrite_struct_inits_in_expr ct e; ret (IBorrow m e') }"
| "rewrite_struct_inits_in_kind ct sp (IAwait e) =
     do { e' \<leftarrow> rewrite_struct_inits_in_expr ct e; ret (IAwait e') }"
| "rewrite_struct_inits_in_kind ct sp (ITry e) =
     do { e' \<leftarrow> rewrite_struct_inits_in_expr ct e; ret (ITry e') }"
| "rewrite_struct_inits_in_kind ct sp (IUnsafeBlock b) =
     do { b' \<leftarrow> rewrite_struct_inits_in_block ct b; ret (IUnsafeBlock b') }"
| "rewrite_struct_inits_in_kind ct sp (IStructInit name fs) =
     do { fs' \<leftarrow> traverse_fields (rewrite_struct_inits_in_expr ct) fs;
          route_struct_init ct sp name fs' }"
| "rewrite_struct_inits_in_kind ct sp (IFieldAccess e f) =
     do { e' \<leftarrow> rewrite_struct_inits_in_expr ct e; ret (IFieldAccess e' f) }"
| "rewrite_struct_inits_in_kind ct sp k = ret k"
| "rewrite_struct_inits_in_block ct (IBlock n ss t sp) =
     do { ss' \<leftarrow> traverse (rewrite_struct_inits_in_stmt ct) ss;
          t' \<leftarrow> traverse_opt (rewrite_struct_inits_in_expr ct) t; ret (IBlock n ss' t' sp) }"
| "rewrite_struct_inits_in_stmt ct (ILet s x m t e sp) =
     do { e' \<leftarrow> rewrite_struct_inits_in_expr ct e; ret (ILet s x m t e' sp) }"
| "rewrite_struct_inits_in_stmt ct (IAssign x e sp) =
     do { e' \<leftarrow> rewrite_struct_inits_in_expr ct e; ret (IAssign x e' sp) }"
| "rewrite_struct_inits_in_stmt ct (IExprStmt e sp) =
     do { e' \<leftarrow> rewrite_struct_inits_in_expr ct e; ret (IExprStmt e' sp) }"
| "rewrite_struct_inits_in_stmt ct (IReturnStmt e sp) =
     do { e' \<leftarrow> traverse_opt (rewrite_struct_inits_in_expr ct) e; ret (IReturnStmt e' sp) }"
| "rewrite_struct_inits_in_stmt ct (IAssert e msg sp) =
     do { e' \<leftarrow> rewrite_struct_inits_in_expr ct e; ret (IAssert e' msg sp) }"
| "rewrite_struct_inits_in_arm ct (IMatchArm p g b sp) =
     do { b' \<leftarrow> rewrite_struct_inits_in_expr ct b; ret (IMatchArm p g b' sp) }"

section \<open>Assertions at every exit\<close>

definition contract_message :: "string \<Rightarrow> string \<Rightarrow> string" where
  "contract_message kind owner =
     ''contract_violation{kind:'' @ kind @ '',owner:'' @ owner @ ''}: '' @ kind @ '' failed in '' @
     owner"

text \<open>What the functions below pass along: the contract, the return type and the function's name.\<close>

record ensures_ctx =
  ec_ensures :: ir_expr
  ec_ret_type :: type_id
  ec_function :: string

definition result_name :: "symbol_id \<Rightarrow> string" where
  "result_name s = ''__aic_result_'' @ nat_str s"

definition exit_stmts :: "ensures_ctx \<Rightarrow> ir_expr \<Rightarrow> span \<Rightarrow> (id_alloc, ir_stmt list) state" where
  "exit_stmts c e sp =
     do { s \<leftarrow> alloc_symbol;
          let r = result_name s;
          a \<leftarrow> substitute_result_var r (ec_ensures c);
          n \<leftarrow> alloc_node;
          ret [ILet s r False (Some (ec_ret_type c)) e sp,
               IAssert a (contract_message ''ensures'' (ec_function c)) sp,
               IReturnStmt (Some (IExpr n (IVar r) sp)) sp] }"

text \<open>\<open>return e\<close> in expression position: the exit statements become a block whose tail is the
  operand of their last statement, the \<open>return\<close>.\<close>

definition exit_block :: "ir_stmt list \<Rightarrow> span \<Rightarrow> (id_alloc, ir_expr) state" where
  "exit_block ss sp =
     do { n \<leftarrow> alloc_node; b \<leftarrow> alloc_node;
          ret (IExpr n (IUnsafeBlock (IBlock b (butlast ss)
            (case last ss of IReturnStmt e _ \<Rightarrow> e | _ \<Rightarrow> None) sp)) sp) }"

fun lower_ensures_in_expr :: "ensures_ctx \<Rightarrow> ir_expr \<Rightarrow> (id_alloc, ir_expr) state"
  and lower_ensures_in_kind :: "ensures_ctx \<Rightarrow> span \<Rightarrow> ir_expr_kind \<Rightarrow> (id_alloc, ir_expr_kind) state"
  and lower_exit_with_ensures :: "ensures_ctx \<Rightarrow> ir_expr option \<Rightarrow> span \<Rightarrow> (id_alloc, ir_stmt list) state"
  and lower_ensures_in_block :: "ensures_ctx \<Rightarrow> bool \<Rightarrow> ir_block \<Rightarrow> (id_alloc, ir_block) state"
  and lower_ensures_in_stmt :: "ensures_ctx \<Rightarrow> ir_stmt \<Rightarrow> (id_alloc, ir_stmt list) state"
  and lower_ensures_in_arm :: "ensures_ctx \<Rightarrow> ir_match_arm \<Rightarrow> (id_alloc, ir_match_arm) state" where
  "lower_ensures_in_expr c (IExpr n k sp) =
     do { k' \<leftarrow> lower_ensures_in_kind c sp k; ret (IExpr n k' sp) }"
| "lower_ensures_in_kind c sp (ICall f args names s) =
     do { f' \<leftarrow> lower_ensures_in_expr c f; args' \<leftarrow> traverse (lower_ensures_in_expr c) args;
          ret (ICall f' args' names s) }"
| "lower_ensures_in_kind c sp (ITemplateLiteral s args) =
     do { args' \<leftarrow> traverse (lower_ensures_in_expr c) args; ret (ITemplateLiteral s args') }"
| "lower_ensures_in_kind c sp (IIf g t e) =
     do { g' \<leftarrow> lower_ensures_in_expr c g; t' \<leftarrow> lower_ensures_in_block c False t;
          e' \<leftarrow> lower_ensures_in_block c False e; ret (IIf g' t' e') }"
| "lower_ensures_in_kind c sp (IWhile g b) =
     do { g' \<leftarrow> lower_ensures_in_expr c g; b' \<leftarrow> lower_ensures_in_block c False b;
          ret (IWhile g' b') }"
| "lower_ensures_in_kind c sp (ILoop b) =
     do { b' \<leftarrow> lower_ensures_in_block c False b; ret (ILoop b') }"
| "lower_ensures_in_kind c sp (IBreak e) =
     do { e' \<leftarrow> traverse_opt (lower_ensures_in_expr c) e; ret (IBreak e') }"
| "lower_ensures_in_kind c sp (IReturn e) =
     do { ss \<leftarrow> lower_exit_with_ensures c e sp; r \<leftarrow> exit_block ss sp; ret (IReturn (Some r)) }"
| "lower_ensures_in_kind c sp (IMatch e arms) =
     do { e' \<leftarrow> lower_ensures_in_expr c e; arms' \<leftarrow> traverse (lower_ensures_in_arm c) arms;
          ret (IMatch e' arms') }"
| "lower_ensures_in_kind c sp (IBinary op l r) =
     do { l' \<leftarrow> lower_ensures_in_expr c l; r' \<leftarrow> lower_ensures_in_expr c r; ret (IBinary op l' r') }"
| "lower_ensures_in_kind c sp (IUnary op e) =
     do { e' \<leftarrow> lower_ensures_in_expr c e; ret (IUnary op e') }"
| "lower_ensures_in_kind c sp (IBorrow m e) =
     do { e' \<leftarrow> lower_ensures_in_expr c e; ret (IBorrow m e') }"
| "lower_ensures_in_kind c sp (IAwait e) =
     do { e' \<leftarrow> lower_ensures_in_expr c e; ret (IAwait e') }"
| "lower_ensures_in_kind c sp (ITry e) =
     do { e' \<leftarrow> lower_ensures_in_expr c e; ret (ITry e') }"
| "lower_ensures_in_kind c sp (IUnsafeBlock b) =
     do { b' \<leftarrow> lower_ensures_in_block c False b; ret (IUnsafeBlock b') }"
| "lower_ensures_in_kind c sp (IStructInit name fs) =
     do { fs' \<leftarrow> traverse_fields (lower_ensures_in_expr c) fs; ret (IStructInit name fs') }"
| "lower_ensures_in_kind c sp (IFieldAccess e f) =
     do { e' \<leftarrow> lower_ensures_in_expr c e; ret (IFieldAccess e' f) }"
| "lower_ensures_in_kind c sp k = ret k"
| "lower_exit_with_ensures c (Some e) sp =
     do { e' \<leftarrow> lower_ensures_in_expr c e; exit_stmts c e' sp }"
| "lower_exit_with_ensures c None sp =
     do { n \<leftarrow> alloc_node; exit_stmts c (IExpr n IUnit sp) sp }"
| "lower_ensures_in_block c instrument_tail (IBlock n ss t sp) =
     do { sss \<leftarrow> traverse (lower_ensures_in_stmt c) ss;
          if instrument_tail
          then do { ts \<leftarrow> lower_exit_with_ensures c t sp; ret (IBlock n (concat sss @ ts) None sp) }
          else do { t' \<leftarrow> traverse_opt (lower_ensures_in_expr c) t; ret (IBlock n (concat sss) t' sp) } }"
| "lower_ensures_in_stmt c (ILet s x m t e sp) =
     do { e' \<leftarrow> lower_ensures_in_expr c e; ret [ILet s x m t e' sp] }"
| "lower_ensures_in_stmt c (IAssign x e sp) =
     do { e' \<leftarrow> lower_ensures_in_expr c e; ret [IAssign x e' sp] }"
| "lower_ensures_in_stmt c (IExprStmt e sp) =
     do { e' \<leftarrow> lower_ensures_in_expr c e; ret [IExprStmt e' sp] }"
| "lower_ensures_in_stmt c (IReturnStmt e sp) = lower_exit_with_ensures c e sp"
| "lower_ensures_in_stmt c (IAssert e msg sp) =
     do { e' \<leftarrow> lower_ensures_in_expr c e; ret [IAssert e' msg sp] }"
| "lower_ensures_in_arm c (IMatchArm p g b sp) =
     do { b' \<leftarrow> lower_ensures_in_expr c b; ret (IMatchArm p g b' sp) }"

section \<open>Functions and programs\<close>

record invariant_spec =
  is_name :: string
  is_span :: span
  is_generics :: "ir_generic_param list"
  is_fields :: "ir_field list"
  is_invariant :: ir_expr

definition collect_invariant_specs :: "ir_program \<Rightarrow> (string, invariant_spec) btree_map" where
  "collect_invariant_specs p =
     bt_collect (List.map_filter (\<lambda>it.
       case it of
         IStruct d \<Rightarrow>
           map_option (\<lambda>inv. (isd_name d,
             \<lparr>is_name = isd_name d, is_span = isd_span d, is_generics = isd_generics d,
              is_fields = isd_fields d, is_invariant = inv\<rparr>)) (isd_invariant d)
       | _ \<Rightarrow> None) (irp_items p))"

definition invariant_helper_name :: "string \<Rightarrow> string" where
  "invariant_helper_name struct_name = ''__aic_invariant_ctor_'' @ struct_name"

definition ctor_tables_of :: "(string, invariant_spec) btree_map \<Rightarrow> ctor_tables" where
  "ctor_tables_of specs =
     \<lparr>ct_helper_names = bt_collect (map (\<lambda>(name, _). (name, invariant_helper_name name)) specs),
      ct_field_orders = bt_collect (map (\<lambda>(name, sp). (name, map ifd_name (is_fields sp))) specs)\<rparr>"

text \<open>Which of the two contracts of a function are discharged.\<close>

definition contract_flags :: "bool \<Rightarrow> ir_function \<Rightarrow> (bool \<times> bool) option" where
  "contract_flags oc f =
     (let env = unconstrained_param_env f in
      Option.bind
        (case if_requires f of
           None \<Rightarrow> Some False
         | Some r \<Rightarrow> map_option (\<lambda>s. s = PTrue) (prove_expression oc r env None))
        (\<lambda>rd. map_option (\<lambda>ed. (rd, ed))
          (case if_ensures f of
             None \<Rightarrow> Some False
           | Some e \<Rightarrow> map_option (\<lambda>s. s = PTrue) (prove_ensures oc f e env))))"

definition add_requires_assert ::
  "ir_function \<Rightarrow> bool \<Rightarrow> ir_block \<Rightarrow> (id_alloc, ir_block) state" where
  "add_requires_assert f discharged b =
     (case (if_requires f, discharged, b) of
        (Some r, False, IBlock n ss t sp) \<Rightarrow>
          do { r' \<leftarrow> clone_expr r;
               ret (IBlock n (IAssert r' (contract_message ''requires'' (if_name f)) (if_span f) # ss)
                 t sp) }
      | _ \<Rightarrow> ret b)"

definition add_ensures_asserts ::
  "ir_function \<Rightarrow> bool \<Rightarrow> ir_block \<Rightarrow> (id_alloc, ir_block) state" where
  "add_ensures_asserts f discharged b =
     (case (if_ensures f, discharged) of
        (Some e, False) \<Rightarrow>
          lower_ensures_in_block
            \<lparr>ec_ensures = e, ec_ret_type = if_ret_type f, ec_function = if_name f\<rparr> True b
      | _ \<Rightarrow> ret b)"

definition lower_function_contracts ::
  "bool \<Rightarrow> ctor_tables \<Rightarrow> ir_function \<Rightarrow> (id_alloc, ir_function) state option" where
  "lower_function_contracts oc ct f =
     (if if_is_extern f \<or> if_is_intrinsic f then Some (ret f)
      else map_option (\<lambda>(requires_discharged, ensures_discharged).
        do { b1 \<leftarrow> rewrite_struct_inits_in_block ct (if_body f);
             b2 \<leftarrow> add_requires_assert f requires_discharged b1;
             b3 \<leftarrow> add_ensures_asserts f ensures_discharged b2;
             ret (f\<lparr>if_body := b3\<rparr>) }) (contract_flags oc f))"

text \<open>Run in order the computations of a loop, unless one of them panics.\<close>

definition sequence :: "('s, 'a) state option list \<Rightarrow> ('s, 'a list) state option" where
  "sequence ms = map_option (traverse (\<lambda>m. m)) (those ms)"

fun lower_item_contracts :: "bool \<Rightarrow> ctor_tables \<Rightarrow> ir_item \<Rightarrow> (id_alloc, ir_item) state option" where
  "lower_item_contracts oc ct (IFunction f) =
     map_option (\<lambda>m. do { f' \<leftarrow> m; ret (IFunction f') }) (lower_function_contracts oc ct f)"
| "lower_item_contracts oc ct (IImpl d) =
     map_option (\<lambda>m. do { ms \<leftarrow> m; ret (IImpl (d\<lparr>iid_methods := ms\<rparr>)) })
       (sequence (map (lower_function_contracts oc ct) (iid_methods d)))"
| "lower_item_contracts oc ct it = Some (ret it)"

definition helper_return_repr :: "invariant_spec \<Rightarrow> string" where
  "helper_return_repr spec =
     (if is_generics spec = [] then is_name spec
      else is_name spec @ ''['' @ join_with '', '' (map igp_name (is_generics spec)) @ '']'')"

definition helper_param :: "ir_field \<Rightarrow> (id_alloc, ir_param) state" where
  "helper_param fd =
     do { s \<leftarrow> alloc_symbol;
          ret \<lparr>ip_symbol = s, ip_name = ifd_name fd, ip_attrs = [], ip_ty = ifd_ty fd,
               ip_span = ifd_span fd\<rparr> }"

definition helper_field_init :: "ir_param \<Rightarrow> (id_alloc, string \<times> ir_expr \<times> span) state" where
  "helper_field_init p =
     do { n \<leftarrow> alloc_node; ret (ip_name p, IExpr n (IVar (ip_name p)) (ip_span p), ip_span p) }"

definition helper_body :: "invariant_spec \<Rightarrow> bool \<Rightarrow> ir_param list \<Rightarrow> (id_alloc, ir_stmt list \<times> ir_expr) state" where
  "helper_body spec discharged params =
     do { stmts \<leftarrow> (if discharged then ret []
            else do { inv \<leftarrow> clone_expr (is_invariant spec);
                      ret [IAssert inv (contract_message ''invariant'' (is_name spec))
                        (ie_span (is_invariant spec))] });
          n \<leftarrow> alloc_node;
          flds \<leftarrow> traverse helper_field_init params;
          ret (stmts, IExpr n (IStructInit (is_name spec) flds) (is_span spec)) }"

definition build_invariant_helper ::
  "invariant_spec \<Rightarrow> bool \<Rightarrow> (type_def list \<times> id_alloc, ir_function) state" where
  "build_invariant_helper spec discharged =
     do { ret_type \<leftarrow> intern_type (helper_return_repr spec);
          params \<leftarrow> with_alloc (traverse helper_param (is_fields spec));
          (stmts, tail) \<leftarrow> with_alloc (helper_body spec discharged params);
          s \<leftarrow> with_alloc alloc_symbol;
          n \<leftarrow> with_alloc alloc_node;
          ret \<lparr>if_symbol = s, if_name = invariant_helper_name (is_name spec),
               if_visibility = Private, if_attrs = [], if_is_async = False, if_is_unsafe = False,
               if_is_extern = False, if_extern_abi = None, if_is_intrinsic = False,
               if_intrinsic_abi = None, if_generics = is_generics spec, if_params = params,
               if_ret_type = ret_type, if_effects = [], if_capabilities = [],
               if_requires = None, if_ensures = None,
               if_body = IBlock n stmts (Some tail) (is_span spec), if_span = is_span spec\<rparr> }"

definition invariant_flag :: "bool \<Rightarrow> invariant_spec \<Rightarrow> bool option" where
  "invariant_flag oc spec =
     map_option (\<lambda>s. s = PTrue)
       (prove_expression oc (is_invariant spec) (unconstrained_env (map ifd_name (is_fields spec))) None)"

definition build_invariant_helpers ::
  "bool \<Rightarrow> (string, invariant_spec) btree_map \<Rightarrow>
   (type_def list \<times> id_alloc, ir_function list) state option" where
  "build_invariant_helpers oc specs =
     sequence (map (\<lambda>(name, spec). map_option (build_invariant_helper spec) (invariant_flag oc spec))
       specs)"

definition lower_runtime_asserts :: "bool \<Rightarrow> ir_program \<Rightarrow> ir_program option" where
  "lower_runtime_asserts oc p =
     (let specs = collect_invariant_specs p; ct = ctor_tables_of specs in
      Option.bind (sequence (map (lower_item_contracts oc ct) (irp_items p))) (\<lambda>items_m.
      map_option (\<lambda>helpers_m.
        case run_state items_m (alloc_from_program p) of (items, a) \<Rightarrow>
        case run_state helpers_m (irp_types p, a) of (helpers, (types, _)) \<Rightarrow>
          p\<lparr>irp_items := items @ map IFunction helpers, irp_types := types\<rparr>)
        (build_invariant_helpers oc specs)))"

end
