(* ===== verification/ContractLoweringProps.thy ===== *)
theory ContractLoweringProps
  imports ContractLowering
begin

text \<open>
  What the lowering of contracts promises: copies equal their originals up to fresh ids, every
  exit of an instrumented function passes its contract, struct literals go through the checked
  constructor, and a program without contracts is left alone.
\<close>

section \<open>Results of a computation\<close>

definition yields :: "('a \<Rightarrow> bool) \<Rightarrow> ('s, 'a) state \<Rightarrow> bool" where
  "yields P m \<longleftrightarrow> (\<forall>s a s'. run_state m s = (a, s') \<longrightarrow> P a)"

named_theorems yields_rules

lemma yieldsD: "yields P m \<Longrightarrow> run_state m s = (a, s') \<Longrightarrow> P a"
  unfolding yields_def by blast

lemma yields_return [yields_rules]: "P a \<Longrightarrow> yields P (ret a)"
  by (simp add: yields_def)

lemma yields_bind [yields_rules]:
  assumes "yields R m" "\<And>x. R x \<Longrightarrow> yields P (k x)"
  shows "yields P (State_Monad.bind m k)"
  unfolding yields_def
proof (intro allI impI)
  fix s a s'
  assume "run_state (State_Monad.bind m k) s = (a, s')"
  then obtain x s1 where "run_state m s = (x, s1)" "run_state (k x) s1 = (a, s')"
    by (rule run_state_bindE)
  then show "P a"
    using assms yieldsD by metis
qed

lemma yields_True: "yields (\<lambda>_. True) m"
  by (simp add: yields_def)

lemma yields_mono: "yields P m \<Longrightarrow> (\<And>a. P a \<Longrightarrow> Q a) \<Longrightarrow> yields Q m"
  unfolding yields_def by blast

lemma yields_traverse [yields_rules]:
  "(\<And>x. x \<in> set xs \<Longrightarrow> yields (R x) (g x)) \<Longrightarrow> yields (list_all2 R xs) (traverse g xs)"
proof (induction xs)
  case Nil
  then show ?case by (auto intro: yields_return)
next
  case (Cons x xs)
  show ?case
    unfolding traverse_list.simps
    by (rule yields_bind [where R = "R x"], use Cons in simp,
        rule yields_bind [where R = "list_all2 R xs"], use Cons in simp,
        rule yields_return, simp)
qed

lemma yields_traverse_opt [yields_rules]:
  assumes "\<And>x. x \<in> set_option xs \<Longrightarrow> yields (R x) (g x)"
  shows "yields (rel_option R xs) (traverse_opt g xs)"
proof (cases xs)
  case None
  then show ?thesis by (simp add: yields_return)
next
  case (Some x)
  with assms have "yields (R x) (g x)" by simp
  then show ?thesis
    unfolding Some traverse_opt.simps by (rule yields_bind) (rule yields_return, simp)
qed

definition fields_rel ::
  "('e \<Rightarrow> 'f \<Rightarrow> bool) \<Rightarrow> ('n \<times> 'e \<times> 'p) list \<Rightarrow> ('n \<times> 'f \<times> 'p) list \<Rightarrow> bool" where
  "fields_rel R = list_all2 (\<lambda>(n, e, p) (n', f, p'). n' = n \<and> p' = p \<and> R e f)"

lemma yields_traverse_fields [yields_rules]:
  assumes "\<And>n e p. (n, e, p) \<in> set fs \<Longrightarrow> yields (R e) (g e)"
  shows "yields (fields_rel R fs) (traverse_fields g fs)"
  unfolding traverse_fields_def fields_rel_def
proof (rule yields_traverse)
  fix x assume "x \<in> set fs"
  then have "yields (R (fst (snd x))) (g (fst (snd x)))"
    using assms by (metis prod.collapse)
  then show "yields ((\<lambda>(n, e, p) (n', f, p'). n' = n \<and> p' = p \<and> R e f) x)
     (case x of (n, e, p) \<Rightarrow> g e \<bind> (\<lambda>e'. ret (n, e', p)))"
    by (cases x) (auto intro!: yields_bind yields_return)
qed

lemma list_all2_map_eq: "list_all2 (\<lambda>x y. f y = h x) xs ys \<longleftrightarrow> map f ys = map h xs"
  by (induction xs ys rule: list_induct2') auto

lemma rel_option_map_eq: "rel_option (\<lambda>x y. f y = h x) x y \<longleftrightarrow> map_option f y = map_option h x"
  by (cases x; cases y) auto

definition map_fields :: "('e \<Rightarrow> 'f) \<Rightarrow> ('n \<times> 'e \<times> 'p) list \<Rightarrow> ('n \<times> 'f \<times> 'p) list" where
  "map_fields f fs = map (\<lambda>(n, e, p). (n, f e, p)) fs"

lemma map_fields_cong [fundef_cong]:
  "fs = gs \<Longrightarrow> (\<And>n e p. (n, e, p) \<in> set gs \<Longrightarrow> f e = g e) \<Longrightarrow> map_fields f fs = map_fields g gs"
  unfolding map_fields_def by (intro map_cong) auto

lemma fields_rel_map_eq: "fields_rel (\<lambda>x y. f y = h x) xs ys \<longleftrightarrow> map_fields f ys = map_fields h xs"
  unfolding fields_rel_def map_fields_def
  by (induction xs ys rule: list_induct2') (auto split: prod.splits)

lemma list_all2_right: "list_all2 (\<lambda>_. P) xs ys \<Longrightarrow> list_all P ys"
  by (induction xs ys rule: list_induct2') auto

lemmas map_eqs = list_all2_map_eq rel_option_map_eq fields_rel_map_eq

section \<open>Trees up to node ids\<close>

fun strip_pattern :: "ir_pattern \<Rightarrow> ir_pattern"
  and strip_pattern_kind :: "ir_pattern_kind \<Rightarrow> ir_pattern_kind"
  and strip_pattern_field :: "ir_struct_pattern_field \<Rightarrow> ir_struct_pattern_field" where
  "strip_pattern (IPattern n k sp) = IPattern 0 (strip_pattern_kind k) sp"
| "strip_pattern_kind (IPOr ps) = IPOr (map strip_pattern ps)"
| "strip_pattern_kind (IPVariant x ps) = IPVariant x (map strip_pattern ps)"
| "strip_pattern_kind (IPStruct x fs r) = IPStruct x (map strip_pattern_field fs) r"
| "strip_pattern_kind k = k"
| "strip_pattern_field (IStructPatternField x p) = IStructPatternField x (strip_pattern p)"

fun strip_expr :: "ir_expr \<Rightarrow> ir_expr"
  and strip_kind :: "ir_expr_kind \<Rightarrow> ir_expr_kind"
  and strip_block :: "ir_block \<Rightarrow> ir_block"
  and strip_stmt :: "ir_stmt \<Rightarrow> ir_stmt"
  and strip_arm :: "ir_match_arm \<Rightarrow> ir_match_arm" where
  "strip_expr (IExpr n k sp) = IExpr 0 (strip_kind k) sp"
| "strip_kind (ICall c args names s) = ICall (strip_expr c) (map strip_expr args) names s"
| "strip_kind (ITemplateLiteral s args) = ITemplateLiteral s (map strip_expr args)"
| "strip_kind (IClosure ps t b) = IClosure ps t (strip_block b)"
| "strip_kind (IIf c t e) = IIf (strip_expr c) (strip_block t) (strip_block e)"
| "strip_kind (IWhile c b) = IWhile (strip_expr c) (strip_block b)"
| "strip_kind (ILoop b) = ILoop (strip_block b)"
| "strip_kind (IBreak e) = IBreak (map_option strip_expr e)"
| "strip_kind (IReturn e) = IReturn (map_option strip_expr e)"
| "strip_kind (IMatch e arms) = IMatch (strip_expr e) (map strip_arm arms)"
| "strip_kind (IBinary op l r) = IBinary op (strip_expr l) (strip_expr r)"
| "strip_kind (IUnary op e) = IUnary op (strip_expr e)"
| "strip_kind (IBorrow m e) = IBorrow m (strip_expr e)"
| "strip_kind (IAwait e) = IAwait (strip_expr e)"
| "strip_kind (ITry e) = ITry (strip_expr e)"
| "strip_kind (IUnsafeBlock b) = IUnsafeBlock (strip_block b)"
| "strip_kind (IStructInit x fs) = IStructInit x (map_fields strip_expr fs)"
| "strip_kind (IFieldAccess e f) = IFieldAccess (strip_expr e) f"
| "strip_kind k = k"
| "strip_block (IBlock n ss t sp) = IBlock 0 (map strip_stmt ss) (map_option strip_expr t) sp"
| "strip_stmt (ILet s x m t e sp) = ILet s x m t (strip_expr e) sp"
| "strip_stmt (IAssign x e sp) = IAssign x (strip_expr e) sp"
| "strip_stmt (IExprStmt e sp) = IExprStmt (strip_expr e) sp"
| "strip_stmt (IReturnStmt e sp) = IReturnStmt (map_option strip_expr e) sp"
| "strip_stmt (IAssert e msg sp) = IAssert (strip_expr e) msg sp"
| "strip_arm (IMatchArm p g b sp) =
     IMatchArm (strip_pattern p) (map_option strip_expr g) (strip_expr b) sp"

text \<open>The substitution of the result variable, as a function on such trees.\<close>

fun rename_result :: "string \<Rightarrow> ir_expr \<Rightarrow> ir_expr"
  and rename_result_kind :: "string \<Rightarrow> ir_expr_kind \<Rightarrow> ir_expr_kind"
  and rename_result_arm :: "string \<Rightarrow> ir_match_arm \<Rightarrow> ir_match_arm" where
  "rename_result r (IExpr n k sp) = IExpr 0 (rename_result_kind r k) sp"
| "rename_result_kind r (IVar x) = IVar (if x = ''result'' then r else x)"
| "rename_result_kind r (ICall c args names s) =
     ICall (rename_result r c) (map (rename_result r) args) names s"
| "rename_result_kind r (ITemplateLiteral s args) = ITemplateLiteral s (map (rename_result r) args)"
| "rename_result_kind r (IClosure ps t b) = IClosure ps t (strip_block b)"
| "rename_result_kind r (IIf c t e) = IIf (rename_result r c) (strip_block t) (strip_block e)"
| "rename_result_kind r (IWhile c b) = IWhile (rename_result r c) (strip_block b)"
| "rename_result_kind r (ILoop b) = ILoop (strip_block b)"
| "rename_result_kind r (IBreak e) = IBreak (map_option (rename_result r) e)"
| "rename_result_kind r (IReturn e) = IReturn (map_option (rename_result r) e)"
| "rename_result_kind r (IMatch e arms) =
     IMatch (rename_result r e) (map (rename_result_arm r) arms)"
| "rename_result_kind r (IBinary op a b) = IBinary op (rename_result r a) (rename_result r b)"
| "rename_result_kind r (IUnary op e) = IUnary op (rename_result r e)"
| "rename_result_kind r (IBorrow m e) = IBorrow m (rename_result r e)"
| "rename_result_kind r (IAwait e) = IAwait (rename_result r e)"
| "rename_result_kind r (ITry e) = ITry (rename_result r e)"
| "rename_result_kind r (IUnsafeBlock b) = IUnsafeBlock (strip_block b)"
| "rename_result_kind r (IStructInit x fs) = IStructInit x (map_fields (rename_result r) fs)"
| "rename_result_kind r (IFieldAccess e f) = IFieldAccess (rename_result r e) f"
| "rename_result_kind r k = k"
| "rename_result_arm r (IMatchArm p g b sp) =
     IMatchArm (strip_pattern p) (map_option (rename_result r) g) (rename_result r b) sp"

section \<open>Copies\<close>

interpretation alc: id_source alloc_node alc_next_node
  by unfold_locales (simp_all add: alloc_node_def)

lemma alloc_yields [yields_rules]:
  "yields (\<lambda>_. True) alloc_node" "yields (\<lambda>_. True) alloc_symbol"
  by (rule yields_True)+

lemma clone_pattern_strip [yields_rules]:
  "yields (\<lambda>q. strip_pattern q = strip_pattern p) (clone_pattern p)"
  "yields (\<lambda>q. strip_pattern_kind q = strip_pattern_kind k) (clone_pattern_kind k)"
  "yields (\<lambda>q. strip_pattern_field q = strip_pattern_field fp) (clone_pattern_field fp)"
  apply (induction p and k and fp rule: clone_pattern_clone_pattern_kind_clone_pattern_field.induct)
  apply (simp_all only: clone_pattern.simps clone_pattern_kind.simps clone_pattern_field.simps
      triv_forall_equality)
  apply ((rule yields_rules | assumption | simp add: map_eqs)+)
  done

lemma clone_expr_strip [yields_rules]:
  "yields (\<lambda>f. strip_expr f = strip_expr e) (clone_expr e)"
  "yields (\<lambda>f. strip_kind f = strip_kind k) (clone_kind k)"
  "yields (\<lambda>f. strip_block f = strip_block b) (clone_block b)"
  "yields (\<lambda>f. strip_stmt f = strip_stmt s) (clone_stmt s)"
  "yields (\<lambda>f. strip_arm f = strip_arm a) (clone_arm a)"
  apply (induction e and k and b and s and a
      rule: clone_expr_clone_kind_clone_block_clone_stmt_clone_arm.induct)
  apply (simp_all only: clone_expr.simps clone_kind.simps clone_block.simps clone_stmt.simps
      clone_arm.simps triv_forall_equality)
  apply ((rule yields_rules | assumption | simp add: map_eqs)+)
  done

lemma substitute_result_rename [yields_rules]:
  "yields (\<lambda>f. strip_expr f = rename_result r e) (substitute_result_var r e)"
  "yields (\<lambda>f. strip_kind f = rename_result_kind r k) (substitute_result_kind r k)"
  "yields (\<lambda>f. strip_arm f = rename_result_arm r a) (substitute_result_arm r a)"
  apply (induction r e and r k and r a
      rule: substitute_result_var_substitute_result_kind_substitute_result_arm.induct)
  apply (simp_all only: substitute_result_var.simps substitute_result_kind.simps
      substitute_result_arm.simps triv_forall_equality)
  apply ((rule yields_rules | assumption | simp add: map_eqs)+)
  done

lemma alloc_node_allocates: "allocates alc_next_node [] (\<lambda>n. [n]) alloc_node"
  by (rule alc.next_allocates)

lemma clone_pattern_nodes:
  "allocates alc_next_node [] pattern_nodes (clone_pattern p)"
  "allocates alc_next_node [] pattern_kind_nodes (clone_pattern_kind k)"
  "allocates alc_next_node [] spf_nodes (clone_pattern_field fp)"
  apply (induction p and k and fp rule: clone_pattern_clone_pattern_kind_clone_pattern_field.induct)
  apply (simp_all only: clone_pattern.simps clone_pattern_kind.simps clone_pattern_field.simps
      triv_forall_equality)
  apply ((rule alloc_rules alloc_node_allocates | assumption | simp)+)
  done

lemma clone_expr_nodes:
  "allocates alc_next_node [] expr_nodes (clone_expr e)"
  "allocates alc_next_node [] expr_kind_nodes (clone_kind k)"
  "allocates alc_next_node [] block_nodes (clone_block b)"
  "allocates alc_next_node [] stmt_nodes (clone_stmt s)"
  "allocates alc_next_node [] arm_nodes (clone_arm a)"
  apply (induction e and k and b and s and a
      rule: clone_expr_clone_kind_clone_block_clone_stmt_clone_arm.induct)
  apply (simp_all only: clone_expr.simps clone_kind.simps clone_block.simps clone_stmt.simps
      clone_arm.simps triv_forall_equality)
  apply ((rule alloc_rules alloc_node_allocates clone_pattern_nodes | assumption | simp)+)
  done

text \<open>
  C12: Copying a contract expression gives the same expression with its own node ids: the copy
  equals the original when ids are disregarded, and its ids are exactly the ones the allocator
  handed out meanwhile, in order and without repetition.
\<close>

theorem clone_expr_correct:
  assumes "run_state (clone_expr e) a = (e', a')"
  shows "strip_expr e' = strip_expr e \<and>
    expr_nodes e' = [alc_next_node a ..< alc_next_node a'] \<and> distinct (expr_nodes e')"
  using yieldsD [OF clone_expr_strip(1) assms] allocatesD [OF clone_expr_nodes(1) assms] by simp

definition sample_expr :: ir_expr where
  "sample_expr =
     (let sp = \<lparr>span_start = 0, span_end = 5\<rparr> in
      IExpr 3 (IBinary Gt (IExpr 1 (IVar ''result'') sp) (IExpr 2 (IInt 0 None) sp)) sp)"

definition sample_alloc :: id_alloc where
  "sample_alloc = \<lparr>alc_next_symbol = 4, alc_next_node = 9, alc_next_type = 2\<rparr>"

theorem clone_expr_correct_witness:
  "distinct (expr_nodes (fst (run_state (clone_expr sample_expr) sample_alloc)))"
  using clone_expr_correct [OF surjective_pairing] by simp

section \<open>Every exit is checked\<close>

text \<open>
  The three statements of a checked exit: the result is bound to a name of its own, the contract
  is asserted on that name, and the name is returned.
\<close>

fun let_binding :: "ir_stmt \<Rightarrow> (symbol_id \<times> string \<times> type_id option) option" where
  "let_binding (ILet s r _ ty _ _) = Some (s, r, ty)"
| "let_binding _ = None"

fun asserted :: "ir_stmt \<Rightarrow> (ir_expr \<times> string) option" where
  "asserted (IAssert a msg _) = Some (a, msg)"
| "asserted _ = None"

fun returned :: "ir_stmt \<Rightarrow> ir_expr option" where
  "returned (IReturnStmt e _) = e"
| "returned _ = None"

definition is_checked_exit :: "ensures_ctx \<Rightarrow> ir_stmt list \<Rightarrow> bool" where
  "is_checked_exit c ss =
     (length ss = 3 \<and>
      (case (let_binding (ss ! 0), asserted (ss ! 1), returned (ss ! 2)) of
         (Some (s, r, ty), Some (a, msg), Some v) \<Rightarrow>
           r = result_name s \<and> ty = Some (ec_ret_type c) \<and> ie_kind v = IVar r \<and>
           strip_expr a = rename_result r (ec_ensures c) \<and>
           msg = contract_message ''ensures'' (ec_function c)
       | _ \<Rightarrow> False))"

lemma let_binding_Some: "let_binding x = Some (s, r, ty) \<longleftrightarrow> (\<exists>m e sp. x = ILet s r m ty e sp)"
  by (cases x) auto

lemma asserted_Some: "asserted x = Some (a, msg) \<longleftrightarrow> (\<exists>sp. x = IAssert a msg sp)"
  by (cases x) auto

lemma returned_Some: "returned x = Some v \<longleftrightarrow> (\<exists>sp. x = IReturnStmt (Some v) sp)"
  by (cases x) auto

lemma is_checked_exitE:
  assumes "is_checked_exit c ss"
  obtains s r m e sp1 a sp2 v sp3 where
    "ss = [ILet s r m (Some (ec_ret_type c)) e sp1,
           IAssert a (contract_message ''ensures'' (ec_function c)) sp2, IReturnStmt (Some v) sp3]"
    "r = result_name s" "ie_kind v = IVar r" "strip_expr a = rename_result r (ec_ensures c)"
proof -
  obtain x y z where ss: "ss = [x, y, z]"
    using assms by (auto simp: is_checked_exit_def numeral_3_eq_3 length_Suc_conv)
  then have exit: "case (let_binding x, asserted y, returned z) of
         (Some (s, r, ty), Some (a, msg), Some v) \<Rightarrow>
           r = result_name s \<and> ty = Some (ec_ret_type c) \<and> ie_kind v = IVar r \<and>
           strip_expr a = rename_result r (ec_ensures c) \<and>
           msg = contract_message ''ensures'' (ec_function c)
       | _ \<Rightarrow> False"
    using assms by (simp add: is_checked_exit_def numeral_2_eq_2)
  then have "let_binding x \<noteq> None" "asserted y \<noteq> None" "returned z \<noteq> None"
    by (auto split: option.splits)
  then obtain s r ty a msg v where "let_binding x = Some (s, r, ty)" "asserted y = Some (a, msg)"
      "returned z = Some v"
    by (metis not_None_eq prod_cases3 surj_pair)
  with exit have "let_binding x = Some (s, r, Some (ec_ret_type c))"
      "asserted y = Some (a, contract_message ''ensures'' (ec_function c))" "returned z = Some v"
      "r = result_name s" "ie_kind v = IVar r" "strip_expr a = rename_result r (ec_ensures c)"
    by simp_all
  moreover from this obtain m e sp1 sp2 sp3 where "x = ILet s r m (Some (ec_ret_type c)) e sp1"
      "y = IAssert a (contract_message ''ensures'' (ec_function c)) sp2"
      "z = IReturnStmt (Some v) sp3"
    unfolding let_binding_Some asserted_Some returned_Some by blast
  ultimately show thesis
    using that ss by blast
qed

fun is_return :: "ir_stmt \<Rightarrow> bool" where
  "is_return (IReturnStmt _ _) = True"
| "is_return _ = False"

text \<open>No \<open>return\<close> statement but as the end of a checked exit.\<close>

fun returns_checked :: "ensures_ctx \<Rightarrow> ir_stmt list \<Rightarrow> bool" where
  "returns_checked c [] = True"
| "returns_checked c (s # ss) =
     (is_checked_exit c (take 3 (s # ss)) \<and> returns_checked c (drop 2 ss) \<or>
      \<not> is_return s \<and> returns_checked c ss)"

text \<open>
  The same of a tree. Closures return to themselves; the contract inserted by the lowering and
  the guards of match arms are not visited.
\<close>

definition return_operand_checked :: "ensures_ctx \<Rightarrow> ir_expr option \<Rightarrow> bool" where
  "return_operand_checked c e =
     (case e of
        Some (IExpr _ (IUnsafeBlock (IBlock _ ss (Some r) _)) sp) \<Rightarrow>
          is_checked_exit c (ss @ [IReturnStmt (Some r) sp])
      | _ \<Rightarrow> False)"

fun exits_expr :: "ensures_ctx \<Rightarrow> ir_expr \<Rightarrow> bool"
  and exits_kind :: "ensures_ctx \<Rightarrow> ir_expr_kind \<Rightarrow> bool"
  and exits_block :: "ensures_ctx \<Rightarrow> ir_block \<Rightarrow> bool"
  and exits_stmt :: "ensures_ctx \<Rightarrow> ir_stmt \<Rightarrow> bool"
  and exits_arm :: "ensures_ctx \<Rightarrow> ir_match_arm \<Rightarrow> bool" where
  "exits_expr c (IExpr _ k _) = exits_kind c k"
| "exits_kind c (ICall f args _ _) = (exits_expr c f \<and> list_all (exits_expr c) args)"
| "exits_kind c (ITemplateLiteral _ args) = list_all (exits_expr c) args"
| "exits_kind c (IIf g t e) = (exits_expr c g \<and> exits_block c t \<and> exits_block c e)"
| "exits_kind c (IWhile g b) = (exits_expr c g \<and> exits_block c b)"
| "exits_kind c (ILoop b) = exits_block c b"
| "exits_kind c (IBreak e) = pred_option (exits_expr c) e"
| "exits_kind c (IReturn e) = (return_operand_checked c e \<and> pred_option (exits_expr c) e)"
| "exits_kind c (IMatch e arms) = (exits_expr c e \<and> list_all (exits_arm c) arms)"
| "exits_kind c (IBinary _ l r) = (exits_expr c l \<and> exits_expr c r)"
| "exits_kind c (IUnary _ e) = exits_expr c e"
| "exits_kind c (IBorrow _ e) = exits_expr c e"
| "exits_kind c (IAwait e) = exits_expr c e"
| "exits_kind c (ITry e) = exits_expr c e"
| "exits_kind c (IUnsafeBlock b) = exits_block c b"
| "exits_kind c (IStructInit _ fs) = list_all (\<lambda>x. x) (concat_fields (\<lambda>e. [exits_expr c e]) fs)"
| "exits_kind c (IFieldAccess e _) = exits_expr c e"
| "exits_kind c _ = True"
| "exits_block c (IBlock _ ss t _) =
     (returns_checked c ss \<and> list_all (exits_stmt c) ss \<and> pred_option (exits_expr c) t)"
| "exits_stmt c (ILet _ _ _ _ e _) = exits_expr c e"
| "exits_stmt c (IAssign _ e _) = exits_expr c e"
| "exits_stmt c (IExprStmt e _) = exits_expr c e"
| "exits_stmt c (IReturnStmt e _) = pred_option (exits_expr c) e"
| "exits_stmt c (IAssert e msg _) =
     (msg = contract_message ''ensures'' (ec_function c) \<or> exits_expr c e)"
| "exits_arm c (IMatchArm _ _ b _) = exits_expr c b"

text \<open>What the statements lowered from one statement look like.\<close>

definition segment_ok :: "ensures_ctx \<Rightarrow> ir_stmt list \<Rightarrow> bool" where
  "segment_ok c ss \<longleftrightarrow> list_all (exits_stmt c) ss \<and>
     (is_checked_exit c ss \<or> (\<exists>s. ss = [s] \<and> \<not> is_return s))"

lemma returns_checked_exit:
  "is_checked_exit c ss \<Longrightarrow> returns_checked c ts \<Longrightarrow> returns_checked c (ss @ ts)"
  by (erule is_checked_exitE) (simp add: is_checked_exit_def numeral_3_eq_3)

lemma returns_checked_segments:
  "list_all (segment_ok c) sss \<Longrightarrow> returns_checked c ts \<Longrightarrow> returns_checked c (concat sss @ ts)"
proof (induction sss)
  case (Cons ss sss)
  then consider "is_checked_exit c ss" | s where "ss = [s]" "\<not> is_return s"
    by (auto simp: segment_ok_def)
  then show ?case
    using Cons returns_checked_exit by cases auto
qed simp

lemma segments_stmts: "list_all (segment_ok c) sss \<Longrightarrow> list_all (exits_stmt c) (concat sss)"
  by (induction sss) (auto simp: segment_ok_def)

lemma exit_stmts_checked:
  "exits_expr c e \<Longrightarrow> yields (\<lambda>ss. segment_ok c ss \<and> is_checked_exit c ss) (exit_stmts c e sp)"
  unfolding exit_stmts_def Let_def
  by ((rule yields_rules)+) (simp add: segment_ok_def is_checked_exit_def)

lemma exit_block_checked:
  assumes "segment_ok c ss" "is_checked_exit c ss"
  shows "yields (\<lambda>r. return_operand_checked c (Some r) \<and> exits_expr c r) (exit_block ss sp)"
proof -
  obtain s r m e sp1 a sp2 v sp3 where
    ss: "ss = [ILet s r m (Some (ec_ret_type c)) e sp1,
      IAssert a (contract_message ''ensures'' (ec_function c)) sp2, IReturnStmt (Some v) sp3]"
    and v: "ie_kind v = IVar r"
    using assms(2) by (rule is_checked_exitE)
  from v have "exits_expr c v" by (cases v) simp
  then show ?thesis
    unfolding exit_block_def using assms
    by (intro yields_bind [OF alloc_yields(1)] yields_return) (auto simp: ss segment_ok_def return_operand_checked_def is_checked_exit_def)
qed

lemma fields_rel_right:
  "fields_rel (\<lambda>_. P) xs ys \<Longrightarrow> list_all (\<lambda>x. x) (concat_fields (\<lambda>e. [P e]) ys)"
  unfolding fields_rel_def by (induction xs ys rule: list_induct2') auto

lemma rel_option_right: "rel_option (\<lambda>_. P) x y \<Longrightarrow> pred_option P y"
  by (cases x; cases y) auto

lemmas rights = list_all2_right rel_option_right fields_rel_right

lemma return_checked:
  assumes "yields (\<lambda>ss. segment_ok c ss \<and> is_checked_exit c ss) m"
  shows "yields (exits_kind c)
     (State_Monad.bind m (\<lambda>ss. State_Monad.bind (exit_block ss sp) (\<lambda>r. ret (IReturn (Some r)))))"
proof (rule yields_bind [OF assms], rule yields_bind)
  fix ss assume "segment_ok c ss \<and> is_checked_exit c ss"
  then show "yields (\<lambda>r. return_operand_checked c (Some r) \<and> exits_expr c r) (exit_block ss sp)"
    using exit_block_checked by blast
qed (simp add: yields_return)

lemma exits_block_tail:
  assumes "yields (\<lambda>ss. segment_ok c ss \<and> is_checked_exit c ss) m" "list_all (segment_ok c) sss"
  shows "yields (exits_block c)
     (State_Monad.bind m (\<lambda>ts. ret (IBlock n (concat sss @ ts) None sp)))"
proof (rule yields_bind [OF assms(1)], rule yields_return)
  fix ts assume "segment_ok c ts \<and> is_checked_exit c ts"
  then show "exits_block c (IBlock n (concat sss @ ts) None sp)"
    using returns_checked_segments [of c "sss @ [ts]" "[]"] segments_stmts [of c "sss @ [ts]"] assms(2)
    by simp
qed

lemma exits_block_plain:
  assumes "yields (rel_option (\<lambda>_. exits_expr c) t) m" "list_all (segment_ok c) sss"
  shows "yields (exits_block c)
     (State_Monad.bind m (\<lambda>t'. ret (IBlock n (concat sss) t' sp)))"
proof (rule yields_bind [OF assms(1)], rule yields_return)
  fix t' assume "rel_option (\<lambda>_. exits_expr c) t t'"
  then show "exits_block c (IBlock n (concat sss) t' sp)"
    using returns_checked_segments [OF assms(2), of "[]"] segments_stmts [OF assms(2)]
    by (simp add: rel_option_right)
qed

lemma yields_if:
  "(P \<Longrightarrow> yields Q m) \<Longrightarrow> (\<not> P \<Longrightarrow> yields Q n) \<Longrightarrow> yields Q (if P then m else n)"
  by simp

lemma yields_conj1: "yields (\<lambda>a. P a \<and> Q a) m \<Longrightarrow> yields P m"
  by (erule yields_mono) simp

lemma segment_single:
  "\<not> is_return s \<Longrightarrow> exits_stmt c s \<Longrightarrow> segment_ok c [s]"
  by (simp add: segment_ok_def)

lemma lower_ensures_exits:
  "yields (exits_expr c) (lower_ensures_in_expr c e)"
  "yields (exits_kind c) (lower_ensures_in_kind c sp k)"
  "yields (\<lambda>ss. segment_ok c ss \<and> is_checked_exit c ss) (lower_exit_with_ensures c oe sp)"
  "yields (exits_block c) (lower_ensures_in_block c it b)"
  "yields (segment_ok c) (lower_ensures_in_stmt c s)"
  "yields (exits_arm c) (lower_ensures_in_arm c a)"
  apply (induction c e and c sp k and c oe sp and c it b and c s and c a
      rule: lower_ensures_in_expr_lower_ensures_in_kind_lower_exit_with_ensures_lower_ensures_in_block_lower_ensures_in_stmt_lower_ensures_in_arm.induct)
  apply (simp_all only: lower_ensures_in_expr.simps lower_ensures_in_kind.simps
      lower_exit_with_ensures.simps lower_ensures_in_block.simps lower_ensures_in_stmt.simps
      lower_ensures_in_arm.simps triv_forall_equality)
  apply ((rule return_checked exit_stmts_checked yields_if exits_block_tail exits_block_plain
      yields_rules | assumption | simp add: rights segment_single | erule yields_conj1)+)
  done

lemma instrumented_tail:
  "yields (\<lambda>b'. ib_tail b' = None \<and> (\<exists>pre ex. ib_stmts b' = pre @ ex \<and> is_checked_exit c ex))
     (lower_ensures_in_block c True b)"
proof (cases b)
  case (IBlock n ss t sp)
  show ?thesis
    unfolding IBlock lower_ensures_in_block.simps if_True
    by (rule yields_bind [OF yields_True], rule yields_bind [OF lower_ensures_exits(3)],
        rule yields_return) auto
qed


definition sample_ctx :: ensures_ctx where
  "sample_ctx = \<lparr>ec_ensures = sample_expr, ec_ret_type = 1, ec_function = ''f''\<rparr>"

definition sample_body :: ir_block where
  "sample_body =
     (let sp = \<lparr>span_start = 0, span_end = 5\<rparr> in
      IBlock 4 [IReturnStmt (Some (IExpr 5 (IInt 3 None) sp)) sp] (Some (IExpr 6 (IInt 4 None) sp)) sp)"


section \<open>Struct literals go through the constructor\<close>

text \<open>The literals that the code routes: a helper exists and no declared field is missing.\<close>

fun routable :: "ctor_tables \<Rightarrow> ir_expr_kind \<Rightarrow> bool" where
  "routable ct (IStructInit name fs) =
     (bt_get (ct_helper_names ct) name \<noteq> None \<and>
      (case bt_get (ct_field_orders ct) name of
         None \<Rightarrow> False
       | Some order \<Rightarrow> set order \<subseteq> fst ` set fs))"
| "routable ct _ = False"

text \<open>No such literal anywhere outside the guards of match arms.\<close>

fun routed_expr :: "ctor_tables \<Rightarrow> ir_expr \<Rightarrow> bool"
  and routed_kind :: "ctor_tables \<Rightarrow> ir_expr_kind \<Rightarrow> bool"
  and routed_block :: "ctor_tables \<Rightarrow> ir_block \<Rightarrow> bool"
  and routed_stmt :: "ctor_tables \<Rightarrow> ir_stmt \<Rightarrow> bool"
  and routed_arm :: "ctor_tables \<Rightarrow> ir_match_arm \<Rightarrow> bool" where
  "routed_expr c (IExpr _ k _) = routed_kind c k"
| "routed_kind c (ICall f args _ _) = (routed_expr c f \<and> list_all (routed_expr c) args)"
| "routed_kind c (ITemplateLiteral _ args) = list_all (routed_expr c) args"
| "routed_kind c (IClosure _ _ b) = routed_block c b"
| "routed_kind c (IIf g t e) = (routed_expr c g \<and> routed_block c t \<and> routed_block c e)"
| "routed_kind c (IWhile g b) = (routed_expr c g \<and> routed_block c b)"
| "routed_kind c (ILoop b) = routed_block c b"
| "routed_kind c (IBreak e) = pred_option (routed_expr c) e"
| "routed_kind c (IReturn e) = pred_option (routed_expr c) e"
| "routed_kind c (IMatch e arms) = (routed_expr c e \<and> list_all (routed_arm c) arms)"
| "routed_kind c (IBinary _ l r) = (routed_expr c l \<and> routed_expr c r)"
| "routed_kind c (IUnary _ e) = routed_expr c e"
| "routed_kind c (IBorrow _ e) = routed_expr c e"
| "routed_kind c (IAwait e) = routed_expr c e"
| "routed_kind c (ITry e) = routed_expr c e"
| "routed_kind c (IUnsafeBlock b) = routed_block c b"
| "routed_kind c (IStructInit x fs) =
     (\<not> routable c (IStructInit x fs) \<and> list_all (\<lambda>x. x) (concat_fields (\<lambda>e. [routed_expr c e]) fs))"
| "routed_kind c (IFieldAccess e _) = routed_expr c e"
| "routed_kind c _ = True"
| "routed_block c (IBlock _ ss t _) = (list_all (routed_stmt c) ss \<and> pred_option (routed_expr c) t)"
| "routed_stmt c (ILet _ _ _ _ e _) = routed_expr c e"
| "routed_stmt c (IAssign _ e _) = routed_expr c e"
| "routed_stmt c (IExprStmt e _) = routed_expr c e"
| "routed_stmt c (IReturnStmt e _) = pred_option (routed_expr c) e"
| "routed_stmt c (IAssert e _ _) = routed_expr c e"
| "routed_arm c (IMatchArm _ _ b _) = routed_expr c b"

lemma list_all_map_same:
  "(\<And>x. x \<in> set xs \<Longrightarrow> P (f x) = P x) \<Longrightarrow> list_all P (map f xs) = list_all P xs"
  by (induction xs) auto

lemma pred_option_map_same:
  "(\<And>y. x = Some y \<Longrightarrow> P (f y) = P y) \<Longrightarrow> pred_option P (map_option f x) = pred_option P x"
  by (cases x) auto

lemma concat_map_fields_same:
  "(\<And>n e p. (n, e, p) \<in> set fs \<Longrightarrow> P (f e) = P e) \<Longrightarrow>
   concat_fields (\<lambda>e. [P e]) (map_fields f fs) = concat_fields (\<lambda>e. [P e]) fs"
proof (induction fs)
  case (Cons x fs)
  then have "concat_fields (\<lambda>e. [P e]) (map_fields f fs) = concat_fields (\<lambda>e. [P e]) fs"
    by (meson list.set_intros(2))
  then show ?case
    using Cons.prems [of "fst x" "fst (snd x)" "snd (snd x)"] by (cases x) (simp add: map_fields_def)
qed (simp add: map_fields_def)

lemma fst_map_fields: "fst ` set (map_fields f fs) = fst ` set fs"
  unfolding map_fields_def by (force simp: image_image)

lemmas map_same = list_all_map_same pred_option_map_same concat_map_fields_same fst_map_fields

lemma routed_strip:
  "routed_expr ct (strip_expr e) = routed_expr ct e"
  "routed_kind ct (strip_kind k) = routed_kind ct k"
  "routed_block ct (strip_block b) = routed_block ct b"
  "routed_stmt ct (strip_stmt s) = routed_stmt ct s"
  "routed_arm ct (strip_arm a) = routed_arm ct a"
  by (induction e and k and b and s and a
      rule: strip_expr_strip_kind_strip_block_strip_stmt_strip_arm.induct)
    (simp_all add: map_same split: option.split)

text \<open>The values of the fields of a literal, by name; of a repeated name the first.\<close>

definition field_values :: "(string \<times> ir_expr \<times> span) list \<Rightarrow> string \<Rightarrow> ir_expr option" where
  "field_values fs = map_of (map (\<lambda>(n, e, _). (n, strip_expr e)) fs)"

lemma find_field:
  "List.find (\<lambda>(n, _, _). n = x) fs = Some (n, v, p) \<Longrightarrow>
     field_values fs x = Some (strip_expr v) \<and> (n, v, p) \<in> set fs"
  by (induction fs) (auto simp: field_values_def split: if_splits)

lemma find_field_None: "List.find (\<lambda>(n, _, _). n = x) fs = None \<longleftrightarrow> x \<notin> fst ` set fs"
  by (induction fs) (auto split: if_splits)

lemma ctor_args_values:
  "yields (\<lambda>r. case r of
       None \<Rightarrow> \<not> set order \<subseteq> fst ` set fs
     | Some args \<Rightarrow> map (field_values fs) order = map (\<lambda>a. Some (strip_expr a)) args)
     (ctor_args order fs)"
proof (induction order)
  case Nil
  then show ?case by (simp add: yields_return)
next
  case (Cons x order)
  show ?case
  proof (cases "List.find (\<lambda>(n, _, _). n = x) fs")
    case None
    then have "x \<notin> fst ` set fs" by (simp only: find_field_None simp_thms)
    then show ?thesis
      unfolding ctor_args.simps None option.case by - (rule yields_return, simp)
  next
    case (Some t)
    obtain n v p where t: "t = (n, v, p)" by (cases t)
    show ?thesis
      unfolding ctor_args.simps Some t option.case prod.case
      by (rule yields_bind [OF clone_expr_strip(1)], rule yields_bind [OF Cons.IH], rule yields_return)
        (use find_field [OF Some [unfolded t]] in \<open>auto split: option.splits\<close>)
  qed
qed

lemma field_values_routed:
  "list_all (\<lambda>x. x) (concat_fields (\<lambda>e. [routed_expr ct e]) fs) \<Longrightarrow>
   field_values fs x = Some w \<Longrightarrow> routed_expr ct w"
  by (induction fs) (auto simp: field_values_def routed_strip split: if_splits)

lemma route_struct_init_routed:
  assumes "list_all (\<lambda>x. x) (concat_fields (\<lambda>e. [routed_expr ct e]) fs)"
  shows "yields (routed_kind ct) (route_struct_init ct sp name fs)"
proof (cases "bt_get (ct_helper_names ct) name = None \<or> bt_get (ct_field_orders ct) name = None")
  case True
  then have "\<not> routable ct (IStructInit name fs)" by auto
  with assms True show ?thesis
    by (auto simp: route_struct_init_def intro!: yields_return split: option.split)
next
  case False
  then obtain h order where h: "bt_get (ct_helper_names ct) name = Some h"
      "bt_get (ct_field_orders ct) name = Some order" by auto
  have args: "list_all (routed_expr ct) args"
    if "map (field_values fs) order = map (\<lambda>a. Some (strip_expr a)) args" for args
    using that
  proof (induction args arbitrary: order)
    case (Cons a args)
    then show ?case
      using field_values_routed [OF assms] routed_strip(1) [of ct a] by (cases order) auto
  qed simp
  show ?thesis
    unfolding route_struct_init_def h option.case prod.case
  proof (rule yields_bind [OF ctor_args_values], goal_cases)
    case (1 r)
    then show ?case
    proof (cases r)
      case None
      with 1 h assms show ?thesis by (simp add: yields_return)
    next
      case (Some as)
      then have "list_all (routed_expr ct) as" using 1 args by simp
      then show ?thesis
        unfolding Some option.case
        by (intro yields_bind [OF alloc_yields(1)] yields_return) simp
    qed
  qed
qed

lemma rewrite_routed:
  "yields (routed_expr ct) (rewrite_struct_inits_in_expr ct e)"
  "yields (routed_kind ct) (rewrite_struct_inits_in_kind ct sp k)"
  "yields (routed_block ct) (rewrite_struct_inits_in_block ct b)"
  "yields (routed_stmt ct) (rewrite_struct_inits_in_stmt ct s)"
  "yields (routed_arm ct) (rewrite_struct_inits_in_arm ct a)"
  apply (induction ct e and ct sp k and ct b and ct s and ct a
      rule: rewrite_struct_inits_in_expr_rewrite_struct_inits_in_kind_rewrite_struct_inits_in_block_rewrite_struct_inits_in_stmt_rewrite_struct_inits_in_arm.induct)
  apply (simp_all only: rewrite_struct_inits_in_expr.simps rewrite_struct_inits_in_kind.simps
      rewrite_struct_inits_in_block.simps rewrite_struct_inits_in_stmt.simps
      rewrite_struct_inits_in_arm.simps triv_forall_equality)
  apply ((rule route_struct_init_routed yields_rules | assumption | simp add: rights)+)
  done


definition sample_tables :: ctor_tables where
  "sample_tables =
     \<lparr>ct_helper_names = [(''P'', ''__aic_invariant_ctor_P'')], ct_field_orders = [(''P'', [''x'', ''y''])]\<rparr>"

definition sample_literal :: ir_block where
  "sample_literal =
     (let sp = \<lparr>span_start = 0, span_end = 5\<rparr> in
      IBlock 4 [] (Some (IExpr 7 (IStructInit ''P''
        [(''y'', IExpr 5 (IInt 3 None) sp, sp), (''x'', IExpr 6 (IInt 4 None) sp, sp)]) sp)) sp)"


definition sample_fields :: "(string \<times> ir_expr \<times> span) list" where
  "sample_fields =
     (let sp = \<lparr>span_start = 0, span_end = 5\<rparr> in
      [(''y'', IExpr 5 (IInt 3 None) sp, sp), (''x'', IExpr 6 (IInt 4 None) sp, sp)])"

definition sample_arguments :: "ir_expr list" where
  "sample_arguments =
     (let sp = \<lparr>span_start = 0, span_end = 5\<rparr> in
      [IExpr 9 (IInt 4 None) sp, IExpr 10 (IInt 3 None) sp])"

text \<open>
  A routed literal passes to the constructor exactly the values of its fields, reordered to the
  order of the declaration, whatever order they are written in.
\<close>

theorem routed_literal_arguments:
  assumes "run_state (route_struct_init ct sp name fs) a = (ICall callee args names s, a')"
    and "bt_get (ct_field_orders ct) name = Some order"
  shows "map (\<lambda>v. Some (strip_expr v)) args = map (field_values fs) order"
proof -
  have "yields (\<lambda>k. \<forall>callee args names s. k = ICall callee args names s \<longrightarrow>
      map (\<lambda>v. Some (strip_expr v)) args = map (field_values fs) order)
      (route_struct_init ct sp name fs)"
  proof (cases "bt_get (ct_helper_names ct) name")
    case None
    then show ?thesis by (simp add: route_struct_init_def yields_return)
  next
    case (Some h)
    show ?thesis
      unfolding route_struct_init_def Some assms(2) option.case prod.case
    proof (rule yields_bind [OF ctor_args_values], goal_cases)
      case (1 r)
      then show ?case
        by (cases r) (auto intro!: yields_return yields_bind [OF alloc_yields(1)])
    qed
  qed
  from yieldsD [OF this assms(1)] show ?thesis by simp
qed

theorem routed_literal_arguments_witness:
  "map (\<lambda>v. Some (strip_expr v)) sample_arguments = map (field_values sample_fields) [''x'', ''y'']"
proof -
  let ?sp = "\<lparr>span_start = 0, span_end = 5\<rparr>"
  have run: "run_state (route_struct_init sample_tables ?sp ''P'' sample_fields) sample_alloc
    = (ICall (IExpr 11 (IVar ''__aic_invariant_ctor_P'') ?sp) sample_arguments [] None,
       \<lparr>alc_next_symbol = 4, alc_next_node = 12, alc_next_type = 2\<rparr>)"
    by code_simp
  have order: "bt_get (ct_field_orders sample_tables) ''P'' = Some [''x'', ''y'']"
    by code_simp
  from routed_literal_arguments [OF run order] show ?thesis .
qed

end
