(* ===== verification/ContractSoundness.thy ===== *)
theory ContractSoundness
  imports ContractRanges
begin

text \<open>
  What the interval analysis of \<open>ContractRanges\<close> promises, against the values that the compiled
  program computes. \<open>sem chk ext \<rho> e\<close> is the value of a contract expression in the environment
  \<open>\<rho>\<close>: with \<open>chk\<close> it is undefined where \<open>Int\<close> arithmetic overflows, without it wraps as the
  generated code does; \<open>ext\<close> gives the value of the expressions the analysis does not look into
  (calls, field accesses, bit operations, ...).
\<close>

section \<open>Values of contract expressions\<close>

datatype rvalue = RInt i64 | RBool bool | ROther nat

type_synonym store = "string \<Rightarrow> rvalue option"
type_synonym ext_sem = "store \<Rightarrow> ir_expr \<Rightarrow> rvalue option"

fun sem_unop :: "bool \<Rightarrow> unary_op \<Rightarrow> rvalue \<Rightarrow> rvalue option" where
  "sem_unop chk Neg (RInt i) = map_option RInt (rust_op chk (\<lambda>_ x. - x) 0 i)"
| "sem_unop chk Not (RBool b) = Some (RBool (\<not> b))"
| "sem_unop _ _ _ = None"

fun sem_cmp :: "bin_op \<Rightarrow> rvalue \<Rightarrow> rvalue \<Rightarrow> rvalue option" where
  "sem_cmp Eq (RInt a) (RInt b) = Some (RBool (sint a = sint b))"
| "sem_cmp Ne (RInt a) (RInt b) = Some (RBool (sint a \<noteq> sint b))"
| "sem_cmp Lt (RInt a) (RInt b) = Some (RBool (sint a < sint b))"
| "sem_cmp Le (RInt a) (RInt b) = Some (RBool (sint a \<le> sint b))"
| "sem_cmp Gt (RInt a) (RInt b) = Some (RBool (sint a > sint b))"
| "sem_cmp Ge (RInt a) (RInt b) = Some (RBool (sint a \<ge> sint b))"
| "sem_cmp Eq (RBool a) (RBool b) = Some (RBool (a = b))"
| "sem_cmp Ne (RBool a) (RBool b) = Some (RBool (a \<noteq> b))"
| "sem_cmp _ _ _ = None"

fun sem_arith :: "bool \<Rightarrow> bin_op \<Rightarrow> rvalue \<Rightarrow> rvalue \<Rightarrow> rvalue option" where
  "sem_arith chk Add (RInt a) (RInt b) = map_option RInt (rust_op chk (+) a b)"
| "sem_arith chk Sub (RInt a) (RInt b) = map_option RInt (rust_op chk (-) a b)"
| "sem_arith chk Mul (RInt a) (RInt b) = map_option RInt (rust_op chk (*) a b)"
| "sem_arith chk Div (RInt a) (RInt b) = map_option RInt (rust_div (sdiv) a b)"
| "sem_arith chk Mod (RInt a) (RInt b) = map_option RInt (rust_div (smod) a b)"
| "sem_arith _ _ _ _ = None"

definition is_cmp :: "bin_op \<Rightarrow> bool" where
  "is_cmp op = (op \<in> {Eq, Ne, Lt, Le, Gt, Ge})"

definition is_arith :: "bin_op \<Rightarrow> bool" where
  "is_arith op = (op \<in> {Add, Sub, Mul, Div, Mod})"

fun sem :: "bool \<Rightarrow> ext_sem \<Rightarrow> store \<Rightarrow> ir_expr \<Rightarrow> rvalue option" where
  "sem chk ext \<rho> (IExpr n k sp) =
     (case k of
        IInt v _ \<Rightarrow> Some (RInt v)
      | IBool v \<Rightarrow> Some (RBool v)
      | IVar x \<Rightarrow> \<rho> x
      | IUnary op e \<Rightarrow> Option.bind (sem chk ext \<rho> e) (sem_unop chk op)
      | IBinary op l r \<Rightarrow>
          (if op = And \<or> op = Or then
             Option.bind (sem chk ext \<rho> l) (\<lambda>v.
               if v = RBool (op = Or) then Some v
               else if v = RBool (op = And) then
                 Option.bind (sem chk ext \<rho> r) (\<lambda>w. case w of RBool _ \<Rightarrow> Some w | _ \<Rightarrow> None)
               else None)
           else if is_cmp op then
             Option.bind (sem chk ext \<rho> l) (\<lambda>v. Option.bind (sem chk ext \<rho> r) (sem_cmp op v))
           else if is_arith op then
             Option.bind (sem chk ext \<rho> l) (\<lambda>v. Option.bind (sem chk ext \<rho> r) (sem_arith chk op v))
           else ext \<rho> (IExpr n k sp))
      | _ \<Rightarrow> ext \<rho> (IExpr n k sp))"

declare sem.simps [simp del]

lemma sem_simps [simp]:
  "sem chk ext \<rho> (IExpr n (IInt v m) sp) = Some (RInt v)"
  "sem chk ext \<rho> (IExpr n (IBool b) sp) = Some (RBool b)"
  "sem chk ext \<rho> (IExpr n (IVar x) sp) = \<rho> x"
  "sem chk ext \<rho> (IExpr n (IUnary u e) sp) = Option.bind (sem chk ext \<rho> e) (sem_unop chk u)"
  "is_cmp op \<Longrightarrow> sem chk ext \<rho> (IExpr n (IBinary op l r) sp) =
     Option.bind (sem chk ext \<rho> l) (\<lambda>v. Option.bind (sem chk ext \<rho> r) (sem_cmp op v))"
  "is_arith op \<Longrightarrow> sem chk ext \<rho> (IExpr n (IBinary op l r) sp) =
     Option.bind (sem chk ext \<rho> l) (\<lambda>v. Option.bind (sem chk ext \<rho> r) (sem_arith chk op v))"
  by (auto simp: sem.simps is_cmp_def is_arith_def)

lemma sem_and:
  "sem chk ext \<rho> (IExpr n (IBinary And l r) sp) = Some v \<longleftrightarrow>
     sem chk ext \<rho> l = Some (RBool False) \<and> v = RBool False \<or>
     sem chk ext \<rho> l = Some (RBool True) \<and> (\<exists>b. sem chk ext \<rho> r = Some (RBool b) \<and> v = RBool b)"
  by (auto simp: sem.simps split: bind_splits rvalue.splits)

lemma sem_or:
  "sem chk ext \<rho> (IExpr n (IBinary Or l r) sp) = Some v \<longleftrightarrow>
     sem chk ext \<rho> l = Some (RBool True) \<and> v = RBool True \<or>
     sem chk ext \<rho> l = Some (RBool False) \<and> (\<exists>b. sem chk ext \<rho> r = Some (RBool b) \<and> v = RBool b)"
  by (auto simp: sem.simps split: bind_splits rvalue.splits)

lemma op_kinds [simp]:
  "is_cmp Eq" "is_cmp Ne" "is_cmp Lt" "is_cmp Le" "is_cmp Gt" "is_cmp Ge"
  "is_arith Add" "is_arith Sub" "is_arith Mul" "is_arith Div" "is_arith Mod"
  by (simp_all add: is_cmp_def is_arith_def)

lemma rust_op_checked: "rust_op True f a b = Some c \<Longrightarrow> rust_op chk f a b = Some c"
  by (auto simp: rust_op_def split: if_splits)

text \<open>Where no overflow occurs, the checked and the wrapping value agree.\<close>

lemma sem_arith_checked: "sem_arith True op v w = Some u \<Longrightarrow> sem_arith chk op v w = Some u"
  by (induction True op v w rule: sem_arith.induct) (auto dest: rust_op_checked)

lemma sem_unop_checked: "sem_unop True op v = Some u \<Longrightarrow> sem_unop chk op v = Some u"
  by (induction True op v rule: sem_unop.induct) (auto dest: rust_op_checked)

lemma sem_checked: "sem True ext \<rho> e = Some v \<Longrightarrow> sem chk ext \<rho> e = Some v"
proof (induction True ext \<rho> e arbitrary: v rule: sem.induct)
  case (1 ext \<rho> n k sp)
  then show ?case
  proof (cases k)
    case (IUnary u e)
    then show ?thesis
      using 1 by (auto simp: bind_eq_Some_conv dest: sem_unop_checked)
  next
    case (IBinary op l r)
    note IH = 1(1-6)[OF IBinary]
    consider "op = And" | "op = Or" | "is_cmp op" | "is_arith op"
      | "\<not> is_cmp op" "\<not> is_arith op" "op \<noteq> And" "op \<noteq> Or" by blast
    then show ?thesis
    proof cases
      case 1
      then show ?thesis using IH \<open>sem True ext \<rho> (IExpr n k sp) = Some v\<close>
        by (auto simp: IBinary sem_and)
    next
      case 2
      then show ?thesis using IH \<open>sem True ext \<rho> (IExpr n k sp) = Some v\<close>
        by (auto simp: IBinary sem_or)
    next
      case 3
      then have "op \<noteq> And" "op \<noteq> Or" by (auto simp: is_cmp_def)
      then show ?thesis using 3 IH \<open>sem True ext \<rho> (IExpr n k sp) = Some v\<close>
        by (auto simp: IBinary bind_eq_Some_conv)
    next
      case 4
      then have "op \<noteq> And" "op \<noteq> Or" "\<not> is_cmp op" by (auto simp: is_cmp_def is_arith_def)
      then show ?thesis using 4 IH \<open>sem True ext \<rho> (IExpr n k sp) = Some v\<close>
        by (auto simp: IBinary bind_eq_Some_conv dest: sem_arith_checked)
    next
      case 5
      then show ?thesis using \<open>sem True ext \<rho> (IExpr n k sp) = Some v\<close>
        by (simp add: IBinary sem.simps)
    qed
  qed (simp_all add: sem.simps)
qed

section \<open>The interval domain\<close>

text \<open>
  What the evaluator needs of an abstract domain of integers: a membership relation and operators
  that over-approximate the exact ones.
\<close>

locale int_domain =
  fixes mem :: "'r \<Rightarrow> i64 \<Rightarrow> bool"
    and top :: 'r
    and point :: "i64 \<Rightarrow> 'r"
    and plus :: "'r \<Rightarrow> 'r \<Rightarrow> 'r"
    and minus :: "'r \<Rightarrow> 'r \<Rightarrow> 'r"
    and negate :: "'r \<Rightarrow> 'r"
  assumes mem_top: "mem top a"
    and mem_point [simp]: "mem (point a) a"
    and mem_plus: "mem r a \<Longrightarrow> mem s b \<Longrightarrow> rust_op True (+) a b = Some c \<Longrightarrow> mem (plus r s) c"
    and mem_minus: "mem r a \<Longrightarrow> mem s b \<Longrightarrow> rust_op True (-) a b = Some c \<Longrightarrow> mem (minus r s) c"
    and mem_negate: "mem r a \<Longrightarrow> rust_op True (\<lambda>_ x. - x) 0 a = Some c \<Longrightarrow> mem (negate r) c"
begin

text \<open>A range other than the whole type is only ever given to an integer.\<close>

definition covers :: "'r \<Rightarrow> rvalue \<Rightarrow> bool" where
  "covers r v \<longleftrightarrow> r = top \<or> (\<exists>i. v = RInt i \<and> mem r i)"

lemma covers_int [simp]: "covers r (RInt i) \<longleftrightarrow> mem r i"
  by (auto simp: covers_def mem_top)

lemma covers_top [simp]: "covers top v"
  by (simp add: covers_def)

lemma covers_point [simp]: "covers (point i) (RInt i)"
  by (simp add: mem_point)

lemma covers_neg: "covers r v \<Longrightarrow> sem_unop True Neg v = Some u \<Longrightarrow> covers (negate r) u"
  by (cases v) (auto simp: mem_negate)

lemma covers_add:
  "covers r v \<Longrightarrow> covers s w \<Longrightarrow> sem_arith True Add v w = Some u \<Longrightarrow> covers (plus r s) u"
  by (cases v; cases w) (auto simp: mem_plus)

lemma covers_sub:
  "covers r v \<Longrightarrow> covers s w \<Longrightarrow> sem_arith True Sub v w = Some u \<Longrightarrow> covers (minus r s) u"
  by (cases v; cases w) (auto simp: mem_minus)

end

definition in_range :: "int_range \<Rightarrow> i64 \<Rightarrow> bool" where
  "in_range r a \<longleftrightarrow>
     (\<forall>l. rng_lower r = Some l \<longrightarrow> sint l \<le> sint a) \<and>
     (\<forall>u. rng_upper r = Some u \<longrightarrow> sint a \<le> sint u)"

lemma rust_op_sint: "rust_op True f a b = Some c \<Longrightarrow> sint c = f (sint a) (sint b)"
  by (auto simp: rust_op_def split: if_splits)

lemma checked_add_bound_Some:
  "checked_add_bound x y = Some c \<longleftrightarrow> (\<exists>a b. x = Some a \<and> y = Some b \<and> checked_add a b = Some c)"
  by (cases x; cases y) auto

lemma checked_sub_bound_Some:
  "checked_sub_bound x y = Some c \<longleftrightarrow> (\<exists>a b. x = Some a \<and> y = Some b \<and> checked_sub a b = Some c)"
  by (cases x; cases y) auto

interpretation rng: int_domain in_range unbounded singleton range_add range_sub range_neg
proof unfold_locales
  show "\<And>a. in_range unbounded a" "\<And>a. in_range (singleton a) a"
    by (simp_all add: in_range_def unbounded_def singleton_def)
next
  fix r a s b c
  assume "in_range r a" "in_range s b" "rust_op True (+) a b = Some c"
  then show "in_range (range_add r s) c"
    by (auto simp: in_range_def range_add_def checked_add_bound_Some checked_Some dest!: rust_op_sint
        intro: add_mono)
next
  fix r a s b c
  assume "in_range r a" "in_range s b" "rust_op True (-) a b = Some c"
  then show "in_range (range_sub r s) c"
    by (auto simp: in_range_def range_sub_def checked_sub_bound_Some checked_Some dest!: rust_op_sint
        intro: diff_mono)
next
  fix r a c
  assume "in_range r a" "rust_op True (\<lambda>_ x. - x) 0 a = Some c"
  then show "in_range (range_neg r) c"
    by (auto simp: in_range_def range_neg_def checked_neg_def checked_Some bind_eq_Some_conv
        dest!: rust_op_sint)
qed

section \<open>Soundness of the evaluators\<close>

fun cvalue_sem :: "cvalue \<Rightarrow> rvalue" where
  "cvalue_sem (CInt i) = RInt i"
| "cvalue_sem (CBool b) = RBool b"

lemma rust_op_agree: "rust_op oc f a b = Some c \<Longrightarrow> rust_op True f a b = Some d \<Longrightarrow> c = d"
  by (auto simp: rust_op_def split: if_splits)

lemma const_unop_sound:
  "const_unop oc op c = Some (Some d) \<Longrightarrow> sem_unop True op (cvalue_sem c) = Some v \<Longrightarrow>
   v = cvalue_sem d"
  by (induction oc op c rule: const_unop.induct) (auto dest: rust_op_agree)

lemma sint_inj: "sint a = sint b \<longleftrightarrow> a = (b :: i64)"
  by (metis of_int_sint scast_id)

lemma const_binop_cmp_sound:
  "const_binop oc op c d = Some (Some e) \<Longrightarrow>
   sem_cmp op (cvalue_sem c) (cvalue_sem d) = Some v \<Longrightarrow> v = cvalue_sem e"
  by (induction oc op c d rule: const_binop.induct) (auto simp: sint_inj)

lemma const_binop_arith_sound:
  "const_binop oc op c d = Some (Some e) \<Longrightarrow>
   sem_arith True op (cvalue_sem c) (cvalue_sem d) = Some v \<Longrightarrow> v = cvalue_sem e"
  by (induction oc op c d rule: const_binop.induct) (auto dest: rust_op_agree)

lemma const_binop_bool:
  "const_binop oc And c d = Some (Some e) \<Longrightarrow>
     \<exists>a b. c = CBool a \<and> d = CBool b \<and> e = CBool (a \<and> b)"
  "const_binop oc Or c d = Some (Some e) \<Longrightarrow>
     \<exists>a b. c = CBool a \<and> d = CBool b \<and> e = CBool (a \<or> b)"
  by (cases c; cases d; simp)+

lemma const_binop_other:
  "\<not> is_cmp op \<Longrightarrow> \<not> is_arith op \<Longrightarrow> op \<noteq> And \<Longrightarrow> op \<noteq> Or \<Longrightarrow> const_binop oc op c d = Some None"
  by (cases op; cases c; cases d) (auto simp: is_cmp_def is_arith_def)

lemma eval_const_sound:
  "eval_const oc e = Some (Some c) \<Longrightarrow> sem True ext \<rho> e = Some v \<Longrightarrow> v = cvalue_sem c"
proof (induction oc e arbitrary: c v rule: eval_const.induct)
  case (3 oc n op e sp)
  then show ?case
    by (auto simp: try_opt_Some_Some bind_eq_Some_conv dest: const_unop_sound)
next
  case (4 oc n op l r sp)
  then obtain a b where ab: "eval_const oc l = Some (Some a)" "eval_const oc r = Some (Some b)"
      "const_binop oc op a b = Some (Some c)"
    by (auto simp: try_opt_Some_Some)
  note IH = "4.IH"(1) [OF ab(1)] "4.IH"(2) [OF ab(1) ab(2)]
  consider "op = And" | "op = Or" | "is_cmp op" | "is_arith op"
    | "\<not> is_cmp op" "\<not> is_arith op" "op \<noteq> And" "op \<noteq> Or" by blast
  then show ?case
  proof cases
    case 1
    with 4(4) IH ab(3) show ?thesis
      by (auto simp: sem_and dest!: const_binop_bool)
  next
    case 2
    with 4(4) IH ab(3) show ?thesis
      by (auto simp: sem_or dest!: const_binop_bool)
  next
    case 3
    with 4(4) IH ab(3) show ?thesis
      by (auto simp: bind_eq_Some_conv dest: const_binop_cmp_sound)
  next
    case 4
    with \<open>sem True ext \<rho> _ = Some v\<close> IH ab(3) show ?thesis
      by (auto simp: bind_eq_Some_conv dest: const_binop_arith_sound)
  next
    case 5
    with ab(3) const_binop_other show ?thesis by simp
  qed
qed auto

text \<open>
  The environment of the analysis describes a store when its range for every variable covers the
  variable's value; \<open>V\<close> are the variables this is known of.
\<close>

definition env_ok :: "(string \<Rightarrow> bool) \<Rightarrow> range_env \<Rightarrow> store \<Rightarrow> bool" where
  "env_ok V env \<rho> \<longleftrightarrow> (\<forall>x v. V x \<longrightarrow> \<rho> x = Some v \<longrightarrow> rng.covers (env_range env x) v)"

abbreviation not_result :: "string \<Rightarrow> bool" where
  "not_result x \<equiv> x \<noteq> ''result''"

text \<open>What the result expression's range, if there is one, says of the variable \<open>result\<close>.\<close>

definition result_ok :: "bool \<Rightarrow> range_env \<Rightarrow> ir_expr option \<Rightarrow> store \<Rightarrow> bool" where
  "result_ok oc env res \<rho> \<longleftrightarrow>
     (\<forall>e r v. res = Some e \<longrightarrow> eval_int_range oc e env None = Some (Some r) \<longrightarrow>
        \<rho> ''result'' = Some v \<longrightarrow> rng.covers r v)"

lemma const_range_sound:
  assumes "const_range oc e = Some (Some r)" "sem True ext \<rho> e = Some v"
  shows "rng.covers r v"
proof -
  obtain i where "eval_const oc e = Some (Some (CInt i))" "r = singleton i"
    using assms(1) unfolding const_range_def map_option_eq_Some
    by (elim exE conjE) (case_tac z, simp, case_tac a, simp_all)
  then show ?thesis
    using eval_const_sound [OF _ assms(2)] by simp
qed

lemma eval_int_range_sound:
  assumes "eval_int_range oc e env res = Some (Some r)" "sem True ext \<rho> e = Some v"
    and "env_ok not_result env \<rho>" "result_ok oc env res \<rho>"
  shows "rng.covers r v"
  using assms
proof (induction oc e env res arbitrary: r v rule: eval_int_range.induct)
  case (1 oc n k sp env res)
  show ?case
  proof (cases k)
    case (IInt x m)
    then show ?thesis using 1(7,8) by (auto simp: eval_int_range.simps)
  next
    case (IVar x)
    then show ?thesis
      using 1(7-) by (auto simp: eval_int_range.simps env_ok_def result_ok_def split: if_splits option.splits)
  next
    case (IUnary u e)
    show ?thesis
    proof (cases "u = Neg")
      case True
      then obtain s w where "eval_int_range oc e env res = Some (Some s)" "r = range_neg s"
          "sem True ext \<rho> e = Some w" "sem_unop True Neg w = Some v"
        using 1(7,8) IUnary by (auto simp: eval_int_range.simps try_opt_Some_Some bind_eq_Some_conv)
      then show ?thesis
        using 1(6) [OF IUnary True] 1(9,10) rng.covers_neg by blast
    next
      case False
      then show ?thesis using 1(7,8) IUnary const_range_sound
        by (cases u) (simp_all add: eval_int_range.simps)
    qed
  next
    case (IBinary op a b)
    show ?thesis
    proof (cases "op = Add \<or> op = Sub")
      case True
      then obtain s t x y where st: "eval_int_range oc a env res = Some (Some s)"
          "eval_int_range oc b env res = Some (Some t)"
          "r = (if op = Add then range_add s t else range_sub s t)"
        and xy: "sem True ext \<rho> a = Some x" "sem True ext \<rho> b = Some y"
          "sem_arith True op x y = Some v"
        using 1(7,8) IBinary by (auto simp: eval_int_range.simps try_opt_Some_Some bind_eq_Some_conv)
      have "rng.covers s x"
        using True 1(2,4) IBinary st(1) xy(1) 1(9,10) by metis
      moreover have "rng.covers t y"
        using True 1(3,5) IBinary st(1,2) xy(2) 1(9,10) by metis
      ultimately show ?thesis
        using True st(3) xy(3) rng.covers_add rng.covers_sub by auto
    next
      case False
      then show ?thesis using 1(7,8) IBinary const_range_sound
        by (cases op) (simp_all add: eval_int_range.simps)
    qed
  qed (use 1(7,8) const_range_sound in \<open>simp_all add: eval_int_range.simps\<close>)
qed

definition agrees :: "proof_state \<Rightarrow> rvalue \<Rightarrow> bool" where
  "agrees s v \<longleftrightarrow> (s = PTrue \<longrightarrow> v = RBool True) \<and> (s = PFalse \<longrightarrow> v = RBool False)"

lemma agrees_simps [simp]:
  "agrees PTrue v \<longleftrightarrow> v = RBool True" "agrees PFalse v \<longleftrightarrow> v = RBool False" "agrees PUnknown v"
  by (simp_all add: agrees_def)

lemma same_int_expr_sem: "same_int_expr a b \<Longrightarrow> sem chk ext \<rho> a = sem chk ext \<rho> b"
proof (induction a b rule: same_int_expr.induct)
  case (1 n k sp e')
  then show ?case
    by (cases e') (auto simp: same_int_expr.simps [of n k] split: ir_expr_kind.splits)
qed

lemma compare_same_sound: "sem_cmp op v v = Some u \<Longrightarrow> agrees (compare_same op) u"
  by (cases op; cases v) auto

lemma covers_bounded:
  "rng.covers r v \<Longrightarrow> rng_lower r \<noteq> None \<or> rng_upper r \<noteq> None \<Longrightarrow> \<exists>i. v = RInt i \<and> in_range r i"
  unfolding rng.covers_def by (auto simp: unbounded_def)

lemma both_Some: "both P x y \<longleftrightarrow> (\<exists>a b. x = Some a \<and> y = Some b \<and> P (sint a) (sint b))"
  by (cases x; cases y) (auto simp: both_def)

lemma both_covers:
  "both P (rng_upper r) (rng_lower s) \<Longrightarrow> rng.covers r v \<Longrightarrow> rng.covers s w \<Longrightarrow>
     \<exists>a b l u. v = RInt a \<and> w = RInt b \<and> P u l \<and> sint a \<le> u \<and> l \<le> sint b"
  "both P (rng_lower r) (rng_upper s) \<Longrightarrow> rng.covers r v \<Longrightarrow> rng.covers s w \<Longrightarrow>
     \<exists>a b l u. v = RInt a \<and> w = RInt b \<and> P l u \<and> l \<le> sint a \<and> sint b \<le> u"
  using covers_bounded [of r v] covers_bounded [of s w] by (fastforce simp: both_Some in_range_def)+

lemma compare_eq_sound:
  assumes "rng.covers r v" "rng.covers s w"
  shows "compare_eq r s = PTrue \<Longrightarrow> \<exists>a. v = RInt a \<and> w = RInt a"
    and "compare_eq r s = PFalse \<Longrightarrow> \<exists>a b. v = RInt a \<and> w = RInt b \<and> a \<noteq> b"
proof -
  assume "compare_eq r s = PTrue"
  then obtain a where a: "rng_lower r = Some a" "rng_upper r = Some a"
      "rng_lower s = Some a" "rng_upper s = Some a"
    by (cases "rng_lower r") (simp_all add: compare_eq_def decide_def split: if_splits)
  then have "\<exists>b c. v = RInt b \<and> w = RInt c \<and> sint b = sint a \<and> sint c = sint a"
    using covers_bounded [OF assms(1)] covers_bounded [OF assms(2)] by (force simp: in_range_def)
  then show "\<exists>a. v = RInt a \<and> w = RInt a" by (auto simp: sint_inj)
next
  assume "compare_eq r s = PFalse"
  then have "both (<) (rng_upper r) (rng_lower s) \<or> both (<) (rng_upper s) (rng_lower r)"
    by (auto simp: compare_eq_def decide_def ranges_disjoint_def split: if_splits)
  then show "\<exists>a b. v = RInt a \<and> w = RInt b \<and> a \<noteq> b"
    using both_covers(1) [of "(<)" r s v w] both_covers(1) [of "(<)" s r w v] assms by auto
qed

lemma negate_state_iff [simp]:
  "negate_state s = PTrue \<longleftrightarrow> s = PFalse" "negate_state s = PFalse \<longleftrightarrow> s = PTrue"
  by (cases s; simp)+

lemma compare_ranges_sound:
  assumes "rng.covers r v" "rng.covers s w" "sem_cmp op v w = Some u"
  shows "agrees (compare_ranges op r s) u"
proof (cases "op = Eq \<or> op = Ne")
  case True
  then show ?thesis
    using compare_eq_sound [OF assms(1,2)] assms(3)
    by (cases "compare_eq r s") (auto simp: sint_inj)
next
  case False
  have 1: "both P (rng_upper r) (rng_lower s) \<Longrightarrow>
      \<exists>a b l u. v = RInt a \<and> w = RInt b \<and> P u l \<and> sint a \<le> u \<and> l \<le> sint b" for P
    using both_covers(1) assms by blast
  have 2: "both P (rng_lower r) (rng_upper s) \<Longrightarrow>
      \<exists>a b l u. v = RInt a \<and> w = RInt b \<and> P l u \<and> l \<le> sint a \<and> sint b \<le> u" for P
    using both_covers(2) assms by blast
  show ?thesis
    using False assms(3)
    by (cases op) (auto simp: decide_def dest!: 1 2)
qed

lemma eval_comparison_sound:
  assumes "eval_comparison oc op l r env res = Some s" "is_cmp op"
    and "sem True ext \<rho> l = Some v" "sem True ext \<rho> r = Some w" "sem_cmp op v w = Some u"
    and "env_ok not_result env \<rho>" "result_ok oc env res \<rho>"
  shows "agrees s u"
proof (cases "same_int_expr l r")
  case True
  then show ?thesis
    using same_int_expr_sem [OF True, of True ext \<rho>] assms compare_same_sound [of op v u]
    by (auto simp add: eval_comparison_def del: compare_same.simps)
next
  case False
  show ?thesis
  proof (cases "s = PUnknown")
    case False
    then obtain a b where "eval_int_range oc l env res = Some (Some a)"
        "eval_int_range oc r env res = Some (Some b)" "s = compare_ranges op a b"
      using assms(1) \<open>\<not> same_int_expr l r\<close>
      by (auto simp: eval_comparison_def try_opt_def split: option.splits)
    then show ?thesis
      using eval_int_range_sound [OF _ assms(3) assms(6,7)]
        eval_int_range_sound [OF _ assms(4) assms(6,7)] compare_ranges_sound assms(5) by metis
  qed simp
qed

lemma const_state_sound:
  assumes "const_state oc e = Some s" "sem True ext \<rho> e = Some v"
  shows "agrees s v"
proof -
  obtain z where z: "eval_const oc e = Some z"
      "s = (case z of Some (CBool b) \<Rightarrow> (if b then PTrue else PFalse) | _ \<Rightarrow> PUnknown)"
    using assms(1) by (auto simp: const_state_def)
  show ?thesis
  proof (cases "\<exists>b. z = Some (CBool b)")
    case True
    then obtain b where "z = Some (CBool b)" by blast
    then show ?thesis using z eval_const_sound [OF _ assms(2), of oc "CBool b"] by simp
  next
    case False
    then have "s = PUnknown" using z(2) by (simp split: option.split cvalue.split)
    then show ?thesis by simp
  qed
qed

lemma and_state_iff:
  "and_state a b = PTrue \<longleftrightarrow> a = PTrue \<and> b = PTrue"
  "and_state a b = PFalse \<longleftrightarrow> a = PFalse \<or> b = PFalse"
  by (cases a; cases b; simp)+

lemma or_state_iff:
  "or_state a b = PFalse \<longleftrightarrow> a = PFalse \<and> b = PFalse"
  "or_state a b = PTrue \<longleftrightarrow> a = PTrue \<or> b = PTrue"
  by (cases a; cases b; simp)+

lemma eval_logic_sound:
  assumes "eval_logic oc e env res = Some s" "sem True ext \<rho> e = Some v"
    and "env_ok not_result env \<rho>" "result_ok oc env res \<rho>"
  shows "agrees s v"
  using assms
proof (induction oc e env res arbitrary: s v rule: eval_logic.induct)
  case (1 oc n k sp env res)
  note prems = 1(6,7) and ok = 1(8,9)
  show ?case
  proof (cases k)
    case (IBool b)
    then show ?thesis using prems by (auto simp: eval_logic.simps)
  next
    case (IUnary u e)
    show ?thesis
    proof (cases "u = Not")
      case True
      then obtain t w where "eval_logic oc e env res = Some t" "s = negate_state t"
          "sem True ext \<rho> e = Some w" "sem_unop True Not w = Some v"
        using prems IUnary by (auto simp: eval_logic.simps bind_eq_Some_conv)
      then show ?thesis
        using 1(5) [OF IUnary True] ok by (cases w) (auto simp: agrees_def)
    next
      case False
      then show ?thesis using prems IUnary const_state_sound
        by (cases u) (simp_all add: eval_logic.simps)
    qed
  next
    case (IBinary op l r)
    consider "op = And" | "op = Or" | "is_cmp op" | "\<not> is_cmp op" "op \<noteq> And" "op \<noteq> Or" by blast
    then show ?thesis
    proof cases
      case c: 1
      then obtain a b where ab: "eval_logic oc l env res = Some a" "eval_logic oc r env res = Some b"
          "s = and_state a b"
        using prems(1) IBinary by (auto simp: eval_logic.simps bind_eq_Some_conv)
      have "agrees a x" if "sem True ext \<rho> l = Some x" for x
        using 1(1) [OF IBinary c ab(1) that] ok by blast
      moreover have "agrees b x" if "sem True ext \<rho> r = Some x" for x
        using 1(2) [OF IBinary c ab(1) ab(2) that] ok by blast
      ultimately show ?thesis
        using prems(2) ab(3) unfolding IBinary c sem_and agrees_def by (auto simp: and_state_iff)
    next
      case c: 2
      then obtain a b where ab: "eval_logic oc l env res = Some a" "eval_logic oc r env res = Some b"
          "s = or_state a b"
        using prems(1) IBinary by (auto simp: eval_logic.simps bind_eq_Some_conv)
      have "agrees a x" if "sem True ext \<rho> l = Some x" for x
        using 1(3) [OF IBinary c ab(1) that] ok by blast
      moreover have "agrees b x" if "sem True ext \<rho> r = Some x" for x
        using 1(4) [OF IBinary c ab(1) ab(2) that] ok by blast
      ultimately show ?thesis
        using prems(2) ab(3) unfolding IBinary c sem_or agrees_def by (auto simp: or_state_iff)
    next
      case 3
      then have "eval_comparison oc op l r env res = Some s"
        using prems(1) IBinary by (cases op) (auto simp: eval_logic.simps is_cmp_def)
      then show ?thesis
        using 3 prems(2) IBinary eval_comparison_sound [OF _ 3] ok by (auto simp: bind_eq_Some_conv)
    next
      case 4
      then have "eval_comparison oc op l r env res = Some s"
        using prems(1) IBinary by (cases op) (auto simp: eval_logic.simps)
      moreover have "compare_ranges op x y = PUnknown" "compare_same op = PUnknown" for x y
        using 4 by (cases op; simp add: is_cmp_def)+
      ultimately have "s = PUnknown"
        by (auto simp: eval_comparison_def try_opt_def split: if_splits option.splits)
      then show ?thesis by simp
    qed
  qed (use prems const_state_sound in \<open>simp_all add: eval_logic.simps\<close>)
qed

end
