(* ===== verification/ContractEnsures.thy ===== *)
theory ContractEnsures
  imports ContractSoundness
begin

text \<open>
  Soundness of the static contract verdicts: what a discharged \<open>requires\<close>, invariant or
  \<open>ensures\<close> means for the values of the program, and where the code's verdict goes further than
  the analysis can justify.
\<close>

section \<open>Conditions refine the environment\<close>

text \<open>
  The conditions for which the negation is refined correctly: comparisons, and everything that is
  not a binary operator. For \<open>&&\<close> and \<open>||\<close> the code drops the negative branch.
\<close>

fun cond_supported :: "ir_expr \<Rightarrow> bool" where
  "cond_supported (IExpr _ k _) = (case k of IBinary op _ _ \<Rightarrow> is_cmp op | _ \<Rightarrow> True)"

abbreviation any_var :: "string \<Rightarrow> bool" where
  "any_var x \<equiv> True"

lemma env_ok_weaken: "env_ok any_var env \<rho> \<Longrightarrow> env_ok V env \<rho>"
  by (auto simp: env_ok_def)

lemma env_range_insert:
  "env_range (bt_insert x r env) y = (if y = x then r else env_range env y)"
  by (auto simp: env_range_def bt.get_ins)

lemma invert_cmp_sem:
  "is_cmp op \<Longrightarrow> sem_cmp op v w = Some (RBool b) \<Longrightarrow>
   \<exists>op'. invert_cmp op = Some op' \<and> is_cmp op' \<and> sem_cmp op' v w = Some (RBool (\<not> b))"
  by (cases op; cases v; cases w) (auto simp: is_cmp_def)

lemma flip_cmp_sem:
  "is_cmp op \<Longrightarrow> sem_cmp op v w = Some (RBool b) \<Longrightarrow>
   \<exists>op'. flip_cmp op = Some op' \<and> is_cmp op' \<and> sem_cmp op' w v = Some (RBool b)"
  by (cases op; cases v; cases w) (auto simp: is_cmp_def)

lemma min_bound_le:
  "min_bound x y = Some c \<Longrightarrow>
   (\<And>a. x = Some a \<Longrightarrow> i \<le> sint a) \<Longrightarrow> (\<And>a. y = Some a \<Longrightarrow> i \<le> sint a) \<Longrightarrow> i \<le> sint c"
  by (cases x; cases y) (auto simp: i64_min_def split: if_splits)

lemma max_bound_ge:
  "max_bound x y = Some c \<Longrightarrow>
   (\<And>a. x = Some a \<Longrightarrow> sint a \<le> i) \<Longrightarrow> (\<And>a. y = Some a \<Longrightarrow> sint a \<le> i) \<Longrightarrow> sint c \<le> i"
  by (cases x; cases y) (auto simp: i64_max_def split: if_splits)

lemma in_range_upper:
  "in_range r a \<Longrightarrow> (\<And>c. x = Some c \<Longrightarrow> sint a \<le> sint c) \<Longrightarrow>
   in_range (r\<lparr>rng_upper := min_bound (rng_upper r) x\<rparr>) a"
  unfolding in_range_def by (auto intro: min_bound_le)

lemma in_range_lower:
  "in_range r a \<Longrightarrow> (\<And>c. x = Some c \<Longrightarrow> sint c \<le> sint a) \<Longrightarrow>
   in_range (r\<lparr>rng_lower := max_bound (rng_lower r) x\<rparr>) a"
  unfolding in_range_def by (auto intro: max_bound_ge)

lemma narrow_sound:
  assumes "narrow op c r = Some r'" "in_range r a" "sem_cmp op (RInt a) (RInt c) = Some (RBool True)"
  shows "in_range r' a"
  using assms
  by (cases op)
    (auto simp: checked_Some in_range_def [of "int_range_ext _ _ _"]
      intro!: in_range_upper in_range_lower)

lemma narrow_cmp: "is_cmp op \<Longrightarrow> \<exists>r'. narrow op c r = Some r'"
  by (cases op) (auto simp: is_cmp_def)

lemma no_conflict: "in_range r a \<Longrightarrow> \<not> bounds_conflict (rng_lower r) (rng_upper r)"
  by (cases "rng_lower r"; cases "rng_upper r") (auto simp: in_range_def)

text \<open>A comparison of the condition, with the variable on the left.\<close>

lemma refine_step:
  assumes env: "env_ok any_var env \<rho>"
    and cmp: "is_cmp op" "sem_cmp op v w = Some (RBool True)"
    and l: "sem True ext \<rho> l = Some v" and r: "sem True ext \<rho> r = Some w"
  shows "\<exists>env'. (case extract_var_const_cmp l r op of
             None \<Rightarrow> Some env
           | Some (name, cmp', c) \<Rightarrow>
               (case narrow cmp' c (env_range env name) of
                  None \<Rightarrow> Some env
                | Some rng \<Rightarrow>
                    (if bounds_conflict (rng_lower rng) (rng_upper rng) then None
                     else Some (bt_insert name rng env)))) = Some env' \<and> env_ok any_var env' \<rho>"
proof (cases "extract_var_const_cmp l r op")
  case None
  then show ?thesis using env by simp
next
  case (Some t)
  obtain x op' c where t: "t = (x, op', c)" by (cases t)
  have "\<exists>a. \<rho> x = Some a \<and> is_cmp op' \<and> sem_cmp op' a (RInt c) = Some (RBool True)"
  proof -
    consider n m y s s' where "l = IExpr n (IVar x) s" "r = IExpr m (IInt c y) s'" "op' = op"
      | n m y s s' where "l = IExpr n (IInt c y) s" "r = IExpr m (IVar x) s'" "flip_cmp op = Some op'"
      using Some unfolding t extract_var_const_cmp_def
      by (cases l; cases r) (auto split: ir_expr_kind.splits)
    then show ?thesis
    proof cases
      case 1
      then show ?thesis using cmp l r by simp
    next
      case 2
      then show ?thesis using cmp l r flip_cmp_sem by fastforce
    qed
  qed
  then obtain a where a: "\<rho> x = Some (RInt a)" and op': "is_cmp op'"
      "sem_cmp op' (RInt a) (RInt c) = Some (RBool True)"
    by (metis rvalue.exhaust sem_cmp.simps option.distinct(1))
  obtain rng where rng: "narrow op' c (env_range env x) = Some rng"
    using narrow_cmp [OF op'(1)] by blast
  have "rng.covers (env_range env x) (RInt a)"
    using env a unfolding env_ok_def by blast
  then have "in_range (env_range env x) a"
    by simp
  then have rng_a: "in_range rng a"
    using narrow_sound [OF rng] op'(2) by blast
  then have "env_ok any_var (bt_insert x rng env) \<rho>"
    using env a by (auto simp: env_ok_def env_range_insert)
  then show ?thesis
    using Some t rng no_conflict [OF rng_a] by simp
qed

lemma refine_sound:
  assumes env: "env_ok any_var env \<rho>" and c: "sem True ext \<rho> c = Some (RBool b)"
    and supp: "cond_supported c"
  shows "\<exists>env'. refine_env_for_condition env c b = Some env' \<and> env_ok any_var env' \<rho>"
proof -
  obtain n k sp where ck: "c = IExpr n k sp" by (cases c)
  show ?thesis
  proof (cases "\<exists>op l r. k = IBinary op l r")
    case True
    then obtain op l r where k: "k = IBinary op l r" by blast
    have cmp: "is_cmp op" using supp ck k by simp
    then obtain v w where v: "sem True ext \<rho> l = Some v" and w: "sem True ext \<rho> r = Some w"
        and vw: "sem_cmp op v w = Some (RBool b)"
      using c ck k by (auto simp: bind_eq_Some_conv)
    show ?thesis
    proof (cases b)
      case True
      then show ?thesis
        using refine_step [OF env cmp _ v w] vw ck k by simp
    next
      case False
      then obtain op' where op': "invert_cmp op = Some op'" "is_cmp op'"
          "sem_cmp op' v w = Some (RBool True)"
        using invert_cmp_sem [OF cmp vw] by auto
      show ?thesis
        using refine_step [OF env op'(2,3) v w] False op'(1) ck k by simp
    qed
  next
    case False
    then have "refine_env_for_condition env c b = Some env"
      by (cases k) (simp_all add: ck)
    then show ?thesis using env by blast
  qed
qed

section \<open>The paths of a function body\<close>

text \<open>
  The value a function body returns: through its tail, whose \<open>if\<close>s and \<open>return\<close>s are followed as
  the analysis follows them. A body with statements is outside the analysis, and its value is
  given by \<open>extb\<close>.
\<close>

type_synonym ext_block = "store \<Rightarrow> ir_block \<Rightarrow> rvalue option"

fun tail_value :: "bool \<Rightarrow> ext_sem \<Rightarrow> ext_block \<Rightarrow> store \<Rightarrow> ir_expr \<Rightarrow> rvalue option"
  and body_value :: "bool \<Rightarrow> ext_sem \<Rightarrow> ext_block \<Rightarrow> store \<Rightarrow> ir_block \<Rightarrow> rvalue option" where
  "tail_value chk ext extb \<rho> (IExpr n k sp) =
     (case k of
        IIf c t e \<Rightarrow>
          Option.bind (sem chk ext \<rho> c) (\<lambda>v.
            if v = RBool True then body_value chk ext extb \<rho> t
            else if v = RBool False then body_value chk ext extb \<rho> e
            else None)
      | IReturn (Some v) \<Rightarrow> sem chk ext \<rho> v
      | IReturn None \<Rightarrow> Some (ROther 0)
      | _ \<Rightarrow> sem chk ext \<rho> (IExpr n k sp))"
| "body_value chk ext extb \<rho> (IBlock n ss t sp) =
     (if ss \<noteq> [] then extb \<rho> (IBlock n ss t sp)
      else case t of Some e \<Rightarrow> tail_value chk ext extb \<rho> e | None \<Rightarrow> Some (ROther 0))"

declare tail_value.simps [simp del]

fun conds_supported :: "ir_expr \<Rightarrow> bool"
  and block_conds_supported :: "ir_block \<Rightarrow> bool" where
  "conds_supported (IExpr n k sp) =
     (case k of
        IIf c t e \<Rightarrow> cond_supported c \<and> block_conds_supported t \<and> block_conds_supported e
      | _ \<Rightarrow> True)"
| "block_conds_supported (IBlock n ss t sp) =
     (case t of Some e \<Rightarrow> conds_supported e | None \<Rightarrow> True)"

definition path_taken :: "ext_sem \<Rightarrow> store \<Rightarrow> rvalue \<Rightarrow> tail_path \<Rightarrow> bool" where
  "path_taken ext \<rho> w p \<longleftrightarrow> env_ok any_var (tp_env p) \<rho> \<and>
     (\<forall>e. tp_result_expr p = Some e \<longrightarrow> sem True ext \<rho> e = Some w)"

lemma paths_cover:
  "collect_expr_paths e env = Some ps \<Longrightarrow> env_ok any_var env \<rho> \<Longrightarrow> conds_supported e \<Longrightarrow>
     tail_value True ext extb \<rho> e = Some w \<Longrightarrow> \<exists>p \<in> set ps. path_taken ext \<rho> w p"
  "collect_tail_paths b env = Some ps \<Longrightarrow> env_ok any_var env \<rho> \<Longrightarrow> block_conds_supported b \<Longrightarrow>
     body_value True ext extb \<rho> b = Some w \<Longrightarrow> \<exists>p \<in> set ps. path_taken ext \<rho> w p"
proof (induction e env and b env arbitrary: ps and ps rule: collect_expr_paths_collect_tail_paths.induct)
  case (1 n k sp env)
  show ?case
  proof (cases "\<exists>c t e. k = IIf c t e")
    case True
    then obtain c t e where k: "k = IIf c t e" by blast
    have supp: "cond_supported c" "block_conds_supported t" "block_conds_supported e"
      using 1(5) k by simp_all
    obtain ps1 ps2 where ps1: "branch_paths (refine_env_for_condition env c True) (collect_tail_paths t) = Some ps1"
        and ps2: "branch_paths (refine_env_for_condition env c False) (collect_tail_paths e) = Some ps2"
        and ps: "ps = ps1 @ ps2"
      using 1(3) k by (auto simp: collect_expr_paths.simps bind_eq_Some_conv)
    obtain b where b: "sem True ext \<rho> c = Some (RBool b)"
        and val: "body_value True ext extb \<rho> (if b then t else e) = Some w"
      using 1(6) k by (auto simp: tail_value.simps bind_eq_Some_conv split: if_splits)
    obtain env' where env': "refine_env_for_condition env c b = Some env'" "env_ok any_var env' \<rho>"
      using refine_sound [OF 1(4) b supp(1)] by blast
    show ?thesis
    proof (cases b)
      case True
      then have "collect_tail_paths t env' = Some ps1"
        using ps1 env'(1) by (simp add: branch_paths_def)
      then have "\<exists>p \<in> set ps1. path_taken ext \<rho> w p"
        using 1(1) [OF k _ _ env'(2) supp(2)] val True env'(1) by simp
      then show ?thesis using ps by auto
    next
      case False
      then have "collect_tail_paths e env' = Some ps2"
        using ps2 env'(1) by (simp add: branch_paths_def)
      then have "\<exists>p \<in> set ps2. path_taken ext \<rho> w p"
        using 1(2) [OF k ps1 _ _ env'(2) supp(3)] val False env'(1) by simp
      then show ?thesis using ps by auto
    qed
  next
    case False
    then show ?thesis
      using 1(3,4,6)
      by (cases k) (auto simp: collect_expr_paths.simps tail_value.simps path_taken_def
          split: option.splits)
  qed
next
  case (2 n ss t sp env)
  then show ?case
    by (auto simp: path_taken_def split: if_splits option.splits)
qed

lemma prove_paths_True:
  "prove_paths oc ens saw ps = Some PTrue \<Longrightarrow>
   \<not> saw \<and> (\<forall>p \<in> set ps. prove_expression oc ens (tp_env p) (tp_result_expr p) = Some PTrue)"
proof (induction ps arbitrary: saw)
  case Nil
  then show ?case by (simp split: if_splits)
next
  case (Cons p ps)
  then obtain s where "prove_expression oc ens (tp_env p) (tp_result_expr p) = Some s"
    by (auto simp: bind_eq_Some_conv)
  then show ?case
    using Cons.prems Cons.IH [of saw] Cons.IH [of True] by (cases s) auto
qed

lemma result_ok_None: "result_ok oc env None \<rho>"
  by (simp add: result_ok_def)

lemma result_ok_Some:
  assumes "env_ok any_var env \<rho>" "sem True ext \<rho> e = Some w"
  shows "result_ok oc env (Some e) (\<rho>(''result'' \<mapsto> w))"
  unfolding result_ok_def
  using eval_int_range_sound [OF _ assms(2) env_ok_weaken [OF assms(1)] result_ok_None] by simp

lemma env_ok_upd: "env_ok any_var env \<rho> \<Longrightarrow> env_ok not_result env (\<rho>(''result'' \<mapsto> w))"
  by (simp add: env_ok_def)

lemma prove_ensures_sound:
  assumes proved: "prove_ensures oc f ens env = Some PTrue"
    and env: "env_ok any_var env \<rho>" and supp: "block_conds_supported (if_body f)"
    and body: "body_value True ext extb \<rho> (if_body f) = Some w"
    and ens: "sem True ext (\<rho>(''result'' \<mapsto> w)) ens = Some v"
  shows "v = RBool True"
proof -
  obtain d where d: "eval_logic oc ens env None = Some d"
    using proved by (auto simp: prove_ensures_def prove_expression_def bind_eq_Some_conv)
  show ?thesis
  proof (cases "d = PUnknown")
    case False
    then have "eval_logic oc ens env None = Some PTrue"
      using d proved by (simp add: prove_ensures_def prove_expression_def)
    then show ?thesis
      using eval_logic_sound [OF _ ens env_ok_upd [OF env] result_ok_None] by fastforce
  next
    case True
    then obtain ps where ps: "collect_tail_paths (if_body f) env = Some ps"
        "prove_paths oc ens False ps = Some PTrue"
      using d proved
      by (auto simp: prove_ensures_def prove_expression_def split: option.splits if_splits)
    obtain p where p: "p \<in> set ps" "path_taken ext \<rho> w p"
      using paths_cover(2) [OF ps(1) env supp body] by blast
    have proved_p: "eval_logic oc ens (tp_env p) (tp_result_expr p) = Some PTrue"
      using prove_paths_True [OF ps(2)] p(1) by (simp add: prove_expression_def)
    have "result_ok oc (tp_env p) (tp_result_expr p) (\<rho>(''result'' \<mapsto> w))"
      using p(2) result_ok_Some result_ok_None
      by (cases "tp_result_expr p") (auto simp: path_taken_def)
    then show ?thesis
      using eval_logic_sound [OF proved_p ens env_ok_upd] p(2) by (auto simp: path_taken_def)
  qed
qed

lemma bt_get_unconstrained: "env_range (unconstrained_env names) x = unbounded"
proof -
  have "map_of (map (\<lambda>x. (x, unbounded)) xs) x \<in> {None, Some unbounded}" for xs
    by (induction xs) auto
  from this [of "rev names"] show ?thesis
    by (auto simp: env_range_def unconstrained_env_def bt_collect_get rev_map split: option.split)
qed

lemma env_ok_unconstrained: "env_ok V (unconstrained_env names) \<rho>"
  by (simp add: env_ok_def bt_get_unconstrained)

section \<open>What the verdicts mean\<close>

text \<open>Small functions to apply the theorems to.\<close>

abbreviation no_span :: span where
  "no_span \<equiv> \<lparr>span_start = 0, span_end = 0\<rparr>"

abbreviation e_int :: "i64 \<Rightarrow> ir_expr" where
  "e_int i \<equiv> IExpr 0 (IInt i None) no_span"

abbreviation e_var :: "string \<Rightarrow> ir_expr" where
  "e_var x \<equiv> IExpr 0 (IVar x) no_span"

abbreviation e_bin :: "bin_op \<Rightarrow> ir_expr \<Rightarrow> ir_expr \<Rightarrow> ir_expr" where
  "e_bin op l r \<equiv> IExpr 0 (IBinary op l r) no_span"

abbreviation e_block :: "ir_expr \<Rightarrow> ir_block" where
  "e_block e \<equiv> IBlock 0 [] (Some e) no_span"

abbreviation e_if :: "ir_expr \<Rightarrow> ir_expr \<Rightarrow> ir_expr \<Rightarrow> ir_expr" where
  "e_if c t e \<equiv> IExpr 0 (IIf c (e_block t) (e_block e)) no_span"

definition sample_fn :: "string list \<Rightarrow> ir_expr \<Rightarrow> ir_function" where
  "sample_fn ps tail =
     \<lparr>if_symbol = 1, if_name = ''f'', if_visibility = Private, if_attrs = [], if_is_async = False,
      if_is_unsafe = False, if_is_extern = False, if_extern_abi = None, if_is_intrinsic = False,
      if_intrinsic_abi = None, if_generics = [],
      if_params = map (\<lambda>x. \<lparr>ip_symbol = 1, ip_name = x, ip_attrs = [], ip_ty = 1,
        ip_span = no_span\<rparr>) ps,
      if_ret_type = 1, if_effects = [], if_capabilities = [], if_requires = None,
      if_ensures = None, if_body = e_block tail, if_span = no_span\<rparr>"

definition no_ext :: ext_sem where
  "no_ext \<rho> e = None"

definition no_extb :: ext_block where
  "no_extb \<rho> b = None"


definition sample_clamp :: ir_function where
  "sample_clamp =
     sample_fn [''x''] (e_if (e_bin Gt (e_var ''x'') (e_int 0)) (e_var ''x'') (e_int 1))"

definition sample_ens :: ir_expr where
  "sample_ens = e_bin Ge (e_var ''result'') (e_int 1)"




section \<open>Where the verdicts go too far\<close>

definition sample_conj :: ir_function where
  "sample_conj = sample_fn [''x'']
     (e_if (e_bin And (e_bin Gt (e_var ''x'') (e_int 0)) (e_bin Lt (e_var ''x'') (e_int 10)))
       (e_int 1) (e_int 0))"

text \<open>
  The analysis discharges a postcondition that the function violates when a condition is a
  conjunction: its negation is not expressible, and the code then drops the whole else branch.
  The function below returns 0 for every argument of 10 or more, and its contract
  result at least 1 is still reported as always true.
\<close>

theorem conjunction_drops_else_branch:
  "prove_ensures oc sample_conj sample_ens (unconstrained_param_env sample_conj) = Some PTrue \<and>
   body_value True no_ext no_extb [''x'' \<mapsto> RInt 12] (if_body sample_conj) = Some (RInt 0) \<and>
   sem True no_ext ([''x'' \<mapsto> RInt 12](''result'' \<mapsto> RInt 0)) sample_ens = Some (RBool False)"
proof (intro conjI)
  show "prove_ensures oc sample_conj sample_ens (unconstrained_param_env sample_conj) = Some PTrue"
    by (cases oc) code_simp+
qed code_simp+

definition sample_incr :: ir_function where
  "sample_incr = sample_fn [''x'']
     (e_if (e_bin Gt (e_var ''x'') (e_int 0)) (e_bin Add (e_var ''x'') (e_int 1)) (e_int 1))"

text \<open>
  The analysis assumes that sums do not wrap around, while the generated code's \<open>Int\<close> addition
  does: a function that returns x + 1 for positive x has the contract result at least 1
  discharged, and returns the least integer for the greatest.
\<close>

theorem wraparound_unsound:
  "prove_ensures oc sample_incr sample_ens (unconstrained_param_env sample_incr) = Some PTrue \<and>
   (let w = RInt (- (2 ^ 63)); \<rho> = [''x'' \<mapsto> RInt (2 ^ 63 - 1)] in
      body_value False no_ext no_extb \<rho> (if_body sample_incr) = Some w \<and>
      sem False no_ext (\<rho>(''result'' \<mapsto> w)) sample_ens = Some (RBool False))"
proof (intro conjI)
  show "prove_ensures oc sample_incr sample_ens (unconstrained_param_env sample_incr) = Some PTrue"
    by (cases oc) code_simp+
qed code_simp

definition sample_order :: ir_function where
  "sample_order = sample_fn [''x'', ''y'']
     (e_if (e_bin Lt (e_var ''x'') (e_var ''y''))
       (e_if (e_bin Lt (e_var ''y'') (e_var ''x'')) (e_int 0) (e_int 1)) (e_int 1))"

text \<open>
  The verdict always false is reported, as a compile error, for a postcondition that always
  holds: a path whose condition compares two variables is taken to be possible. The function
  below returns 1 for all integer arguments, because no x is both below and above y.
\<close>

theorem infeasible_path_rejected:
  "prove_ensures oc sample_order sample_ens (unconstrained_param_env sample_order) = Some PFalse \<and>
   body_value True ext extb [''x'' \<mapsto> RInt a, ''y'' \<mapsto> RInt b] (if_body sample_order) = Some (RInt 1) \<and>
   sem True ext (\<rho>(''result'' \<mapsto> RInt 1)) sample_ens = Some (RBool True)"
proof (intro conjI)
  show "prove_ensures oc sample_order sample_ens (unconstrained_param_env sample_order) = Some PFalse"
    by (cases oc) code_simp+
qed (simp_all add: sample_order_def sample_fn_def sample_ens_def tail_value.simps)

text \<open>
  The constant folder panics, in every build, on a contract that divides by the constant zero:
  compiling a function that requires 1 / 0 == 1 ends the compiler instead of reporting an error.
\<close>

theorem constant_division_panics:
  "prove_expression oc (e_bin Eq (e_bin Div (e_int 1) (e_int 0)) (e_int 1)) env res = None"
  by (simp add: prove_expression_def eval_logic.simps eval_comparison_def same_int_expr.simps
      eval_int_range.simps const_range_def rust_div_def try_opt_def)

end
