(* ===== verification/ContractProgram.thy ===== *)
theory ContractProgram
  imports ContractLoweringProps ContractEnsures Diagnostics IrBuilder
begin

text \<open>
  Whole programs in \<open>src/contracts.rs\<close>: the diagnostics of \<open>verify_static\<close>, and what
  \<open>lower_runtime_asserts\<close> does to a program. None of the codes emitted here has an explanation in
  \<open>diagnostic_reasoning.rs\<close>, so the reasoning of these diagnostics is empty.
\<close>

section \<open>Diagnostics of a program's contracts\<close>

definition ROOT_MODULE :: string where
  "ROOT_MODULE = ''<root>''"

abbreviation no_reasoning :: derive_reasoning where
  "no_reasoning \<equiv> \<lambda>_. None"

definition contract_note :: "string \<Rightarrow> string \<Rightarrow> span \<Rightarrow> string \<Rightarrow> diagnostic option" where
  "contract_note code file sp message =
     map_option (\<lambda>d. d\<lparr>d_severity := SevNote\<rparr>) (diagnostic_error no_reasoning code message file sp)"

definition discharge_note :: "string \<Rightarrow> span \<Rightarrow> string \<Rightarrow> diagnostic option" where
  "discharge_note = contract_note ''E4005''"

definition residual_note :: "string \<Rightarrow> span \<Rightarrow> string \<Rightarrow> diagnostic option" where
  "residual_note = contract_note ''E4003''"

definition module_for_item ::
  "ir_program \<Rightarrow> string list option list option \<Rightarrow> nat \<Rightarrow> string" where
  "module_for_item p item_modules index =
     (case Option.bind item_modules (\<lambda>mods. if index < length mods then mods ! index else None) of
        Some m \<Rightarrow> join_with ''.'' m
      | None \<Rightarrow> (case irp_module p of Some m \<Rightarrow> join_with ''.'' m | None \<Rightarrow> ROOT_MODULE))"

definition file_for_module ::
  "(string, string) btree_map option \<Rightarrow> string \<Rightarrow> string \<Rightarrow> string" where
  "file_for_module module_files module_name fallback =
     (case Option.bind module_files (\<lambda>files. bt_get files module_name) of
        Some path \<Rightarrow> path | None \<Rightarrow> fallback)"

text \<open>The three arms of the match on a verdict.\<close>

definition verdict_diagnostic ::
  "string \<Rightarrow> string \<Rightarrow> string \<Rightarrow> string \<Rightarrow> span \<Rightarrow> proof_state \<Rightarrow> diagnostic option" where
  "verdict_diagnostic false_code what hint file sp s =
     (case s of
        PFalse \<Rightarrow>
          map_option (with_help no_reasoning hint)
            (diagnostic_error no_reasoning false_code (what @ '' is always false'') file sp)
      | PTrue \<Rightarrow> discharge_note file sp (what @ '' discharged at compile time'')
      | PUnknown \<Rightarrow> residual_note file sp (what @ '' kept as residual runtime obligation''))"

definition quoted :: "string \<Rightarrow> string" where
  "quoted name = [CHR 0x27] @ name @ [CHR 0x27]"

definition verify_function_contracts ::
  "bool \<Rightarrow> ir_function \<Rightarrow> string \<Rightarrow> diagnostic list option" where
  "verify_function_contracts oc f file =
     (let env = unconstrained_param_env f in
      map_option concat (those
        [case if_requires f of
           None \<Rightarrow> Some []
         | Some r \<Rightarrow>
             Option.bind (prove_expression oc r env None) (\<lambda>s.
               map_option (\<lambda>d. [d]) (verdict_diagnostic ''E4001''
                 (''requires contract for '' @ quoted (if_name f))
                 ''fix the contract or function preconditions'' file (ie_span r) s)),
         case if_ensures f of
           None \<Rightarrow> Some []
         | Some e \<Rightarrow>
             Option.bind (prove_ensures oc f e env) (\<lambda>s.
               map_option (\<lambda>d. [d]) (verdict_diagnostic ''E4002''
                 (''ensures contract for '' @ quoted (if_name f))
                 ''fix the postcondition expression'' file (ie_span e) s))]))"

fun verify_item :: "bool \<Rightarrow> string \<Rightarrow> ir_item \<Rightarrow> diagnostic list option" where
  "verify_item oc file (IFunction f) = verify_function_contracts oc f file"
| "verify_item oc file (IImpl d) =
     map_option concat (those (map (\<lambda>m. verify_function_contracts oc m file) (iid_methods d)))"
| "verify_item oc file (IStruct d) =
     (case isd_invariant d of
        None \<Rightarrow> Some []
      | Some invariant \<Rightarrow>
          Option.bind (prove_expression oc invariant (unconstrained_field_env d) None) (\<lambda>s.
            map_option (\<lambda>d. [d]) (verdict_diagnostic ''E4004''
              (''invariant for struct '' @ quoted (isd_name d))
              ''fix the invariant expression'' file (ie_span invariant) s)))"
| "verify_item oc file _ = Some []"

definition verify_static_with_context ::
  "bool \<Rightarrow> ir_program \<Rightarrow> string \<Rightarrow> string list option list option \<Rightarrow>
   (string, string) btree_map option \<Rightarrow> diagnostic list option" where
  "verify_static_with_context oc p file item_modules module_files =
     map_option concat (those (map (\<lambda>(index, it).
       verify_item oc (file_for_module module_files (module_for_item p item_modules index) file) it)
       (enumerate 0 (irp_items p))))"

definition verify_static :: "bool \<Rightarrow> ir_program \<Rightarrow> string \<Rightarrow> diagnostic list option" where
  "verify_static oc p file = verify_static_with_context oc p file None None"

section \<open>One diagnostic per contract\<close>

text \<open>The contracts of a program in order, each with the code of its error and its verdict.\<close>

definition function_verdicts :: "bool \<Rightarrow> ir_function \<Rightarrow> (string \<times> proof_state option) list" where
  "function_verdicts oc f =
     opt_list (\<lambda>r. [(''E4001'', prove_expression oc r (unconstrained_param_env f) None)]) (if_requires f) @
     opt_list (\<lambda>e. [(''E4002'', prove_ensures oc f e (unconstrained_param_env f))]) (if_ensures f)"

fun item_verdicts :: "bool \<Rightarrow> ir_item \<Rightarrow> (string \<times> proof_state option) list" where
  "item_verdicts oc (IFunction f) = function_verdicts oc f"
| "item_verdicts oc (IImpl d) = concat (map (function_verdicts oc) (iid_methods d))"
| "item_verdicts oc (IStruct d) =
     opt_list (\<lambda>i. [(''E4004'', prove_expression oc i (unconstrained_field_env d) None)]) (isd_invariant d)"
| "item_verdicts oc _ = []"

definition report :: "string \<Rightarrow> proof_state \<Rightarrow> string \<times> severity" where
  "report code s =
     (case s of
        PFalse \<Rightarrow> (code, SevError)
      | PTrue \<Rightarrow> (''E4005'', SevNote)
      | PUnknown \<Rightarrow> (''E4003'', SevNote))"

definition reports :: "(string \<times> proof_state option) list \<Rightarrow> (string \<times> severity) list option" where
  "reports vs = those (map (\<lambda>(code, s). map_option (report code) s) vs)"

definition summary :: "diagnostic \<Rightarrow> string \<times> severity" where
  "summary d = (d_code d, d_severity d)"

lemma those_append:
  "those (xs @ ys) = Option.bind (those xs) (\<lambda>a. map_option ((@) a) (those ys))"
  by (induction xs) (auto simp: map_option_case option.map_comp comp_def split: option.splits)

lemma reports_append:
  "reports (xs @ ys) = Option.bind (reports xs) (\<lambda>a. map_option ((@) a) (reports ys))"
  by (simp add: reports_def those_append)

lemma those_concat_reports:
  assumes "\<And>x. x \<in> set xs \<Longrightarrow> map_option (map summary) (f x) = reports (v x)"
  shows "map_option (map summary) (map_option concat (those (map f xs))) = reports (concat (map v xs))"
  using assms
proof (induction xs)
  case Nil
  then show ?case by (simp add: reports_def)
next
  case (Cons x xs)
  have "reports (v x) = map_option (map summary) (f x)"
    using Cons.prems by simp
  moreover have "reports (concat (map v xs)) =
      map_option (map summary) (map_option concat (those (map f xs)))"
    using Cons by simp
  ultimately show ?case
    by (cases "f x"; cases "those (map f xs)") (simp_all add: reports_append)
qed

lemma registered_contract_codes:
  "assert_registered ''E4001'' = Some ()" "assert_registered ''E4002'' = Some ()"
  "assert_registered ''E4003'' = Some ()" "assert_registered ''E4004'' = Some ()"
  "assert_registered ''E4005'' = Some ()"
  by (simp_all add: assert_registered_iff is_registered_def REGISTERED_DIAGNOSTIC_CODES_def)

lemma verdict_diagnostic_summary:
  "assert_registered code = Some () \<Longrightarrow>
   map_option summary (verdict_diagnostic code what hint file sp s) = Some (report code s)"
  by (cases s)
    (simp_all add: verdict_diagnostic_def discharge_note_def residual_note_def contract_note_def
      diagnostic_error_def registered_contract_codes summary_def report_def with_help_def
      refresh_reasoning_def)

lemma one_verdict:
  assumes "assert_registered code = Some ()"
  shows "map_option (map summary) (Option.bind v (\<lambda>s.
      map_option (\<lambda>d. [d]) (verdict_diagnostic code what hint file sp s))) = reports [(code, v)]"
proof (cases v)
  case (Some s)
  then show ?thesis
    using verdict_diagnostic_summary [OF assms, of what hint "file" sp s]
    by (cases "verdict_diagnostic code what hint file sp s") (simp_all add: reports_def)
qed (simp add: reports_def)

lemma verify_function_reports:
  "map_option (map summary) (verify_function_contracts oc f file) = reports (function_verdicts oc f)"
proof -
  let ?env = "unconstrained_param_env f"
  let ?r = "case if_requires f of None \<Rightarrow> Some [] | Some r \<Rightarrow>
      Option.bind (prove_expression oc r ?env None) (\<lambda>s. map_option (\<lambda>d. [d])
        (verdict_diagnostic ''E4001'' (''requires contract for '' @ quoted (if_name f))
           ''fix the contract or function preconditions'' file (ie_span r) s))"
  let ?e = "case if_ensures f of None \<Rightarrow> Some [] | Some e \<Rightarrow>
      Option.bind (prove_ensures oc f e ?env) (\<lambda>s. map_option (\<lambda>d. [d])
        (verdict_diagnostic ''E4002'' (''ensures contract for '' @ quoted (if_name f))
           ''fix the postcondition expression'' file (ie_span e) s))"
  have r: "map_option (map summary) ?r =
      reports (opt_list (\<lambda>r. [(''E4001'', prove_expression oc r ?env None)]) (if_requires f))"
    by (cases "if_requires f")
      (simp_all add: one_verdict registered_contract_codes del: map_option_bind, simp add: reports_def)
  have e: "map_option (map summary) ?e =
      reports (opt_list (\<lambda>e. [(''E4002'', prove_ensures oc f e ?env)]) (if_ensures f))"
    by (cases "if_ensures f")
      (simp_all add: one_verdict registered_contract_codes del: map_option_bind, simp add: reports_def)
  show ?thesis
    unfolding function_verdicts_def reports_append r [symmetric] e [symmetric]
      verify_function_contracts_def Let_def
    by (cases ?r; cases ?e) simp_all
qed

text \<open>
  C15: Verifying a program reports every contract and struct invariant exactly once, in program
  order: with its error code, as an error, when its verdict is always false, and otherwise with a
  note that says whether it is discharged or left to run time. No code is missing from the
  registry, so the only panic is that of the constant folder.
\<close>

theorem verify_reports_each_contract:
  "map_option (map summary) (verify_static_with_context oc p file item_modules module_files) =
   reports (concat (map (item_verdicts oc) (irp_items p)))"
proof -
  have item: "map_option (map summary) (verify_item oc fl it) = reports (item_verdicts oc it)" for fl it
  proof (cases it)
    case (IFunction f)
    then show ?thesis by (simp add: verify_function_reports)
  next
    case (IStruct d)
    then show ?thesis
      by (cases "isd_invariant d")
        (simp_all add: one_verdict registered_contract_codes del: map_option_bind, simp add: reports_def)
  next
    case (IImpl d)
    then show ?thesis
      using those_concat_reports [where f = "\<lambda>m. verify_function_contracts oc m fl"
          and v = "function_verdicts oc" and xs = "iid_methods d"] verify_function_reports
      by simp
  qed (simp_all add: reports_def)
  have "concat (map (\<lambda>(i, it). item_verdicts oc it) (enumerate 0 xs)) =
      concat (map (item_verdicts oc) xs)" for xs
    by (metis (mono_tags, lifting) case_prod_beta map_eq_conv map_map map_snd_enumerate comp_apply)
  then show ?thesis
    unfolding verify_static_with_context_def
    using those_concat_reports [where f = "\<lambda>(index, it). verify_item oc (file_for_module
        module_files (module_for_item p item_modules index) file) it"
        and v = "\<lambda>(i, it). item_verdicts oc it" and xs = "enumerate 0 (irp_items p)"] item
    by (auto split: prod.splits)
qed

section \<open>Fresh node ids\<close>

lemma max_list_ge: "n \<in> set xs \<Longrightarrow> n \<le> max_list xs"
  using Max.set_eq_fold [of 0 xs] Max_ge [of "insert 0 (set xs)" n] by (simp add: max_list_def)

lemma max_list_trans: "m \<in> set xs \<Longrightarrow> n \<le> m \<Longrightarrow> n \<le> max_list xs"
  using max_list_ge order_trans by blast

lemma max_list_map: "x \<in> set xs \<Longrightarrow> n \<le> f x \<Longrightarrow> n \<le> max_list (map f xs)"
  by (rule max_list_trans [of "f x"]) auto

lemma max_list_fields:
  "(k, e, p) \<in> set fs \<Longrightarrow> n \<le> f e \<Longrightarrow> n \<le> max_list (concat_fields (\<lambda>e. [f e]) fs)"
  by (rule max_list_trans [of "f e"]) (auto simp: set_concat_fields)

lemma max_list_one [simp]: "max_list [x] = x" "max_list [] = 0"
  by (simp_all add: max_list_def)

lemma max_list_opt:
  "(\<And>a. x = Some a \<Longrightarrow> \<forall>n \<in> set (f a). n \<le> g a) \<Longrightarrow> n \<in> set (opt_list f x) \<Longrightarrow>
   n \<le> max_list (opt_list (\<lambda>x. [g x]) x)"
  by (cases x) auto

lemma pattern_kind_nodes_of:
  "pattern_nodes (IPattern n k sp) =
     (case k of
        IPOr ps \<Rightarrow> concat (map pattern_nodes ps)
      | IPVariant _ ps \<Rightarrow> concat (map pattern_nodes ps)
      | IPStruct _ fs _ \<Rightarrow> concat (map spf_nodes fs)
      | _ \<Rightarrow> []) @ [n]"
  by (cases k) simp_all

lemma max_node_pattern_ge:
  "n \<in> set (pattern_nodes p) \<Longrightarrow> n \<le> max_node_pattern p"
  "n \<in> set (spf_nodes f) \<Longrightarrow> n \<le> max_node_pattern_field f"
proof (induction p and f rule: max_node_pattern_max_node_pattern_field.induct)
  case (1 m k sp)
  then show ?case
    by (cases k)
      (auto simp: pattern_kind_nodes_of le_max_iff_disj intro: max_list_map)
next
  case (2 x p)
  then show ?case by simp
qed

lemma max_node_ge:
  "\<forall>n \<in> set (expr_nodes e). n \<le> max_node_expr e"
  "\<forall>n \<in> set (expr_kind_nodes k). n \<le> max_node_kind k"
  "\<forall>n \<in> set (block_nodes b). n \<le> max_node_block b"
  "\<forall>n \<in> set (stmt_nodes s). n \<le> max_node_stmt s"
  "\<forall>n \<in> set (arm_nodes a). n \<le> max_node_arm a"
proof (induction e and k and b and s and a
    rule: expr_nodes_expr_kind_nodes_block_nodes_stmt_nodes_arm_nodes.induct)
  case (17 x fs)
  then show ?case by (auto simp: set_concat_fields intro: max_list_fields)
next
  case (20 n ss t sp)
  then show ?case
    by (cases t) (auto simp: le_max_iff_disj intro: max_list_map)
qed (auto simp: max_node_pattern_ge le_max_iff_disj intro: max_list_map max_list_opt)

text \<open>The nodes \<open>max_node\<close> looks at: of functions and impl methods, and of invariants.\<close>

definition own_nodes :: "ir_function \<Rightarrow> nat list" where
  "own_nodes f =
     block_nodes (if_body f) @ opt_list expr_nodes (if_requires f) @ opt_list expr_nodes (if_ensures f)"

fun visited_nodes :: "ir_item \<Rightarrow> nat list" where
  "visited_nodes (IFunction f) = own_nodes f"
| "visited_nodes (IImpl d) = concat (map own_nodes (iid_methods d))"
| "visited_nodes (IStruct d) = opt_list expr_nodes (isd_invariant d)"
| "visited_nodes _ = []"

lemma max_node_opt_ge:
  "n \<in> set (opt_list expr_nodes x) \<Longrightarrow> n \<le> max_list (opt_list (\<lambda>e. [max_node_expr e]) x)"
  by (rule max_list_opt) (simp_all add: max_node_ge(1))

lemma max_node_function_ge: "n \<in> set (own_nodes f) \<Longrightarrow> n \<le> max_node_function f"
  using max_node_ge(3) [of "if_body f"]
  by (auto simp: own_nodes_def max_node_function_def le_max_iff_disj max_node_opt_ge)

lemma max_node_item_ge: "n \<in> set (visited_nodes it) \<Longrightarrow> n \<le> max_node_item it"
  by (cases it) (auto simp: max_node_function_ge max_node_opt_ge intro: max_list_map)

text \<open>
  The ids that contract lowering hands out are new with respect to everything it can meet: the
  allocator starts above every node id in the bodies and contracts of functions and impl methods
  and in struct invariants, and above every symbol and type id of the program's tables.
\<close>

theorem alloc_above_visited:
  "(\<forall>it \<in> set (irp_items p). \<forall>n \<in> set (visited_nodes it). n < alc_next_node (alloc_from_program p)) \<and>
   (\<forall>s \<in> set (irp_symbols p). sym_id s < alc_next_symbol (alloc_from_program p)) \<and>
   (\<forall>t \<in> set (irp_types p). tdef_id t < alc_next_type (alloc_from_program p))"
  by (auto simp: alloc_from_program_def max_node_def less_Suc_eq_le max_node_item_ge
      intro: max_list_map max_list_ge)

definition sample_program :: "ir_item list \<Rightarrow> ir_program" where
  "sample_program its =
     \<lparr>irp_schema_version = 1, irp_module = None, irp_imports = [], irp_items = its,
      irp_symbols = [], irp_types = [], irp_generic_instantiations = [], irp_span = no_span,
      irp_expr_type_hints = []\<rparr>"

definition sample_item :: ir_item where
  "sample_item = IFunction ((sample_fn [] (e_int 0))\<lparr>if_body := sample_body\<rparr>)"

theorem alloc_above_visited_witness:
  "6 < alc_next_node (alloc_from_program (sample_program [sample_item]))"
proof -
  have "6 \<in> set (visited_nodes sample_item)" "sample_item \<in> set (irp_items (sample_program [sample_item]))"
    by code_simp+
  then show ?thesis
    using alloc_above_visited [of "sample_program [sample_item]"] by blast
qed

text \<open>A function, and after it a trait whose method has an empty body.\<close>

definition sample_decl :: "string \<Rightarrow> fn_decl" where
  "sample_decl name =
     \<lparr>fn_name = name, fn_visibility = Private, fn_attrs = [], fn_is_async = False,
      fn_is_unsafe = False, fn_is_extern = False, fn_extern_abi = None, fn_is_intrinsic = False,
      fn_intrinsic_abi = None, fn_generics = [], fn_params = [], fn_ret_type = TypeExpr TUnit no_span,
      fn_effects = [], fn_capabilities = [], fn_requires = None, fn_ensures = None,
      fn_body = Block [] None no_span, fn_span = no_span\<rparr>"

definition sample_trait_program :: ast_program where
  "sample_trait_program =
     \<lparr>ap_module = None, ap_imports = [],
      ap_items = [AFunction (sample_decl ''f''),
        ATrait \<lparr>td_name = ''T'', td_visibility = Private, td_attrs = [], td_generics = [],
          td_methods = [sample_decl ''m''], td_span = no_span\<rparr>],
      ap_span = no_span\<rparr>"

text \<open>
  The allocator does not look at trait methods (nor at the default values of struct fields),
  so the first node id it hands out can be one that the program already uses: here the id of the
  body of a trait method declared after the last function.
\<close>

theorem trait_node_collides:
  "alc_next_node (alloc_from_program (build sample_trait_program)) \<in>
     set (program_nodes (build sample_trait_program))"
  by code_simp

section \<open>Programs without contracts\<close>

lemma traverse_ret: "(\<And>x. x \<in> set xs \<Longrightarrow> f x = ret x) \<Longrightarrow> traverse f xs = ret xs"
  by (induction xs) simp_all

lemma traverse_opt_ret: "(\<And>x. xs = Some x \<Longrightarrow> f x = ret x) \<Longrightarrow> traverse_opt f xs = ret xs"
  by (cases xs) simp_all

lemma traverse_fields_ret:
  "(\<And>n e p. (n, e, p) \<in> set fs \<Longrightarrow> f e = ret e) \<Longrightarrow> traverse_fields f fs = ret fs"
  unfolding traverse_fields_def by (rule traverse_ret) auto

lemmas traverse_rets = traverse_ret traverse_opt_ret traverse_fields_ret

lemma rewrite_no_tables:
  "ct_helper_names ct = [] \<Longrightarrow> rewrite_struct_inits_in_expr ct e = ret e"
  "ct_helper_names ct = [] \<Longrightarrow> rewrite_struct_inits_in_kind ct sp k = ret k"
  "ct_helper_names ct = [] \<Longrightarrow> rewrite_struct_inits_in_block ct b = ret b"
  "ct_helper_names ct = [] \<Longrightarrow> rewrite_struct_inits_in_stmt ct s = ret s"
  "ct_helper_names ct = [] \<Longrightarrow> rewrite_struct_inits_in_arm ct a = ret a"
  by (induction ct e and ct sp k and ct b and ct s and ct a
      rule: rewrite_struct_inits_in_expr_rewrite_struct_inits_in_kind_rewrite_struct_inits_in_block_rewrite_struct_inits_in_stmt_rewrite_struct_inits_in_arm.induct)
    (simp_all add: traverse_rets route_struct_init_def)

definition contract_free :: "ir_function \<Rightarrow> bool" where
  "contract_free f \<longleftrightarrow> if_requires f = None \<and> if_ensures f = None"

fun item_contract_free :: "ir_item \<Rightarrow> bool" where
  "item_contract_free (IFunction f) = contract_free f"
| "item_contract_free (IImpl d) = list_all contract_free (iid_methods d)"
| "item_contract_free (IStruct d) = (isd_invariant d = None)"
| "item_contract_free _ = True"

lemma lower_contract_free:
  assumes "contract_free f" "ct_helper_names ct = []"
  shows "lower_function_contracts oc ct f = Some (ret f)"
  using assms
  by (auto simp: lower_function_contracts_def contract_free_def contract_flags_def
      add_requires_assert_def add_ensures_asserts_def rewrite_no_tables split: ir_block.splits)

lemma sequence_ret:
  "(\<And>x. x \<in> set xs \<Longrightarrow> f x = Some (ret x)) \<Longrightarrow> \<exists>m. sequence (map f xs) = Some m \<and> m = ret xs"
  by (induction xs) (auto simp: sequence_def)

lemma lower_item_contract_free:
  assumes "item_contract_free it" "ct_helper_names ct = []"
  shows "lower_item_contracts oc ct it = Some (ret it)"
proof (cases it)
  case (IImpl d)
  then show ?thesis
    using assms sequence_ret [of "iid_methods d" "lower_function_contracts oc ct"]
    by (auto simp: list_all_iff lower_contract_free)
qed (use assms in \<open>simp_all add: lower_contract_free\<close>)

lemma no_helpers: "build_invariant_helpers oc [] = Some (ret [])"
  by (simp add: build_invariant_helpers_def sequence_def)

lemma map_filter_None: "(\<And>x. x \<in> set xs \<Longrightarrow> f x = None) \<Longrightarrow> List.map_filter f xs = []"
  by (induction xs) (auto simp: map_filter_def)

text \<open>
  Lowering leaves a program without contracts and invariants exactly as it is, symbol and type
  tables and node ids included.
\<close>

theorem lowering_without_contracts:
  assumes "list_all item_contract_free (irp_items p)"
  shows "lower_runtime_asserts oc p = Some p"
proof -
  have specs: "collect_invariant_specs p = []"
  proof -
    have "List.map_filter (\<lambda>it. case it of
         IStruct d \<Rightarrow> map_option (\<lambda>inv. (isd_name d,
             \<lparr>is_name = isd_name d, is_span = isd_span d, is_generics = isd_generics d,
              is_fields = isd_fields d, is_invariant = inv\<rparr>)) (isd_invariant d)
       | _ \<Rightarrow> None) (irp_items p) = []"
      using assms by (intro map_filter_None) (auto simp: list_all_iff split: ir_item.splits)
    then show ?thesis by (simp add: collect_invariant_specs_def bt_collect_def)
  qed
  then have "ct_helper_names (ctor_tables_of (collect_invariant_specs p)) = []"
    by (simp add: ctor_tables_of_def bt_collect_def)
  then obtain m where "sequence (map (lower_item_contracts oc
      (ctor_tables_of (collect_invariant_specs p))) (irp_items p)) = Some m" "m = ret (irp_items p)"
    using sequence_ret assms lower_item_contract_free by (metis list_all_iff)
  then show ?thesis
    using specs
    by (simp add: lower_runtime_asserts_def no_helpers Let_def)
qed

theorem lowering_without_contracts_witness:
  "lower_runtime_asserts True (sample_program [sample_item]) = Some (sample_program [sample_item])"
  by (rule lowering_without_contracts) code_simp

end
