(* ===== verification/DivisorFacts.thy ===== *)
theory DivisorFacts
  imports ContractSoundness ContractLoweringProps
begin

text \<open>
  \<open>src/codegen/divisor_facts.rs\<close>: when the guards of an integer division may be left out. A
  divisor is known to be safe when it is a literal, or a parameter that the enforced \<open>requires\<close>
  clause bounds and that the body never rebinds.
\<close>

section \<open>Facts\<close>

datatype divisor_fact = FUnknown | NonZero | NonZeroNotMinusOne

text \<open>The derived order of the enum, by its declaration.\<close>

instantiation divisor_fact :: linorder
begin

fun fact_rank :: "divisor_fact \<Rightarrow> nat" where
  "fact_rank FUnknown = 0"
| "fact_rank NonZero = 1"
| "fact_rank NonZeroNotMinusOne = 2"

definition less_eq_divisor_fact :: "divisor_fact \<Rightarrow> divisor_fact \<Rightarrow> bool" where
  "less_eq_divisor_fact a b = (fact_rank a \<le> fact_rank b)"

definition less_divisor_fact :: "divisor_fact \<Rightarrow> divisor_fact \<Rightarrow> bool" where
  "less_divisor_fact a b = (fact_rank a < fact_rank b)"

instance
proof
  fix x y :: divisor_fact
  show "x \<le> y \<Longrightarrow> y \<le> x \<Longrightarrow> x = y"
    by (cases x; cases y) (simp_all add: less_eq_divisor_fact_def)
qed (auto simp: less_eq_divisor_fact_def less_divisor_fact_def)

end

definition excludes_zero :: "divisor_fact \<Rightarrow> bool" where
  "excludes_zero f = (f \<noteq> FUnknown)"

definition excludes_minus_one :: "divisor_fact \<Rightarrow> bool" where
  "excludes_minus_one f = (f = NonZeroNotMinusOne)"

definition fact_from_value :: "int \<Rightarrow> divisor_fact" where
  "fact_from_value v = (if v = 0 then FUnknown else if v = - 1 then NonZero else NonZeroNotMinusOne)"

text \<open>An \<open>i128\<close> holds the value of any literal and of its negations, so it is an integer here.\<close>

fun plain_int_literal :: "ir_expr \<Rightarrow> int option" where
  "plain_int_literal (IExpr _ k _) =
     (case k of
        IInt v meta \<Rightarrow> if meta = None then Some (sint v) else None
      | IUnary op e \<Rightarrow> if op = Neg then map_option uminus (plain_int_literal e) else None
      | _ \<Rightarrow> None)"

type_synonym facts = "(string, divisor_fact) btree_map"

definition divisor_fact_of :: "ir_expr \<Rightarrow> facts \<Rightarrow> divisor_fact" where
  "divisor_fact_of e params =
     (case plain_int_literal e of
        Some v \<Rightarrow> fact_from_value v
      | None \<Rightarrow>
          (case ie_kind e of
             IVar name \<Rightarrow> (case bt_get params name of Some f \<Rightarrow> f | None \<Rightarrow> FUnknown)
           | _ \<Rightarrow> FUnknown))"

section \<open>Facts of a \<open>requires\<close> clause\<close>

fun flip_comparison :: "bin_op \<Rightarrow> bin_op option" where
  "flip_comparison Eq = Some Eq"
| "flip_comparison Ne = Some Ne"
| "flip_comparison Lt = Some Gt"
| "flip_comparison Le = Some Ge"
| "flip_comparison Gt = Some Lt"
| "flip_comparison Ge = Some Le"
| "flip_comparison _ = None"

fun comparison_fact :: "bin_op \<Rightarrow> int \<Rightarrow> divisor_fact option" where
  "comparison_fact Ne bound = (if bound = 0 then Some NonZero else None)"
| "comparison_fact Eq bound = Some (fact_from_value bound)"
| "comparison_fact Gt bound = (if bound \<ge> 0 then Some NonZeroNotMinusOne else None)"
| "comparison_fact Ge bound = (if bound \<ge> 1 then Some NonZeroNotMinusOne else None)"
| "comparison_fact Lt bound =
     (if bound \<le> - 1 then Some NonZeroNotMinusOne else if bound = 0 then Some NonZero else None)"
| "comparison_fact Le bound =
     (if bound \<le> - 2 then Some NonZeroNotMinusOne else if bound = - 1 then Some NonZero else None)"
| "comparison_fact _ bound = None"

text \<open>The comparison of a variable with a literal that a clause is, with the variable first.\<close>

definition var_name :: "ir_expr \<Rightarrow> string option" where
  "var_name e = (case ie_kind e of IVar name \<Rightarrow> Some name | _ \<Rightarrow> None)"

definition variable_comparison :: "bin_op \<Rightarrow> ir_expr \<Rightarrow> ir_expr \<Rightarrow> (string \<times> bin_op \<times> int) option" where
  "variable_comparison op l r =
     (case (var_name l, plain_int_literal r, plain_int_literal l) of
        (Some name, Some bound, _) \<Rightarrow> Some (name, op, bound)
      | (_, _, Some bound) \<Rightarrow>
          (case (var_name r, flip_comparison op) of
             (Some name, Some op') \<Rightarrow> Some (name, op', bound)
           | _ \<Rightarrow> None)
      | _ \<Rightarrow> None)"

definition add_fact :: "string list \<Rightarrow> (string \<times> bin_op \<times> int) option \<Rightarrow> facts \<Rightarrow> facts" where
  "add_fact params cmp fs =
     (case cmp of
        None \<Rightarrow> fs
      | Some (name, op, bound) \<Rightarrow>
          if name \<notin> set params then fs
          else (case comparison_fact op bound of
                  None \<Rightarrow> fs
                | Some f \<Rightarrow>
                    if f = FUnknown then fs
                    else bt_insert name
                      (max (case bt_get fs name of None \<Rightarrow> FUnknown | Some g \<Rightarrow> g) f) fs))"

fun collect_requires_facts :: "ir_expr \<Rightarrow> string list \<Rightarrow> facts \<Rightarrow> facts" where
  "collect_requires_facts (IExpr _ k _) params fs =
     (case k of
        IBinary op l r \<Rightarrow>
          if op = And then collect_requires_facts r params (collect_requires_facts l params fs)
          else add_fact params (variable_comparison op l r) fs
      | _ \<Rightarrow> fs)"

fun bound_names_pattern :: "ir_pattern \<Rightarrow> string list"
  and bound_names_field :: "ir_struct_pattern_field \<Rightarrow> string list" where
  "bound_names_pattern (IPattern _ k _) =
     (case k of
        IPVar name \<Rightarrow> [name]
      | IPOr ps \<Rightarrow> concat (map bound_names_pattern ps)
      | IPVariant _ ps \<Rightarrow> concat (map bound_names_pattern ps)
      | IPStruct _ fs _ \<Rightarrow> concat (map bound_names_field fs)
      | _ \<Rightarrow> [])"
| "bound_names_field (IStructPatternField _ p) = bound_names_pattern p"

fun bound_names_expr :: "ir_expr \<Rightarrow> string list"
  and bound_names_kind :: "ir_expr_kind \<Rightarrow> string list"
  and bound_names_block :: "ir_block \<Rightarrow> string list"
  and bound_names_stmt :: "ir_stmt \<Rightarrow> string list"
  and bound_names_arm :: "ir_match_arm \<Rightarrow> string list" where
  "bound_names_expr (IExpr _ k _) = bound_names_kind k"
| "bound_names_kind (IClosure ps _ b) = map icp_name ps @ bound_names_block b"
| "bound_names_kind (IMatch e arms) = bound_names_expr e @ concat (map bound_names_arm arms)"
| "bound_names_kind (IIf c t e) = bound_names_expr c @ bound_names_block t @ bound_names_block e"
| "bound_names_kind (IWhile c b) = bound_names_expr c @ bound_names_block b"
| "bound_names_kind (ILoop b) = bound_names_block b"
| "bound_names_kind (IUnsafeBlock b) = bound_names_block b"
| "bound_names_kind (IBreak e) = opt_list bound_names_expr e"
| "bound_names_kind (IReturn e) = opt_list bound_names_expr e"
| "bound_names_kind (ICall c args _ _) = bound_names_expr c @ concat (map bound_names_expr args)"
| "bound_names_kind (ITemplateLiteral _ args) = concat (map bound_names_expr args)"
| "bound_names_kind (IBinary _ l r) = bound_names_expr l @ bound_names_expr r"
| "bound_names_kind (IUnary _ e) = bound_names_expr e"
| "bound_names_kind (IBorrow _ e) = bound_names_expr e"
| "bound_names_kind (IAwait e) = bound_names_expr e"
| "bound_names_kind (ITry e) = bound_names_expr e"
| "bound_names_kind (IFieldAccess e _) = bound_names_expr e"
| "bound_names_kind (IStructInit _ fs) = concat_fields bound_names_expr fs"
| "bound_names_kind _ = []"
| "bound_names_block (IBlock _ ss t _) =
     concat (map bound_names_stmt ss) @ opt_list bound_names_expr t"
| "bound_names_stmt (ILet _ name _ _ e _) = name # bound_names_expr e"
| "bound_names_stmt (IAssign target e _) = target # bound_names_expr e"
| "bound_names_stmt (IExprStmt e _) = bound_names_expr e"
| "bound_names_stmt (IAssert e _ _) = bound_names_expr e"
| "bound_names_stmt (IReturnStmt e _) = opt_list bound_names_expr e"
| "bound_names_arm (IMatchArm p g b _) =
     bound_names_pattern p @ opt_list bound_names_expr g @ bound_names_expr b"

definition requires_enforced :: "ir_function \<Rightarrow> bool" where
  "requires_enforced f =
     (case ib_stmts (if_body f) of
        IAssert _ message _ # _ \<Rightarrow> starts_with message ''contract_violation{kind:requires,''
      | _ \<Rightarrow> False)"

definition requires_divisor_facts :: "ir_function \<Rightarrow> facts" where
  "requires_divisor_facts f =
     (case if_requires f of
        None \<Rightarrow> []
      | Some requires \<Rightarrow>
          if \<not> requires_enforced f then []
          else filter (\<lambda>(name, _). name \<notin> set (bound_names_block (if_body f)))
            (collect_requires_facts requires (map ip_name (if_params f)) []))"

section \<open>Skipping a guard is safe\<close>

text \<open>What a fact says of the divisor.\<close>

definition fact_holds :: "divisor_fact \<Rightarrow> i64 \<Rightarrow> bool" where
  "fact_holds f d \<longleftrightarrow> (excludes_zero f \<longrightarrow> d \<noteq> 0) \<and> (excludes_minus_one f \<longrightarrow> d \<noteq> - 1)"

definition facts_hold :: "facts \<Rightarrow> store \<Rightarrow> bool" where
  "facts_hold fs \<rho> \<longleftrightarrow>
     (\<forall>x f d. bt_get fs x = Some f \<longrightarrow> \<rho> x = Some (RInt d) \<longrightarrow> fact_holds f d)"

lemma fact_holds_int:
  "fact_holds f d \<longleftrightarrow> (f \<noteq> FUnknown \<longrightarrow> sint d \<noteq> 0) \<and> (f = NonZeroNotMinusOne \<longrightarrow> sint d \<noteq> - 1)"
proof -
  have "d = 0 \<longleftrightarrow> sint d = 0" "d = - 1 \<longleftrightarrow> sint d = - 1"
    using sint_inj [of d 0] sint_inj [of d "- 1"] by simp_all
  then show ?thesis by (auto simp: fact_holds_def excludes_zero_def excludes_minus_one_def)
qed

lemma fact_holds_max: "fact_holds f d \<Longrightarrow> fact_holds g d \<Longrightarrow> fact_holds (max f g) d"
  by (simp add: max_def)

lemma plain_int_literal_sem:
  "plain_int_literal e = Some i \<Longrightarrow> sem True ext \<rho> e = Some v \<Longrightarrow> \<exists>d. v = RInt d \<and> sint d = i"
proof (induction e arbitrary: i v rule: plain_int_literal.induct)
  case (1 n k sp)
  show ?case
  proof (cases k)
    case (IInt w meta)
    then show ?thesis using 1(2,3) by (auto split: if_splits)
  next
    case (IUnary op e)
    then obtain j w where "plain_int_literal e = Some j" "op = Neg" "i = - j"
        "sem True ext \<rho> e = Some w" "sem_unop True Neg w = Some v"
      using 1(2,3) by (auto simp: bind_eq_Some_conv split: if_splits)
    moreover from this obtain d where "w = RInt d" "sint d = j"
      using 1(1) [OF IUnary] by blast
    ultimately show ?thesis by (auto dest!: rust_op_sint)
  qed (use 1(2) in simp_all)
qed

lemma comparison_fact_sound:
  "comparison_fact op b = Some f \<Longrightarrow> sem_cmp op (RInt d) (RInt c) = Some (RBool True) \<Longrightarrow>
   sint c = b \<Longrightarrow> fact_holds f d"
  by (cases op) (auto simp: fact_holds_int fact_from_value_def split: if_splits)

lemma flip_comparison_sem:
  "flip_comparison op = Some op' \<Longrightarrow> sem_cmp op v w = Some u \<Longrightarrow> sem_cmp op' w v = Some u"
  by (cases op; cases v; cases w) auto

lemma var_name_Some: "var_name e = Some x \<Longrightarrow> \<exists>n s. e = IExpr n (IVar x) s"
  by (cases e) (simp add: var_name_def split: ir_expr_kind.splits)

lemma variable_comparison_sem:
  assumes "variable_comparison op l r = Some (x, op', b)" "is_cmp op"
    and "sem True ext \<rho> l = Some v" "sem True ext \<rho> r = Some w" "sem_cmp op v w = Some (RBool True)"
    and "\<rho> x = Some (RInt d)"
  shows "\<exists>c. sint c = b \<and> sem_cmp op' (RInt d) (RInt c) = Some (RBool True)"
proof -
  consider n s where "l = IExpr n (IVar x) s" "plain_int_literal r = Some b" "op' = op"
    | n s where "r = IExpr n (IVar x) s" "plain_int_literal l = Some b" "flip_comparison op = Some op'"
    using assms(1) var_name_Some [of l x] var_name_Some [of r x] unfolding variable_comparison_def
    by (auto split: option.splits)
  then show ?thesis
  proof cases
    case 1
    then show ?thesis
      using plain_int_literal_sem [OF 1(2) assms(4)] assms by auto
  next
    case 2
    then show ?thesis
      using plain_int_literal_sem [OF 2(2) assms(3)] assms flip_comparison_sem by fastforce
  qed
qed

lemma add_fact_holds:
  assumes "facts_hold fs \<rho>"
    and "\<And>x op b d. cmp = Some (x, op, b) \<Longrightarrow> \<rho> x = Some (RInt d) \<Longrightarrow>
      \<exists>c. sint c = b \<and> sem_cmp op (RInt d) (RInt c) = Some (RBool True)"
  shows "facts_hold (add_fact params cmp fs) \<rho>"
proof (cases cmp)
  case None
  then show ?thesis using assms(1) by (simp add: add_fact_def)
next
  case (Some t)
  obtain x op b where t: "t = (x, op, b)" by (cases t)
  show ?thesis
  proof (cases "x \<in> set params \<and> (\<exists>f. comparison_fact op b = Some f \<and> f \<noteq> FUnknown)")
    case False
    then have "add_fact params cmp fs = fs"
      by (auto simp: add_fact_def Some t split: option.split)
    then show ?thesis using assms(1) by simp
  next
    case True
    then obtain f where f: "comparison_fact op b = Some f" "f \<noteq> FUnknown" "x \<in> set params" by blast
    let ?g = "case bt_get fs x of None \<Rightarrow> FUnknown | Some g \<Rightarrow> g"
    have "fact_holds (max ?g f) d" if "\<rho> x = Some (RInt d)" for d
    proof (rule fact_holds_max)
      show "fact_holds f d"
        using assms(2) [OF _ that] comparison_fact_sound [OF f(1)] Some t by blast
      show "fact_holds ?g d"
        using assms(1) that by (auto simp: facts_hold_def fact_holds_int split: option.split)
    qed
    then show ?thesis
      using assms(1) f by (auto simp: add_fact_def Some t facts_hold_def bt.get_ins)
  qed
qed

lemma variable_comparison_op:
  "variable_comparison op l r = Some (x, op', b) \<Longrightarrow> op' = op \<or> flip_comparison op = Some op'"
  by (auto simp: variable_comparison_def split: option.splits)

lemma variable_comparison_cmp:
  "variable_comparison op l r = Some (x, op', b) \<Longrightarrow> comparison_fact op' b \<noteq> None \<Longrightarrow> is_cmp op"
  by (drule variable_comparison_op) (cases op; cases op'; simp add: is_cmp_def)

lemma collect_requires_facts_hold:
  "sem True ext \<rho> e = Some (RBool True) \<Longrightarrow> facts_hold fs \<rho> \<Longrightarrow>
   facts_hold (collect_requires_facts e params fs) \<rho>"
proof (induction e params fs rule: collect_requires_facts.induct)
  case (1 n k sp params fs)
  show ?case
  proof (cases "\<exists>op l r. k = IBinary op l r")
    case True
    then obtain op l r where k: "k = IBinary op l r" by blast
    show ?thesis
    proof (cases "op = And")
      case True
      then show ?thesis using 1 k by (auto simp: sem_and)
    next
      case nand: False
      show ?thesis
      proof (cases "is_cmp op")
        case True
        then obtain v w where "sem True ext \<rho> l = Some v" "sem True ext \<rho> r = Some w"
            "sem_cmp op v w = Some (RBool True)"
          using 1(3) k by (auto simp: bind_eq_Some_conv)
        then have "facts_hold (add_fact params (variable_comparison op l r) fs) \<rho>"
          using 1(4) True variable_comparison_sem by (intro add_fact_holds) blast+
        then show ?thesis using k nand by simp
      next
        case False
        then have "add_fact params (variable_comparison op l r) fs = fs"
          using variable_comparison_cmp [of op l r]
          by (auto simp: add_fact_def split: option.split prod.split)
        then show ?thesis using k nand 1(4) by simp
      qed
    qed
  next
    case False
    then show ?thesis using 1(4) by (cases k) simp_all
  qed
qed

lemma bt_get_filter:
  "bt_get (filter (\<lambda>(x, _). P x) fs) x = Some f \<Longrightarrow> P x \<and> bt_get fs x = Some f"
  by (induction fs) (auto split: if_splits)

lemma facts_hold_filter: "facts_hold fs \<rho> \<Longrightarrow> facts_hold (filter (\<lambda>(x, _). P x) fs) \<rho>"
  unfolding facts_hold_def using bt_get_filter by metis

lemma facts_hold_Nil: "facts_hold [] \<rho>"
  by (simp add: facts_hold_def)

lemma sdiv_fits:
  assumes "i64_fits a" "i64_fits b" "b \<noteq> 0" "b \<noteq> - 1"
  shows "i64_fits (a sdiv b)"
proof (cases "b = 1")
  case True
  then show ?thesis using assms by simp
next
  case False
  have a: "\<bar>a\<bar> \<le> 2 ^ 63" using assms(1) by (auto simp: i64_fits_def)
  have "2 \<le> \<bar>b\<bar>" using assms(3,4) False by auto
  then have "\<bar>a\<bar> div \<bar>b\<bar> \<le> \<bar>a\<bar> div 2"
    by (intro zdiv_mono2) auto
  also have "\<dots> \<le> 2 ^ 62" using a by simp
  finally have q: "\<bar>a\<bar> div \<bar>b\<bar> \<le> 2 ^ 62" .
  have nonneg: "0 \<le> \<bar>a\<bar> div \<bar>b\<bar>"
    using assms(3) by (simp add: pos_imp_zdiv_nonneg_iff)
  have "\<bar>a sdiv b\<bar> = \<bar>sgn a * sgn b\<bar> * (\<bar>a\<bar> div \<bar>b\<bar>)"
    unfolding signed_divide_int_def abs_mult using nonneg by simp
  also have "\<dots> \<le> 1 * (\<bar>a\<bar> div \<bar>b\<bar>)"
    using nonneg by (intro mult_right_mono) (simp_all add: abs_mult abs_sgn_eq)
  finally have "\<bar>a sdiv b\<bar> \<le> \<bar>a\<bar> div \<bar>b\<bar>" by simp
  with q have "\<bar>a sdiv b\<bar> \<le> 2 ^ 62" by linarith
  then show ?thesis by (auto simp: i64_fits_def)
qed

lemma requires_facts_hold:
  assumes "if_requires f = Some r" "sem True ext \<rho> r = Some (RBool True)"
  shows "facts_hold (requires_divisor_facts f) \<rho>"
proof -
  have "facts_hold (collect_requires_facts r ps []) \<rho>" for ps
    by (rule collect_requires_facts_hold [OF assms(2)]) (simp add: facts_hold_def)
  then show ?thesis
    using assms(1) facts_hold_filter by (simp add: requires_divisor_facts_def facts_hold_Nil)
qed

lemma divisor_fact_holds:
  assumes "facts_hold fs \<rho>" "sem True ext \<rho> e = Some (RInt d)"
  shows "fact_holds (divisor_fact_of e fs) d"
proof (cases "plain_int_literal e")
  case (Some i)
  then have "sint d = i" using plain_int_literal_sem assms(2) by blast
  then show ?thesis
    using Some by (auto simp: divisor_fact_of_def fact_holds_int fact_from_value_def)
next
  case None
  show ?thesis
  proof (cases e)
    case (IExpr n k sp)
    then show ?thesis
      using None assms
      by (cases k) (auto simp: divisor_fact_of_def facts_hold_def fact_holds_int split: option.split)
  qed
qed


definition sample_divider :: ir_function where
  "sample_divider =
     (let sp = \<lparr>span_start = 0, span_end = 0\<rparr>; v = IExpr 1 (IVar ''b'') sp;
          r = IExpr 3 (IBinary Gt v (IExpr 2 (IInt 0 None) sp)) sp in
      \<lparr>if_symbol = 1, if_name = ''f'', if_visibility = Private, if_attrs = [], if_is_async = False,
       if_is_unsafe = False, if_is_extern = False, if_extern_abi = None, if_is_intrinsic = False,
       if_intrinsic_abi = None, if_generics = [],
       if_params = [\<lparr>ip_symbol = 2, ip_name = ''b'', ip_attrs = [], ip_ty = 1, ip_span = sp\<rparr>],
       if_ret_type = 1, if_effects = [], if_capabilities = [], if_requires = Some r,
       if_ensures = None,
       if_body = IBlock 4 [IAssert r (contract_message ''requires'' ''f'') sp] (Some v) sp,
       if_span = sp\<rparr>)"


section \<open>The clause is enforced where it is trusted\<close>

definition requires_first :: "ir_block \<Rightarrow> bool" where
  "requires_first b =
     (case ib_stmts b of
        IAssert _ message _ # _ \<Rightarrow> starts_with message ''contract_violation{kind:requires,''
      | _ \<Rightarrow> False)"

lemma requires_message: "starts_with (contract_message ''requires'' owner) ''contract_violation{kind:requires,''"
  by (simp add: contract_message_def starts_with_def)

lemma lower_ensures_keeps_first:
  assumes "requires_first b"
  shows "yields requires_first (lower_ensures_in_block c tail_too b)"
proof -
  obtain n ss t sp where b: "b = IBlock n ss t sp" by (cases b)
  then obtain e msg sp' ss' where ss: "ss = IAssert e msg sp' # ss'"
      "starts_with msg ''contract_violation{kind:requires,''"
    using assms by (auto simp: requires_first_def split: list.splits ir_stmt.splits)
  have stmts: "yields (\<lambda>sss. \<exists>e' rest. sss = [IAssert e' msg sp'] # rest)
      (traverse (lower_ensures_in_stmt c) ss)"
    unfolding ss traverse_list.simps lower_ensures_in_stmt.simps
    by (rule yields_bind [where R = "\<lambda>s. \<exists>e'. s = [IAssert e' msg sp']"],
        rule yields_bind [OF yields_True], rule yields_return, simp,
        rule yields_bind [OF yields_True], rule yields_return, simp)
  show ?thesis
    unfolding b lower_ensures_in_block.simps
  proof (rule yields_bind [OF stmts], rule yields_if)
    fix sss assume "\<exists>e' rest. sss = [IAssert e' msg sp'] # rest"
    then show "yields requires_first (State_Monad.bind (lower_exit_with_ensures c t sp)
        (\<lambda>ts. ret (IBlock n (concat sss @ ts) None sp)))"
      using ss(2) by (intro yields_bind [OF yields_True] yields_return) (auto simp: requires_first_def)
  next
    fix sss assume "\<exists>e' rest. sss = [IAssert e' msg sp'] # rest"
    then show "yields requires_first (State_Monad.bind (traverse_opt (lower_ensures_in_expr c) t)
        (\<lambda>t'. ret (IBlock n (concat sss) t' sp)))"
      using ss(2) by (intro yields_bind [OF yields_True] yields_return) (auto simp: requires_first_def)
  qed
qed



end
