(* ===== verification/Usefulness.thy ===== *)
theory Usefulness
  imports Prelude
begin

text \<open>
  Exhaustiveness and reachability of matches: \<open>src/match_usefulness.rs\<close>, Maranget's usefulness
  algorithm on deconstructed patterns. The trait object \<open>&dyn PatternTypes\<close> is the record of its
  methods, an argument of every definition that calls them. The sets of constructors are lists,
  because only their members matter.
\<close>

section \<open>Patterns\<close>

datatype ctor =
    KVariant string
  | KBool bool
  | KUnit
  | KTuple nat
  | KStruct string
  | KLiteral string

datatype pat =
    Wild
  | PCtor ctor "pat list"
  | POr "pat list"

record pattern_types =
  pt_constructors :: "string \<Rightarrow> ctor list option"
  pt_field_types :: "string \<Rightarrow> ctor \<Rightarrow> string list"
  pt_struct_field_names :: "string \<Rightarrow> string list"

definition MAX_WITNESSES :: nat where
  "MAX_WITNESSES = 8"

text \<open>\<open>pad\<close>: take at most \<open>arity\<close> patterns and fill up with wildcards.\<close>

definition pad :: "pat list \<Rightarrow> nat \<Rightarrow> pat list" where
  "pad args arity = take arity args @ replicate (arity - length args) Wild"

fun collect_constructors :: "pat \<Rightarrow> ctor list" where
  "collect_constructors Wild = []"
| "collect_constructors (PCtor c _) = [c]"
| "collect_constructors (POr ps) = concat (map collect_constructors ps)"

definition head_constructors :: "pat list list \<Rightarrow> ctor list" where
  "head_constructors matrix =
     concat (map (\<lambda>row. case row of [] \<Rightarrow> [] | p # _ \<Rightarrow> collect_constructors p) matrix)"

definition complete_signature ::
  "string \<Rightarrow> ctor list \<Rightarrow> pattern_types \<Rightarrow> ctor list option" where
  "complete_signature ty seen types =
     (case pt_constructors types ty of
        None \<Rightarrow> None
      | Some ctors \<Rightarrow> if list_all (\<lambda>c. c \<in> set seen) ctors then Some ctors else None)"

text \<open>The recursion of \<open>specialize_row\<close> and \<open>default_row\<close> is on the head of the row.\<close>

fun specialize_head :: "pat \<Rightarrow> pat list \<Rightarrow> ctor \<Rightarrow> nat \<Rightarrow> pat list list" where
  "specialize_head Wild rest c arity = [replicate arity Wild @ rest]"
| "specialize_head (PCtor h args) rest c arity = (if h = c then [pad args arity @ rest] else [])"
| "specialize_head (POr ps) rest c arity = concat (map (\<lambda>p. specialize_head p rest c arity) ps)"

fun specialize_row :: "pat list \<Rightarrow> ctor \<Rightarrow> nat \<Rightarrow> pat list list" where
  "specialize_row [] c arity = []"
| "specialize_row (p # rest) c arity = specialize_head p rest c arity"

definition specialize :: "pat list list \<Rightarrow> ctor \<Rightarrow> nat \<Rightarrow> pat list list" where
  "specialize matrix c arity = concat (map (\<lambda>row. specialize_row row c arity) matrix)"

fun default_head :: "pat \<Rightarrow> pat list \<Rightarrow> pat list list" where
  "default_head Wild rest = [rest]"
| "default_head (PCtor h args) rest = []"
| "default_head (POr ps) rest = concat (map (\<lambda>p. default_head p rest) ps)"

fun default_row :: "pat list \<Rightarrow> pat list list" where
  "default_row [] = []"
| "default_row (p # rest) = default_head p rest"

definition default_matrix :: "pat list list \<Rightarrow> pat list list" where
  "default_matrix matrix = concat (map default_row matrix)"

section \<open>Why the recursion ends\<close>

text \<open>
  A wildcard weighs 1, a constructor pattern one more than the product of its arguments, an
  or-pattern one more than the sum of its alternatives; a row weighs the product of its patterns
  and a matrix the sum of its rows. Specializing never adds weight, and takes some away when the
  head column mentions a constructor at all.
\<close>

fun weight :: "pat \<Rightarrow> nat" where
  "weight Wild = 1"
| "weight (PCtor c args) = 1 + prod_list (map weight args)"
| "weight (POr ps) = 1 + sum_list (map weight ps)"

definition row_weight :: "pat list \<Rightarrow> nat" where
  "row_weight row = prod_list (map weight row)"

definition matrix_weight :: "pat list list \<Rightarrow> nat" where
  "matrix_weight m = sum_list (map row_weight m)"

lemma weight_pos: "0 < weight p"
  by (cases p) simp_all

lemma prod_weight_pos: "0 < prod_list (map weight ps)"
  by (induction ps) (simp_all add: weight_pos)

lemma row_weight_simps [simp]:
  "row_weight [] = 1" "row_weight (p # ps) = weight p * row_weight ps"
  "row_weight (ps @ qs) = row_weight ps * row_weight qs"
  "row_weight (replicate n Wild) = 1"
  by (induction n) (simp_all add: row_weight_def)

lemma weight_PCtor: "weight (PCtor c args) = 1 + row_weight args"
  by (simp add: row_weight_def)

lemma weight_member: "p \<in> set ps \<Longrightarrow> weight p \<le> sum_list (map weight ps)"
  by (induction ps) auto

declare weight.simps(2) [simp del]

lemma row_weight_pos: "0 < row_weight row"
  by (simp add: row_weight_def prod_weight_pos)

lemma matrix_weight_simps [simp]:
  "matrix_weight [] = 0" "matrix_weight (r # m) = row_weight r + matrix_weight m"
  "matrix_weight (m @ m') = matrix_weight m + matrix_weight m'"
  by (simp_all add: matrix_weight_def)

lemma row_weight_pad: "row_weight (pad args n) \<le> row_weight args"
proof -
  have "row_weight (take n args) * 1 \<le> row_weight (take n args) * row_weight (drop n args)"
    using row_weight_pos [of "drop n args"] by (intro mult_le_mono2) simp
  also have "\<dots> = row_weight args"
    by (metis append_take_drop_id row_weight_simps(3))
  finally show ?thesis by (simp add: pad_def)
qed

lemma pad_weight:
  "row_weight (pad args n) * row_weight rest < (1 + row_weight args) * row_weight rest"
  using row_weight_pad [of args n] row_weight_pos [of rest] by (intro mult_strict_right_mono) simp_all

lemma specialize_head_weight:
  "matrix_weight (specialize_head p rest c n) \<le> weight p * row_weight rest"
  "collect_constructors p \<noteq> [] \<Longrightarrow>
     matrix_weight (specialize_head p rest c n) < weight p * row_weight rest"
proof (induction p)
  case Wild
  { case 1 show ?case by simp }
  { case 2 then show ?case by simp }
next
  case (PCtor h args)
  have lt: "matrix_weight (specialize_head (PCtor h args) rest c n) <
      weight (PCtor h args) * row_weight rest"
    using pad_weight [of args n rest] row_weight_pos [of rest] by (simp add: weight_PCtor)
  { case 1 from lt show ?case by simp }
  { case 2 from lt show ?case by simp }
next
  case (POr ps)
  have "matrix_weight (concat (map (\<lambda>p. specialize_head p rest c n) ps)) \<le>
      sum_list (map weight ps) * row_weight rest"
    using POr(1) by (induction ps) (simp_all add: distrib_right add_mono)
  then have lt: "matrix_weight (specialize_head (POr ps) rest c n) < weight (POr ps) * row_weight rest"
    using row_weight_pos [of rest] by (simp add: le_imp_less_Suc)
  { case 1 from lt show ?case by simp }
  { case 2 from lt show ?case by simp }
qed

lemma specialize_weight:
  "matrix_weight (specialize m c n) \<le> matrix_weight m"
  "head_constructors m \<noteq> [] \<Longrightarrow> matrix_weight (specialize m c n) < matrix_weight m"
proof (induction m)
  case Nil
  { case 1 show ?case by (simp add: specialize_def) }
  { case 2 then show ?case by (simp add: head_constructors_def) }
next
  case (Cons r m)
  have le: "matrix_weight (specialize_row r c n) \<le> row_weight r"
    by (cases r) (simp_all add: specialize_head_weight(1))
  { case 1 from le Cons(1) show ?case by (simp add: specialize_def) }
  { case 2
    then consider "head_constructors m \<noteq> []" | p rest where "r = p # rest" "collect_constructors p \<noteq> []"
      by (cases r) (auto simp: head_constructors_def)
    then show ?case
    proof cases
      case 1
      then show ?thesis using le Cons(2) by (simp add: specialize_def)
    next
      case 2
      then show ?thesis
        using specialize_head_weight(2) [of p rest c n] Cons(1) by (simp add: specialize_def)
    qed }
qed

lemma default_head_weight: "matrix_weight (default_head p rest) \<le> weight p * row_weight rest"
proof (induction p)
  case (POr ps)
  then have "matrix_weight (concat (map (\<lambda>p. default_head p rest) ps)) \<le>
      sum_list (map weight ps) * row_weight rest"
    by (induction ps) (simp_all add: distrib_right add_mono)
  then show ?case by simp
qed simp_all

lemma default_weight: "matrix_weight (default_matrix m) \<le> matrix_weight m"
proof (induction m)
  case (Cons r m)
  have "matrix_weight (default_row r) \<le> row_weight r"
    by (cases r) (simp_all add: default_head_weight)
  with Cons show ?case by (simp add: default_matrix_def)
qed (simp add: default_matrix_def)

lemma complete_signature_seen:
  "complete_signature ty (head_constructors m) types = Some ctors \<Longrightarrow> c \<in> set ctors \<Longrightarrow>
   head_constructors m \<noteq> []"
  by (auto simp: complete_signature_def list_all_iff split: option.splits if_splits)

section \<open>The algorithm\<close>

text \<open>
  \<open>tys\<close> has one type per column, so the branch for an empty \<open>tys\<close> with a pattern left (where
  \<open>tys[0]\<close> would panic) is not reached from a call that keeps to this.
\<close>

function is_useful :: "pat list list \<Rightarrow> pat list \<Rightarrow> string list \<Rightarrow> pattern_types \<Rightarrow> bool" where
  "is_useful matrix [] tys types = (matrix = [])"
| "is_useful matrix (p # rest) [] types = False"
| "is_useful matrix (PCtor c args # rest) (ty # tys) types =
     (let fields = pt_field_types types ty c in
      is_useful (specialize matrix c (length fields)) (pad args (length fields) @ rest) (fields @ tys)
        types)"
| "is_useful matrix (POr ps # rest) (ty # tys) types =
     list_ex (\<lambda>p. is_useful matrix (p # rest) (ty # tys) types) ps"
| "is_useful matrix (Wild # rest) (ty # tys) types =
     (case complete_signature ty (head_constructors matrix) types of
        Some ctors \<Rightarrow>
          list_ex (\<lambda>c.
            let fields = pt_field_types types ty c in
            is_useful (specialize matrix c (length fields))
              (replicate (length fields) Wild @ rest) (fields @ tys) types) ctors
      | None \<Rightarrow> is_useful (default_matrix matrix) rest tys types)"
  by pat_completeness auto
termination
proof (relation "measures [\<lambda>(m, row, _, _). matrix_weight m + row_weight row, \<lambda>(_, row, _, _). length row]",
    goal_cases)
  case 1
  then show ?case by simp
next
  case (2 matrix c args rest ty tys types fields)
  then show ?case
    using specialize_weight(1) [of matrix c "length fields"] pad_weight [of args "length fields" rest]
    by (simp add: weight_PCtor)
next
  case (3 matrix ps rest ty tys types p)
  then have "weight p \<le> sum_list (map weight ps)"
    by (simp add: weight_member)
  then have "weight p * row_weight rest < (1 + sum_list (map weight ps)) * row_weight rest"
    using row_weight_pos [of rest] by (intro mult_strict_right_mono) simp_all
  then show ?case by simp
next
  case 4
  then show ?case
    using default_weight by (auto simp: le_less)
next
  case 5
  then show ?case
    using specialize_weight(2) [OF complete_signature_seen] by simp
qed

text \<open>
  The loops of \<open>missing_rows\<close> over the constructors and the rows of each: they stop when
  \<open>limit\<close> rows are collected, and each call is told how many are still wanted.
\<close>

fun collect_missing :: "('c \<Rightarrow> nat \<Rightarrow> 'r list) \<Rightarrow> nat \<Rightarrow> 'c list \<Rightarrow> 'r list" where
  "collect_missing f limit [] = []"
| "collect_missing f limit (c # cs) =
     (let rows = take limit (f c limit) in
      if length rows \<ge> limit then rows
      else rows @ collect_missing f (limit - length rows) cs)"

lemma collect_missing_cong [fundef_cong]:
  "limit = limit' \<Longrightarrow> cs = cs' \<Longrightarrow> (\<And>c l. c \<in> set cs' \<Longrightarrow> f c l = g c l) \<Longrightarrow>
   collect_missing f limit cs = collect_missing g limit' cs'"
proof (induction cs arbitrary: cs' limit limit')
  case (Cons c cs)
  then have "collect_missing f l cs = collect_missing g l cs" for l by auto
  with Cons show ?case by (auto simp: Let_def)
qed simp

function missing_rows :: "pat list list \<Rightarrow> string list \<Rightarrow> pattern_types \<Rightarrow> nat \<Rightarrow> pat list list" where
  "missing_rows matrix [] types limit =
     (if limit = 0 then [] else if matrix = [] then [[]] else [])"
| "missing_rows matrix (ty # tys) types limit =
     (if limit = 0 then []
      else case (if head_constructors matrix = [] then None else pt_constructors types ty) of
        Some ctors \<Rightarrow>
          collect_missing (\<lambda>c l.
            let fields = pt_field_types types ty c; n = length fields in
            map (\<lambda>row. PCtor c (take n row) # drop n row)
              (missing_rows (specialize matrix c n) (fields @ tys) types l)) limit ctors
      | None \<Rightarrow> map ((#) Wild) (missing_rows (default_matrix matrix) tys types limit))"
  by pat_completeness auto
termination
proof (relation "measures [\<lambda>(m, _, _, _). matrix_weight m, \<lambda>(_, tys, _, _). length tys]", goal_cases)
  case 1
  then show ?case by simp
next
  case (2 matrix ty tys types limit)
  then show ?case using default_weight [of matrix] by (auto simp: le_less)
next
  case 3
  then show ?case using specialize_weight(2) by (auto split: if_splits)
qed

fun render :: "pat \<Rightarrow> string \<Rightarrow> pattern_types \<Rightarrow> string"
  and render_args :: "pat list \<Rightarrow> string list \<Rightarrow> pattern_types \<Rightarrow> string list" where
  "render Wild ty types = ''_''"
| "render (POr ps) ty types = join_with '' | '' (map (\<lambda>p. render p ty types) ps)"
| "render (PCtor c args) ty types =
     (let shown_args = render_args args (pt_field_types types ty c) types in
      case c of
        KVariant name \<Rightarrow>
          if shown_args = [] then name else name @ ''('' @ join_with '', '' shown_args @ '')''
      | KBool value \<Rightarrow> if value then ''true'' else ''false''
      | KUnit \<Rightarrow> ''()''
      | KTuple _ \<Rightarrow> ''('' @ join_with '', '' shown_args @ '')''
      | KStruct name \<Rightarrow>
          (let names = pt_struct_field_names types ty;
               shown = map (\<lambda>(field, value). field @ '': '' @ value)
                 (filter (\<lambda>(_, value). value \<noteq> ''_'') (zip names shown_args)) in
           if shown = [] then name @ '' { .. }''
           else if length shown = length names then name @ '' { '' @ join_with '', '' shown @ '' }''
           else name @ '' { '' @ join_with '', '' shown @ '', .. }'')
      | KLiteral txt \<Rightarrow> txt)"
| "render_args [] tys types = []"
| "render_args (p # ps) (ty # tys) types = render p ty types # render_args ps tys types"
| "render_args (p # ps) [] types = render p ''<?>'' types # render_args ps [] types"

section \<open>What patterns mean\<close>

datatype pval = PVal ctor "pval list"

text \<open>A constructor pattern ignores the values it has no argument for, and surplus arguments.\<close>

fun matches :: "pat \<Rightarrow> pval \<Rightarrow> bool"
  and matches_args :: "pat list \<Rightarrow> pval list \<Rightarrow> bool" where
  "matches Wild v = True"
| "matches (PCtor c args) (PVal d vs) = (c = d \<and> matches_args args vs)"
| "matches (POr ps) v = list_ex (\<lambda>p. matches p v) ps"
| "matches_args (p # ps) (v # vs) = (matches p v \<and> matches_args ps vs)"
| "matches_args _ _ = True"

abbreviation row_matches :: "pat list \<Rightarrow> pval list \<Rightarrow> bool" where
  "row_matches \<equiv> list_all2 matches"

definition covered :: "pat list list \<Rightarrow> pval list \<Rightarrow> bool" where
  "covered matrix vs \<longleftrightarrow> list_ex (\<lambda>row. row_matches row vs) matrix"

text \<open>The values of a type: any constructor for an infinite type, with fields of their types.\<close>

lemmas [fundef_cong] = list.rel_cong

fun has_type :: "pattern_types \<Rightarrow> string \<Rightarrow> pval \<Rightarrow> bool" where
  "has_type types ty (PVal c vs) =
     ((case pt_constructors types ty of None \<Rightarrow> True | Some ctors \<Rightarrow> c \<in> set ctors) \<and>
      list_all2 (\<lambda>v fty. has_type types fty v) vs (pt_field_types types ty c))"

abbreviation typed :: "pattern_types \<Rightarrow> pval list \<Rightarrow> string list \<Rightarrow> bool" where
  "typed types \<equiv> list_all2 (\<lambda>v ty. has_type types ty v)"

lemma covered_Cons: "covered (r # m) vs \<longleftrightarrow> row_matches r vs \<or> covered m vs"
  by (simp add: covered_def)

lemma covered_append: "covered (m @ m') vs \<longleftrightarrow> covered m vs \<or> covered m' vs"
  by (simp add: covered_def)

lemma covered_Nil [simp]: "\<not> covered [] vs"
  by (simp add: covered_def)

lemma row_matches_wilds: "length vs = n \<Longrightarrow> row_matches (replicate n Wild) vs"
  by (induction vs arbitrary: n) auto

lemma row_matches_pad: "row_matches (pad args (length vs)) vs \<longleftrightarrow> matches_args args vs"
proof (induction args arbitrary: vs)
  case Nil
  then show ?case by (simp add: pad_def row_matches_wilds)
next
  case (Cons p args)
  then show ?case by (cases vs) (simp_all add: pad_def)
qed

lemma specialize_head_covered:
  "length vs = n \<Longrightarrow>
   covered (specialize_head p rest c n) (vs @ ws) \<longleftrightarrow> matches p (PVal c vs) \<and> row_matches rest ws"
proof (induction p)
  case Wild
  then show ?case
    by (simp add: covered_Cons list_all2_append row_matches_wilds)
next
  case (PCtor h args)
  have "length (pad args n) = n" by (simp add: pad_def)
  with PCtor show ?case
    using row_matches_pad [of args vs] by (auto simp: covered_Cons list_all2_append)
next
  case (POr ps)
  then have "covered (concat (map (\<lambda>p. specialize_head p rest c n) ps)) (vs @ ws) \<longleftrightarrow>
      list_ex (\<lambda>p. matches p (PVal c vs)) ps \<and> row_matches rest ws"
    by (induction ps) (auto simp: covered_append)
  then show ?case by simp
qed

lemma specialize_covered:
  "length vs = n \<Longrightarrow> covered (specialize m c n) (vs @ ws) \<longleftrightarrow> covered m (PVal c vs # ws)"
proof (induction m)
  case (Cons r m)
  then show ?case
    by (cases r) (simp_all add: specialize_def covered_append covered_Cons specialize_head_covered)
qed (simp add: specialize_def)

lemma default_head_covered:
  "covered (default_head p rest) ws \<Longrightarrow> matches p v \<and> row_matches rest ws"
  "c \<notin> set (collect_constructors p) \<Longrightarrow> matches p (PVal c vs) \<Longrightarrow> row_matches rest ws \<Longrightarrow>
     covered (default_head p rest) ws"
proof (induction p)
  case (POr ps)
  { case 1
    then show ?case using POr(1) by (induction ps) (auto simp: covered_append)
  }
  { case 2
    then show ?case using POr(2) by (induction ps) (auto simp: covered_append)
  }
qed (auto simp: covered_Cons)

lemma default_covered: "covered (default_matrix m) ws \<Longrightarrow> covered m (v # ws)"
proof (induction m)
  case (Cons r m)
  then show ?case
    by (cases r) (auto simp: default_matrix_def covered_append covered_Cons dest: default_head_covered(1))
qed (simp add: default_matrix_def)

lemma covered_default:
  "c \<notin> set (head_constructors m) \<Longrightarrow> covered m (PVal c vs # ws) \<Longrightarrow> covered (default_matrix m) ws"
proof (induction m)
  case (Cons r m)
  then show ?case
    by (cases r)
      (auto simp: default_matrix_def covered_append covered_Cons head_constructors_def
        intro: default_head_covered(2))
qed (simp add: default_matrix_def)

section \<open>The verdicts are right\<close>

lemma typed_Cons:
  "typed types vs (ty # tys) \<Longrightarrow>
   \<exists>c us ws. vs = PVal c us # ws \<and> has_type types ty (PVal c us) \<and> typed types ws tys"
  by (cases vs; cases "hd vs") auto

lemma typed_fields:
  "has_type types ty (PVal c us) \<Longrightarrow> typed types ws tys \<Longrightarrow>
   length us = length (pt_field_types types ty c) \<and>
   typed types (us @ ws) (pt_field_types types ty c @ tys)"
  by (auto intro: list_all2_appendI dest: list_all2_lengthD)

lemma row_matches_split:
  "length us = n \<Longrightarrow>
   row_matches (pad args n @ rest) (us @ ws) \<longleftrightarrow> matches_args args us \<and> row_matches rest ws"
  using row_matches_pad [of args us] by (subst list_all2_append) (auto simp: pad_def)

text \<open>Every row has one pattern per column.\<close>

definition rect :: "nat \<Rightarrow> pat list list \<Rightarrow> bool" where
  "rect n m \<longleftrightarrow> list_all (\<lambda>row. length row = n) m"

lemma rect_specialize_head:
  "length rest = k \<Longrightarrow> rect (n + k) (specialize_head p rest c n)"
  by (induction p rest c n rule: specialize_head.induct) (auto simp: rect_def list_all_iff pad_def)

lemma rect_specialize: "rect (Suc k) m \<Longrightarrow> rect (n + k) (specialize m c n)"
proof (induction m)
  case (Cons r m)
  then show ?case
    using rect_specialize_head [of "tl r" k n "hd r" c]
    by (cases r) (auto simp: rect_def specialize_def)
qed (simp add: rect_def specialize_def)

lemma rect_default_head: "length rest = k \<Longrightarrow> rect k (default_head p rest)"
  by (induction p rest rule: default_head.induct) (auto simp: rect_def list_all_iff)

lemma rect_default: "rect (Suc k) m \<Longrightarrow> rect k (default_matrix m)"
proof (induction m)
  case (Cons r m)
  then show ?case
    using rect_default_head [of "tl r" k "hd r"] by (cases r) (auto simp: rect_def default_matrix_def)
qed (simp add: rect_def default_matrix_def)

lemma useless_covered:
  "\<not> is_useful matrix row tys types \<Longrightarrow> typed types vs tys \<Longrightarrow> row_matches row vs \<Longrightarrow>
   rect (length tys) matrix \<Longrightarrow> covered matrix vs"
proof (induction matrix row tys types arbitrary: vs rule: is_useful.induct)
  case (1 matrix tys types)
  then show ?case by (cases matrix) (auto simp: covered_Cons rect_def)
next
  case (2 matrix p rest types)
  then show ?case by simp
next
  case (3 matrix c args rest ty tys types)
  obtain d us ws where vs: "vs = PVal d us # ws" "has_type types ty (PVal d us)" "typed types ws tys"
    using typed_Cons [OF 3(3)] by blast
  have d: "d = c" "matches_args args us" "row_matches rest ws"
    using 3(4) vs by auto
  let ?n = "length (pt_field_types types ty c)"
  have us: "length us = ?n" "typed types (us @ ws) (pt_field_types types ty c @ tys)"
    using typed_fields [OF vs(2,3)] d by auto
  have "row_matches (pad args ?n @ rest) (us @ ws)"
    using d us(1) row_matches_split by simp
  then have "covered (specialize matrix c ?n) (us @ ws)"
    using 3(1) [OF refl _ us(2)] 3(2,5) rect_specialize by (simp add: Let_def)
  then show ?case
    using specialize_covered [OF us(1)] vs d by simp
next
  case (4 matrix ps rest ty tys types)
  obtain v ws where vs: "vs = v # ws" using 4(3) by (cases vs) auto
  obtain p where p: "p \<in> set ps" "matches p v" "row_matches rest ws"
    using 4(4) by (auto simp: vs list_ex_iff)
  then show ?case
    using 4(1) [OF p(1) _ 4(3)] 4(2,5) vs by (auto simp: list_ex_iff)
next
  case (5 matrix rest ty tys types)
  obtain c us ws where vs: "vs = PVal c us # ws" "has_type types ty (PVal c us)" "typed types ws tys"
    using typed_Cons [OF 5(4)] by blast
  have rest: "row_matches rest ws" using 5(5) vs by simp
  show ?case
  proof (cases "complete_signature ty (head_constructors matrix) types")
    case None
    then have "covered (default_matrix matrix) ws"
      using 5(1) [OF None _ vs(3) rest] 5(3,6) rect_default by simp
    then show ?thesis using default_covered vs by blast
  next
    case (Some ctors)
    let ?n = "length (pt_field_types types ty c)"
    have c: "c \<in> set ctors"
      using Some vs(2) by (auto simp: complete_signature_def split: option.splits if_splits)
    have us: "length us = ?n" "typed types (us @ ws) (pt_field_types types ty c @ tys)"
      using typed_fields [OF vs(2,3)] by auto
    have "row_matches (replicate ?n Wild @ rest) (us @ ws)"
      using rest us(1) by (simp add: list_all2_append row_matches_wilds)
    then have "covered (specialize matrix c ?n) (us @ ws)"
      using 5(2) [OF Some c refl _ us(2)] 5(3,6) Some c rect_specialize
      by (auto simp: list_ex_iff Let_def)
    then show ?thesis
      using specialize_covered [OF us(1)] vs by simp
  qed
qed

text \<open>For the converse the types must have values, and the patterns of the row must be of them.\<close>

definition inhabited :: "pattern_types \<Rightarrow> bool" where
  "inhabited types \<longleftrightarrow> (\<forall>ty. \<exists>v. has_type types ty v)"

fun pat_ok :: "pattern_types \<Rightarrow> string \<Rightarrow> pat \<Rightarrow> bool"
  and pats_ok :: "pattern_types \<Rightarrow> string list \<Rightarrow> pat list \<Rightarrow> bool" where
  "pat_ok types ty Wild = True"
| "pat_ok types ty (PCtor c args) =
     ((case pt_constructors types ty of None \<Rightarrow> True | Some ctors \<Rightarrow> c \<in> set ctors) \<and>
      pats_ok types (pt_field_types types ty c) args)"
| "pat_ok types ty (POr ps) = list_all (pat_ok types ty) ps"
| "pats_ok types (ty # tys) (p # ps) = (pat_ok types ty p \<and> pats_ok types tys ps)"
| "pats_ok types _ _ = True"

lemma pats_ok_pad:
  "pats_ok types tys args \<Longrightarrow> list_all2 (pat_ok types) tys (pad args (length tys))"
proof (induction args arbitrary: tys)
  case Nil
  have "list_all2 (pat_ok types) tys (replicate (length tys) Wild)"
    by (induction tys) simp_all
  then show ?case by (simp add: pad_def)
next
  case (Cons p args)
  then show ?case by (cases tys) (simp_all add: pad_def)
qed

lemma wilds_ok: "list_all2 (pat_ok types) tys (replicate (length tys) Wild)"
  by (induction tys) simp_all

lemma inhabited_fields: "inhabited types \<Longrightarrow> \<exists>us. typed types us tys"
proof (induction tys)
  case (Cons ty tys)
  moreover from this obtain v where "has_type types ty v"
    by (auto simp: inhabited_def)
  ultimately obtain us where "has_type types ty v" "typed types us tys"
    by blast
  then show ?case by (intro exI [of _ "v # us"]) simp
qed simp

lemma fresh_ctor: "\<exists>c. c \<notin> set (cs :: ctor list)"
proof -
  have "infinite (range KTuple)"
    by (meson ctor.inject(3) finite_imageD infinite_UNIV_nat inj_def)
  then show ?thesis
    by (metis List.finite_set finite_subset subsetI)
qed

text \<open>A value whose head is none of the constructors of the column.\<close>

lemma other_head:
  assumes "inhabited types"
    and "complete_signature ty seen types = None \<or> seen = []"
  shows "\<exists>c us. has_type types ty (PVal c us) \<and> (c \<notin> set seen)"
proof (cases "pt_constructors types ty")
  case None
  obtain c where c: "c \<notin> set seen" using fresh_ctor by blast
  obtain us where "typed types us (pt_field_types types ty c)"
    using inhabited_fields [OF assms(1)] by blast
  with None c show ?thesis by auto
next
  case (Some ctors)
  show ?thesis
  proof (cases "seen = []")
    case True
    obtain v where "has_type types ty v"
      using assms(1) by (auto simp: inhabited_def)
    then show ?thesis using True by (cases v) auto
  next
    case False
    then obtain c where c: "c \<in> set ctors" "c \<notin> set seen"
      using Some assms(2) by (auto simp: complete_signature_def list_all_iff split: if_splits)
    obtain us where "typed types us (pt_field_types types ty c)"
      using inhabited_fields [OF assms(1)] by blast
    with Some c show ?thesis by auto
  qed
qed

lemma useful_witness:
  "is_useful matrix row tys types \<Longrightarrow> inhabited types \<Longrightarrow> list_all2 (pat_ok types) tys row \<Longrightarrow>
   \<exists>vs. typed types vs tys \<and> row_matches row vs \<and> \<not> covered matrix vs"
proof (induction matrix row tys types rule: is_useful.induct)
  case (1 matrix tys types)
  then show ?case by simp
next
  case (2 matrix p rest types)
  then show ?case by simp
next
  case (3 matrix c args rest ty tys types)
  let ?fs = "pt_field_types types ty c" and ?n = "length (pt_field_types types ty c)"
  have ok: "list_all2 (pat_ok types) (?fs @ tys) (pad args ?n @ rest)"
    using 3(4) pats_ok_pad [of types ?fs args] by (auto intro: list_all2_appendI)
  obtain vs where vs: "typed types vs (?fs @ tys)" "row_matches (pad args ?n @ rest) vs"
      "\<not> covered (specialize matrix c ?n) vs"
    using 3(1) [OF refl _ 3(3) ok] 3(2) by (auto simp: Let_def)
  then obtain us ws where sp: "vs = us @ ws" "length us = ?n" "typed types us ?fs" "typed types ws tys"
    by (auto simp: list_all2_append2 dest: list_all2_lengthD)
  have "matches_args args us" "row_matches rest ws"
    using vs(2) sp(1,2) row_matches_split by auto
  moreover have "\<not> covered matrix (PVal c us # ws)"
    using vs(3) specialize_covered [OF sp(2)] sp(1) by simp
  ultimately show ?case
    using 3(4) sp by (intro exI [of _ "PVal c us # ws"]) simp
next
  case (4 matrix ps rest ty tys types)
  then obtain p where p: "p \<in> set ps" "is_useful matrix (p # rest) (ty # tys) types"
    by (auto simp: list_ex_iff)
  have "list_all2 (pat_ok types) (ty # tys) (p # rest)"
    using 4(4) p(1) by (simp add: list_all_iff)
  then obtain vs where vs: "typed types vs (ty # tys)" "row_matches (p # rest) vs" "\<not> covered matrix vs"
    using 4(1) [OF p 4(3)] by blast
  then show ?case
    using p(1) by (intro exI [of _ vs]) (cases vs; auto simp: list_ex_iff)
next
  case (5 matrix rest ty tys types)
  show ?case
  proof (cases "complete_signature ty (head_constructors matrix) types")
    case None
    obtain ws where ws: "typed types ws tys" "row_matches rest ws" "\<not> covered (default_matrix matrix) ws"
      using 5(1) [OF None _ 5(4)] 5(3,5) None by auto
    obtain c us where "has_type types ty (PVal c us)" "c \<notin> set (head_constructors matrix)"
      using other_head [OF 5(4)] None by blast
    then show ?thesis
      using ws covered_default by (intro exI [of _ "PVal c us # ws"]) auto
  next
    case (Some ctors)
    then obtain c where c: "c \<in> set ctors"
        "is_useful (specialize matrix c (length (pt_field_types types ty c)))
          (replicate (length (pt_field_types types ty c)) Wild @ rest)
          (pt_field_types types ty c @ tys) types"
      using 5(3) by (auto simp: list_ex_iff Let_def)
    let ?fs = "pt_field_types types ty c" and ?n = "length (pt_field_types types ty c)"
    have "list_all2 (pat_ok types) (?fs @ tys) (replicate ?n Wild @ rest)"
      using 5(5) wilds_ok by (auto intro: list_all2_appendI)
    then obtain vs where vs: "typed types vs (?fs @ tys)" "row_matches (replicate ?n Wild @ rest) vs"
        "\<not> covered (specialize matrix c ?n) vs"
      using 5(2) [OF Some c(1) refl c(2) 5(4)] by blast
    then obtain us ws where sp: "vs = us @ ws" "length us = ?n" "typed types us ?fs" "typed types ws tys"
      by (auto simp: list_all2_append2 dest: list_all2_lengthD)
    have "row_matches rest ws"
      using vs(2) sp(1,2) by (auto simp: list_all2_append)
    moreover have "\<not> covered matrix (PVal c us # ws)"
      using vs(3) specialize_covered [OF sp(2)] sp(1) by simp
    moreover have "has_type types ty (PVal c us)"
      using Some c(1) sp(3) by (auto simp: complete_signature_def split: option.splits if_splits)
    ultimately show ?thesis
      using sp by (intro exI [of _ "PVal c us # ws"]) simp
  qed
qed

section \<open>Missing rows\<close>

lemma collect_missing_length: "length (collect_missing f limit cs) \<le> limit"
proof (induction cs arbitrary: limit)
  case (Cons c cs)
  have "length (collect_missing f (limit - length (f c limit)) cs) \<le> limit - length (f c limit)"
    by (rule Cons)
  then show ?case by (simp add: Let_def min_def) linarith
qed simp

lemma collect_missing_Nil:
  "collect_missing f limit cs = [] \<Longrightarrow> 0 < limit \<Longrightarrow> c \<in> set cs \<Longrightarrow> f c limit = []"
  by (induction cs) (auto simp: Let_def split: if_splits)

lemma collect_missing_mem:
  "row \<in> set (collect_missing f limit cs) \<Longrightarrow> \<exists>c \<in> set cs. \<exists>l. row \<in> set (f c l)"
proof (induction cs arbitrary: limit)
  case (Cons c cs)
  then show ?case
    by (auto simp: Let_def split: if_splits dest: in_set_takeD)
qed simp

lemma missing_rows_length: "length (missing_rows matrix tys types limit) \<le> limit"
proof (induction matrix tys types limit rule: missing_rows.induct)
  case (2 matrix ty tys types limit)
  then show ?case
    by (simp add: collect_missing_length split: option.split)
qed simp

lemma no_missing_covered:
  "missing_rows matrix tys types limit = [] \<Longrightarrow> 0 < limit \<Longrightarrow> rect (length tys) matrix \<Longrightarrow>
   typed types vs tys \<Longrightarrow> covered matrix vs"
proof (induction matrix tys types limit arbitrary: vs rule: missing_rows.induct)
  case (1 matrix types limit)
  then show ?case by (cases matrix) (auto simp: covered_Cons rect_def)
next
  case (2 matrix ty tys types limit)
  obtain c us ws where vs: "vs = PVal c us # ws" "has_type types ty (PVal c us)" "typed types ws tys"
    using typed_Cons [OF 2(6)] by blast
  have lim: "limit \<noteq> 0" using 2(4) by simp
  show ?case
  proof (cases "if head_constructors matrix = [] then None else pt_constructors types ty")
    case None
    then have "covered (default_matrix matrix) ws"
      using 2(1) [OF lim None _ 2(4) _ vs(3)] 2(3,5) lim rect_default by (auto split: option.splits)
    then show ?thesis using default_covered vs by blast
  next
    case (Some ctors)
    let ?n = "length (pt_field_types types ty c)"
    have c: "c \<in> set ctors"
      using Some vs(2) by (auto split: if_splits)
    have us: "length us = ?n" "typed types (us @ ws) (pt_field_types types ty c @ tys)"
      using typed_fields [OF vs(2,3)] by auto
    have "missing_rows (specialize matrix c ?n) (pt_field_types types ty c @ tys) types limit = []"
      using 2(3) lim Some collect_missing_Nil [OF _ 2(4) c] by (fastforce simp: Let_def)
    then have "covered (specialize matrix c ?n) (us @ ws)"
      using 2(2) [OF lim Some c refl refl _ 2(4) _ us(2)] 2(5) rect_specialize by simp
    then show ?thesis
      using specialize_covered [OF us(1)] vs by simp
  qed
qed

lemma missing_row_witness:
  "row \<in> set (missing_rows matrix tys types limit) \<Longrightarrow> inhabited types \<Longrightarrow>
   \<exists>vs. typed types vs tys \<and> row_matches row vs \<and> \<not> covered matrix vs"
proof (induction matrix tys types limit arbitrary: row rule: missing_rows.induct)
  case (1 matrix types limit)
  then show ?case by (auto split: if_splits)
next
  case (2 matrix ty tys types limit)
  have lim: "limit \<noteq> 0" using 2(3) by (auto split: if_splits)
  show ?case
  proof (cases "if head_constructors matrix = [] then None else pt_constructors types ty")
    case None
    then obtain rest where rest: "row = Wild # rest"
        "rest \<in> set (missing_rows (default_matrix matrix) tys types limit)"
      using 2(3) lim by auto
    obtain ws where ws: "typed types ws tys" "row_matches rest ws" "\<not> covered (default_matrix matrix) ws"
      using 2(1) [OF lim None rest(2) 2(4)] by blast
    have "complete_signature ty (head_constructors matrix) types = None \<or> head_constructors matrix = []"
      using None by (auto simp: complete_signature_def split: if_splits)
    then obtain c us where "has_type types ty (PVal c us)" "c \<notin> set (head_constructors matrix)"
      using other_head [OF 2(4)] by blast
    then show ?thesis
      using ws rest covered_default by (intro exI [of _ "PVal c us # ws"]) auto
  next
    case (Some ctors)
    then obtain c l where c: "c \<in> set ctors" and row: "row \<in> set (
        map (\<lambda>row. PCtor c (take (length (pt_field_types types ty c)) row) #
            drop (length (pt_field_types types ty c)) row)
          (missing_rows (specialize matrix c (length (pt_field_types types ty c)))
            (pt_field_types types ty c @ tys) types l))"
      using 2(3) lim collect_missing_mem [of row _ limit ctors] by (fastforce simp: Let_def)
    let ?n = "length (pt_field_types types ty c)"
    obtain r where r: "row = PCtor c (take ?n r) # drop ?n r"
        "r \<in> set (missing_rows (specialize matrix c ?n) (pt_field_types types ty c @ tys) types l)"
      using row by auto
    obtain vs where vs: "typed types vs (pt_field_types types ty c @ tys)" "row_matches r vs"
        "\<not> covered (specialize matrix c ?n) vs"
      using 2(2) [OF lim Some c refl refl r(2) 2(4)] by blast
    then obtain us ws where sp: "vs = us @ ws" "length us = ?n"
        "typed types us (pt_field_types types ty c)" "typed types ws tys"
      by (auto simp: list_all2_append2 dest: list_all2_lengthD)
    have "row_matches (take ?n r) us" "row_matches (drop ?n r) ws"
      using vs(2) sp(1,2) list_all2_takeI [of matches r vs ?n] list_all2_dropI [of matches r vs ?n]
      by auto
    moreover have "matches_args (take ?n r) us"
      using calculation(1) row_matches_pad [of "take ?n r" us] sp(2)
      by (metis list_all2_lengthD append_Nil2 diff_self_eq_0 pad_def replicate_0 take_all_iff order_refl)
    moreover have "has_type types ty (PVal c us)"
      using Some c sp(3) by (auto split: if_splits)
    moreover have "\<not> covered matrix (PVal c us # ws)"
      using vs(3) specialize_covered [OF sp(2)] sp(1) by simp
    ultimately show ?thesis
      using r(1) sp by (intro exI [of _ "PVal c us # ws"]) simp
  qed
qed

section \<open>What a match check promises\<close>

text \<open>An oracle to apply the theorems to: booleans, options of booleans, and infinite types.\<close>

definition sample_types :: pattern_types where
  "sample_types =
     \<lparr>pt_constructors = (\<lambda>ty.
        if ty = ''Bool'' then Some [KBool False, KBool True]
        else if ty = ''Option[Bool]'' then Some [KVariant ''None'', KVariant ''Some''] else None),
      pt_field_types = (\<lambda>ty c.
        if ty = ''Option[Bool]'' \<and> c = KVariant ''Some'' then [''Bool''] else []),
      pt_struct_field_names = (\<lambda>_. [])\<rparr>"

lemma sample_inhabited: "inhabited sample_types"
proof -
  have "has_type sample_types ''Bool'' (PVal (KBool True) [])"
    "has_type sample_types ''Option[Bool]'' (PVal (KVariant ''None'') [])"
    by (simp_all add: sample_types_def)
  moreover have "has_type sample_types ty (PVal KUnit [])" if "ty \<noteq> ''Bool''" "ty \<noteq> ''Option[Bool]''" for ty
    using that by (simp add: sample_types_def)
  ultimately show ?thesis unfolding inhabited_def by metis
qed

text \<open>
  C5: An arm reported as unreachable is: if a pattern row is not useful with respect to the rows
  above it, then every well-typed tuple of values that it matches is already matched by one of
  those rows.
\<close>

theorem unreachable_arm_sound:
  assumes "\<not> is_useful matrix row tys types" "rect (length tys) matrix"
    and "typed types vs tys" "row_matches row vs"
  shows "covered matrix vs"
  using useless_covered assms by blast

theorem unreachable_arm_sound_witness:
  "covered [[PCtor (KVariant ''None'') []], [PCtor (KVariant ''Some'') [Wild]]]
     [PVal (KVariant ''Some'') [PVal (KBool True) []]]"
proof (rule unreachable_arm_sound [where row = "[Wild]" and tys = "[''Option[Bool]'']" and types = sample_types])
  show "\<not> is_useful [[PCtor (KVariant ''None'') []], [PCtor (KVariant ''Some'') [Wild]]]
      [Wild] [''Option[Bool]''] sample_types" by code_simp
qed code_simp+

text \<open>
  C7: An arm reported as reachable is: if a row of well-formed patterns is useful and every type
  has values, then some well-typed tuple of values is matched by the row and by none of the rows
  above it.
\<close>

theorem reachable_arm_complete:
  assumes "is_useful matrix row tys types" "inhabited types" "list_all2 (pat_ok types) tys row"
  shows "\<exists>vs. typed types vs tys \<and> row_matches row vs \<and> \<not> covered matrix vs"
  using useful_witness assms by blast

theorem reachable_arm_complete_witness:
  "\<exists>vs. typed sample_types vs [''Option[Bool]''] \<and>
     \<not> covered [[PCtor (KVariant ''Some'') [PCtor (KBool True) []]]] vs"
proof -
  have "is_useful [[PCtor (KVariant ''Some'') [PCtor (KBool True) []]]] [Wild] [''Option[Bool]''] sample_types"
    "list_all2 (pat_ok sample_types) [''Option[Bool]''] [Wild]"
    by code_simp+
  then show ?thesis
    using reachable_arm_complete [OF _ sample_inhabited] by blast
qed

text \<open>
  C4: A match accepted as exhaustive is: when no missing row is found, every well-typed tuple of
  values is matched by some row.
\<close>

theorem exhaustive_sound:
  assumes "missing_rows matrix tys types MAX_WITNESSES = []" "rect (length tys) matrix"
    and "typed types vs tys"
  shows "covered matrix vs"
  using no_missing_covered [OF assms(1) _ assms(2,3)] by (simp add: MAX_WITNESSES_def)

theorem exhaustive_sound_witness:
  "covered [[PCtor (KBool True) []], [POr [PCtor (KBool False) [], Wild]]] [PVal (KBool False) []]"
  by (rule exhaustive_sound [where tys = "[''Bool'']" and types = sample_types]) code_simp+

text \<open>
  C6: The witnesses of a match that is not exhaustive are genuine and few: there are at most
  the limit asked for, and each of them matches some well-typed tuple of values that no row of
  the match covers, when every type has values.
\<close>

theorem missing_rows_genuine:
  assumes "inhabited types"
  shows "length (missing_rows matrix tys types limit) \<le> limit \<and>
    (\<forall>row \<in> set (missing_rows matrix tys types limit).
       \<exists>vs. typed types vs tys \<and> row_matches row vs \<and> \<not> covered matrix vs)"
  using missing_rows_length missing_row_witness [OF _ assms] by blast

theorem missing_rows_genuine_witness:
  "\<exists>vs. row_matches [PCtor (KVariant ''Some'') [PCtor (KBool False) []]] vs \<and>
     \<not> covered [[PCtor (KVariant ''None'') []], [PCtor (KVariant ''Some'') [PCtor (KBool True) []]]] vs"
proof -
  have "[PCtor (KVariant ''Some'') [PCtor (KBool False) []]] \<in> set (missing_rows
      [[PCtor (KVariant ''None'') []], [PCtor (KVariant ''Some'') [PCtor (KBool True) []]]]
      [''Option[Bool]''] sample_types MAX_WITNESSES)"
    by code_simp
  then show ?thesis
    using missing_rows_genuine [OF sample_inhabited] by blast
qed

end
