(* ===== verification/EditDistance.thy ===== *)
theory EditDistance
  imports Utf8
begin

text \<open>
  The spelling distance that the compiler's suggestions use (\<open>levenshtein\<close> in
  \<open>src/effects.rs\<close>): the two-row dynamic program, and the proof that it computes the least number
  of insertions, deletions and replacements of characters that turn one string into the other.
\<close>

section \<open>The two-row program\<close>

text \<open>
  The inner loop: \<open>j\<close> counts the characters of the second string, \<open>row\<close> is the vector that the
  loop fills and \<open>prev\<close> the row before it.
\<close>

fun lev_row :: "rchar \<Rightarrow> nat list \<Rightarrow> nat \<Rightarrow> rchar list \<Rightarrow> nat list \<Rightarrow> nat list" where
  "lev_row a_ch prev j [] row = row"
| "lev_row a_ch prev j (b_ch # bs) row =
     (let cost = (if a_ch \<noteq> b_ch then 1 else 0);
          insert_cost = row ! j + 1;
          delete_cost = prev ! (j + 1) + 1;
          replace_cost = prev ! j + cost
      in lev_row a_ch prev (j + 1) bs (row[j + 1 := min (min insert_cost delete_cost) replace_cost]))"

text \<open>The outer loop; the two vectors change places after each row.\<close>

fun lev_rows :: "nat \<Rightarrow> rchar list \<Rightarrow> rchar list \<Rightarrow> nat list \<Rightarrow> nat list \<Rightarrow> nat list" where
  "lev_rows i [] bs prev row = prev"
| "lev_rows i (a_ch # as) bs prev row =
     lev_rows (i + 1) as bs (lev_row a_ch prev 0 bs (row[0 := i + 1])) prev"

definition levenshtein :: "string \<Rightarrow> string \<Rightarrow> nat" where
  "levenshtein a b =
     (if a = [] then length (str_chars b)
      else if b = [] then length (str_chars a)
      else
        (let bs = str_chars b in
         lev_rows 0 (str_chars a) bs [0..<length bs + 1] (replicate (length bs + 1) 0) ! length bs))"

section \<open>Edits\<close>

text \<open>\<open>edits xs n ys\<close>: \<open>n\<close> insertions, deletions and replacements turn \<open>xs\<close> into \<open>ys\<close>.\<close>

inductive edits :: "'a list \<Rightarrow> nat \<Rightarrow> 'a list \<Rightarrow> bool" where
  empty: "edits [] 0 []"
| keep: "edits xs n ys \<Longrightarrow> edits (x # xs) n (x # ys)"
| replace: "edits xs n ys \<Longrightarrow> edits (x # xs) (Suc n) (y # ys)"
| delete: "edits xs n ys \<Longrightarrow> edits (x # xs) (Suc n) ys"
| insert: "edits xs n ys \<Longrightarrow> edits xs (Suc n) (y # ys)"

lemma edits_append: "edits xs n ys \<Longrightarrow> edits us m vs \<Longrightarrow> edits (xs @ us) (n + m) (ys @ vs)"
  by (induction rule: edits.induct) (auto intro: edits.intros)

lemma edits_snoc:
  "edits [x] 0 [x]" "edits [x] (Suc 0) [y]" "edits [x] (Suc 0) []" "edits [] (Suc 0) [y]"
  by (auto intro: edits.intros)

lemma edits_rev: "edits xs n ys \<Longrightarrow> edits (rev xs) n (rev ys)"
proof (induction rule: edits.induct)
  case (keep xs n ys x)
  from edits_append [OF keep.IH edits_snoc(1)] show ?case by simp
next
  case (replace xs n ys x y)
  from edits_append [OF replace.IH edits_snoc(2)] show ?case by simp
next
  case (delete xs n ys x)
  from edits_append [OF delete.IH edits_snoc(3)] show ?case by simp
next
  case (insert xs n ys y)
  from edits_append [OF insert.IH edits_snoc(4)] show ?case by simp
qed (simp add: edits.empty)

lemma edits_rev_iff: "edits (rev xs) n (rev ys) \<longleftrightarrow> edits xs n ys"
  using edits_rev [of xs n ys] edits_rev [of "rev xs" n "rev ys"] by auto

text \<open>The recurrence for the least number of edits.\<close>

fun dist :: "'a list \<Rightarrow> 'a list \<Rightarrow> nat" where
  "dist [] ys = length ys"
| "dist (x # xs) [] = Suc (length xs)"
| "dist (x # xs) (y # ys) =
     min (min (dist (x # xs) ys + 1) (dist xs (y # ys) + 1)) (dist xs ys + (if x \<noteq> y then 1 else 0))"

lemma dist_Nil2 [simp]: "dist xs [] = length xs"
  by (cases xs) auto

lemma edits_dist: "edits xs (dist xs ys) ys"
proof (induction xs ys rule: dist.induct)
  case (1 ys)
  show ?case by (induction ys) (auto intro: edits.intros)
next
  case (2 x xs)
  have "edits xs (length xs) []" by (induction xs) (auto intro: edits.intros)
  then show ?case by (auto intro: edits.intros)
next
  case (3 x xs y ys)
  then show ?case
    by (auto simp: min_def intro: edits.intros)
qed

lemma dist_Cons_le:
  "dist (x # xs) ys \<le> Suc (dist xs ys)" "dist xs (y # ys) \<le> Suc (dist xs ys)"
  by (cases ys, simp_all) (cases xs, simp_all)

lemma dist_Cons_Cons: "dist (x # xs) (x # ys) \<le> dist xs ys" "dist (x # xs) (y # ys) \<le> Suc (dist xs ys)"
  by (simp_all add: min_le_iff_disj)

lemma dist_le: "edits xs n ys \<Longrightarrow> dist xs ys \<le> n"
proof (induction rule: edits.induct)
  case (keep xs n ys x)
  with dist_Cons_Cons(1) [of x xs ys] show ?case by linarith
next
  case (replace xs n ys x y)
  with dist_Cons_Cons(2) [of x xs y ys] show ?case by linarith
next
  case (delete xs n ys x)
  with dist_Cons_le(1) [of x xs ys] show ?case by linarith
next
  case (insert xs n ys y)
  with dist_Cons_le(2) [of xs y ys] show ?case by linarith
qed simp

lemma dist_rev: "dist (rev xs) (rev ys) = dist xs ys"
proof -
  have le: "dist us vs \<le> dist (rev us) (rev vs)" for us vs :: "'a list"
    by (rule dist_le) (metis edits_dist edits_rev_iff)
  from le [of xs ys] le [of "rev xs" "rev ys"] show ?thesis by simp
qed

section \<open>Correctness of the program\<close>

text \<open>The distance of two prefixes, by their last characters.\<close>

lemma dist_snoc:
  "dist (xs @ [x]) (ys @ [y]) =
     min (min (dist (xs @ [x]) ys + 1) (dist xs (ys @ [y]) + 1)) (dist xs ys + (if x \<noteq> y then 1 else 0))"
  using dist_rev [of "xs @ [x]" "ys @ [y]"] dist_rev [of "xs @ [x]" ys] dist_rev [of xs "ys @ [y]"]
    dist_rev [of xs ys] by simp

definition prefix_row :: "'a list \<Rightarrow> 'a list \<Rightarrow> nat list" where
  "prefix_row as bs = map (\<lambda>j. dist as (take j bs)) [0..<length bs + 1]"

lemma length_prefix_row [simp]: "length (prefix_row as bs) = length bs + 1"
  by (simp add: prefix_row_def)

lemma prefix_row_nth: "j \<le> length bs \<Longrightarrow> prefix_row as bs ! j = dist as (take j bs)"
  by (simp add: prefix_row_def nth_append del: upt_Suc)

lemma lev_row_length [simp]: "length (lev_row a prev j bs row) = length row"
  by (induction bs arbitrary: j row) (auto simp: Let_def)

text \<open>After \<open>j\<close> turns of the inner loop the entries up to \<open>j\<close> belong to the new row.\<close>

lemma lev_row_correct:
  assumes "bs = take j bs @ rest" "j \<le> length bs" "length row = length bs + 1"
    and "\<forall>k \<le> j. row ! k = dist (as @ [a]) (take k bs)"
  shows "\<forall>k \<le> length bs. lev_row a (prefix_row as bs) j rest row ! k = dist (as @ [a]) (take k bs)"
  using assms
proof (induction rest arbitrary: j row)
  case Nil
  then have "j = length bs" by (metis append_Nil2 length_take min.absorb2 order_refl)
  with Nil show ?case by simp
next
  case (Cons b rest)
  have "length bs = j + Suc (length rest)"
    using Cons.prems(1,2) by (metis length_Cons length_append length_take min.absorb2)
  then have j: "j < length bs" by simp
  have nth: "bs ! j = b"
    using Cons.prems(1,2) by (metis j length_take min.absorb2 nth_append_length)
  have take: "take (Suc j) bs = take j bs @ [b]"
    using j nth by (simp add: take_Suc_conv_app_nth)
  let ?v = "min (min (row ! j + 1) (prefix_row as bs ! (j + 1) + 1))
    (prefix_row as bs ! j + (if a \<noteq> b then 1 else 0))"
  have v: "?v = dist (as @ [a]) (take (Suc j) bs)"
    using j Cons.prems(4) by (simp add: prefix_row_nth take dist_snoc)
  have "\<forall>k \<le> length bs. lev_row a (prefix_row as bs) (Suc j) rest (row[Suc j := ?v]) ! k =
      dist (as @ [a]) (take k bs)"
  proof (rule Cons.IH)
    show "bs = take (Suc j) bs @ rest" using Cons.prems(1) take by (metis append.assoc append_Cons append_Nil)
    show "\<forall>k \<le> Suc j. row[Suc j := ?v] ! k = dist (as @ [a]) (take k bs)"
      using Cons.prems(3,4) j v by (auto simp: nth_list_update le_Suc_eq)
  qed (use j Cons.prems(3) in auto)
  then show ?case by (simp add: Let_def)
qed

lemma lev_row_prefix_row:
  assumes "length row = length bs + 1"
  shows "lev_row a (prefix_row as bs) 0 bs (row[0 := Suc (length as)]) = prefix_row (as @ [a]) bs"
proof (rule nth_equalityI)
  fix k assume "k < length (lev_row a (prefix_row as bs) 0 bs (row[0 := Suc (length as)]))"
  with assms have k: "k \<le> length bs" by simp
  have "\<forall>k \<le> length bs. lev_row a (prefix_row as bs) 0 bs (row[0 := Suc (length as)]) ! k =
      dist (as @ [a]) (take k bs)"
    by (rule lev_row_correct) (use assms in \<open>auto simp: nth_list_update\<close>)
  with k show "lev_row a (prefix_row as bs) 0 bs (row[0 := Suc (length as)]) ! k = prefix_row (as @ [a]) bs ! k"
    by (simp add: prefix_row_nth)
qed (use assms in simp)

lemma lev_rows_correct:
  "length row = length bs + 1 \<Longrightarrow>
     lev_rows (length done) as bs (prefix_row done bs) row = prefix_row (done @ as) bs"
proof (induction as arbitrary: "done" row)
  case (Cons a as)
  from Cons.IH [of "prefix_row done bs" "done @ [a]"] show ?case
    using Cons.prems by (simp add: lev_row_prefix_row)
qed simp

lemma prefix_row_Nil: "prefix_row [] bs = [0..<length bs + 1]"
  by (rule nth_equalityI) (auto simp: prefix_row_nth less_Suc_eq_le simp del: upt_Suc)

lemma levenshtein_dist: "levenshtein a b = dist (str_chars a) (str_chars b)"
proof -
  have "lev_rows 0 (str_chars a) (str_chars b) [0..<length (str_chars b) + 1]
      (replicate (length (str_chars b) + 1) 0) = prefix_row (str_chars a) (str_chars b)"
    using lev_rows_correct [of "replicate (length (str_chars b) + 1) 0" "str_chars b" "[]"]
    by (simp add: prefix_row_Nil del: upt_Suc replicate_Suc)
  then show ?thesis
    by (simp add: levenshtein_def Let_def prefix_row_nth del: upt_Suc replicate_Suc)
qed

text \<open>
  C20: The distance that the spelling suggestions are ranked by is the edit distance: that many
  insertions, deletions and replacements of characters turn one string into the other, and no
  smaller number does.
\<close>

theorem levenshtein_correct:
  "edits (str_chars a) (levenshtein a b) (str_chars b) \<and>
   levenshtein a b = (LEAST n. edits (str_chars a) n (str_chars b))"
  unfolding levenshtein_dist using edits_dist by (blast intro: Least_equality [symmetric] dist_le)

end
