(* ===== verification/Text.thy ===== *)
theory Text
  imports Utf8
begin

text \<open>
  Operations of the standard library on strings that several components call, and the small
  renderings they share.
\<close>

section \<open>White space\<close>

text \<open>\<open>char::is_whitespace\<close>: the characters with the Unicode property \<open>White_Space\<close>.\<close>

definition is_whitespace :: "rchar \<Rightarrow> bool" where
  "is_whitespace c =
     (9 \<le> c \<and> c \<le> 13 \<or> c = 32 \<or> c = 0x85 \<or> c = 0xA0 \<or> c = 0x1680 \<or> 0x2000 \<le> c \<and> c \<le> 0x200A \<or>
      c = 0x2028 \<or> c = 0x2029 \<or> c = 0x202F \<or> c = 0x205F \<or> c = 0x3000)"

definition trim_end :: "rchar list \<Rightarrow> rchar list" where
  "trim_end cs = rev (dropWhile is_whitespace (rev cs))"

definition blen :: "rchar list \<Rightarrow> nat" where
  "blen cs = length (utf8_encode_all cs)"

lemma blen_simps [simp]:
  "blen [] = 0" "blen (c # cs) = length (utf8_encode c) + blen cs" "blen (cs @ ds) = blen cs + blen ds"
  by (simp_all add: blen_def)

definition trim_start :: "rchar list \<Rightarrow> rchar list" where
  "trim_start cs = dropWhile is_whitespace cs"

definition trim :: "rchar list \<Rightarrow> rchar list" where
  "trim cs = trim_end (trim_start cs)"

lemma blen_dropWhile: "blen (dropWhile P cs) \<le> blen cs"
  by (induction cs) auto

lemma blen_rev: "blen (rev cs) = blen cs"
  by (induction cs) auto

lemma blen_trim: "blen (trim cs) \<le> blen cs"
proof -
  have "blen (trim cs) \<le> blen (rev (trim_start cs))"
    using blen_dropWhile [of is_whitespace "rev (trim_start cs)"]
    by (simp add: trim_def trim_end_def blen_rev)
  also have "\<dots> \<le> blen cs" by (simp add: blen_rev trim_start_def blen_dropWhile)
  finally show ?thesis .
qed

text \<open>\<open>str::trim\<close>.\<close>

definition str_trim :: "string \<Rightarrow> string" where
  "str_trim s = utf8_encode_all (trim (str_chars s))"

lemma length_str_trim: "length (str_trim s) \<le> length s"
  using blen_trim [of "str_chars s"] length_encode_chars [of s] by (simp add: str_trim_def blen_def)

section \<open>Searching and splitting\<close>

fun contains_text :: "string \<Rightarrow> string \<Rightarrow> bool" where
  "contains_text p [] = (p = [])"
| "contains_text p (x # xs) = (starts_with (x # xs) p \<or> contains_text p xs)"

text \<open>The first occurrence of \<open>p\<close>: the text before it and the text after it.\<close>

fun split_text :: "string \<Rightarrow> string \<Rightarrow> (string \<times> string) option" where
  "split_text p [] = (if p = [] then Some ([], []) else None)"
| "split_text p (x # xs) =
     (case strip_prefix p (x # xs) of
        Some rest \<Rightarrow> Some ([], rest)
      | None \<Rightarrow> map_option (\<lambda>(lead, rest). (x # lead, rest)) (split_text p xs))"

lemma split_text_Some: "split_text p s = Some (a, b) \<Longrightarrow> s = a @ p @ b"
  by (induction p s arbitrary: a rule: split_text.induct)
    (auto simp: strip_prefix_Some split: if_splits option.splits)

text \<open>\<open>rsplit("::").next()\<close>\<close>

fun last_segment :: "string \<Rightarrow> string" where
  "last_segment [] = []"
| "last_segment (x # xs) =
     (if contains_text ''::'' xs then last_segment xs
      else case strip_prefix ''::'' (x # xs) of Some rest \<Rightarrow> rest | None \<Rightarrow> x # xs)"

text \<open>\<open>rsplit_once\<close> with one character.\<close>

definition rsplit_once :: "char \<Rightarrow> string \<Rightarrow> (string \<times> string) option" where
  "rsplit_once c s =
     (if c \<in> set s then
        (let after = rev (takeWhile (\<lambda>x. x \<noteq> c) (rev s))
         in Some (take (length s - length after - 1) s, after))
      else None)"

section \<open>Words and letter case\<close>

fun ascii_lower :: "char \<Rightarrow> char" where
  "ascii_lower c = (let n = of_char c :: nat in if 65 \<le> n \<and> n \<le> 90 then char_of (n + 32) else c)"

definition to_ascii_lowercase :: "string \<Rightarrow> string" where
  "to_ascii_lowercase s = map ascii_lower s"

fun words_from :: "rchar list \<Rightarrow> rchar list \<Rightarrow> rchar list list" where
  "words_from word [] = (if word = [] then [] else [word])"
| "words_from word (c # cs) =
     (if is_whitespace c then (if word = [] then [] else [word]) @ words_from [] cs
      else words_from (word @ [c]) cs)"

definition split_whitespace :: "string \<Rightarrow> string list" where
  "split_whitespace s = map utf8_encode_all (words_from [] (str_chars s))"

section \<open>Rendering\<close>

definition spaces :: "nat \<Rightarrow> string" where
  "spaces n = replicate n CHR '' ''"

definition int_str :: "int \<Rightarrow> string" where
  "int_str i = (if i < 0 then ''-'' @ nat_str (nat (- i)) else nat_str (nat i))"

definition in_quotes :: "string \<Rightarrow> string" where
  "in_quotes s = [CHR 0x27] @ s @ [CHR 0x27]"

definition in_backticks :: "string \<Rightarrow> string" where
  "in_backticks s = [CHR 0x60] @ s @ [CHR 0x60]"

end
