(* ===== verification/Effects.thy ===== *)
theory Effects
  imports EditDistance Text Diagnostics Ir
begin

text \<open>
  The declared effects and capabilities of functions: \<open>src/effects.rs\<close>. The two passes of that file
  are the same code with other tables and texts; here the texts are a record and the shared loop is
  one function. A \<open>None\<close> is the panic of \<open>Diagnostic::error\<close> on an unregistered code, which
  \<open>normalize_entries_total\<close> excludes. \<open>derive\<close> is the function of \<open>diagnostic_reasoning.rs\<close> that
  every diagnostic is passed to.
\<close>

section \<open>Tables\<close>

definition KNOWN_EFFECTS :: "string list" where
  "KNOWN_EFFECTS =
     [''io'', ''fs'', ''net'', ''time'', ''rand'', ''env'', ''proc'', ''concurrency'']"

definition KNOWN_CAPABILITIES :: "string list" where
  "KNOWN_CAPABILITIES =
     [''io'', ''fs'', ''net'', ''time'', ''rand'', ''env'', ''proc'', ''concurrency'']"

record declaration_texts =
  dt_known :: "string list"
  dt_unknown_code :: string
  dt_duplicate_code :: string
  dt_noun :: string
  dt_plural :: string

definition effect_texts :: declaration_texts where
  "effect_texts =
     \<lparr>dt_known = KNOWN_EFFECTS, dt_unknown_code = ''E2003'', dt_duplicate_code = ''E2004'',
      dt_noun = ''effect'', dt_plural = ''effects''\<rparr>"

definition capability_texts :: declaration_texts where
  "capability_texts =
     \<lparr>dt_known = KNOWN_CAPABILITIES, dt_unknown_code = ''E2007'', dt_duplicate_code = ''E2008'',
      dt_noun = ''capability'', dt_plural = ''capabilities''\<rparr>"

section \<open>Suggestions\<close>

text \<open>The loop over the candidates keeps the first of the closest ones.\<close>

fun closest_loop :: "string \<Rightarrow> (string \<times> nat) option \<Rightarrow> string list \<Rightarrow> (string \<times> nat) option" where
  "closest_loop name best [] = best"
| "closest_loop name best (candidate # cs) =
     (let distance = levenshtein name candidate in
      if distance > 2 then closest_loop name best cs
      else case best of
        Some (b, best_distance) \<Rightarrow>
          if best_distance \<le> distance then closest_loop name best cs
          else closest_loop name (Some (candidate, distance)) cs
      | None \<Rightarrow> closest_loop name (Some (candidate, distance)) cs)"

definition closest_known_effect :: "string \<Rightarrow> string option" where
  "closest_known_effect name = map_option fst (closest_loop name None KNOWN_EFFECTS)"

definition closest_known_capability :: "string \<Rightarrow> string option" where
  "closest_known_capability name = map_option fst (closest_loop name None KNOWN_CAPABILITIES)"

section \<open>Normalising the declarations of a function\<close>

definition unknown_entry ::
  "derive_reasoning \<Rightarrow> declaration_texts \<Rightarrow> string \<Rightarrow> span \<Rightarrow> string \<Rightarrow> diagnostic option" where
  "unknown_entry derive k diag_file sp e =
     map_option (\<lambda>d.
       (let d' = with_help derive
                   (''known '' @ dt_plural k @ '': '' @ join_with '', '' (dt_known k)) d in
        case map_option fst (closest_loop e None (dt_known k)) of
          Some suggestion \<Rightarrow> with_help derive (''did you mean '' @ in_quotes suggestion @ ''?'') d'
        | None \<Rightarrow> d'))
       (diagnostic_error derive (dt_unknown_code k)
         (''unknown '' @ dt_noun k @ '' '' @ in_quotes e) diag_file sp)"

definition duplicate_entry ::
  "derive_reasoning \<Rightarrow> declaration_texts \<Rightarrow> string \<Rightarrow> span \<Rightarrow> string \<Rightarrow> diagnostic option" where
  "duplicate_entry derive k diag_file sp e =
     diagnostic_error derive (dt_duplicate_code k)
       (''duplicate '' @ dt_noun k @ '' '' @ in_quotes e @ '' in signature'') diag_file sp"

text \<open>The loop over one declaration list, with the set \<open>seen\<close>.\<close>

fun entries_loop ::
  "derive_reasoning \<Rightarrow> declaration_texts \<Rightarrow> string \<Rightarrow> span \<Rightarrow> string list \<Rightarrow> string list \<Rightarrow>
   (string list \<times> diagnostic list) option" where
  "entries_loop derive k diag_file sp seen [] = Some ([], [])"
| "entries_loop derive k diag_file sp seen (e # es) =
     (if e \<notin> set (dt_known k) then
        Option.bind (unknown_entry derive k diag_file sp e) (\<lambda>d.
          map_option (\<lambda>(normalized, ds). (normalized, d # ds))
            (entries_loop derive k diag_file sp seen es))
      else if e \<in> set seen then
        Option.bind (duplicate_entry derive k diag_file sp e) (\<lambda>d.
          map_option (\<lambda>(normalized, ds). (normalized, d # ds))
            (entries_loop derive k diag_file sp seen es))
      else
        map_option (\<lambda>(normalized, ds). (e # normalized, ds))
          (entries_loop derive k diag_file sp (bs_insert e seen) es))"

definition normalize_entries ::
  "derive_reasoning \<Rightarrow> declaration_texts \<Rightarrow> string \<Rightarrow> span \<Rightarrow> string list \<Rightarrow>
   (string list \<times> diagnostic list) option" where
  "normalize_entries derive k diag_file sp es =
     map_option (\<lambda>(normalized, ds). (sort normalized, ds)) (entries_loop derive k diag_file sp [] es)"

section \<open>Normalising a program\<close>

definition declaring_module :: "string list option \<Rightarrow> string list option list option \<Rightarrow> nat \<Rightarrow> string" where
  "declaring_module entry_module item_modules index =
     (case Option.bind item_modules (\<lambda>mods. if index < length mods then mods ! index else None) of
        Some m \<Rightarrow> join_with ''.'' m
      | None \<Rightarrow> (case entry_module of Some m \<Rightarrow> join_with ''.'' m | None \<Rightarrow> ''<root>''))"

definition declaring_file ::
  "string \<Rightarrow> string \<Rightarrow> (string, string) btree_map option \<Rightarrow> string" where
  "declaring_file module_name fallback_file module_files =
     (case Option.bind module_files (\<lambda>files. bt_get files module_name) of
        Some path \<Rightarrow> path | None \<Rightarrow> fallback_file)"

text \<open>
  What both passes do to the items: \<open>get\<close> and \<open>put\<close> are the field of the function that the pass
  normalises. Items other than functions are skipped.
\<close>

definition normalize_item ::
  "(string \<Rightarrow> span \<Rightarrow> string list \<Rightarrow> (string list \<times> diagnostic list) option) \<Rightarrow>
   (ir_function \<Rightarrow> string list) \<Rightarrow> (string list \<Rightarrow> ir_function \<Rightarrow> ir_function) \<Rightarrow>
   string \<Rightarrow> ir_item \<Rightarrow> (ir_item \<times> diagnostic list) option" where
  "normalize_item nf get put diag_file it =
     (case it of
        IFunction f \<Rightarrow>
          map_option (\<lambda>(normalized, ds). (IFunction (put normalized f), ds))
            (nf diag_file (if_span f) (get f))
      | _ \<Rightarrow> Some (it, []))"

definition normalize_items ::
  "(string \<Rightarrow> span \<Rightarrow> string list \<Rightarrow> (string list \<times> diagnostic list) option) \<Rightarrow>
   (ir_function \<Rightarrow> string list) \<Rightarrow> (string list \<Rightarrow> ir_function \<Rightarrow> ir_function) \<Rightarrow>
   ir_program \<Rightarrow> string \<Rightarrow> string list option list option \<Rightarrow> (string, string) btree_map option \<Rightarrow>
   (ir_program \<times> diagnostic list) option" where
  "normalize_items nf get put p diag_file item_modules module_files =
     map_option (\<lambda>rs. (p\<lparr>irp_items := map fst rs\<rparr>, concat (map snd rs)))
       (those (map (\<lambda>(index, it).
          normalize_item nf get put
            (declaring_file (declaring_module (irp_module p) item_modules index) diag_file module_files) it)
          (enumerate 0 (irp_items p))))"

definition normalize_effect_declarations_with_context ::
  "derive_reasoning \<Rightarrow> ir_program \<Rightarrow> string \<Rightarrow> string list option list option \<Rightarrow>
   (string, string) btree_map option \<Rightarrow> (ir_program \<times> diagnostic list) option" where
  "normalize_effect_declarations_with_context derive =
     normalize_items (normalize_entries derive effect_texts)
       if_effects (\<lambda>es f. f\<lparr>if_effects := es\<rparr>)"

definition normalize_capability_declarations_with_context ::
  "derive_reasoning \<Rightarrow> ir_program \<Rightarrow> string \<Rightarrow> string list option list option \<Rightarrow>
   (string, string) btree_map option \<Rightarrow> (ir_program \<times> diagnostic list) option" where
  "normalize_capability_declarations_with_context derive =
     normalize_items (normalize_entries derive capability_texts)
       if_capabilities (\<lambda>es f. f\<lparr>if_capabilities := es\<rparr>)"

definition normalize_effect_declarations ::
  "derive_reasoning \<Rightarrow> ir_program \<Rightarrow> string \<Rightarrow> (ir_program \<times> diagnostic list) option" where
  "normalize_effect_declarations derive p diag_file =
     normalize_effect_declarations_with_context derive p diag_file None None"

definition normalize_capability_declarations ::
  "derive_reasoning \<Rightarrow> ir_program \<Rightarrow> string \<Rightarrow> (ir_program \<times> diagnostic list) option" where
  "normalize_capability_declarations derive p diag_file =
     normalize_capability_declarations_with_context derive p diag_file None None"

text \<open>The checks run the passes on a copy.\<close>

definition check_effect_declarations :: "derive_reasoning \<Rightarrow> ir_program \<Rightarrow> string \<Rightarrow> diagnostic list option" where
  "check_effect_declarations derive p diag_file =
     map_option snd (normalize_effect_declarations derive p diag_file)"

definition check_capability_declarations :: "derive_reasoning \<Rightarrow> ir_program \<Rightarrow> string \<Rightarrow> diagnostic list option" where
  "check_capability_declarations derive p diag_file =
     map_option snd (normalize_capability_declarations derive p diag_file)"

section \<open>What the suggestion is\<close>

lemma closest_loop_inv:
  assumes "closest_loop name best cs = Some (c, d)"
    and "\<And>b e. best = Some (b, e) \<Longrightarrow> e = levenshtein name b \<and> e \<le> 2 \<and> b \<in> B"
  shows "d = levenshtein name c \<and> d \<le> 2 \<and> c \<in> B \<union> set cs \<and>
    (\<forall>x \<in> set cs. d \<le> levenshtein name x) \<and> (\<forall>b e. best = Some (b, e) \<longrightarrow> d \<le> e)"
  using assms
proof (induction cs arbitrary: best B)
  case Nil
  then show ?case by auto
next
  case (Cons x cs)
  show ?case
  proof (cases "levenshtein name x > 2 \<or> (\<exists>b e. best = Some (b, e) \<and> e \<le> levenshtein name x)")
    case True
    then have "closest_loop name best cs = Some (c, d)"
      using Cons.prems(1) by (auto simp: Let_def split: if_splits option.splits)
    from Cons.IH [OF this Cons.prems(2)] True show ?thesis by force
  next
    case False
    then have "closest_loop name (Some (x, levenshtein name x)) cs = Some (c, d)"
      using Cons.prems(1) by (auto simp: Let_def split: if_splits option.splits)
    from Cons.IH [OF this, of "insert x B"] False show ?thesis by force
  qed
qed

lemma closest_loop_None:
  "closest_loop name None cs = None \<longleftrightarrow> (\<forall>x \<in> set cs. 2 < levenshtein name x)"
proof -
  have some: "closest_loop name (Some y) cs \<noteq> None" for y cs
    by (induction cs arbitrary: y) (auto simp: Let_def)
  show ?thesis
    by (induction cs) (use some in \<open>auto simp: Let_def not_le\<close>)
qed

lemma closest_known_effect_nearest:
  "closest_known_effect name = Some c \<Longrightarrow>
     c \<in> set KNOWN_EFFECTS \<and> levenshtein name c \<le> 2 \<and>
     (\<forall>c' \<in> set KNOWN_EFFECTS. levenshtein name c \<le> levenshtein name c')"
  using closest_loop_inv [of name None KNOWN_EFFECTS c _ "{}"] by (fastforce simp: closest_known_effect_def)

section \<open>The normal form\<close>

lemma registered_codes [simp]:
  "assert_registered ''E2003'' = Some ()" "assert_registered ''E2004'' = Some ()"
  "assert_registered ''E2007'' = Some ()" "assert_registered ''E2008'' = Some ()"
  by code_simp+

definition known_texts :: "declaration_texts \<Rightarrow> bool" where
  "known_texts k \<longleftrightarrow> k = effect_texts \<or> k = capability_texts"

lemma entry_diagnostics:
  assumes "known_texts k"
  shows "unknown_entry derive k diag_file sp e \<noteq> None" "duplicate_entry derive k diag_file sp e \<noteq> None"
  using assms
  by (auto simp: known_texts_def unknown_entry_def duplicate_entry_def diagnostic_error_def
      effect_texts_def capability_texts_def)

text \<open>The entries that are kept: the first occurrences of the known names that are not in \<open>seen\<close>.\<close>

fun kept :: "declaration_texts \<Rightarrow> string list \<Rightarrow> string list \<Rightarrow> string list" where
  "kept k seen [] = []"
| "kept k seen (e # es) =
     (if e \<notin> set (dt_known k) \<or> e \<in> set seen then kept k seen es
      else e # kept k (bs_insert e seen) es)"

lemma entries_loop_kept:
  assumes "known_texts k"
  shows "\<exists>ds. entries_loop derive k diag_file sp seen es = Some (kept k seen es, ds) \<and>
    length ds + length (kept k seen es) = length es"
proof (induction es arbitrary: seen)
  case (Cons e es)
  obtain d d' where e: "unknown_entry derive k diag_file sp e = Some d"
      "duplicate_entry derive k diag_file sp e = Some d'"
    using entry_diagnostics [OF assms] by (metis option.exhaust)
  show ?case
  proof (cases "e \<notin> set (dt_known k) \<or> e \<in> set seen")
    case True
    with Cons.IH [of seen] e show ?thesis by auto
  next
    case False
    with Cons.IH [of "bs_insert e seen"] show ?thesis by auto
  qed
qed simp

lemma kept_set: "set (kept k seen es) = set es \<inter> set (dt_known k) - set seen"
  by (induction k seen es rule: kept.induct) auto

lemma kept_distinct: "distinct (kept k seen es)"
  by (induction k seen es rule: kept.induct) (auto simp: kept_set)

lemma normalize_entries_total:
  assumes "known_texts k"
  shows "\<exists>ds. normalize_entries derive k diag_file sp es = Some (sort (kept k [] es), ds) \<and>
    length ds + length (kept k [] es) = length es"
  using entries_loop_kept [OF assms, of derive diag_file sp "[]" es] by (auto simp: normalize_entries_def)

text \<open>A list is normal if it is strictly ascending and all its entries are known.\<close>

definition normal_entries :: "declaration_texts \<Rightarrow> string list \<Rightarrow> bool" where
  "normal_entries k es \<longleftrightarrow> sorted es \<and> distinct es \<and> set es \<subseteq> set (dt_known k)"

lemma kept_normal: "normal_entries k (sort (kept k [] es))"
  using kept_set [of k "[]" es] by (auto simp: normal_entries_def kept_distinct)

lemma kept_id:
  "distinct es \<Longrightarrow> set es \<subseteq> set (dt_known k) \<Longrightarrow> set es \<inter> set seen = {} \<Longrightarrow> kept k seen es = es"
  by (induction es arbitrary: seen) auto

lemma normalize_normal:
  assumes "known_texts k" "normal_entries k es"
  shows "normalize_entries derive k diag_file sp es = Some (es, [])"
proof -
  from assms(2) have "kept k [] es = es"
    by (intro kept_id) (auto simp: normal_entries_def)
  with normalize_entries_total [OF assms(1), of derive diag_file sp es] assms(2)
  show ?thesis by (auto simp: normal_entries_def sorted_sort_id)
qed

lemma kept_sorted: "sort (kept k [] es) = sorted_list_of_set (set es \<inter> set (dt_known k))"
  using kept_set [of k "[]" es] kept_distinct [of k "[]" es]
  by (metis Diff_empty empty_set sorted_list_of_set_sort_remdups distinct_remdups_id)

text \<open>
  The reference: the declared names become the ascending list of those that are known. \<open>get\<close> and
  \<open>put\<close> are the accessors of the field.
\<close>

definition normal_item ::
  "declaration_texts \<Rightarrow> (ir_function \<Rightarrow> string list) \<Rightarrow>
   (string list \<Rightarrow> ir_function \<Rightarrow> ir_function) \<Rightarrow> ir_item \<Rightarrow> ir_item" where
  "normal_item k get put it =
     (case it of
        IFunction f \<Rightarrow> IFunction (put (sorted_list_of_set (set (get f) \<inter> set (dt_known k))) f)
      | _ \<Rightarrow> it)"

definition normal_program ::
  "declaration_texts \<Rightarrow> (ir_function \<Rightarrow> string list) \<Rightarrow>
   (string list \<Rightarrow> ir_function \<Rightarrow> ir_function) \<Rightarrow> ir_program \<Rightarrow> ir_program" where
  "normal_program k get put p = p\<lparr>irp_items := map (normal_item k get put) (irp_items p)\<rparr>"

definition declared :: "(ir_function \<Rightarrow> string list) \<Rightarrow> ir_item list \<Rightarrow> string list" where
  "declared get its = concat (map (\<lambda>it. case it of IFunction f \<Rightarrow> get f | _ \<Rightarrow> []) its)"

lemma declared_simps [simp]:
  "declared get [] = []"
  "declared get (it # its) = (case it of IFunction f \<Rightarrow> get f | _ \<Rightarrow> []) @ declared get its"
  by (simp_all add: declared_def)

lemma those_map_Some: "(\<And>x. x \<in> set xs \<Longrightarrow> f x = Some (g x)) \<Longrightarrow> those (map f xs) = Some (map g xs)"
  by (induction xs) auto

lemma enumerate_map_snd: "map (\<lambda>(i, x). h x) (enumerate n xs) = map h xs"
  by (induction xs arbitrary: n) auto

text \<open>A field of functions: what both passes rely on.\<close>

locale function_field =
  fixes get :: "ir_function \<Rightarrow> string list"
    and put :: "string list \<Rightarrow> ir_function \<Rightarrow> ir_function"
  assumes get_put: "get (put es f) = es"
    and put_get: "put (get f) f = f"
    and put_put: "put es (put es' f) = put es f"
    and span_put: "if_span (put es f) = if_span f"
begin

lemma normalize_item_normal:
  assumes "known_texts k"
  shows "\<exists>ds. normalize_item (normalize_entries derive k) get put diag_file it =
      Some (normal_item k get put it, ds) \<and>
    length ds + length (declared get [normal_item k get put it]) = length (declared get [it])"
proof (cases it)
  case (IFunction f)
  with normalize_entries_total [OF assms, of derive diag_file "if_span f" "get f"] show ?thesis
    by (auto simp: normalize_item_def normal_item_def kept_sorted [symmetric] get_put)
qed (auto simp: normalize_item_def normal_item_def)

lemma normalize_item_again:
  assumes "known_texts k"
  shows "normalize_item (normalize_entries derive k) get put diag_file (normal_item k get put it) =
    Some (normal_item k get put it, [])"
proof (cases it)
  case (IFunction f)
  have "normal_entries k (sorted_list_of_set (set (get f) \<inter> set (dt_known k)))"
    using kept_normal [of k "get f"] by (simp add: kept_sorted)
  from normalize_normal [OF assms this] IFunction show ?thesis
    by (simp add: normalize_item_def normal_item_def get_put put_put)
qed (simp_all add: normalize_item_def normal_item_def)

lemma normalize_all:
  assumes "known_texts k"
  shows "\<exists>rs. those (map (\<lambda>(i, it). normalize_item (normalize_entries derive k) get put (g i) it)
        (enumerate n its)) = Some rs \<and> map fst rs = map (normal_item k get put) its \<and>
      length (concat (map snd rs)) + length (declared get (map (normal_item k get put) its)) =
        length (declared get its)"
proof (induction its arbitrary: n)
  case (Cons it its)
  from Cons.IH [of "Suc n"] normalize_item_normal [OF assms, of derive "g n" it] show ?case by force
qed simp

lemma normalize_all_again:
  assumes "known_texts k"
  shows "\<exists>rs. those (map (\<lambda>(i, it). normalize_item (normalize_entries derive k) get put (g i) it)
        (enumerate n (map (normal_item k get put) its))) = Some rs \<and>
      map fst rs = map (normal_item k get put) its \<and> concat (map snd rs) = []"
proof (induction its arbitrary: n)
  case (Cons it its)
  from Cons.IH [of "Suc n"] normalize_item_again [OF assms, of derive "g n" it] show ?case by force
qed simp

lemma normalize_items_normal:
  assumes "known_texts k" and q_def: "q = normal_program k get put p"
  shows "\<exists>ds. normalize_items (normalize_entries derive k) get put p diag_file ims mfs = Some (q, ds) \<and>
      length ds + length (declared get (irp_items q)) = length (declared get (irp_items p))"
    and "normalize_items (normalize_entries derive k) get put q diag_file ims mfs = Some (q, [])"
proof -
  let ?g = "\<lambda>i. declaring_file (declaring_module (irp_module p) ims i) diag_file mfs"
  obtain rs where rs: "those (map (\<lambda>(i, it). normalize_item (normalize_entries derive k) get put (?g i) it)
        (enumerate 0 (irp_items p))) = Some rs" "map fst rs = map (normal_item k get put) (irp_items p)"
      "length (concat (map snd rs)) + length (declared get (map (normal_item k get put) (irp_items p))) =
        length (declared get (irp_items p))"
    using normalize_all [OF assms(1), of derive ?g 0 "irp_items p"] by blast
  then show "\<exists>ds. normalize_items (normalize_entries derive k) get put p diag_file ims mfs = Some (q, ds) \<and>
      length ds + length (declared get (irp_items q)) = length (declared get (irp_items p))"
    by (simp add: normalize_items_def q_def normal_program_def)
  obtain rs' where "those (map (\<lambda>(i, it). normalize_item (normalize_entries derive k) get put (?g i) it)
        (enumerate 0 (irp_items q))) = Some rs'" "map fst rs' = irp_items q" "concat (map snd rs') = []"
    using normalize_all_again [OF assms(1), of derive ?g 0 "irp_items p"]
    by (auto simp: q_def normal_program_def)
  then show "normalize_items (normalize_entries derive k) get put q diag_file ims mfs = Some (q, [])"
    by (simp add: normalize_items_def) (simp add: q_def normal_program_def)
qed

end

interpretation effects_field: function_field if_effects "\<lambda>es f. f\<lparr>if_effects := es\<rparr>"
  by unfold_locales auto

interpretation capabilities_field: function_field if_capabilities "\<lambda>es f. f\<lparr>if_capabilities := es\<rparr>"
  by unfold_locales auto

lemma known_texts [simp]: "known_texts effect_texts" "known_texts capability_texts"
  by (simp_all add: known_texts_def)


end
