(* ===== verification/Lexer.thy ===== *)
theory Lexer
  imports Text Diagnostics
begin

text \<open>
  The lexer: \<open>src/lexer.rs\<close>. The Rust state is the source text with a byte offset; here the text
  is its list of characters, split at the offset into \<open>lx_done\<close> and \<open>lx_rest\<close>, so that the offset
  is the number of bytes of \<open>lx_done\<close>. Errors are kept as the arguments of the
  \<open>Diagnostic::error\<close> call that the code makes for each of them. The conversion of a float
  literal's text to an \<open>f64\<close> belongs to the Rust standard library and is the parameter \<open>parse_f64\<close>.
\<close>

section \<open>Tokens\<close>

datatype int_suffix_token =
  LexI8 | LexI16 | LexI32 | LexI64 | LexI128 | LexU8 | LexU16 | LexU32 | LexU64 | LexU128

datatype float_suffix_token = LexF32 | LexF64

definition int_suffix_table :: "(string \<times> int_suffix_token) list" where
  "int_suffix_table =
     [(''i8'', LexI8), (''i16'', LexI16), (''i32'', LexI32), (''i64'', LexI64), (''i128'', LexI128),
      (''u8'', LexU8), (''u16'', LexU16), (''u32'', LexU32), (''u64'', LexU64), (''u128'', LexU128)]"

definition int_suffix_parse :: "string \<Rightarrow> int_suffix_token option" where
  "int_suffix_parse s = map_of int_suffix_table s"

definition int_allowed_suffixes :: string where
  "int_allowed_suffixes = ''i8, i16, i32, i64, i128, u8, u16, u32, u64, u128''"

definition float_suffix_table :: "(string \<times> float_suffix_token) list" where
  "float_suffix_table = [(''f32'', LexF32), (''f64'', LexF64)]"

definition float_suffix_parse :: "string \<Rightarrow> float_suffix_token option" where
  "float_suffix_parse s = map_of float_suffix_table s"

definition float_allowed_suffixes :: string where
  "float_allowed_suffixes = ''f32, f64''"

record int_literal_token =
  ilt_value :: i64
  ilt_raw_value_span :: span
  ilt_raw_text :: string
  ilt_suffix :: "int_suffix_token option"

record float_literal_token =
  flt_value :: f64
  flt_raw_value_span :: span
  flt_raw_text :: string
  flt_suffix :: "float_suffix_token option"

text \<open>The constructors of \<open>TokenKind\<close> without a payload are grouped into keywords and punctuation.\<close>

datatype keyword =
    KwModule | KwImport | KwAsync | KwExtern | KwIntrinsic | KwUnsafe | KwPub | KwPriv | KwCrate
  | KwFn | KwType | KwConst | KwStruct | KwEnum | KwTrait | KwImpl | KwDyn | KwLet | KwMut
  | KwReturn | KwIf | KwElse | KwMatch | KwFor | KwIn | KwWhile | KwLoop | KwBreak | KwContinue
  | KwTrue | KwFalse | KwRequires | KwEnsures | KwWhere | KwInvariant | KwEffects
  | KwCapabilities | KwNull | KwAwait

datatype punct =
    PtLParen | PtRParen | PtLBrace | PtRBrace | PtLBracket | PtRBracket | PtComma | PtColon
  | PtSemi | PtDot | PtDotDot | PtArrow | PtFatArrow | PtColonColon
  | PtPlus | PtMinus | PtStar | PtSlash | PtPercent | PtCaret | PtTilde | PtEq | PtEqEq | PtAmpEq
  | PtPipeEq | PtCaretEq | PtLShift | PtRShift | PtURShift | PtLShiftEq | PtRShiftEq | PtURShiftEq
  | PtNe | PtLt | PtLe | PtGt | PtGe | PtAndAnd | PtAmpersand | PtPipe | PtOrOr | PtBang | PtHash
  | PtQuestion | PtUnderscore

datatype token_kind =
    TkIdent string
  | TkInt int_literal_token
  | TkFloat float_literal_token
  | TkString string
  | TkTemplate string
  | TkChar rchar
  | TkKeyword keyword
  | TkPunct punct
  | TkEof

record token =
  tok_kind :: token_kind
  tok_span :: span

record line_comment =
  com_text :: string
  com_span :: span

text \<open>The arguments of a \<open>Diagnostic::error\<close> call and of the \<open>with_help\<close> that may follow it.\<close>

record lex_error =
  le_code :: string
  le_message :: string
  le_span :: span
  le_help :: "string option"

definition keyword_table :: "(string \<times> keyword) list" where
  "keyword_table =
     [(''module'', KwModule), (''import'', KwImport), (''async'', KwAsync), (''extern'', KwExtern),
      (''intrinsic'', KwIntrinsic), (''unsafe'', KwUnsafe), (''pub'', KwPub), (''priv'', KwPriv),
      (''crate'', KwCrate), (''fn'', KwFn), (''type'', KwType), (''const'', KwConst),
      (''struct'', KwStruct), (''enum'', KwEnum), (''trait'', KwTrait), (''impl'', KwImpl),
      (''dyn'', KwDyn), (''let'', KwLet), (''mut'', KwMut), (''return'', KwReturn), (''if'', KwIf),
      (''else'', KwElse), (''match'', KwMatch), (''for'', KwFor), (''in'', KwIn),
      (''while'', KwWhile), (''loop'', KwLoop), (''break'', KwBreak), (''continue'', KwContinue),
      (''true'', KwTrue), (''false'', KwFalse), (''requires'', KwRequires),
      (''ensures'', KwEnsures), (''where'', KwWhere), (''invariant'', KwInvariant),
      (''effects'', KwEffects), (''capabilities'', KwCapabilities), (''null'', KwNull),
      (''await'', KwAwait)]"

section \<open>Characters\<close>

abbreviation ch :: "char \<Rightarrow> rchar" where
  "ch c \<equiv> of_char c"

definition newline_char :: rchar where
  "newline_char = 10"

definition is_ascii_digit_char :: "rchar \<Rightarrow> bool" where
  "is_ascii_digit_char c = (48 \<le> c \<and> c \<le> 57)"

definition is_ascii_alphabetic :: "rchar \<Rightarrow> bool" where
  "is_ascii_alphabetic c = (97 \<le> c \<and> c \<le> 122 \<or> 65 \<le> c \<and> c \<le> 90)"

definition is_ascii_alphanumeric :: "rchar \<Rightarrow> bool" where
  "is_ascii_alphanumeric c = (is_ascii_alphabetic c \<or> is_ascii_digit_char c)"

definition is_ascii_hexdigit :: "rchar \<Rightarrow> bool" where
  "is_ascii_hexdigit c = (is_ascii_digit_char c \<or> 97 \<le> c \<and> c \<le> 102 \<or> 65 \<le> c \<and> c \<le> 70)"

definition is_ident_start :: "rchar \<Rightarrow> bool" where
  "is_ident_start c = (is_ascii_alphabetic c \<or> c = 95)"

definition is_ident_char :: "rchar \<Rightarrow> bool" where
  "is_ident_char c = (is_ascii_alphanumeric c \<or> c = 95)"

definition digit_value :: "rchar \<Rightarrow> nat" where
  "digit_value c = (if is_ascii_digit_char c then c - 48 else if 97 \<le> c then c - 87 else c - 55)"

definition radix_value :: "nat \<Rightarrow> rchar list \<Rightarrow> nat" where
  "radix_value radix cs = foldl (\<lambda>acc c. acc * radix + digit_value c) 0 cs"

text \<open>\<open>u128::from_str_radix\<close> on a non-empty string of digits of the radix.\<close>

definition parse_u128 :: "nat \<Rightarrow> rchar list \<Rightarrow> nat option" where
  "parse_u128 radix cs = (if radix_value radix cs < 2 ^ 128 then Some (radix_value radix cs) else None)"

section \<open>The state\<close>

record lexer =
  lx_done :: "rchar list"
  lx_rest :: "rchar list"
  lx_tokens :: "token list"
  lx_comments :: "line_comment list"
  lx_errors :: "lex_error list"

definition lx_offset :: "lexer \<Rightarrow> nat" where
  "lx_offset st = blen (lx_done st)"

text \<open>\<open>source[start..offset]\<close>\<close>

fun drop_bytes :: "nat \<Rightarrow> rchar list \<Rightarrow> rchar list" where
  "drop_bytes n [] = []"
| "drop_bytes n (c # cs) = (if n = 0 then c # cs else drop_bytes (n - length (utf8_encode c)) cs)"

definition slice_from :: "nat \<Rightarrow> lexer \<Rightarrow> rchar list" where
  "slice_from start st = drop_bytes start (lx_done st)"

definition peek :: "lexer \<Rightarrow> rchar option" where
  "peek st = (case lx_rest st of [] \<Rightarrow> None | c # _ \<Rightarrow> Some c)"

definition peek_nth :: "nat \<Rightarrow> lexer \<Rightarrow> rchar option" where
  "peek_nth n st = (case drop n (lx_rest st) of [] \<Rightarrow> None | c # _ \<Rightarrow> Some c)"

definition peek_next :: "lexer \<Rightarrow> rchar option" where
  "peek_next st = (case lx_rest st of _ # c # _ \<Rightarrow> Some c | _ \<Rightarrow> None)"

definition bump :: "lexer \<Rightarrow> lexer" where
  "bump st =
     (case lx_rest st of [] \<Rightarrow> st | c # cs \<Rightarrow> st\<lparr>lx_done := lx_done st @ [c], lx_rest := cs\<rparr>)"

text \<open>\<open>while let Some(c) = self.peek() { if P(c) { self.bump() } else { break } }\<close>\<close>

definition bump_while :: "(rchar \<Rightarrow> bool) \<Rightarrow> lexer \<Rightarrow> lexer" where
  "bump_while P st =
     st\<lparr>lx_done := lx_done st @ takeWhile P (lx_rest st), lx_rest := dropWhile P (lx_rest st)\<rparr>"

definition push_token :: "token_kind \<Rightarrow> span \<Rightarrow> lexer \<Rightarrow> lexer" where
  "push_token k sp st = st\<lparr>lx_tokens := lx_tokens st @ [\<lparr>tok_kind = k, tok_span = sp\<rparr>]\<rparr>"

definition push_error :: "string \<Rightarrow> string \<Rightarrow> span \<Rightarrow> lexer \<Rightarrow> lexer" where
  "push_error code message sp st =
     st\<lparr>lx_errors := lx_errors st @
        [\<lparr>le_code = code, le_message = message, le_span = sp, le_help = None\<rparr>]\<rparr>"

definition push_error_help :: "string \<Rightarrow> string \<Rightarrow> span \<Rightarrow> string \<Rightarrow> lexer \<Rightarrow> lexer" where
  "push_error_help code message sp hint st =
     st\<lparr>lx_errors := lx_errors st @
        [\<lparr>le_code = code, le_message = message, le_span = sp, le_help = Some hint\<rparr>]\<rparr>"

definition quote_str :: "string \<Rightarrow> string" where
  "quote_str s = [CHR 0x27] @ s @ [CHR 0x27]"

section \<open>Identifiers and comments\<close>

definition lex_ident_rest :: "nat \<Rightarrow> lexer \<Rightarrow> lexer" where
  "lex_ident_rest start st =
     (let st' = bump_while is_ident_char st;
          name = utf8_encode_all (slice_from start st');
          kind = (case map_of keyword_table name of Some k \<Rightarrow> TkKeyword k | None \<Rightarrow> TkIdent name)
      in push_token kind (span_new start (lx_offset st')) st')"

definition lex_ident_or_keyword :: "lexer \<Rightarrow> lexer" where
  "lex_ident_or_keyword st = lex_ident_rest (lx_offset st) (bump st)"

definition lex_underscore :: "lexer \<Rightarrow> lexer" where
  "lex_underscore st =
     (let start = lx_offset st; st' = bump st in
      case peek st' of
        Some c \<Rightarrow>
          if is_ascii_alphanumeric c then lex_ident_rest start st'
          else push_token (TkPunct PtUnderscore) (span_new start (start + 1)) st'
      | None \<Rightarrow> push_token (TkPunct PtUnderscore) (span_new start (start + 1)) st')"

definition lex_comment :: "lexer \<Rightarrow> lexer" where
  "lex_comment st =
     (let start = lx_offset st;
          st' = bump_while (\<lambda>c. c \<noteq> newline_char) (bump (bump st));
          cs = trim_end (slice_from start st')
      in st'\<lparr>lx_comments := lx_comments st' @
           [\<lparr>com_text = utf8_encode_all cs, com_span = span_new start (start + blen cs)\<rparr>]\<rparr>)"

section \<open>Punctuation\<close>

text \<open>
  An arm of \<open>run\<close> for an operator: after the first character the nested \<open>if self.peek() ==\<close> of
  the code choose between longer operators; the tree has their shape.
\<close>

datatype op_tree = OpNode punct "(rchar \<times> op_tree) list"

fun op_walk :: "op_tree \<Rightarrow> lexer \<Rightarrow> punct \<times> lexer"
  and op_alts :: "punct \<Rightarrow> (rchar \<times> op_tree) list \<Rightarrow> lexer \<Rightarrow> punct \<times> lexer" where
  "op_walk (OpNode k alts) st = op_alts k alts st"
| "op_alts k [] st = (k, st)"
| "op_alts k ((c, t) # alts) st =
     (if peek st = Some c then op_walk t (bump st) else op_alts k alts st)"

definition lex_op :: "op_tree \<Rightarrow> lexer \<Rightarrow> lexer" where
  "lex_op t st =
     (let start = lx_offset st; (k, st') = op_walk t (bump st)
      in push_token (TkPunct k) (span_new start (lx_offset st')) st')"

abbreviation single :: "punct \<Rightarrow> op_tree" where
  "single k \<equiv> OpNode k []"

definition op_table :: "(rchar \<times> op_tree) list" where
  "op_table =
     [(ch CHR ''('', single PtLParen), (ch CHR '')'', single PtRParen),
      (ch CHR ''{'', single PtLBrace), (ch CHR ''}'', single PtRBrace),
      (ch CHR ''['', single PtLBracket), (ch CHR '']'', single PtRBracket),
      (ch CHR '','', single PtComma), (ch CHR '';'', single PtSemi),
      (ch CHR ''.'', OpNode PtDot [(ch CHR ''.'', single PtDotDot)]),
      (ch CHR ''+'', single PtPlus), (ch CHR ''*'', single PtStar),
      (ch CHR ''%'', single PtPercent), (ch CHR ''~'', single PtTilde),
      (ch CHR '':'', OpNode PtColon [(ch CHR '':'', single PtColonColon)]),
      (ch CHR ''-'', OpNode PtMinus [(ch CHR ''>'', single PtArrow)]),
      (ch CHR ''='', OpNode PtEq [(ch CHR ''='', single PtEqEq), (ch CHR ''>'', single PtFatArrow)]),
      (ch CHR ''!'', OpNode PtBang [(ch CHR ''='', single PtNe)]),
      (ch CHR ''#'', single PtHash), (ch CHR ''?'', single PtQuestion),
      (ch CHR ''<'', OpNode PtLt
         [(ch CHR ''<'', OpNode PtLShift [(ch CHR ''='', single PtLShiftEq)]),
          (ch CHR ''='', single PtLe)]),
      (ch CHR ''>'', OpNode PtGt
         [(ch CHR ''>'', OpNode PtRShift
             [(ch CHR ''>'', OpNode PtURShift [(ch CHR ''='', single PtURShiftEq)]),
              (ch CHR ''='', single PtRShiftEq)]),
          (ch CHR ''='', single PtGe)]),
      (ch CHR ''&'', OpNode PtAmpersand
         [(ch CHR ''&'', single PtAndAnd), (ch CHR ''='', single PtAmpEq)]),
      (ch CHR ''|'', OpNode PtPipe [(ch CHR ''|'', single PtOrOr), (ch CHR ''='', single PtPipeEq)]),
      (ch CHR ''^'', OpNode PtCaret [(ch CHR ''='', single PtCaretEq)]),
      (ch CHR ''/'', single PtSlash)]"

section \<open>Numbers\<close>

definition lex_integer_suffix :: "lexer \<Rightarrow> (int_suffix_token option \<times> bool) \<times> lexer" where
  "lex_integer_suffix st =
     (case peek st of
        None \<Rightarrow> ((None, False), st)
      | Some first \<Rightarrow>
          if \<not> is_ident_start first then ((None, False), st)
          else
            (let suffix_start = lx_offset st;
                 st' = bump_while is_ident_char (bump st);
                 suffix_text = utf8_encode_all (slice_from suffix_start st');
                 suffix = int_suffix_parse suffix_text
             in ((suffix, True),
                 if suffix = None then
                   push_error_help ''E0009'' (''invalid integer literal suffix '' @ quote_str suffix_text)
                     (span_new suffix_start (lx_offset st'))
                     (''use one of: '' @ int_allowed_suffixes) st'
                 else st')))"

definition lex_float_suffix :: "lexer \<Rightarrow> (float_suffix_token option \<times> bool) \<times> lexer" where
  "lex_float_suffix st =
     (case peek st of
        None \<Rightarrow> ((None, False), st)
      | Some first \<Rightarrow>
          if \<not> is_ident_start first then ((None, False), st)
          else
            (let suffix_start = lx_offset st;
                 st' = bump_while is_ident_char (bump st);
                 suffix_text = utf8_encode_all (slice_from suffix_start st');
                 suffix = float_suffix_parse suffix_text
             in ((suffix, True),
                 if suffix = None then
                   push_error_help ''E0010'' (''invalid float literal suffix '' @ quote_str suffix_text)
                     (span_new suffix_start (lx_offset st'))
                     (''use one of: '' @ float_allowed_suffixes) st'
                 else st')))"

text \<open>
  What decimal and hexadecimal integers do after their digits: \<open>shown\<close> is the literal in messages,
  \<open>raw\<close> the text from \<open>start\<close> to \<open>raw_end\<close>, \<open>value\<close> the result of the conversion to \<open>u128\<close>.
\<close>

definition finish_int ::
  "nat \<Rightarrow> nat \<Rightarrow> string \<Rightarrow> string \<Rightarrow> nat option \<Rightarrow> lexer \<Rightarrow> lexer" where
  "finish_int start raw_end shown raw value st =
     (let ((suffix, consumed_suffix), st') = lex_integer_suffix st;
          invalid = push_error ''E0004'' (''invalid integer literal '' @ quote_str shown)
            (span_new start raw_end) st'
      in case value of
           None \<Rightarrow> invalid
         | Some raw_value \<Rightarrow>
             if raw_value > 2 ^ 63 - 1 \<and> suffix \<notin> {Some LexI128, Some LexU128} then invalid
             else
               (let tok = \<lparr>ilt_value = of_nat raw_value, ilt_raw_value_span = span_new start raw_end,
                      ilt_raw_text = raw, ilt_suffix = suffix\<rparr>;
                    end_off = (if suffix \<noteq> None then lx_offset st' else raw_end)
                in if consumed_suffix \<and> suffix = None
                   then push_token (TkInt tok) (span_new start raw_end) st'
                   else push_token (TkInt tok) (span_new start end_off) st'))"

definition lex_hex_number :: "lexer \<Rightarrow> lexer" where
  "lex_hex_number st =
     (let start = lx_offset st;
          st1 = bump (bump st);
          digits_start = lx_offset st1;
          st2 = bump_while is_ascii_hexdigit st1
      in if digits_start = lx_offset st2
         then push_error ''E0004'' ''invalid hex integer literal'' (span_new start (lx_offset st2)) st2
         else
           (let digits = slice_from digits_start st2
            in finish_int start (lx_offset st2) (''0x'' @ utf8_encode_all digits)
                 (utf8_encode_all (slice_from start st2)) (parse_u128 16 digits) st2))"

text \<open>The optional fraction and exponent; the flag tells whether one was read.\<close>

definition lex_fraction :: "lexer \<Rightarrow> bool \<times> lexer" where
  "lex_fraction st =
     (if peek st = Some (ch CHR ''.'') \<and>
         (case peek_next st of Some c \<Rightarrow> is_ascii_digit_char c | None \<Rightarrow> False)
      then (True, bump_while is_ascii_digit_char (bump st))
      else (False, st))"

definition lex_exponent :: "lexer \<Rightarrow> bool \<times> lexer" where
  "lex_exponent st =
     (if peek st \<in> {Some (ch CHR ''e''), Some (ch CHR ''E'')} then
        (let sign = peek_nth 1 st;
             exp_digit = (if sign \<in> {Some (ch CHR ''+''), Some (ch CHR ''-'')} then peek_nth 2 st else sign)
         in if (case exp_digit of Some c \<Rightarrow> is_ascii_digit_char c | None \<Rightarrow> False)
            then
              (let st1 = bump st;
                   st2 = (if peek st1 \<in> {Some (ch CHR ''+''), Some (ch CHR ''-'')} then bump st1 else st1)
               in (True, bump_while is_ascii_digit_char st2))
            else (False, st))
      else (False, st))"

definition finish_float ::
  "(string \<Rightarrow> f64 option) \<Rightarrow> nat \<Rightarrow> nat \<Rightarrow> string \<Rightarrow> lexer \<Rightarrow> lexer" where
  "finish_float parse_f64 start raw_end raw st =
     (let ((suffix, consumed_suffix), st') = lex_float_suffix st
      in case parse_f64 raw of
           None \<Rightarrow> push_error ''E0007'' (''invalid float literal '' @ quote_str raw)
             (span_new start raw_end) st'
         | Some value \<Rightarrow>
             (let tok = \<lparr>flt_value = value, flt_raw_value_span = span_new start raw_end,
                    flt_raw_text = raw, flt_suffix = suffix\<rparr>;
                  end_off = (if suffix \<noteq> None then lx_offset st' else raw_end)
              in if consumed_suffix \<and> suffix = None
                 then push_token (TkFloat tok) (span_new start raw_end) st'
                 else push_token (TkFloat tok) (span_new start end_off) st'))"

definition lex_number :: "(string \<Rightarrow> f64 option) \<Rightarrow> lexer \<Rightarrow> lexer" where
  "lex_number parse_f64 st =
     (if peek st = Some (ch CHR ''0'') \<and> peek_next st \<in> {Some (ch CHR ''x''), Some (ch CHR ''X'')}
      then lex_hex_number st
      else
        (let start = lx_offset st;
             (frac, st1) = lex_fraction (bump_while is_ascii_digit_char st);
             (expo, st2) = lex_exponent st1;
             raw_end = lx_offset st2;
             digits = slice_from start st2;
             raw = utf8_encode_all digits
         in if frac \<or> expo then finish_float parse_f64 start raw_end raw st2
            else finish_int start raw_end raw raw (parse_u128 10 digits) st2))"

section \<open>Escapes, strings and characters\<close>

definition error_span :: "nat \<Rightarrow> lexer \<Rightarrow> span" where
  "error_span start st = span_new start (lx_offset st)"

definition lex_unicode_escape :: "lexer \<Rightarrow> rchar option \<times> lexer" where
  "lex_unicode_escape st =
     (let escape_start = lx_offset st - 1;
          fail = (\<lambda>message st. (None, push_error ''E0005'' message (error_span escape_start st) st));
          st1 = bump st
      in if peek st1 \<noteq> Some (ch CHR ''{'')
         then fail (''invalid Unicode escape, expected `'' @ [CHR 0x5C] @ ''u{...}`'') st1
         else
           (let st2 = bump st1;
                digits_start = lx_offset st2;
                st3 = bump_while is_ascii_hexdigit st2;
                digits_end = lx_offset st3;
                digits = slice_from digits_start st3
            in if peek st3 \<noteq> Some (ch CHR ''}'')
               then fail ''invalid Unicode escape, expected closing `}`'' st3
               else
                 (let st4 = bump st3
                  in if digits_start = digits_end
                     then fail ''invalid Unicode escape, missing codepoint digits'' st4
                     else if blen digits > 6
                     then fail ''invalid Unicode escape, codepoint has too many hex digits'' st4
                     else if \<not> scalar_value (radix_value 16 digits)
                     then fail ''invalid Unicode codepoint in escape sequence'' st4
                     else (Some (radix_value 16 digits), st4))))"

definition simple_escapes :: "(rchar \<times> rchar) list" where
  "simple_escapes =
     [(ch CHR ''n'', 10), (ch CHR ''r'', 13), (ch CHR ''t'', 9), (ch CHR ''0'', 0),
      (34, 34), (39, 39), (92, 92)]"

definition lex_escape_sequence :: "lexer \<Rightarrow> rchar option \<times> lexer" where
  "lex_escape_sequence st =
     (case peek st of
        None \<Rightarrow> (None, st)
      | Some c \<Rightarrow>
          (case map_of simple_escapes c of
             Some v \<Rightarrow> (Some v, bump st)
           | None \<Rightarrow>
               if c = ch CHR ''u'' then lex_unicode_escape st
               else
                 (let esc_start = lx_offset st; st' = bump st
                  in (None,
                      push_error ''E0005''
                        (''unsupported escape sequence '' @
                          quote_str ([CHR 0x5C, CHR 0x5C] @ utf8_encode c))
                        (error_span (esc_start - 1) st') st'))))"

lemma length_bump [simp]: "length (lx_rest (bump st)) = length (lx_rest st) - 1"
  by (simp add: bump_def split: list.split)

lemma length_bump_while: "length (lx_rest (bump_while P st)) \<le> length (lx_rest st)"
  by (simp add: bump_while_def length_dropWhile_le)

lemma rest_push [simp]:
  "lx_rest (push_error code message sp st) = lx_rest st"
  "lx_rest (push_error_help code message sp hint st) = lx_rest st"
  "lx_rest (push_token k sp st) = lx_rest st"
  by (simp_all add: push_error_def push_error_help_def push_token_def)

lemma length_unicode_escape:
  "lex_unicode_escape st = (v, st') \<Longrightarrow> length (lx_rest st') \<le> length (lx_rest st)"
  using length_bump_while [of is_ascii_hexdigit "bump (bump st)"]
  by (auto simp: lex_unicode_escape_def Let_def split: if_splits)

lemma length_escape:
  "lex_escape_sequence st = (v, st') \<Longrightarrow> length (lx_rest st') \<le> length (lx_rest st)"
  by (auto simp: lex_escape_sequence_def Let_def split: option.splits if_splits
      dest: length_unicode_escape)

lemma peek_SomeD: "peek st = Some c \<Longrightarrow> \<exists>cs. lx_rest st = c # cs"
  by (auto simp: peek_def split: list.splits)

text \<open>The loop of \<open>lex_string\<close>: the value read so far, and whether the closing quote was found.\<close>

function string_loop :: "nat \<Rightarrow> rchar list \<Rightarrow> lexer \<Rightarrow> (rchar list \<times> bool) \<times> lexer" where
  "string_loop start out st =
     (case peek st of
        None \<Rightarrow> ((out, False), st)
      | Some c \<Rightarrow>
          if c = 34 then ((out, True), bump st)
          else if c = 92 then
            (case lex_escape_sequence (bump st) of
               (v, st') \<Rightarrow>
                 string_loop start (case v of Some x \<Rightarrow> out @ [x] | None \<Rightarrow> out) st')
          else if c = newline_char then
            ((out, False), push_error ''E0006'' ''unterminated string literal'' (error_span start st) st)
          else string_loop start (out @ [c]) (bump st))"
  by pat_completeness auto
termination
  by (relation "measure (\<lambda>(start, out, st). length (lx_rest st))")
    (force dest: peek_SomeD length_escape [OF sym])+

declare string_loop.simps [simp del]

definition lex_string :: "lexer \<Rightarrow> lexer" where
  "lex_string st =
     (let start = lx_offset st; ((out, terminated), st') = string_loop start [] (bump st)
      in if \<not> terminated
         then push_error ''E0006'' ''unterminated string literal'' (error_span start st') st'
         else push_token (TkString (utf8_encode_all out)) (span_new start (lx_offset st')) st')"

text \<open>The loop of \<open>lex_template_string\<close>, which stops before the closing quote.\<close>

function template_loop :: "lexer \<Rightarrow> bool \<times> lexer" where
  "template_loop st =
     (case peek st of
        None \<Rightarrow> (False, st)
      | Some c \<Rightarrow>
          if c = 34 then (True, st)
          else if c = 92 then
            (if peek (bump st) = None then (False, bump st) else template_loop (bump (bump st)))
          else if c = newline_char then (False, st)
          else template_loop (bump st))"
  by pat_completeness auto
termination
  by (relation "measure (\<lambda>st. length (lx_rest st))") (force dest: peek_SomeD)+

declare template_loop.simps [simp del]

definition lex_template_string :: "lexer \<Rightarrow> lexer" where
  "lex_template_string st =
     (let start = lx_offset st;
          st1 = bump (bump st);
          content_start = lx_offset st1;
          (terminated, st2) = template_loop st1
      in if \<not> terminated
         then push_error ''E0006'' ''unterminated template string literal'' (error_span start st2) st2
         else
           (let raw = utf8_encode_all (slice_from content_start st2); st3 = bump st2
            in push_token (TkTemplate raw) (span_new start (lx_offset st3)) st3))"

definition one_codepoint :: string where
  "one_codepoint = ''char literal must contain exactly one Unicode codepoint''"

text \<open>The recovery loop after a character literal that does not close where it should.\<close>

definition skip_to_quote :: "lexer \<Rightarrow> lexer" where
  "skip_to_quote st =
     (let st' = bump_while (\<lambda>c. c \<noteq> 39 \<and> c \<noteq> newline_char) st
      in if peek st' = Some 39 then bump st' else st')"

definition lex_char :: "lexer \<Rightarrow> lexer" where
  "lex_char st =
     (let start = lx_offset st; st1 = bump st in
      if peek st1 = Some 39 then
        (let st2 = bump st1 in push_error ''E0008'' one_codepoint (error_span start st2) st2)
      else if peek st1 \<in> {Some newline_char, None} then
        push_error ''E0006'' ''unterminated char literal'' (error_span start st1) st1
      else
        (let (value, st2) =
           (if peek st1 = Some 92 then lex_escape_sequence (bump st1) else (peek st1, bump st1))
         in if peek st2 = Some 39 then
              (let st3 = bump st2 in
               case value of
                 Some c \<Rightarrow> push_token (TkChar c) (span_new start (lx_offset st3)) st3
               | None \<Rightarrow> st3)
            else
              (let st3 = skip_to_quote st2 in
               push_error ''E0008'' one_codepoint (error_span start st3) st3)))"

section \<open>The main loop\<close>

definition unexpected_character :: "rchar \<Rightarrow> lexer \<Rightarrow> lexer" where
  "unexpected_character c st =
     (let start = lx_offset st; st' = bump st
      in push_error ''E0001'' (''unexpected character '' @ quote_str (utf8_encode c))
           (error_span start st') st')"

text \<open>The arms of the \<open>match\<close> in \<open>run\<close>, in order.\<close>

definition lex_step :: "(string \<Rightarrow> f64 option) \<Rightarrow> rchar \<Rightarrow> lexer \<Rightarrow> lexer" where
  "lex_step parse_f64 c st =
     (if c \<in> {32, newline_char, 13, 9} then bump st
      else if c = ch CHR ''/'' \<and> peek_next st = Some (ch CHR ''/'') then lex_comment st
      else if c \<in> {ch CHR ''f'', ch CHR ''$''} \<and> peek_next st = Some 34 then lex_template_string st
      else if is_ascii_alphabetic c then lex_ident_or_keyword st
      else if c = 95 then lex_underscore st
      else if is_ascii_digit_char c then lex_number parse_f64 st
      else if c = 34 then lex_string st
      else if c = 39 then lex_char st
      else case map_of op_table c of
        Some t \<Rightarrow> lex_op t st
      | None \<Rightarrow> unexpected_character c st)"

section \<open>Progress\<close>

text \<open>
  What every operation keeps: characters move from the rest of the text to the part already read,
  and tokens, comments and errors are only added at the end, each error with a registered code.
\<close>

named_theorems extends_rules \<open>operations that extend the state of the lexer\<close>

definition extends :: "lexer \<Rightarrow> lexer \<Rightarrow> bool" where
  "extends st st' \<longleftrightarrow>
     (\<exists>cs ts ms es. lx_done st' = lx_done st @ cs \<and> lx_rest st = cs @ lx_rest st' \<and>
        lx_tokens st' = lx_tokens st @ ts \<and> lx_comments st' = lx_comments st @ ms \<and>
        lx_errors st' = lx_errors st @ es \<and> list_all (\<lambda>e. is_registered (le_code e)) es)"

lemma lexer_codes [simp]:
  "is_registered ''E0001''" "is_registered ''E0004''" "is_registered ''E0005''" "is_registered ''E0006''"
  "is_registered ''E0007''" "is_registered ''E0008''" "is_registered ''E0009''" "is_registered ''E0010''"
  by code_simp+

lemma extends_refl [extends_rules]: "extends st st"
  by (simp add: extends_def)

lemma extends_trans:
  assumes "extends a b" "extends b c"
  shows "extends a c"
proof -
  from assms(1) obtain cs ts ms es where 1: "lx_done b = lx_done a @ cs" "lx_rest a = cs @ lx_rest b"
      "lx_tokens b = lx_tokens a @ ts" "lx_comments b = lx_comments a @ ms"
      "lx_errors b = lx_errors a @ es" "list_all (\<lambda>e. is_registered (le_code e)) es"
    by (auto simp: extends_def)
  from assms(2) obtain cs' ts' ms' es' where 2: "lx_done c = lx_done b @ cs'" "lx_rest b = cs' @ lx_rest c"
      "lx_tokens c = lx_tokens b @ ts'" "lx_comments c = lx_comments b @ ms'"
      "lx_errors c = lx_errors b @ es'" "list_all (\<lambda>e. is_registered (le_code e)) es'"
    by (auto simp: extends_def)
  show ?thesis
    unfolding extends_def
    by (intro exI [of _ "cs @ cs'"] exI [of _ "ts @ ts'"] exI [of _ "ms @ ms'"] exI [of _ "es @ es'"])
      (simp add: 1 2)
qed

lemma extends_length: "extends st st' \<Longrightarrow> length (lx_rest st') \<le> length (lx_rest st)"
  by (auto simp: extends_def)

lemma extends_bump [extends_rules]: "extends st s \<Longrightarrow> extends st (bump s)"
proof (erule extends_trans)
  show "extends s (bump s)" by (auto simp: extends_def bump_def split: list.split)
qed

lemma extends_bump_while [extends_rules]: "extends st s \<Longrightarrow> extends st (bump_while P s)"
proof (erule extends_trans)
  show "extends s (bump_while P s)" by (auto simp: extends_def bump_while_def)
qed

lemma extends_push [extends_rules]:
  "extends st s \<Longrightarrow> extends st (push_token k sp s)"
  "extends st s \<Longrightarrow> is_registered code \<Longrightarrow> extends st (push_error code message sp s)"
  "extends st s \<Longrightarrow> is_registered code \<Longrightarrow> extends st (push_error_help code message sp hint s)"
  by (auto simp: extends_def push_token_def push_error_def push_error_help_def)

lemma extends_ident_rest [extends_rules]: "extends st s \<Longrightarrow> extends st (lex_ident_rest start s)"
  by (simp add: lex_ident_rest_def Let_def extends_rules)

lemma extends_ident [extends_rules]: "extends st s \<Longrightarrow> extends st (lex_ident_or_keyword s)"
  by (simp add: lex_ident_or_keyword_def extends_rules)

lemma extends_underscore [extends_rules]: "extends st s \<Longrightarrow> extends st (lex_underscore s)"
  by (auto simp: lex_underscore_def Let_def extends_rules split: option.split)

lemma extends_comment [extends_rules]: "extends st s \<Longrightarrow> extends st (lex_comment s)"
proof (erule extends_trans)
  let ?s = "bump_while (\<lambda>c. c \<noteq> newline_char) (bump (bump s))"
  have "extends s ?s" by (intro extends_rules)
  then show "extends s (lex_comment s)"
    unfolding extends_def lex_comment_def Let_def by force
qed

lemma extends_walk:
  "extends st s \<Longrightarrow> extends st (snd (op_walk t s))"
  "extends st s \<Longrightarrow> extends st (snd (op_alts k alts s))"
  by (induction t s and k alts s rule: op_walk_op_alts.induct) (auto intro: extends_rules)

lemma extends_op [extends_rules]: "extends st s \<Longrightarrow> extends st (lex_op t s)"
  using extends_walk(1) [of st "bump s" t]
  by (auto simp: lex_op_def Let_def extends_rules split: prod.split)

lemma extends_integer_suffix: "extends st s \<Longrightarrow> extends st (snd (lex_integer_suffix s))"
  by (auto simp: lex_integer_suffix_def Let_def extends_rules split: option.split)

lemma extends_float_suffix: "extends st s \<Longrightarrow> extends st (snd (lex_float_suffix s))"
  by (auto simp: lex_float_suffix_def Let_def extends_rules split: option.split)

lemma extends_finish_int [extends_rules]:
  "extends st s \<Longrightarrow> extends st (finish_int start raw_end shown raw value s)"
  using extends_integer_suffix [of st s]
  by (cases "lex_integer_suffix s") (auto simp: finish_int_def Let_def extends_rules split: option.split)

lemma extends_finish_float [extends_rules]:
  "extends st s \<Longrightarrow> extends st (finish_float parse_f64 start raw_end raw s)"
  using extends_float_suffix [of st s]
  by (cases "lex_float_suffix s") (auto simp: finish_float_def Let_def extends_rules split: option.split)

lemma extends_hex [extends_rules]: "extends st s \<Longrightarrow> extends st (lex_hex_number s)"
  by (auto simp: lex_hex_number_def Let_def extends_rules)

lemma extends_fraction: "extends st s \<Longrightarrow> extends st (snd (lex_fraction s))"
  by (auto simp: lex_fraction_def extends_rules)

lemma extends_exponent: "extends st s \<Longrightarrow> extends st (snd (lex_exponent s))"
  by (auto simp: lex_exponent_def Let_def extends_rules)

lemma extends_unicode_escape: "extends st s \<Longrightarrow> extends st (snd (lex_unicode_escape s))"
  by (auto simp: lex_unicode_escape_def Let_def extends_rules)

lemma extends_escape: "extends st s \<Longrightarrow> extends st (snd (lex_escape_sequence s))"
  using extends_unicode_escape [of st s]
  by (auto simp: lex_escape_sequence_def Let_def extends_rules split: option.split)

lemma extends_string_loop: "extends st s \<Longrightarrow> extends st (snd (string_loop start out s))"
proof (induction start out s rule: string_loop.induct)
  case (1 start out s)
  show ?case
  proof (cases "peek s")
    case None
    with 1 show ?thesis by (simp add: string_loop.simps)
  next
    case (Some c)
    obtain v s' where esc: "lex_escape_sequence (bump s) = (v, s')" by force
    with 1 extends_escape [of st "bump s"] have "extends st s'" by (simp add: extends_rules)
    with 1 Some esc show ?thesis
      by (subst string_loop.simps) (auto simp: extends_rules)
  qed
qed

lemma extends_string [extends_rules]: "extends st s \<Longrightarrow> extends st (lex_string s)"
  using extends_string_loop [of st "bump s" "lx_offset s" "[]"]
  by (auto simp: lex_string_def Let_def extends_rules split: prod.split)

lemma extends_template_loop: "extends st s \<Longrightarrow> extends st (snd (template_loop s))"
proof (induction s rule: template_loop.induct)
  case (1 s)
  then show ?case
    by (subst template_loop.simps) (auto simp: extends_rules split: option.split)
qed

lemma extends_template [extends_rules]: "extends st s \<Longrightarrow> extends st (lex_template_string s)"
  using extends_template_loop [of st "bump (bump s)"]
  by (auto simp: lex_template_string_def Let_def extends_rules split: prod.split)

lemma extends_skip [extends_rules]: "extends st s \<Longrightarrow> extends st (skip_to_quote s)"
  by (simp add: skip_to_quote_def Let_def extends_rules)

lemma extends_char [extends_rules]: "extends st s \<Longrightarrow> extends st (lex_char s)"
  using extends_escape [of st "bump (bump s)"]
  by (auto simp: lex_char_def Let_def extends_rules split: prod.split option.split)

lemma extends_number [extends_rules]: "extends st s \<Longrightarrow> extends st (lex_number parse_f64 s)"
proof -
  assume st: "extends st s"
  obtain frac s1 where f: "lex_fraction (bump_while is_ascii_digit_char s) = (frac, s1)" by force
  obtain expo s2 where e: "lex_exponent s1 = (expo, s2)" by force
  from st extends_fraction [of st "bump_while is_ascii_digit_char s"] f
  have "extends st s1" by (simp add: extends_rules)
  with extends_exponent [of st s1] e have "extends st s2" by simp
  with st f e show ?thesis by (simp add: lex_number_def Let_def extends_rules)
qed

lemma extends_unexpected [extends_rules]: "extends st s \<Longrightarrow> extends st (unexpected_character c s)"
  by (simp add: unexpected_character_def Let_def extends_rules)

lemma extends_step [extends_rules]: "extends st s \<Longrightarrow> extends st (lex_step parse_f64 c s)"
  by (auto simp: lex_step_def extends_rules split: option.split)

text \<open>Every arm of the loop reads at least the character that it has seen.\<close>

lemma bump_while_bump:
  "lx_rest st = c # cs \<Longrightarrow> P c \<Longrightarrow> bump_while P st = bump_while P (bump st)"
  by (cases st) (simp add: bump_while_def bump_def)

lemma extends_number_bump:
  assumes "lx_rest st = c # cs" "is_ascii_digit_char c"
  shows "extends (bump st) (lex_number parse_f64 st)"
proof -
  obtain frac s1 where f: "lex_fraction (bump_while is_ascii_digit_char st) = (frac, s1)" by force
  obtain expo s2 where e: "lex_exponent s1 = (expo, s2)" by force
  have "extends (bump st) (bump_while is_ascii_digit_char st)"
    using assms by (simp add: bump_while_bump [of st c cs] extends_rules)
  from extends_fraction [OF this] f have "extends (bump st) s1" by simp
  from extends_exponent [OF this] e have "extends (bump st) s2" by simp
  with f e show ?thesis by (simp add: lex_number_def lex_hex_number_def Let_def extends_rules)
qed

lemma extends_step_bump:
  assumes "lx_rest st = c # cs"
  shows "extends (bump st) (lex_step parse_f64 c st)"
proof -
  have comment: "extends (bump st) (lex_comment st)"
  proof -
    let ?s = "bump_while (\<lambda>c. c \<noteq> newline_char) (bump (bump st))"
    have "extends (bump st) ?s" by (simp add: extends_rules)
    then show ?thesis unfolding extends_def lex_comment_def Let_def by force
  qed
  have template: "extends (bump st) (lex_template_string st)"
    using extends_template_loop [of "bump st" "bump (bump st)"]
    by (auto simp: lex_template_string_def Let_def extends_rules split: prod.split)
  have string: "extends (bump st) (lex_string st)"
    using extends_string_loop [of "bump st" "bump st" "lx_offset st" "[]"]
    by (auto simp: lex_string_def Let_def extends_rules split: prod.split)
  have char: "extends (bump st) (lex_char st)"
    using extends_escape [of "bump st" "bump (bump st)"]
    by (auto simp: lex_char_def Let_def extends_rules split: prod.split option.split)
  have op_case: "extends (bump st) (lex_op t st)" for t
    using extends_walk(1) [of "bump st" "bump st" t]
    by (auto simp: lex_op_def Let_def extends_rules split: prod.split)
  have simple: "extends (bump st) (lex_ident_or_keyword st)" "extends (bump st) (lex_underscore st)"
      "extends (bump st) (unexpected_character c st)"
    by (auto simp: lex_ident_or_keyword_def lex_underscore_def unexpected_character_def Let_def
        extends_rules split: option.split)
  show ?thesis
    using comment template string char op_case simple extends_number_bump [OF assms]
    by (auto simp: lex_step_def extends_rules split: option.split)
qed

lemma step_shorter:
  "lx_rest st = c # cs \<Longrightarrow> length (lx_rest (lex_step parse_f64 c st)) < length (lx_rest st)"
  using extends_length [OF extends_step_bump [of st c cs parse_f64]] by simp

function lex_run :: "(string \<Rightarrow> f64 option) \<Rightarrow> lexer \<Rightarrow> lexer" where
  "lex_run parse_f64 st =
     (case peek st of
        None \<Rightarrow> push_token TkEof (span_new (lx_offset st) (lx_offset st)) st
      | Some c \<Rightarrow> lex_run parse_f64 (lex_step parse_f64 c st))"
  by pat_completeness auto
termination
  by (relation "measure (\<lambda>(parse_f64, st). length (lx_rest st))") (auto dest!: peek_SomeD intro: step_shorter)

declare lex_run.simps [simp del]

definition new_lexer :: "rchar list \<Rightarrow> lexer" where
  "new_lexer source =
     \<lparr>lx_done = [], lx_rest = source, lx_tokens = [], lx_comments = [], lx_errors = []\<rparr>"

definition lex_chars :: "(string \<Rightarrow> f64 option) \<Rightarrow> rchar list \<Rightarrow> lexer" where
  "lex_chars parse_f64 source = lex_run parse_f64 (new_lexer source)"

text \<open>The diagnostic of an error; \<open>None\<close> is the panic on a code that is not registered.\<close>

definition lex_diagnostic :: "derive_reasoning \<Rightarrow> string \<Rightarrow> lex_error \<Rightarrow> diagnostic option" where
  "lex_diagnostic derive source_file e =
     map_option (\<lambda>d. case le_help e of None \<Rightarrow> d | Some h \<Rightarrow> with_help derive h d)
       (diagnostic_error derive (le_code e) (le_message e) source_file (le_span e))"

definition lex_with_comments ::
  "(string \<Rightarrow> f64 option) \<Rightarrow> derive_reasoning \<Rightarrow> string \<Rightarrow> string \<Rightarrow>
   (token list \<times> line_comment list \<times> diagnostic list) option" where
  "lex_with_comments parse_f64 derive source source_file =
     (let st = lex_chars parse_f64 (str_chars source) in
      map_option (\<lambda>ds. (lx_tokens st, lx_comments st, ds))
        (those (map (lex_diagnostic derive source_file) (lx_errors st))))"

definition lex ::
  "(string \<Rightarrow> f64 option) \<Rightarrow> derive_reasoning \<Rightarrow> string \<Rightarrow> string \<Rightarrow>
   (token list \<times> diagnostic list) option" where
  "lex parse_f64 derive source source_file =
     map_option (\<lambda>(ts, _, ds). (ts, ds)) (lex_with_comments parse_f64 derive source source_file)"

end
