(* ===== verification/LexerTokens.thy ===== *)
theory LexerTokens
  imports Lexer "HOL-Library.Code_Target_Nat"
begin

text \<open>
  What the tokens of the lexer are: the texts of their spans spell them, the spans are in order and
  do not overlap, and a source without lexical errors is cut into tokens, white space and comments
  with nothing left out.
\<close>

section \<open>Spellings\<close>

fun punct_text :: "punct \<Rightarrow> string" where
  "punct_text PtLParen = ''(''" | "punct_text PtRParen = '')''"
| "punct_text PtLBrace = ''{''" | "punct_text PtRBrace = ''}''"
| "punct_text PtLBracket = ''[''" | "punct_text PtRBracket = '']''"
| "punct_text PtComma = '',''" | "punct_text PtColon = '':''"
| "punct_text PtSemi = '';''" | "punct_text PtDot = ''.''"
| "punct_text PtDotDot = ''..''" | "punct_text PtArrow = ''->''"
| "punct_text PtFatArrow = ''=>''" | "punct_text PtColonColon = ''::''"
| "punct_text PtPlus = ''+''" | "punct_text PtMinus = ''-''"
| "punct_text PtStar = ''*''" | "punct_text PtSlash = ''/''"
| "punct_text PtPercent = ''%''" | "punct_text PtCaret = ''^''"
| "punct_text PtTilde = ''~''" | "punct_text PtEq = ''=''"
| "punct_text PtEqEq = ''==''" | "punct_text PtAmpEq = ''&=''"
| "punct_text PtPipeEq = ''|=''" | "punct_text PtCaretEq = ''^=''"
| "punct_text PtLShift = ''<<''" | "punct_text PtRShift = ''>>''"
| "punct_text PtURShift = ''>>>''" | "punct_text PtLShiftEq = ''<<=''"
| "punct_text PtRShiftEq = ''>>=''" | "punct_text PtURShiftEq = ''>>>=''"
| "punct_text PtNe = ''!=''" | "punct_text PtLt = ''<''"
| "punct_text PtLe = ''<=''" | "punct_text PtGt = ''>''"
| "punct_text PtGe = ''>=''" | "punct_text PtAndAnd = ''&&''"
| "punct_text PtAmpersand = ''&''" | "punct_text PtPipe = ''|''"
| "punct_text PtOrOr = ''||''" | "punct_text PtBang = ''!''"
| "punct_text PtHash = ''#''" | "punct_text PtQuestion = ''?''"
| "punct_text PtUnderscore = ''_''"

text \<open>The characters of an ASCII text.\<close>

definition ascii :: "string \<Rightarrow> rchar list" where
  "ascii s = map (\<lambda>c. of_char c) s"

definition suffix_spelled :: "(string \<times> 's) list \<Rightarrow> 's option \<Rightarrow> rchar list \<Rightarrow> bool" where
  "suffix_spelled table suffix cs \<longleftrightarrow>
     (case suffix of None \<Rightarrow> cs = [] | Some s \<Rightarrow> map_of table (utf8_encode_all cs) = Some s)"

text \<open>The value that the digits of an integer literal stand for.\<close>

definition digits_value :: "rchar list \<Rightarrow> nat" where
  "digits_value cs =
     (case cs of
        z # x # hs \<Rightarrow> if z = 48 \<and> x \<in> {120, 88} then radix_value 16 hs else radix_value 10 cs
      | _ \<Rightarrow> radix_value 10 cs)"

fun spells :: "(string \<Rightarrow> f64 option) \<Rightarrow> token_kind \<Rightarrow> rchar list \<Rightarrow> bool" where
  "spells pf (TkIdent s) cs \<longleftrightarrow>
     s = utf8_encode_all cs \<and> cs \<noteq> [] \<and> is_ident_start (hd cs) \<and> list_all is_ident_char cs \<and>
     map_of keyword_table s = None"
| "spells pf (TkKeyword k) cs \<longleftrightarrow> map_of keyword_table (utf8_encode_all cs) = Some k"
| "spells pf (TkPunct p) cs \<longleftrightarrow> cs = ascii (punct_text p)"
| "spells pf (TkInt i) cs \<longleftrightarrow>
     (\<exists>ds ss. cs = ds @ ss \<and> ilt_raw_text i = utf8_encode_all ds \<and>
        suffix_spelled int_suffix_table (ilt_suffix i) ss \<and> ilt_value i = of_nat (digits_value ds) \<and>
        (digits_value ds < 2 ^ 63 \<or> ilt_suffix i \<in> {Some LexI128, Some LexU128} \<and> digits_value ds < 2 ^ 128))"
| "spells pf (TkFloat f) cs \<longleftrightarrow>
     (\<exists>ds ss. cs = ds @ ss \<and> flt_raw_text f = utf8_encode_all ds \<and>
        suffix_spelled float_suffix_table (flt_suffix f) ss \<and> pf (utf8_encode_all ds) = Some (flt_value f))"
| "spells pf (TkString s) cs \<longleftrightarrow> (\<exists>body. cs = 34 # body @ [34])"
| "spells pf (TkTemplate raw) cs \<longleftrightarrow>
     (\<exists>p body. p \<in> {102, 36} \<and> cs = p # 34 # body @ [34] \<and> raw = utf8_encode_all body)"
| "spells pf (TkChar c) cs \<longleftrightarrow> (\<exists>body. body \<noteq> [] \<and> cs = 39 # body @ [39])"
| "spells pf TkEof cs \<longleftrightarrow> cs = []"

text \<open>What may stand between tokens.\<close>

definition blank :: "rchar list \<Rightarrow> bool" where
  "blank cs \<longleftrightarrow>
     (\<exists>c \<in> {32, newline_char, 13, 9}. cs = [c]) \<or>
     (\<exists>line. cs = ascii ''//'' @ line \<and> newline_char \<notin> set line)"

section \<open>Reading characters\<close>

text \<open>\<open>st'\<close> is \<open>st\<close> after reading the characters \<open>cs\<close> only.\<close>

definition moves :: "lexer \<Rightarrow> rchar list \<Rightarrow> lexer \<Rightarrow> bool" where
  "moves st cs st' \<longleftrightarrow>
     lx_rest st = cs @ lx_rest st' \<and>
     st' = st\<lparr>lx_done := lx_done st @ cs, lx_rest := lx_rest st'\<rparr>"

lemma moves_refl: "moves st [] st"
  by (simp add: moves_def)

lemma moves_trans: "moves a cs b \<Longrightarrow> moves b ds c \<Longrightarrow> moves a (cs @ ds) c"
  unfolding moves_def by (cases a, cases b, cases c) auto

lemma moves_fields:
  "moves st cs st' \<Longrightarrow> lx_tokens st' = lx_tokens st"
  "moves st cs st' \<Longrightarrow> lx_errors st' = lx_errors st"
  "moves st cs st' \<Longrightarrow> lx_done st' = lx_done st @ cs"
  "moves st cs st' \<Longrightarrow> lx_rest st = cs @ lx_rest st'"
  "moves st cs st' \<Longrightarrow> lx_offset st' = lx_offset st + blen cs"
  unfolding moves_def lx_offset_def by (cases st', auto)+

lemma moves_bump: "lx_rest st = c # cs \<Longrightarrow> moves st [c] (bump st)"
  by (cases st) (simp add: moves_def bump_def)

lemma moves_bump_peek: "peek st = Some c \<Longrightarrow> moves st [c] (bump st)"
  by (auto dest: peek_SomeD intro: moves_bump)

lemma moves_bump_while: "moves st (takeWhile P (lx_rest st)) (bump_while P st)"
  by (cases st) (simp add: moves_def bump_while_def)

lemma drop_bytes_append: "drop_bytes (blen xs) (xs @ ys) = ys"
proof (induction xs)
  case Nil
  show ?case by (cases ys) auto
next
  case (Cons x xs)
  have "0 < length (utf8_encode x)" by simp
  with Cons show ?case by auto
qed

lemma moves_slice: "moves st cs st' \<Longrightarrow> slice_from (lx_offset st) st' = cs"
  by (simp add: slice_from_def lx_offset_def moves_fields drop_bytes_append)

lemma peek_rest: "lx_rest st = c # cs \<Longrightarrow> peek st = Some c"
  by (simp add: peek_def)

section \<open>One token\<close>

text \<open>
  The effect of one turn of the main loop: it reads \<open>cs\<close> and perhaps \<open>post\<close>, and adds at most one
  token, spelled by \<open>cs\<close>. Without a new error there is no \<open>post\<close>, and text that is no token is blank.
\<close>

definition token_of :: "lexer \<Rightarrow> rchar list \<Rightarrow> token_kind \<Rightarrow> token" where
  "token_of st cs k = \<lparr>tok_kind = k, tok_span = span_new (lx_offset st) (lx_offset st + blen cs)\<rparr>"

definition token_step :: "(string \<Rightarrow> f64 option) \<Rightarrow> lexer \<Rightarrow> lexer \<Rightarrow> bool" where
  "token_step pf st st' \<longleftrightarrow>
     (\<exists>cs post ko.
        lx_done st' = lx_done st @ cs @ post \<and>
        (lx_errors st' = lx_errors st \<longrightarrow> post = []) \<and>
        (case ko of
           None \<Rightarrow> lx_tokens st' = lx_tokens st \<and> (lx_errors st' = lx_errors st \<longrightarrow> blank cs)
         | Some k \<Rightarrow> cs \<noteq> [] \<and> spells pf k cs \<and> lx_tokens st' = lx_tokens st @ [token_of st cs k]))"

lemma token_stepI:
  assumes "moves st cs st'" "cs \<noteq> []" "spells pf k cs"
  shows "token_step pf st (push_token k (span_new (lx_offset st) (lx_offset st')) st')"
  unfolding token_step_def
  by (rule exI [of _ cs], rule exI [of _ "[]"], rule exI [of _ "Some k"])
    (use assms in \<open>simp add: push_token_def token_of_def moves_fields\<close>)

lemma token_step_error:
  assumes "extends st st'" "lx_tokens st' = lx_tokens st" "lx_errors st' \<noteq> lx_errors st"
  shows "token_step pf st st'"
proof -
  from assms(1) obtain cs where "lx_done st' = lx_done st @ cs" by (auto simp: extends_def)
  with assms show ?thesis
    unfolding token_step_def
    by (intro exI [of _ cs] exI [of _ "[]"] exI [of _ None]) simp
qed

lemma token_step_blank:
  assumes "lx_done st' = lx_done st @ cs" "blank cs" "lx_tokens st' = lx_tokens st"
  shows "token_step pf st st'"
  unfolding token_step_def
  by (rule exI [of _ cs], rule exI [of _ "[]"], rule exI [of _ None]) (use assms in simp)

lemma errors_push_error:
  "extends st s \<Longrightarrow> lx_errors (push_error code message sp s) \<noteq> lx_errors st"
  by (auto simp: extends_def push_error_def)

lemma push_error_fields [simp]:
  "lx_tokens (push_error code message sp s) = lx_tokens s"
  "lx_done (push_error code message sp s) = lx_done s"
  by (simp_all add: push_error_def)

lemma token_step_push_error:
  "extends st s \<Longrightarrow> lx_tokens s = lx_tokens st \<Longrightarrow> is_registered code \<Longrightarrow>
     token_step pf st (push_error code message sp s)"
  by (rule token_step_error) (simp_all add: extends_rules errors_push_error)

lemma moves_extends: "moves st cs s \<Longrightarrow> extends st s"
  by (cases st, cases s) (auto simp: extends_def moves_def)

section \<open>The operations\<close>

lemma ident_rest_step:
  assumes "moves st cs s" "cs \<noteq> []" "is_ident_start (hd cs)" "list_all is_ident_char cs"
  shows "token_step pf st (lex_ident_rest (lx_offset st) s)"
proof -
  let ?us = "takeWhile is_ident_char (lx_rest s)"
  have m: "moves st (cs @ ?us) (bump_while is_ident_char s)"
    using moves_trans [OF assms(1) moves_bump_while] .
  have "list_all is_ident_char ?us" by (auto simp: list_all_iff dest: set_takeWhileD)
  with assms m show ?thesis
    unfolding lex_ident_rest_def Let_def moves_slice [OF m]
    by (intro token_stepI [of _ "cs @ ?us"]) (auto split: option.split)
qed

lemma ident_step:
  assumes "lx_rest st = c # cs" "is_ascii_alphabetic c"
  shows "token_step pf st (lex_ident_or_keyword st)"
  unfolding lex_ident_or_keyword_def
  by (rule ident_rest_step [OF moves_bump [OF assms(1)]])
    (use assms(2) in \<open>simp_all add: is_ident_start_def is_ident_char_def is_ascii_alphanumeric_def\<close>)

lemma ascii_underscore: "ascii ''_'' = [95]"
  by (simp add: ascii_def)

lemma blen_ascii_char: "c < 128 \<Longrightarrow> blen [c] = 1"
  by (simp add: blen_def utf8_encode_def)

lemma underscore_step:
  assumes "lx_rest st = 95 # cs"
  shows "token_step pf st (lex_underscore st)"
proof -
  note m = moves_bump [OF assms]
  have under: "token_step pf st (push_token (TkPunct PtUnderscore)
      (span_new (lx_offset st) (lx_offset st + 1)) (bump st))"
    using token_stepI [OF m, of pf "TkPunct PtUnderscore"]
    by (simp add: ascii_underscore moves_fields(5) [OF m] utf8_encode_def)
  have ident: "token_step pf st (lex_ident_rest (lx_offset st) (bump st))"
    by (rule ident_rest_step [OF m]) (simp_all add: is_ident_start_def is_ident_char_def)
  from under ident show ?thesis
    by (auto simp: lex_underscore_def Let_def split: option.split)
qed

lemma comment_step:
  assumes "lx_rest st = 47 # 47 # cs"
  shows "token_step pf st (lex_comment st)"
proof -
  let ?line = "takeWhile (\<lambda>c. c \<noteq> newline_char) cs"
  have m1: "moves st [47] (bump st)" using moves_bump [OF assms] .
  have r1: "lx_rest (bump st) = 47 # cs" using assms by (simp add: bump_def)
  have m2: "moves st [47, 47] (bump (bump st))" using moves_trans [OF m1 moves_bump [OF r1]] by simp
  have r2: "lx_rest (bump (bump st)) = cs" using r1 by (simp add: bump_def)
  have m: "moves st ([47, 47] @ ?line) (bump_while (\<lambda>c. c \<noteq> newline_char) (bump (bump st)))"
    using moves_trans [OF m2 moves_bump_while] r2 by simp
  have "newline_char \<notin> set ?line" by (auto dest: set_takeWhileD)
  then have "blank ([47, 47] @ ?line)" by (auto simp: blank_def ascii_def)
  with m show ?thesis
    unfolding lex_comment_def Let_def
    by (intro token_step_blank [of _ _ "[47, 47] @ ?line"]) (simp_all add: moves_fields)
qed

text \<open>The texts of the operators of a tree after its first character.\<close>

fun op_paths :: "op_tree \<Rightarrow> (rchar list \<times> punct) list"
  and op_alt_paths :: "(rchar \<times> op_tree) list \<Rightarrow> (rchar list \<times> punct) list" where
  "op_paths (OpNode k alts) = ([], k) # op_alt_paths alts"
| "op_alt_paths [] = []"
| "op_alt_paths ((c, t) # alts) = map (\<lambda>(us, k). (c # us, k)) (op_paths t) @ op_alt_paths alts"

lemma op_walk_moves:
  "op_walk t s = (k, s') \<Longrightarrow> \<exists>us. moves s us s' \<and> (us, k) \<in> set (op_paths t)"
  "op_alts k0 alts s = (k, s') \<Longrightarrow> \<exists>us. moves s us s' \<and> (us, k) \<in> set (([], k0) # op_alt_paths alts)"
proof (induction t s and k0 alts s arbitrary: k s' and k s' rule: op_walk_op_alts.induct)
  case (3 k0 c t alts s)
  show ?case
  proof (cases "peek s = Some c")
    case True
    with "3.IH"(1) [OF True] "3.prems" obtain us where us: "moves (bump s) us s'" "(us, k) \<in> set (op_paths t)"
      by auto
    from moves_trans [OF moves_bump_peek [OF True] us(1)] us(2) show ?thesis
      by (intro exI [of _ "c # us"]) (auto intro!: image_eqI [of _ _ "(us, k)"])
  next
    case False
    with "3.IH"(2) [OF False] "3.prems" show ?thesis by auto
  qed
qed (auto intro: moves_refl)

definition op_texts :: "(rchar list \<times> punct) list" where
  "op_texts = concat (map (\<lambda>(c, t). map (\<lambda>(us, k). (c # us, k)) (op_paths t)) op_table)"

lemma op_texts_spell: "(cs, k) \<in> set op_texts \<Longrightarrow> cs = ascii (punct_text k)"
proof -
  have "list_all (\<lambda>(cs, k). cs = ascii (punct_text k)) op_texts" by code_simp
  then show "(cs, k) \<in> set op_texts \<Longrightarrow> cs = ascii (punct_text k)" by (auto simp: list_all_iff)
qed

lemma op_step:
  assumes "lx_rest st = c # cs" "map_of op_table c = Some t"
  shows "token_step pf st (lex_op t st)"
proof -
  obtain k s' where w: "op_walk t (bump st) = (k, s')" by force
  from op_walk_moves(1) [OF w] obtain us where us: "moves (bump st) us s'" "(us, k) \<in> set (op_paths t)"
    by blast
  from map_of_SomeD [OF assms(2)] us(2) have "(c # us, k) \<in> set op_texts"
    by (force simp: op_texts_def)
  from op_texts_spell [OF this] have sp: "spells pf (TkPunct k) (c # us)" by simp
  from moves_trans [OF moves_bump [OF assms(1)] us(1)] have "moves st (c # us) s'" by simp
  from token_stepI [OF this _ sp] w show ?thesis by (simp add: lex_op_def Let_def)
qed


section \<open>Numbers\<close>

lemma integer_suffix:
  assumes "lex_integer_suffix s = ((suffix, consumed), s')"
  shows "\<exists>ss. lx_done s' = lx_done s @ ss \<and> lx_tokens s' = lx_tokens s \<and>
    (if consumed \<and> suffix = None then lx_errors s' \<noteq> lx_errors s
     else moves s ss s' \<and> suffix_spelled int_suffix_table suffix ss)"
proof (cases "\<exists>c. peek s = Some c \<and> is_ident_start c")
  case False
  with assms show ?thesis
    by (intro exI [of _ "[]"])
      (auto simp: lex_integer_suffix_def suffix_spelled_def moves_refl split: option.splits)
next
  case True
  then obtain c where c: "peek s = Some c" "is_ident_start c" by blast
  let ?ss = "[c] @ takeWhile is_ident_char (lx_rest (bump s))"
  have m: "moves s ?ss (bump_while is_ident_char (bump s))"
    by (rule moves_trans [OF moves_bump_peek [OF c(1)] moves_bump_while])
  with assms c show ?thesis
    by (intro exI [of _ ?ss])
      (auto simp: lex_integer_suffix_def Let_def moves_slice [OF m] moves_fields push_error_help_def
        int_suffix_parse_def suffix_spelled_def split: if_splits)
qed

lemma float_suffix:
  assumes "lex_float_suffix s = ((suffix, consumed), s')"
  shows "\<exists>ss. lx_done s' = lx_done s @ ss \<and> lx_tokens s' = lx_tokens s \<and>
    (if consumed \<and> suffix = None then lx_errors s' \<noteq> lx_errors s
     else moves s ss s' \<and> suffix_spelled float_suffix_table suffix ss)"
proof (cases "\<exists>c. peek s = Some c \<and> is_ident_start c")
  case False
  with assms show ?thesis
    by (intro exI [of _ "[]"])
      (auto simp: lex_float_suffix_def suffix_spelled_def moves_refl split: option.splits)
next
  case True
  then obtain c where c: "peek s = Some c" "is_ident_start c" by blast
  let ?ss = "[c] @ takeWhile is_ident_char (lx_rest (bump s))"
  have m: "moves s ?ss (bump_while is_ident_char (bump s))"
    by (rule moves_trans [OF moves_bump_peek [OF c(1)] moves_bump_while])
  with assms c show ?thesis
    by (intro exI [of _ ?ss])
      (auto simp: lex_float_suffix_def Let_def moves_slice [OF m] moves_fields push_error_help_def
        float_suffix_parse_def suffix_spelled_def split: if_splits)
qed

text \<open>A literal whose suffix is wrong: its token ends before the suffix.\<close>

lemma token_step_cut:
  assumes "moves st ds s" "ds \<noteq> []" "spells pf k ds"
    and "lx_done s' = lx_done s @ ss" "lx_tokens s' = lx_tokens s" "lx_errors s' \<noteq> lx_errors s"
  shows "token_step pf st (push_token k (span_new (lx_offset st) (lx_offset s)) s')"
  unfolding token_step_def
  by (rule exI [of _ ds], rule exI [of _ ss], rule exI [of _ "Some k"])
    (use assms in \<open>simp add: push_token_def token_of_def moves_fields\<close>)

lemma finish_int_step:
  assumes m: "moves st ds s" "ds \<noteq> []" and raw: "raw = utf8_encode_all ds"
    and val: "value = (if digits_value ds < 2 ^ 128 then Some (digits_value ds) else None)"
  shows "token_step pf st (finish_int (lx_offset st) (lx_offset s) shown raw value s)"
proof -
  obtain suffix consumed s' where suf: "lex_integer_suffix s = ((suffix, consumed), s')"
    by (metis prod.exhaust)
  from integer_suffix [OF suf] obtain ss where ss: "lx_done s' = lx_done s @ ss"
      "lx_tokens s' = lx_tokens s"
      "if consumed \<and> suffix = None then lx_errors s' \<noteq> lx_errors s
       else moves s ss s' \<and> suffix_spelled int_suffix_table suffix ss" by blast
  have ext: "extends st s'"
    using extends_integer_suffix [of st s] moves_extends [OF m(1)] suf by simp
  show ?thesis
  proof (cases "value = None \<or> digits_value ds > 2 ^ 63 - 1 \<and> suffix \<notin> {Some LexI128, Some LexU128}")
    case True
    then have eq: "finish_int (lx_offset st) (lx_offset s) shown raw value s =
        push_error ''E0004'' (''invalid integer literal '' @ quote_str shown)
          (span_new (lx_offset st) (lx_offset s)) s'"
      using val suf by (auto simp: finish_int_def Let_def split: option.splits if_splits)
    show ?thesis
      unfolding eq
      by (rule token_step_push_error [OF ext]) (use ss(2) m(1) in \<open>simp_all add: moves_fields\<close>)
  next
    case False
    let ?tok = "\<lparr>ilt_value = of_nat (digits_value ds), ilt_raw_value_span = span_new (lx_offset st) (lx_offset s),
        ilt_raw_text = raw, ilt_suffix = suffix\<rparr>"
    have fits: "digits_value ds < 2 ^ 63 \<or> suffix \<in> {Some LexI128, Some LexU128} \<and> digits_value ds < 2 ^ 128"
      using False val by (auto split: if_splits)
    show ?thesis
    proof (cases "consumed \<and> suffix = None")
      case True
      with False suf val have eq: "finish_int (lx_offset st) (lx_offset s) shown raw value s =
          push_token (TkInt ?tok) (span_new (lx_offset st) (lx_offset s)) s'"
        by (auto simp: finish_int_def Let_def split: option.splits if_splits)
      have "spells pf (TkInt ?tok) ds"
        using True fits raw by (auto simp: suffix_spelled_def)
      with True ss m show ?thesis unfolding eq by (intro token_step_cut) auto
    next
      case wf: False
      with ss have ss': "moves s ss s'" "suffix_spelled int_suffix_table suffix ss" by simp_all
      have "(if suffix \<noteq> None then lx_offset s' else lx_offset s) = lx_offset s'"
        using ss' by (auto simp: suffix_spelled_def moves_fields)
      with False suf val wf have eq: "finish_int (lx_offset st) (lx_offset s) shown raw value s =
          push_token (TkInt ?tok) (span_new (lx_offset st) (lx_offset s')) s'"
        by (auto simp: finish_int_def Let_def split: option.splits if_splits)
      have "spells pf (TkInt ?tok) (ds @ ss)"
        using ss'(2) fits raw by auto
      with token_stepI [OF moves_trans [OF m(1) ss'(1)]] m(2) show ?thesis unfolding eq by simp
    qed
  qed
qed

lemma finish_float_step:
  assumes m: "moves st ds s" "ds \<noteq> []" and raw: "raw = utf8_encode_all ds"
  shows "token_step pf st (finish_float pf (lx_offset st) (lx_offset s) raw s)"
proof -
  obtain suffix consumed s' where suf: "lex_float_suffix s = ((suffix, consumed), s')"
    by (metis prod.exhaust)
  from float_suffix [OF suf] obtain ss where ss: "lx_done s' = lx_done s @ ss"
      "lx_tokens s' = lx_tokens s"
      "if consumed \<and> suffix = None then lx_errors s' \<noteq> lx_errors s
       else moves s ss s' \<and> suffix_spelled float_suffix_table suffix ss" by blast
  have ext: "extends st s'"
    using extends_float_suffix [of st s] moves_extends [OF m(1)] suf by simp
  show ?thesis
  proof (cases "pf raw")
    case None
    with suf have eq: "finish_float pf (lx_offset st) (lx_offset s) raw s =
        push_error ''E0007'' (''invalid float literal '' @ quote_str raw)
          (span_new (lx_offset st) (lx_offset s)) s'"
      by (simp add: finish_float_def)
    show ?thesis
      unfolding eq
      by (rule token_step_push_error [OF ext]) (use ss(2) m(1) in \<open>simp_all add: moves_fields\<close>)
  next
    case (Some v)
    let ?tok = "\<lparr>flt_value = v, flt_raw_value_span = span_new (lx_offset st) (lx_offset s),
        flt_raw_text = raw, flt_suffix = suffix\<rparr>"
    show ?thesis
    proof (cases "consumed \<and> suffix = None")
      case True
      with Some suf have eq: "finish_float pf (lx_offset st) (lx_offset s) raw s =
          push_token (TkFloat ?tok) (span_new (lx_offset st) (lx_offset s)) s'"
        by (simp add: finish_float_def)
      have "spells pf (TkFloat ?tok) ds"
        using True Some raw by (auto simp: suffix_spelled_def)
      with True ss m show ?thesis unfolding eq by (intro token_step_cut) auto
    next
      case wf: False
      with ss have ss': "moves s ss s'" "suffix_spelled float_suffix_table suffix ss" by simp_all
      have "(if suffix \<noteq> None then lx_offset s' else lx_offset s) = lx_offset s'"
        using ss' by (auto simp: suffix_spelled_def moves_fields)
      with Some suf wf have eq: "finish_float pf (lx_offset st) (lx_offset s) raw s =
          push_token (TkFloat ?tok) (span_new (lx_offset st) (lx_offset s')) s'"
        by (auto simp: finish_float_def Let_def)
      have "spells pf (TkFloat ?tok) (ds @ ss)"
        using ss'(2) Some raw by auto
      with token_stepI [OF moves_trans [OF m(1) ss'(1)]] m(2) show ?thesis unfolding eq by simp
    qed
  qed
qed

lemma fraction_moves: "lex_fraction s = (b, s') \<Longrightarrow> \<exists>us. moves s us s' \<and> (b \<or> us = [])"
proof (cases "fst (lex_fraction s)")
  case True
  then have "peek s = Some (ch CHR ''.'')" by (auto simp: lex_fraction_def split: if_splits)
  from moves_trans [OF moves_bump_peek [OF this] moves_bump_while] True
  show "lex_fraction s = (b, s') \<Longrightarrow> ?thesis" by (auto simp: lex_fraction_def split: if_splits)
next
  case False
  then show "lex_fraction s = (b, s') \<Longrightarrow> ?thesis"
    by (intro exI [of _ "[]"]) (auto simp: lex_fraction_def moves_refl split: if_splits)
qed

lemma moves_bump_if: "\<exists>us. moves s us (if peek s \<in> {Some a, Some b} then bump s else s)"
  by (cases "peek s \<in> {Some a, Some b}") (auto intro: moves_bump_peek moves_refl)

lemma exponent_moves: "lex_exponent s = (b, s') \<Longrightarrow> \<exists>us. moves s us s' \<and> (b \<or> us = [])"
proof (cases "fst (lex_exponent s)")
  case True
  let ?s2 = "if peek (bump s) \<in> {Some (ch CHR ''+''), Some (ch CHR ''-'')} then bump (bump s) else bump s"
  from True obtain e where e: "peek s = Some e"
    by (auto simp: lex_exponent_def split: if_splits)
  obtain us where us: "moves (bump s) us ?s2" using moves_bump_if by blast
  from moves_trans [OF moves_trans [OF moves_bump_peek [OF e] us] moves_bump_while] True
  show "lex_exponent s = (b, s') \<Longrightarrow> ?thesis"
    by (auto simp: lex_exponent_def Let_def split: if_splits)
next
  case False
  then show "lex_exponent s = (b, s') \<Longrightarrow> ?thesis"
    by (intro exI [of _ "[]"]) (auto simp: lex_exponent_def Let_def moves_refl split: if_splits)
qed

lemma digits_value_decimal:
  assumes "list_all is_ascii_digit_char ds"
  shows "digits_value ds = radix_value 10 ds"
  using assms by (auto simp: digits_value_def is_ascii_digit_char_def split: list.split)

lemma hex_step:
  assumes "lx_rest st = 48 # x # cs" "x \<in> {120, 88}"
  shows "token_step pf st (lex_hex_number st)"
proof -
  let ?hs = "takeWhile is_ascii_hexdigit cs"
  have r1: "lx_rest (bump st) = x # cs" using assms(1) by (simp add: bump_def)
  have m2: "moves st [48, x] (bump (bump st))"
    using moves_trans [OF moves_bump [OF assms(1)] moves_bump [OF r1]] by simp
  have r2: "lx_rest (bump (bump st)) = cs" using r1 by (simp add: bump_def)
  have h: "moves (bump (bump st)) ?hs (bump_while is_ascii_hexdigit (bump (bump st)))"
    using moves_bump_while [of "bump (bump st)" is_ascii_hexdigit] r2 by simp
  have m: "moves st (48 # x # ?hs) (bump_while is_ascii_hexdigit (bump (bump st)))"
    using moves_trans [OF m2 h] by simp
  show ?thesis
  proof (cases "?hs = []")
    case True
    with h have "lx_offset (bump_while is_ascii_hexdigit (bump (bump st))) = lx_offset (bump (bump st))"
      by (simp add: moves_fields)
    then show ?thesis
      unfolding lex_hex_number_def Let_def
      using token_step_push_error [OF moves_extends [OF m]] moves_fields(1) [OF m] by simp
  next
    case False
    then have "0 < blen ?hs" by (cases ?hs) auto
    with h have "lx_offset (bump_while is_ascii_hexdigit (bump (bump st))) \<noteq> lx_offset (bump (bump st))"
      by (simp add: moves_fields)
    moreover have "token_step pf st (finish_int (lx_offset st)
        (lx_offset (bump_while is_ascii_hexdigit (bump (bump st)))) (''0x'' @ utf8_encode_all ?hs)
        (utf8_encode_all (48 # x # ?hs)) (parse_u128 16 ?hs)
        (bump_while is_ascii_hexdigit (bump (bump st))))"
      by (rule finish_int_step [OF m]) (use assms(2) in \<open>auto simp: parse_u128_def digits_value_def\<close>)
    ultimately show ?thesis
      unfolding lex_hex_number_def Let_def moves_slice [OF m] moves_slice [OF h] by simp
  qed
qed

lemma number_step:
  assumes rest: "lx_rest st = c # cs" and digit: "is_ascii_digit_char c"
  shows "token_step pf st (lex_number pf st)"
proof (cases "peek st = Some (ch CHR ''0'') \<and> peek_next st \<in> {Some (ch CHR ''x''), Some (ch CHR ''X'')}")
  case True
  with rest obtain x cs' where "lx_rest st = 48 # x # cs'" "x \<in> {120, 88}"
    by (auto simp: peek_def peek_next_def split: list.splits)
  from hex_step [OF this] True show ?thesis by (simp add: lex_number_def)
next
  case False
  let ?ds = "takeWhile is_ascii_digit_char (lx_rest st)"
  obtain frac s1 where f: "lex_fraction (bump_while is_ascii_digit_char st) = (frac, s1)" by force
  obtain expo s2 where e: "lex_exponent s1 = (expo, s2)" by force
  obtain us where us: "moves (bump_while is_ascii_digit_char st) us s1" "frac \<or> us = []"
    using fraction_moves [OF f] by blast
  obtain vs where vs: "moves s1 vs s2" "expo \<or> vs = []"
    using exponent_moves [OF e] by blast
  have m: "moves st ((?ds @ us) @ vs) s2"
    using moves_trans [OF moves_trans [OF moves_bump_while us(1)] vs(1)] .
  have ne: "(?ds @ us) @ vs \<noteq> []" using rest digit by simp
  have eq: "lex_number pf st =
     (if frac \<or> expo then finish_float pf (lx_offset st) (lx_offset s2) (utf8_encode_all ((?ds @ us) @ vs)) s2
      else finish_int (lx_offset st) (lx_offset s2) (utf8_encode_all ((?ds @ us) @ vs))
        (utf8_encode_all ((?ds @ us) @ vs)) (parse_u128 10 ((?ds @ us) @ vs)) s2)"
    using False unfolding lex_number_def Let_def f prod.case e moves_slice [OF m] by auto
  show ?thesis
  proof (cases "frac \<or> expo")
    case True
    with finish_float_step [OF m ne refl] eq show ?thesis by simp
  next
    case no: False
    with us vs have "list_all is_ascii_digit_char ((?ds @ us) @ vs)"
      by (auto simp: list_all_iff dest: set_takeWhileD)
    from digits_value_decimal [OF this]
    have "parse_u128 10 ((?ds @ us) @ vs) =
        (if digits_value ((?ds @ us) @ vs) < 2 ^ 128 then Some (digits_value ((?ds @ us) @ vs)) else None)"
      by (simp add: parse_u128_def)
    from finish_int_step [OF m ne refl this] no eq show ?thesis by simp
  qed
qed

section \<open>Strings and characters\<close>

lemma bump_fields [simp]:
  "lx_tokens (bump s) = lx_tokens s" "lx_errors (bump s) = lx_errors s"
  "lx_tokens (bump_while P s) = lx_tokens s" "lx_errors (bump_while P s) = lx_errors s"
  by (simp_all add: bump_def bump_while_def split: list.split)

lemma errors_push [simp]: "lx_errors (push_error code message sp s) \<noteq> lx_errors s"
  by (simp add: push_error_def)

lemma unicode_escape_tokens:
  "lex_unicode_escape s = (v, s') \<Longrightarrow> lx_tokens s' = lx_tokens s \<and> (v = None \<longrightarrow> lx_errors s' \<noteq> lx_errors s)"
proof -
  have *: "lx_errors (push_error code message sp s') \<noteq> lx_errors s" if "lx_errors s' = lx_errors s"
    for code message sp s'
    using that by (simp add: push_error_def)
  show "lex_unicode_escape s = (v, s') \<Longrightarrow> ?thesis"
    by (auto simp: lex_unicode_escape_def Let_def * split: if_splits)
qed

lemma escape_tokens:
  assumes "lex_escape_sequence s = (v, s')"
  shows "lx_tokens s' = lx_tokens s" "v = None \<Longrightarrow> lx_errors s' \<noteq> lx_errors s \<or> lx_rest s' = []"
  using assms unicode_escape_tokens [of s v s']
  by (auto simp: lex_escape_sequence_def Let_def peek_def push_error_def split: option.splits list.splits if_splits)

lemma string_loop_tokens:
  "string_loop start out s = ((out', terminated), s') \<Longrightarrow>
     lx_tokens s' = lx_tokens s \<and> (terminated \<longrightarrow> (\<exists>body. lx_done s' = lx_done s @ body @ [34]))"
proof (induction start out s arbitrary: out' terminated s' rule: string_loop.induct)
  case (1 start out s)
  show ?case
  proof (cases "peek s")
    case None
    with "1.prems" show ?thesis by (simp add: string_loop.simps)
  next
    case (Some c)
    note m = moves_fields(3) [OF moves_bump_peek [OF Some]]
    consider "c = 34" | "c = 92" | "c = newline_char" | "c \<notin> {34, 92, newline_char}" by blast
    then show ?thesis
    proof cases
      case 1
      with Some "1.prems" m show ?thesis
        by (subst (asm) string_loop.simps) (auto intro: exI [of _ "[]"])
    next
      case 2
      obtain v s1 where esc: "lex_escape_sequence (bump s) = (v, s1)" by force
      from extends_escape [OF extends_refl, of "bump s"] esc obtain us where
        us: "lx_done s1 = lx_done s @ 92 # us" using m 2 by (auto simp: extends_def)
      from "1.prems" Some 2 esc have
        "string_loop start (case v of Some x \<Rightarrow> out @ [x] | None \<Rightarrow> out) s1 = ((out', terminated), s')"
        by (subst (asm) string_loop.simps) simp
      from "1.IH"(1) [OF Some _ 2 esc [symmetric] this] 2 us escape_tokens(1) [OF esc]
      show ?thesis by (auto intro: exI [of _ "92 # us @ _"])
    next
      case 3
      with Some "1.prems" show ?thesis
        by (subst (asm) string_loop.simps) (auto simp: newline_char_def)
    next
      case 4
      from "1.prems" Some 4 have
        "string_loop start (out @ [c]) (bump s) = ((out', terminated), s')"
        by (subst (asm) string_loop.simps) simp
      from "1.IH"(2) [OF Some _ _ _ this] 4 m show ?thesis by (auto intro: exI [of _ "c # _"])
    qed
  qed
qed

lemma string_step:
  assumes "lx_rest st = 34 # cs"
  shows "token_step pf st (lex_string st)"
proof -
  obtain out terminated s' where loop: "string_loop (lx_offset st) [] (bump st) = ((out, terminated), s')"
    by (metis prod.exhaust)
  note t = string_loop_tokens [OF loop]
  have ext: "extends st s'"
    using extends_string_loop [of st "bump st" "lx_offset st" "[]"] loop by (simp add: extends_rules)
  show ?thesis
  proof (cases terminated)
    case False
    with loop have "lex_string st =
        push_error ''E0006'' ''unterminated string literal'' (error_span (lx_offset st) s') s'"
      by (simp add: lex_string_def Let_def)
    then show ?thesis using token_step_push_error [OF ext] t by simp
  next
    case True
    with t obtain body where "lx_done s' = lx_done (bump st) @ body @ [34]" by blast
    then have dn: "lx_done s' = lx_done st @ (34 # body @ [34])"
      using moves_fields(3) [OF moves_bump [OF assms]] by simp
    from t have toks: "lx_tokens s' = lx_tokens st" by simp
    from True loop have eq: "lex_string st =
        push_token (TkString (utf8_encode_all out)) (span_new (lx_offset st) (lx_offset s')) s'"
      by (simp add: lex_string_def Let_def)
    show ?thesis
      unfolding token_step_def eq
      by (intro exI [of _ "34 # body @ [34]"] exI [of _ "[]"] exI [of _ "Some (TkString (utf8_encode_all out))"])
        (simp add: push_token_def token_of_def lx_offset_def dn toks)
  qed
qed

lemma template_loop_moves:
  "template_loop s = (terminated, s') \<Longrightarrow>
     \<exists>body. moves s body s' \<and> (terminated \<longrightarrow> peek s' = Some 34)"
proof (induction s arbitrary: terminated s' rule: template_loop.induct)
  case (1 s)
  show ?case
  proof (cases "peek s")
    case None
    with "1.prems" show ?thesis by (auto simp: template_loop.simps intro: moves_refl)
  next
    case (Some c)
    note m = moves_bump_peek [OF Some]
    consider "c = 34" | "c = 92" "peek (bump s) = None" | d where "c = 92" "peek (bump s) = Some d"
      | "c = newline_char" | "c \<notin> {34, 92, newline_char}" by blast
    then show ?thesis
    proof cases
      case 1
      with Some "1.prems" show ?thesis by (subst (asm) template_loop.simps) (auto intro: moves_refl)
    next
      case 2
      with Some "1.prems" m show ?thesis by (subst (asm) template_loop.simps) auto
    next
      case (3 d)
      with Some "1.prems" have "template_loop (bump (bump s)) = (terminated, s')"
        by (subst (asm) template_loop.simps) simp
      from "1.IH"(1) [OF Some _ _ _ this] 3 obtain body where
        body: "moves (bump (bump s)) body s'" "terminated \<longrightarrow> peek s' = Some 34" by auto
      from moves_trans [OF moves_trans [OF m moves_bump_peek [OF 3(2)]] body(1)] body(2)
      show ?thesis by blast
    next
      case 4
      with Some "1.prems" show ?thesis
        by (subst (asm) template_loop.simps) (auto simp: newline_char_def intro: moves_refl)
    next
      case 5
      with Some "1.prems" have "template_loop (bump s) = (terminated, s')"
        by (subst (asm) template_loop.simps) simp
      from "1.IH"(2) [OF Some _ _ _ this] 5 m show ?thesis by (auto dest: moves_trans)
    qed
  qed
qed

lemma template_step:
  assumes "lx_rest st = p # 34 # cs" "p \<in> {102, 36}"
  shows "token_step pf st (lex_template_string st)"
proof -
  obtain terminated s' where loop: "template_loop (bump (bump st)) = (terminated, s')" by force
  from template_loop_moves [OF loop] obtain body where
    body: "moves (bump (bump st)) body s'" "terminated \<longrightarrow> peek s' = Some 34" by blast
  have r1: "lx_rest (bump st) = 34 # cs" using assms(1) by (simp add: bump_def)
  have m2: "moves st [p, 34] (bump (bump st))"
    using moves_trans [OF moves_bump [OF assms(1)] moves_bump [OF r1]] by simp
  from moves_trans [OF m2 body(1)] have m: "moves st (p # 34 # body) s'" by simp
  show ?thesis
  proof (cases terminated)
    case False
    with loop have "lex_template_string st =
        push_error ''E0006'' ''unterminated template string literal'' (error_span (lx_offset st) s') s'"
      by (simp add: lex_template_string_def Let_def)
    then show ?thesis using token_step_push_error [OF moves_extends [OF m]] moves_fields(1) [OF m] by simp
  next
    case True
    with moves_trans [OF m moves_bump_peek] body(2) have m': "moves st (p # 34 # body @ [34]) (bump s')" by simp
    from True loop have "lex_template_string st = push_token (TkTemplate (utf8_encode_all body))
        (span_new (lx_offset st) (lx_offset (bump s'))) (bump s')"
      by (simp add: lex_template_string_def Let_def moves_slice [OF body(1)])
    then show ?thesis using token_stepI [OF m'] assms(2) by simp
  qed
qed

lemma char_step:
  assumes "lx_rest st = 39 # cs"
  shows "token_step pf st (lex_char st)"
proof -
  let ?st1 = "bump st"
  have m1: "moves st [39] ?st1" using moves_bump [OF assms] .
  consider "peek ?st1 = Some 39" | "peek ?st1 \<in> {Some newline_char, None}" "peek ?st1 \<noteq> Some 39"
    | d where "peek ?st1 = Some d" "d \<noteq> 39" "d \<noteq> newline_char" by force
  then show ?thesis
  proof cases
    case 1
    then show ?thesis
      by (simp add: lex_char_def Let_def token_step_push_error extends_rules)
  next
    case 2
    then show ?thesis
      by (simp add: lex_char_def Let_def token_step_push_error extends_rules)
  next
    case (3 d)
    obtain v st2 where st2: "(if peek ?st1 = Some 92 then lex_escape_sequence (bump ?st1)
        else (peek ?st1, bump ?st1)) = (v, st2)" by force
    from extends_escape [of ?st1 "bump ?st1"] st2 have ext1: "extends ?st1 st2"
      by (auto simp: extends_rules split: if_splits)
    then have ext: "extends st st2" using extends_trans [OF moves_extends [OF m1]] by blast
    from st2 have toks: "lx_tokens st2 = lx_tokens st"
      by (auto simp: escape_tokens(1) split: if_splits)
    have body: "\<exists>body. lx_done st2 = lx_done st @ 39 # body \<and> body \<noteq> []"
    proof -
      have m2: "moves ?st1 [d] (bump ?st1)" using moves_bump_peek [OF 3(1)] .
      have "extends (bump ?st1) st2"
        using st2 extends_escape [of "bump ?st1" "bump ?st1"] by (auto simp: extends_rules split: if_splits)
      then obtain us where "lx_done st2 = lx_done (bump ?st1) @ us" by (auto simp: extends_def)
      then show ?thesis using moves_fields(3) [OF m1] moves_fields(3) [OF m2] by auto
    qed
    show ?thesis
    proof (cases "peek st2 = Some 39")
      case False
      with 3 st2 have "lex_char st = push_error ''E0008'' one_codepoint
          (error_span (lx_offset st) (skip_to_quote st2)) (skip_to_quote st2)"
        by (simp add: lex_char_def Let_def split_def)
      moreover have "lx_tokens (skip_to_quote st2) = lx_tokens st"
        using toks by (simp add: skip_to_quote_def Let_def)
      ultimately show ?thesis
        using ext by (simp add: token_step_push_error extends_rules)
    next
      case q: True
      show ?thesis
      proof (cases v)
        case None
        with 3 st2 q have eq: "lex_char st = bump st2"
          by (simp add: lex_char_def Let_def)
        from None 3 st2 have "lex_escape_sequence (bump ?st1) = (None, st2)" by (auto split: if_splits)
        from escape_tokens(2) [OF this] q have err: "lx_errors st2 \<noteq> lx_errors st"
          by (auto simp: peek_def)
        show ?thesis
          unfolding eq by (rule token_step_error) (use ext toks err in \<open>simp_all add: extends_rules\<close>)
      next
        case (Some c)
        with 3 st2 q have eq: "lex_char st =
            push_token (TkChar c) (span_new (lx_offset st) (lx_offset (bump st2))) (bump st2)"
          by (simp add: lex_char_def Let_def)
        from body obtain bs where bs: "lx_done st2 = lx_done st @ 39 # bs" "bs \<noteq> []" by blast
        have dn: "lx_done (bump st2) = lx_done st @ (39 # bs @ [39])"
          using moves_fields(3) [OF moves_bump_peek [OF q]] bs(1) by simp
        show ?thesis
          unfolding token_step_def eq
          by (intro exI [of _ "39 # bs @ [39]"] exI [of _ "[]"] exI [of _ "Some (TkChar c)"])
            (simp add: push_token_def token_of_def lx_offset_def dn toks bs(2))
      qed
    qed
  qed
qed

lemma peek_next_rest: "lx_rest st = c # cs \<Longrightarrow> peek_next st = Some d \<Longrightarrow> \<exists>ds. lx_rest st = c # d # ds"
  by (auto simp: peek_next_def split: list.splits)

lemma lex_step_token:
  assumes "lx_rest st = c # cs"
  shows "token_step pf st (lex_step pf c st)"
proof -
  have white: "token_step pf st (bump st)" if "c \<in> {32, newline_char, 13, 9}"
    by (rule token_step_blank [of _ _ "[c]"])
      (use that moves_fields(3) [OF moves_bump [OF assms]] in \<open>auto simp: blank_def\<close>)
  have comment: "token_step pf st (lex_comment st)" if "c = 47" "peek_next st = Some 47"
    using peek_next_rest [OF assms that(2)] that(1) by (auto intro: comment_step)
  have template: "token_step pf st (lex_template_string st)"
    if "c \<in> {102, 36}" "peek_next st = Some 34"
    using peek_next_rest [OF assms that(2)] that(1) template_step [of st c] by blast
  have under: "token_step pf st (lex_underscore st)" if "c = 95"
    using assms that by (auto intro: underscore_step)
  have string: "token_step pf st (lex_string st)" if "c = 34"
    using assms that by (auto intro: string_step)
  have char: "token_step pf st (lex_char st)" if "c = 39"
    using assms that by (auto intro: char_step)
  have other: "token_step pf st (unexpected_character c st)"
    by (simp add: unexpected_character_def Let_def token_step_push_error extends_rules)
  show ?thesis
    using white comment template under string char other ident_step [OF assms] op_step [OF assms]
      number_step [OF assms]
    unfolding lex_step_def by (simp split: option.split)
qed

section \<open>The whole source\<close>

text \<open>A token whose span is the place of a piece of the text that spells it.\<close>

definition located :: "(string \<Rightarrow> f64 option) \<Rightarrow> rchar list \<Rightarrow> token \<Rightarrow> bool" where
  "located pf source t \<longleftrightarrow>
     (\<exists>before cs after. source = before @ cs @ after \<and> spells pf (tok_kind t) cs \<and>
        tok_span t = span_new (blen before) (blen (before @ cs)))"

definition in_order :: "token list \<Rightarrow> bool" where
  "in_order ts = sorted_wrt (\<lambda>t u. span_end (tok_span t) \<le> span_start (tok_span u)) ts"

text \<open>
  A text, from a byte offset on, cut into tokens and blank pieces with nothing between them; the last
  token is the end of the file.
\<close>

inductive tiled :: "(string \<Rightarrow> f64 option) \<Rightarrow> nat \<Rightarrow> rchar list \<Rightarrow> token list \<Rightarrow> bool" for pf where
  tiled_eof: "tiled pf off [] [\<lparr>tok_kind = TkEof, tok_span = span_new off off\<rparr>]"
| tiled_blank: "blank cs \<Longrightarrow> tiled pf (off + blen cs) rest ts \<Longrightarrow> tiled pf off (cs @ rest) ts"
| tiled_token: "cs \<noteq> [] \<Longrightarrow> spells pf k cs \<Longrightarrow> tiled pf (off + blen cs) rest ts \<Longrightarrow>
    tiled pf off (cs @ rest) (\<lparr>tok_kind = k, tok_span = span_new off (off + blen cs)\<rparr> # ts)"

definition sound_state :: "(string \<Rightarrow> f64 option) \<Rightarrow> lexer \<Rightarrow> bool" where
  "sound_state pf st \<longleftrightarrow>
     list_all (\<lambda>t. located pf (lx_done st) t \<and> span_end (tok_span t) \<le> lx_offset st) (lx_tokens st) \<and>
     in_order (lx_tokens st)"

lemma located_append: "located pf cs t \<Longrightarrow> located pf (cs @ ds) t"
  unfolding located_def by (metis append.assoc)

lemma sound_extends:
  assumes "sound_state pf st" "lx_done st' = lx_done st @ cs" "lx_tokens st' = lx_tokens st"
  shows "sound_state pf st'"
  using assms unfolding sound_state_def
  by (auto simp: list_all_iff lx_offset_def intro: located_append dest!: bspec)

lemma in_order_snoc:
  "in_order (ts @ [t]) \<longleftrightarrow> in_order ts \<and> (\<forall>u \<in> set ts. span_end (tok_span u) \<le> span_start (tok_span t))"
  by (simp add: in_order_def sorted_wrt_append)

lemma sound_token:
  assumes "sound_state pf st" "lx_done st' = lx_done st @ cs @ post" "spells pf k cs"
    "lx_tokens st' = lx_tokens st @ [token_of st cs k]"
  shows "sound_state pf st'"
proof -
  have "located pf (lx_done st') (token_of st cs k)"
    unfolding located_def token_of_def
    by (rule exI [of _ "lx_done st"], rule exI [of _ cs], rule exI [of _ post])
      (use assms in \<open>simp add: lx_offset_def\<close>)
  with assms show ?thesis
    unfolding sound_state_def
    by (auto simp: list_all_iff lx_offset_def in_order_snoc token_of_def span_new_def
        intro: located_append dest!: bspec)
qed

lemma sound_step: "sound_state pf st \<Longrightarrow> token_step pf st st' \<Longrightarrow> sound_state pf st'"
  by (auto simp: token_step_def intro: sound_extends sound_token split: option.splits)

lemma extends_run: "extends st (lex_run pf st)"
proof (induction pf st rule: lex_run.induct)
  case (1 pf st)
  show ?case
    by (subst lex_run.simps)
      (auto simp: extends_rules split: option.split intro: extends_trans [OF extends_step [OF extends_refl] "1.IH"])
qed

lemma extends_no_errors:
  "extends a b \<Longrightarrow> extends b c \<Longrightarrow> lx_errors c = lx_errors a \<Longrightarrow> lx_errors b = lx_errors a"
  unfolding extends_def by (metis append.assoc append_is_Nil_conv append_self_conv)

lemma run_sound:
  "sound_state pf st \<Longrightarrow>
     \<exists>s. lex_run pf st = push_token TkEof (span_new (lx_offset s) (lx_offset s)) s \<and>
       sound_state pf s \<and> extends st s \<and> lx_rest s = []"
proof (induction pf st rule: lex_run.induct)
  case (1 pf st)
  show ?case
  proof (cases "peek st")
    case None
    with "1.prems" show ?thesis
      by (auto simp: lex_run.simps [of pf st] peek_def intro!: extends_refl split: list.splits)
  next
    case (Some c)
    then obtain cs where rest: "lx_rest st = c # cs" by (auto dest: peek_SomeD)
    from "1.IH" [OF Some sound_step [OF "1.prems" lex_step_token [OF rest]]] Some
    show ?thesis
      by (auto simp: lex_run.simps [of pf st] intro!: extends_trans extends_step [OF extends_refl])
  qed
qed

lemma run_tiled:
  "lx_errors (lex_run pf st) = lx_errors st \<Longrightarrow>
     \<exists>ts. lx_tokens (lex_run pf st) = lx_tokens st @ ts \<and> tiled pf (lx_offset st) (lx_rest st) ts"
proof (induction pf st rule: lex_run.induct)
  case (1 pf st)
  show ?case
  proof (cases "peek st")
    case None
    then show ?thesis
      by (simp add: lex_run.simps [of pf st] peek_def push_token_def tiled_eof split: list.splits)
  next
    case (Some c)
    then obtain cs where rest: "lx_rest st = c # cs" by (auto dest: peek_SomeD)
    let ?s = "lex_step pf c st"
    from Some have eq: "lex_run pf st = lex_run pf ?s" by (simp add: lex_run.simps [of pf st])
    have ext: "extends st ?s" by (simp add: extends_rules)
    have no: "lx_errors ?s = lx_errors st"
      by (rule extends_no_errors [OF ext extends_run [of ?s pf]]) (use "1.prems" eq in simp)
    from "1.IH" [OF Some] "1.prems" eq no obtain ts where
      ts: "lx_tokens (lex_run pf st) = lx_tokens ?s @ ts" "tiled pf (lx_offset ?s) (lx_rest ?s) ts" by auto
    from lex_step_token [OF rest, of pf] no obtain us ko where
      us: "lx_done ?s = lx_done st @ us" and
      ko: "case ko of None \<Rightarrow> lx_tokens ?s = lx_tokens st \<and> blank us
        | Some k \<Rightarrow> us \<noteq> [] \<and> spells pf k us \<and> lx_tokens ?s = lx_tokens st @ [token_of st us k]"
      by (auto simp: token_step_def)
    from us ext have rest_eq: "lx_rest st = us @ lx_rest ?s" by (auto simp: extends_def)
    have off: "lx_offset ?s = lx_offset st + blen us" using us by (simp add: lx_offset_def)
    show ?thesis
    proof (cases ko)
      case None
      with ko tiled_blank [of us pf "lx_offset st"] ts off rest_eq show ?thesis by auto
    next
      case (Some k)
      with ko tiled_token [of us pf k "lx_offset st"] ts off rest_eq show ?thesis
        by (auto simp: token_of_def)
    qed
  qed
qed

lemma new_lexer_fields [simp]:
  "lx_done (new_lexer cs) = []" "lx_rest (new_lexer cs) = cs" "lx_tokens (new_lexer cs) = []"
  "lx_errors (new_lexer cs) = []" "lx_offset (new_lexer cs) = 0"
  by (simp_all add: new_lexer_def lx_offset_def)

lemma registered_diagnostic:
  "is_registered (le_code e) \<Longrightarrow> lex_diagnostic derive source_file e \<noteq> None"
  by (simp add: lex_diagnostic_def diagnostic_error_def assert_registered_iff)

lemma those_Some: "list_all (\<lambda>x. x \<noteq> None) xs \<Longrightarrow> \<exists>ys. those xs = Some ys \<and> length ys = length xs"
  by (induction xs) auto

lemma lex_diagnostics:
  "\<exists>ds. lex pf derive source source_file = Some (lx_tokens (lex_chars pf (str_chars source)), ds) \<and>
     length ds = length (lx_errors (lex_chars pf (str_chars source)))"
proof -
  let ?st = "lex_chars pf (str_chars source)"
  from extends_run [of "new_lexer (str_chars source)" pf]
  have "list_all (\<lambda>e. is_registered (le_code e)) (lx_errors ?st)"
    by (auto simp: extends_def lex_chars_def)
  then have "list_all (\<lambda>x. x \<noteq> None) (map (lex_diagnostic derive source_file) (lx_errors ?st))"
    by (simp add: list_all_iff registered_diagnostic del: not_None_eq)
  from those_Some [OF this] show ?thesis
    by (auto simp: lex_def lex_with_comments_def Let_def)
qed

lemma lex_located:
  "\<exists>ts ds. lex pf derive source source_file =
       Some (ts @ [\<lparr>tok_kind = TkEof,
                    tok_span = span_new (blen (str_chars source)) (blen (str_chars source))\<rparr>], ds) \<and>
     list_all (\<lambda>t. located pf (str_chars source) t \<and> span_end (tok_span t) \<le> blen (str_chars source)) ts \<and>
     in_order ts"
proof -
  let ?st = "new_lexer (str_chars source)"
  have "sound_state pf ?st" by (simp add: sound_state_def in_order_def)
  from run_sound [OF this] obtain s where
    s: "lex_run pf ?st = push_token TkEof (span_new (lx_offset s) (lx_offset s)) s"
      "sound_state pf s" "extends ?st s" "lx_rest s = []" by blast
  from s(3,4) have dn: "lx_done s = str_chars source" by (simp add: extends_def)
  obtain ds where "lex pf derive source source_file = Some (lx_tokens (lex_chars pf (str_chars source)), ds)"
    using lex_diagnostics by blast
  with s(1,2) dn show ?thesis
    by (auto simp: lex_chars_def push_token_def sound_state_def lx_offset_def)
qed

text \<open>
  C18: The lexer never panics on an unregistered diagnostic code, and on every source, with lexical
  errors or not, its tokens are spelled by the text of their spans, stand in order without overlaps,
  and end with the end of the file at the length of the source.
\<close>

theorem lex_tokens_located:
  "\<exists>ts ds. lex pf derive source source_file =
       Some (ts @ [\<lparr>tok_kind = TkEof,
                    tok_span = span_new (blen (str_chars source)) (blen (str_chars source))\<rparr>], ds) \<and>
     list_all (\<lambda>t. located pf (str_chars source) t \<and> span_end (tok_span t) \<le> blen (str_chars source)) ts \<and>
     in_order ts"
  by (rule lex_located)

text \<open>
  C17: When the lexer reports nothing, it has accounted for the whole source: the source is the
  tokens' texts in order, with only white space characters and line comments between them.
\<close>

theorem lex_leaves_nothing_out:
  assumes "lex pf derive source source_file = Some (ts, [])"
  shows "tiled pf 0 (str_chars source) ts"
proof -
  let ?st = "new_lexer (str_chars source)"
  from lex_diagnostics [of pf derive source source_file] assms
  have "lx_errors (lex_run pf ?st) = lx_errors ?st" "ts = lx_tokens (lex_run pf ?st)"
    by (auto simp: lex_chars_def)
  with run_tiled [of pf ?st] show ?thesis by auto
qed

theorem lex_leaves_nothing_out_witness:
  "tiled (\<lambda>s. None) 0 (str_chars ''fn f_1() { 0x1Fu8 >>= 3 // x'')
     (fst (the (lex (\<lambda>s. None) (\<lambda>code. None) ''fn f_1() { 0x1Fu8 >>= 3 // x'' ''a.aic'')))"
proof (rule lex_leaves_nothing_out)
  show "lex (\<lambda>s. None) (\<lambda>code. None) ''fn f_1() { 0x1Fu8 >>= 3 // x'' ''a.aic'' =
    Some (fst (the (lex (\<lambda>s. None) (\<lambda>code. None) ''fn f_1() { 0x1Fu8 >>= 3 // x'' ''a.aic'')), [])"
    by code_simp
qed

end
