(* ===== verification/ParserState.thy ===== *)
theory ParserState
  imports LexerTokens
begin

text \<open>
  The state of the parser and its primitive operations: \<open>src/parser.rs\<close>. Every \<open>&mut self\<close> method is
  a computation in the state monad over the record \<open>parser\<close>. A method that returns an \<open>Option\<close> is a
  computation with an \<open>option\<close> value, and \<open>qbind\<close> is the operator \<open>?\<close>. The code counts every look at
  the current token as a step and shows the parser only the end of the file once the budget of steps
  is spent; the model counts the same steps.

  Recursion is tied over a record of the calls one level below (\<open>rec_calls\<close>), so that each method is
  a definition of its own; a call below level zero and a loop without fuel raise the flag
  \<open>pr_halted\<close>, as does a panic. Theory \<open>ParserTotal\<close> shows that the flag is never raised. Counters
  and offsets are unbounded here: their values stay below the number of bytes of the source times a
  small constant.
\<close>

section \<open>State\<close>

record parser =
  pr_file :: string
  pr_tokens :: "token list"
  pr_index :: nat
  pr_diagnostics :: "diagnostic list"
  pr_for_counter :: nat
  pr_tuple_binding_counter :: nat
  pr_disallow_struct_literal :: bool
  pr_steps :: nat
  pr_step_budget :: nat
  pr_stuck_at :: nat
  pr_halted :: bool

type_synonym 'a parsing = "(parser, 'a) state"

definition PARSER_STEPS_PER_TOKEN :: nat where
  "PARSER_STEPS_PER_TOKEN = 128"

definition PARSER_STEP_BUDGET_BASE :: nat where
  "PARSER_STEP_BUDGET_BASE = 4096"

definition parser_step_budget :: "nat \<Rightarrow> nat" where
  "parser_step_budget token_count = token_count * PARSER_STEPS_PER_TOKEN + PARSER_STEP_BUDGET_BASE"

definition new_parser :: "string \<Rightarrow> token list \<Rightarrow> parser" where
  "new_parser src_file tokens =
     \<lparr>pr_file = src_file, pr_tokens = tokens, pr_index = 0, pr_diagnostics = [], pr_for_counter = 0,
      pr_tuple_binding_counter = 0, pr_disallow_struct_literal = False, pr_steps = 0,
      pr_step_budget = parser_step_budget (length tokens), pr_stuck_at = 0, pr_halted = False\<rparr>"

definition budget_exhausted :: "parser \<Rightarrow> bool" where
  "budget_exhausted st = (pr_steps st > pr_step_budget st)"

section \<open>Control\<close>

definition with_state :: "(parser \<Rightarrow> 'a) \<Rightarrow> 'a parsing" where
  "with_state f = State (\<lambda>st. (f st, st))"

definition modify :: "(parser \<Rightarrow> parser) \<Rightarrow> unit parsing" where
  "modify f = State (\<lambda>st. ((), f st))"

definition halt :: "'a \<Rightarrow> 'a parsing" where
  "halt x = State (\<lambda>st. (x, st\<lparr>pr_halted := True\<rparr>))"

definition qbind :: "'a option parsing \<Rightarrow> ('a \<Rightarrow> 'b option parsing) \<Rightarrow> 'b option parsing" where
  "qbind m f = do { r \<leftarrow> m; case r of None \<Rightarrow> ret None | Some x \<Rightarrow> f x }"

text \<open>
  A loop over the local variables \<open>s\<close>: the body goes on with \<open>Inl\<close> and leaves the loop with \<open>Inr\<close>.
  In \<open>qloop\<close> the result is an option, and \<open>qstep\<close> is \<open>?\<close> inside the body, which leaves the method.
\<close>

primrec loop :: "nat \<Rightarrow> 'r \<Rightarrow> ('s \<Rightarrow> ('s + 'r) parsing) \<Rightarrow> 's \<Rightarrow> 'r parsing" where
  "loop 0 x body s = halt x"
| "loop (Suc n) x body s =
     do { r \<leftarrow> body s; case r of Inl s' \<Rightarrow> loop n x body s' | Inr y \<Rightarrow> ret y }"

abbreviation qloop :: "nat \<Rightarrow> ('s \<Rightarrow> ('s + 'r option) parsing) \<Rightarrow> 's \<Rightarrow> 'r option parsing" where
  "qloop n \<equiv> loop n None"

abbreviation go_on :: "'s \<Rightarrow> ('s + 'r) parsing" where
  "go_on s \<equiv> ret (Inl s)"

abbreviation leave :: "'r \<Rightarrow> ('s + 'r) parsing" where
  "leave y \<equiv> ret (Inr y)"

definition qstep :: "'a option parsing \<Rightarrow> ('a \<Rightarrow> ('s + 'r option) parsing) \<Rightarrow> ('s + 'r option) parsing" where
  "qstep m f = do { r \<leftarrow> m; case r of None \<Rightarrow> leave None | Some x \<Rightarrow> f x }"

section \<open>Tokens\<close>

definition current :: "token parsing" where
  "current = State (\<lambda>st.
     let last_index = length (pr_tokens st) - 1;
         steps = pr_steps st + 1;
         st' = st\<lparr>pr_steps := steps\<rparr>
     in if steps > pr_step_budget st
        then (pr_tokens st ! last_index,
              if steps = pr_step_budget st + 1
              then st'\<lparr>pr_stuck_at := min (pr_index st) last_index\<rparr> else st')
        else (pr_tokens st ! min (pr_index st) last_index, st'))"

text \<open>\<open>at_kind\<close> with a \<open>matches!\<close> on a list of kinds.\<close>

definition at_kind :: "token_kind list \<Rightarrow> bool parsing" where
  "at_kind ks = do { t \<leftarrow> current; ret (tok_kind t \<in> set ks) }"

definition peek_tok :: "nat \<Rightarrow> token option parsing" where
  "peek_tok n = with_state (\<lambda>st.
     if budget_exhausted st then (if pr_tokens st = [] then None else Some (last (pr_tokens st)))
     else if pr_index st + n < length (pr_tokens st) then Some (pr_tokens st ! (pr_index st + n))
     else None)"

definition peek_is :: "nat \<Rightarrow> token_kind list \<Rightarrow> bool parsing" where
  "peek_is n ks =
     do { t \<leftarrow> peek_tok n; ret (case t of Some tok \<Rightarrow> tok_kind tok \<in> set ks | None \<Rightarrow> False) }"

definition current_span :: "span parsing" where
  "current_span = do { t \<leftarrow> current; ret (tok_span t) }"

definition previous_span :: "span parsing" where
  "previous_span = with_state (\<lambda>st. tok_span (pr_tokens st ! (pr_index st - 1)))"

definition bump_tok :: "unit parsing" where
  "bump_tok = modify (\<lambda>st.
     if budget_exhausted st then st\<lparr>pr_index := length (pr_tokens st) - 1\<rparr>
     else if pr_index st < length (pr_tokens st) - 1 then st\<lparr>pr_index := pr_index st + 1\<rparr>
     else st)"

section \<open>The calls one level below\<close>

record rec_calls =
  rc_derive :: derive_reasoning
  rc_float :: "string \<Rightarrow> f64 option"
  rc_fuel :: nat
  rc_expr :: "parser \<Rightarrow> expr option \<times> parser"
  rc_unary :: "parser \<Rightarrow> expr option \<times> parser"
  rc_if :: "parser \<Rightarrow> expr option \<times> parser"
  rc_type :: "parser \<Rightarrow> type_expr option \<times> parser"
  rc_pattern :: "parser \<Rightarrow> pattern option \<times> parser"
  rc_fragment :: "parser \<Rightarrow> expr option \<times> parser"

abbreviation below_expr :: "rec_calls \<Rightarrow> expr option parsing" where
  "below_expr c \<equiv> State (rc_expr c)"

abbreviation below_unary :: "rec_calls \<Rightarrow> expr option parsing" where
  "below_unary c \<equiv> State (rc_unary c)"

abbreviation below_if :: "rec_calls \<Rightarrow> expr option parsing" where
  "below_if c \<equiv> State (rc_if c)"

abbreviation below_type :: "rec_calls \<Rightarrow> type_expr option parsing" where
  "below_type c \<equiv> State (rc_type c)"

abbreviation below_pattern :: "rec_calls \<Rightarrow> pattern option parsing" where
  "below_pattern c \<equiv> State (rc_pattern c)"

section \<open>Diagnostics\<close>

definition report :: "diagnostic option \<Rightarrow> unit parsing" where
  "report d = State (\<lambda>st.
     case d of
       None \<Rightarrow> ((), st\<lparr>pr_halted := True\<rparr>)
     | Some d \<Rightarrow> ((), st\<lparr>pr_diagnostics := pr_diagnostics st @ [d]\<rparr>))"

definition perror :: "rec_calls \<Rightarrow> string \<Rightarrow> string \<Rightarrow> span \<Rightarrow> unit parsing" where
  "perror c code message sp =
     do { src_file \<leftarrow> with_state pr_file; report (diagnostic_error (rc_derive c) code message src_file sp) }"

definition perror_help :: "rec_calls \<Rightarrow> string \<Rightarrow> string \<Rightarrow> span \<Rightarrow> string \<Rightarrow> unit parsing" where
  "perror_help c code message sp hint =
     do {
       src_file \<leftarrow> with_state pr_file;
       report (map_option (with_help (rc_derive c) hint)
         (diagnostic_error (rc_derive c) code message src_file sp))
     }"

definition perror_fix ::
  "rec_calls \<Rightarrow> string \<Rightarrow> string \<Rightarrow> span \<Rightarrow> string \<Rightarrow> string \<Rightarrow> nat \<Rightarrow> unit parsing" where
  "perror_fix c code message sp fix_message replacement at_offset =
     do {
       src_file \<leftarrow> with_state pr_file;
       report (map_option
         (with_fix (rc_derive c)
           \<lparr>sf_message = fix_message, sf_replacement = Some replacement,
            sf_start = Some at_offset, sf_end = Some at_offset\<rparr>)
         (diagnostic_error (rc_derive c) code message src_file sp))
     }"

definition expect :: "rec_calls \<Rightarrow> token_kind list \<Rightarrow> string \<Rightarrow> string \<Rightarrow> span option parsing" where
  "expect c ks code message =
     do {
       t \<leftarrow> current;
       if tok_kind t \<in> set ks then do { t' \<leftarrow> current; bump_tok; ret (Some (tok_span t')) }
       else do { t' \<leftarrow> current; perror c code message (tok_span t'); ret None }
     }"

definition expect_ident :: "rec_calls \<Rightarrow> string \<Rightarrow> string \<Rightarrow> (string \<times> span) option parsing" where
  "expect_ident c code message =
     do {
       t \<leftarrow> current;
       case tok_kind t of
         TkIdent name \<Rightarrow> do { bump_tok; ret (Some (name, tok_span t)) }
       | _ \<Rightarrow> do { perror c code message (tok_span t); ret None }
     }"

text \<open>\<open>while !self.at_kind(ks) { self.bump(); }\<close>\<close>

definition skip_until :: "rec_calls \<Rightarrow> token_kind list \<Rightarrow> unit parsing" where
  "skip_until c ks =
     loop (rc_fuel c) ()
       (\<lambda>_. do { b \<leftarrow> at_kind ks; if b then leave () else do { bump_tok; go_on () } }) ()"

text \<open>\<open>if self.at_kind(k) { self.bump(); true } else { false }\<close>\<close>

definition eat :: "token_kind \<Rightarrow> bool parsing" where
  "eat k = do { b \<leftarrow> at_kind [k]; if b then do { bump_tok; ret True } else ret False }"

text \<open>
  \<open>while !self.at_kind(close) { items.push(item); if self.at_kind(Comma) { self.bump(); } else { break; } }\<close>
\<close>

definition comma_list :: "rec_calls \<Rightarrow> token_kind \<Rightarrow> 'a option parsing \<Rightarrow> 'a list \<Rightarrow> 'a list option parsing" where
  "comma_list c closing item items =
     qloop (rc_fuel c) (\<lambda>xs.
       do {
         at_end \<leftarrow> at_kind [closing];
         if at_end then leave (Some xs)
         else qstep item (\<lambda>x.
           do {
             more \<leftarrow> eat (TkPunct PtComma);
             if more then go_on (xs @ [x]) else leave (Some (xs @ [x]))
           })
       }) items"

end
