(* ===== verification/ParserTypes.thy ===== *)
theory ParserTypes
  imports ParserState
begin

text \<open>
  The parser's methods for attributes, generics, clauses, types and parameters: \<open>src/parser.rs\<close>,
  lines 312--710 and 1451--1982.
\<close>

section \<open>Attributes\<close>

datatype attribute_target =
    AtFunction | AtStruct | AtField | AtEnum | AtVariant | AtTrait | AtImpl | AtParam
  | AtTypeAlias | AtConst

definition route_attributes :: "string list" where
  "route_attributes = [''get'', ''post'', ''put'', ''patch'', ''delete'']"

definition is_known_web_attribute :: "string \<Rightarrow> bool" where
  "is_known_web_attribute name =
     (name \<in> set (route_attributes @
        [''filter'', ''body'', ''header'', ''path'', ''query'', ''validate'']))"

definition is_singleton_web_attribute :: "string \<Rightarrow> bool" where
  "is_singleton_web_attribute name = is_known_web_attribute name"

fun has_one_positional_string :: "attribute_arg list \<Rightarrow> bool" where
  "has_one_positional_string [Positional v] = (case av_kind v of AttrString _ \<Rightarrow> True | _ \<Rightarrow> False)"
| "has_one_positional_string _ = False"

fun has_named_int :: "attribute_arg list \<Rightarrow> string \<Rightarrow> bool" where
  "has_named_int [Named name v _] expected_name =
     (name = expected_name \<and> (case av_kind v of AttrInt _ \<Rightarrow> True | _ \<Rightarrow> False))"
| "has_named_int _ expected_name = False"

fun attribute_target_label :: "attribute_target \<Rightarrow> string" where
  "attribute_target_label AtFunction = ''a function''"
| "attribute_target_label AtStruct = ''a struct''"
| "attribute_target_label AtField = ''a struct field''"
| "attribute_target_label AtEnum = ''an enum''"
| "attribute_target_label AtVariant = ''an enum variant''"
| "attribute_target_label AtTrait = ''a trait''"
| "attribute_target_label AtImpl = ''an impl block''"
| "attribute_target_label AtParam = ''a parameter''"
| "attribute_target_label AtTypeAlias = ''a type alias''"
| "attribute_target_label AtConst = ''a const item''"

definition attribute_target_help :: "string \<Rightarrow> string" where
  "attribute_target_help name =
     (if name \<in> set route_attributes then ''place route attributes on handler functions''
      else if name = ''filter'' then ''place filter attributes on filter structs''
      else if name \<in> {''body'', ''header'', ''path'', ''query''} then
        ''place extractor attributes on handler parameters''
      else if name = ''validate'' then
        ''place validation attributes on DTO fields or handler parameters''
      else ''move the attribute to a supported declaration'')"

definition dquoted :: "string \<Rightarrow> string" where
  "dquoted s = [CHR 0x22] @ s @ [CHR 0x22]"

definition attribute_shape_help :: "string \<Rightarrow> string" where
  "attribute_shape_help name =
     (if name \<in> set route_attributes then
        ''use a single path literal, for example #[get('' @ dquoted ''/users/:id'' @ '')]''
      else if name = ''filter'' then ''use #[filter(order = 10)]''
      else if name = ''body'' then ''use #[body] without arguments''
      else if name = ''header'' then
        ''use a single header literal, for example #[header('' @ dquoted ''x-request-id'' @ '')]''
      else if name = ''path'' then
        ''use a single path-parameter literal, for example #[path('' @ dquoted ''id'' @ '')]''
      else if name = ''query'' then
        ''use a single query-parameter literal, for example #[query('' @ dquoted ''page'' @ '')]''
      else if name = ''validate'' then
        ''use at least one validation rule, for example #[validate(required)]''
      else ''use a supported framework attribute shape'')"

definition target_allowed :: "string \<Rightarrow> attribute_target \<Rightarrow> bool" where
  "target_allowed name target =
     (if name \<in> set route_attributes then target = AtFunction
      else if name = ''filter'' then target = AtStruct
      else if name \<in> {''body'', ''header'', ''path'', ''query''} then target = AtParam
      else if name = ''validate'' then target \<in> {AtField, AtParam}
      else True)"

definition shape_valid :: "attribute \<Rightarrow> bool" where
  "shape_valid attr =
     (let name = attr_name attr; args = attr_args attr in
      if name \<in> set route_attributes then has_one_positional_string args
      else if name = ''filter'' then has_named_int args ''order''
      else if name = ''body'' then args = []
      else if name \<in> {''header'', ''path'', ''query''} then has_one_positional_string args
      else if name = ''validate'' then args \<noteq> []
      else True)"

definition validate_web_attribute_target :: "rec_calls \<Rightarrow> attribute \<Rightarrow> attribute_target \<Rightarrow> unit parsing" where
  "validate_web_attribute_target c attr target =
     (if \<not> target_allowed (attr_name attr) target then
        perror_help c ''E1096''
          (''framework attribute `#['' @ attr_name attr @ '']` is not supported on '' @
           attribute_target_label target)
          (attr_span attr) (attribute_target_help (attr_name attr))
      else ret ())"

definition validate_web_attribute_shape :: "rec_calls \<Rightarrow> attribute \<Rightarrow> unit parsing" where
  "validate_web_attribute_shape c attr =
     (if \<not> shape_valid attr then
        perror_help c ''E1097''
          (''invalid argument shape for framework attribute `#['' @ attr_name attr @ '']`'')
          (attr_span attr) (attribute_shape_help (attr_name attr))
      else ret ())"

text \<open>\<open>earlier\<close> holds the attributes before the one that is validated.\<close>

fun validate_attributes_from ::
  "rec_calls \<Rightarrow> attribute list \<Rightarrow> attribute list \<Rightarrow> attribute_target \<Rightarrow> unit parsing" where
  "validate_attributes_from c earlier [] target = ret ()"
| "validate_attributes_from c earlier (attr # attrs) target =
     do {
       (if \<not> is_known_web_attribute (attr_name attr) then ret ()
        else do {
          validate_web_attribute_target c attr target;
          validate_web_attribute_shape c attr;
          (if is_singleton_web_attribute (attr_name attr) \<and>
              list_ex (\<lambda>e. attr_name e = attr_name attr) earlier
           then perror_help c ''E1096''
             (''duplicate framework attribute `#['' @ attr_name attr @ '']`'') (attr_span attr)
             ''remove the duplicate attribute on this declaration''
           else ret ())
        });
       validate_attributes_from c (earlier @ [attr]) attrs target
     }"

definition validate_attributes :: "rec_calls \<Rightarrow> attribute list \<Rightarrow> attribute_target \<Rightarrow> unit parsing" where
  "validate_attributes c attrs target = validate_attributes_from c [] attrs target"

text \<open>\<open>0 - value\<close> wraps around on the smallest value.\<close>

definition parse_attribute_value :: "rec_calls \<Rightarrow> attribute_value option parsing" where
  "parse_attribute_value c =
     do {
       tok \<leftarrow> current;
       let found = (\<lambda>k. do { bump_tok; ret (Some \<lparr>av_kind = k, av_span = tok_span tok\<rparr>) });
       case tok_kind tok of
         TkString value \<Rightarrow> found (AttrString value)
       | TkInt value \<Rightarrow> found (AttrInt (ilt_value value))
       | TkPunct PtMinus \<Rightarrow>
           do {
             bump_tok;
             nxt \<leftarrow> current;
             case tok_kind nxt of
               TkInt value \<Rightarrow>
                 do {
                   bump_tok;
                   ret (Some \<lparr>av_kind = AttrInt (0 - ilt_value value),
                     av_span = span_new (span_start (tok_span tok)) (span_end (tok_span nxt))\<rparr>)
                 }
             | _ \<Rightarrow>
                 do {
                   perror_help c ''E1095'' ''expected integer literal after '-' in attribute argument''
                     (tok_span nxt) ''use literals like -1 or 42 inside attribute arguments'';
                   ret None
                 }
           }
       | TkKeyword KwTrue \<Rightarrow> found (AttrBool BoolTrue)
       | TkKeyword KwFalse \<Rightarrow> found (AttrBool BoolFalse)
       | TkIdent value \<Rightarrow> found (AttrIdent value)
       | _ \<Rightarrow>
           do {
             perror_help c ''E1095'' ''expected attribute argument value'' (tok_span tok)
               ''use string, int, bool, or identifier values in attribute arguments'';
             ret None
           }
     }"

definition recover_to_attribute_delimiter :: "rec_calls \<Rightarrow> unit parsing" where
  "recover_to_attribute_delimiter c = skip_until c [TkPunct PtComma, TkPunct PtRParen, TkEof]"

definition recover_to_attribute_end :: "rec_calls \<Rightarrow> unit parsing" where
  "recover_to_attribute_end c =
     do { skip_until c [TkPunct PtRBracket, TkEof]; _ \<leftarrow> eat (TkPunct PtRBracket); ret () }"

definition is_ident :: "token_kind \<Rightarrow> bool" where
  "is_ident k = (case k of TkIdent _ \<Rightarrow> True | _ \<Rightarrow> False)"

text \<open>The end of an iteration over attribute arguments: a comma goes on, anything else stops.\<close>

definition after_argument :: "attribute_arg list \<Rightarrow> (attribute_arg list + attribute_arg list) parsing" where
  "after_argument args =
     do { more \<leftarrow> eat (TkPunct PtComma); if more then go_on args else leave args }"

definition parse_attribute_args :: "rec_calls \<Rightarrow> attribute_arg list parsing" where
  "parse_attribute_args c =
     loop (rc_fuel c) [] (\<lambda>args.
       do {
         at_end \<leftarrow> at_kind [TkPunct PtRParen, TkEof];
         if at_end then leave args
         else do {
           _ \<leftarrow> current_span;
           tok \<leftarrow> current;
           eq_next \<leftarrow> peek_is 1 [TkPunct PtEq];
           if is_ident (tok_kind tok) \<and> eq_next then
             do {
               name \<leftarrow> expect_ident c ''E1095'' ''expected attribute argument name'';
               case name of
                 None \<Rightarrow> do { recover_to_attribute_delimiter c; go_on args }
               | Some (arg_name, arg_name_span) \<Rightarrow>
                   do {
                     bump_tok;
                     value \<leftarrow> parse_attribute_value c;
                     case value of
                       None \<Rightarrow> do { recover_to_attribute_delimiter c; go_on args }
                     | Some v \<Rightarrow>
                         after_argument (args @ [Named arg_name v
                           (span_new (span_start arg_name_span) (span_end (av_span v)))])
                   }
             }
           else
             do {
               value \<leftarrow> parse_attribute_value c;
               case value of
                 None \<Rightarrow> do { recover_to_attribute_delimiter c; go_on args }
               | Some v \<Rightarrow> after_argument (args @ [Positional v])
             }
         }
       }) []"

definition parse_attributes :: "rec_calls \<Rightarrow> attribute list parsing" where
  "parse_attributes c =
     loop (rc_fuel c) [] (\<lambda>attrs.
       do {
         hash \<leftarrow> at_kind [TkPunct PtHash];
         bracket \<leftarrow> peek_is 1 [TkPunct PtLBracket];
         if \<not> (hash \<and> bracket) then leave attrs
         else do {
           sp \<leftarrow> current_span;
           bump_tok;
           bump_tok;
           name \<leftarrow> expect_ident c ''E1094'' (''expected attribute name after '#['' @ [CHR 0x27]);
           case name of
             None \<Rightarrow> do { recover_to_attribute_end c; go_on attrs }
           | Some (name, _) \<Rightarrow>
               do {
                 paren \<leftarrow> eat (TkPunct PtLParen);
                 args \<leftarrow> (if paren then
                     do {
                       args \<leftarrow> parse_attribute_args c;
                       _ \<leftarrow> expect c [TkPunct PtRParen] ''E1095'' ''expected ')' after attribute arguments'';
                       ret args
                     }
                   else ret []);
                 closing \<leftarrow> expect c [TkPunct PtRBracket] ''E1094'' ''expected ']' after attribute'';
                 case closing of
                   None \<Rightarrow> do { recover_to_attribute_end c; go_on attrs }
                 | Some csp \<Rightarrow>
                     go_on (attrs @ [\<lparr>attr_name = name, attr_args = args,
                       attr_span = span_new (span_start sp) (span_end csp)\<rparr>])
               }
         }
       }) []"

definition parse_visibility_modifier :: "rec_calls \<Rightarrow> visibility parsing" where
  "parse_visibility_modifier c =
     do {
       private \<leftarrow> eat (TkKeyword KwPriv);
       if private then ret Private
       else do {
         public \<leftarrow> at_kind [TkKeyword KwPub];
         if \<not> public then ret Private
         else do {
           bump_tok;
           paren \<leftarrow> at_kind [TkPunct PtLParen];
           if \<not> paren then ret Public
           else do {
             marker_span \<leftarrow> current_span;
             bump_tok;
             crate \<leftarrow> at_kind [TkKeyword KwCrate];
             if \<not> crate then
               do {
                 perror_help c ''E1090'' ''expected `crate` in visibility modifier `pub(crate)`''
                   marker_span ''use `pub` or `pub(crate)`'';
                 skip_until c [TkPunct PtRParen, TkEof];
                 _ \<leftarrow> expect c [TkPunct PtRParen] ''E1090'' ''expected ')' after visibility modifier'';
                 ret Public
               }
             else
               do {
                 bump_tok;
                 _ \<leftarrow> expect c [TkPunct PtRParen] ''E1090'' ''expected ')' after visibility modifier'';
                 ret Crate
               }
           }
         }
       }
     }"

section \<open>Generics and clauses\<close>

text \<open>The bounds of a generic parameter, separated by plus signs.\<close>

definition parse_bounds :: "rec_calls \<Rightarrow> string \<Rightarrow> string list parsing" where
  "parse_bounds c message =
     loop (rc_fuel c) [] (\<lambda>bounds.
       do {
         b \<leftarrow> expect_ident c ''E1059'' message;
         case b of
           None \<Rightarrow> leave bounds
         | Some (bound, _) \<Rightarrow>
             do {
               more \<leftarrow> eat (TkPunct PtPlus);
               if more then go_on (bounds @ [bound]) else leave (bounds @ [bound])
             }
       }) []"

definition parse_generics :: "rec_calls \<Rightarrow> generic_param list parsing" where
  "parse_generics c =
     do {
       bracket \<leftarrow> eat (TkPunct PtLBracket);
       if \<not> bracket then ret []
       else do {
         params \<leftarrow> loop (rc_fuel c) [] (\<lambda>params.
           do {
             at_end \<leftarrow> at_kind [TkPunct PtRBracket];
             if at_end then leave params
             else do {
               p \<leftarrow> expect_ident c ''E1020'' ''expected generic parameter'';
               case p of
                 None \<Rightarrow> leave params
               | Some (name, sp) \<Rightarrow>
                   do {
                     colon \<leftarrow> eat (TkPunct PtColon);
                     bounds \<leftarrow> (if colon
                       then parse_bounds c (''expected trait bound after ':'' @ [CHR 0x27])
                       else ret []);
                     more \<leftarrow> eat (TkPunct PtComma);
                     let params' = params @ [\<lparr>gp_name = name, gp_bounds = bounds, gp_span = sp\<rparr>];
                     if more then go_on params' else leave params'
                   }
             }
           }) [];
         _ \<leftarrow> expect c [TkPunct PtRBracket] ''E1021'' ''expected ']' after generic parameters'';
         ret params
       }
     }"

definition add_bounds :: "string list \<Rightarrow> generic_param \<Rightarrow> generic_param" where
  "add_bounds bounds p =
     p\<lparr>gp_bounds := fold (\<lambda>b bs. if b \<in> set bs then bs else bs @ [b]) bounds (gp_bounds p)\<rparr>"

text \<open>The first parameter of the name is changed, as \<open>iter_mut().find\<close> does.\<close>

fun update_generic :: "string \<Rightarrow> string list \<Rightarrow> generic_param list \<Rightarrow> generic_param list option" where
  "update_generic name bounds [] = None"
| "update_generic name bounds (g # gs) =
     (if gp_name g = name then Some (add_bounds bounds g # gs)
      else map_option (\<lambda>gs'. g # gs') (update_generic name bounds gs))"

definition parse_where_clause :: "rec_calls \<Rightarrow> generic_param list \<Rightarrow> generic_param list parsing" where
  "parse_where_clause c generics =
     do {
       kw \<leftarrow> eat (TkKeyword KwWhere);
       if \<not> kw then ret generics
       else loop (rc_fuel c) generics (\<lambda>generics.
         do {
           g \<leftarrow> expect_ident c ''E1020'' ''expected generic parameter in where clause'';
           case g of
             None \<Rightarrow> leave generics
           | Some (generic_name, generic_span) \<Rightarrow>
               do {
                 colon \<leftarrow> expect c [TkPunct PtColon] ''E1023''
                   ''expected ':' after generic parameter in where clause'';
                 case colon of
                   None \<Rightarrow> leave generics
                 | Some _ \<Rightarrow>
                     do {
                       bounds \<leftarrow> parse_bounds c ''expected trait bound in where clause'';
                       generics' \<leftarrow>
                         (case update_generic generic_name bounds generics of
                            Some gs \<Rightarrow> ret gs
                          | None \<Rightarrow>
                              do {
                                perror_help c ''E1259''
                                  (''where clause references unknown generic parameter '' @
                                   quote_str generic_name)
                                  generic_span
                                  ''declare the generic parameter in the function signature'';
                                ret generics
                              });
                       more \<leftarrow> eat (TkPunct PtComma);
                       if more then go_on generics' else leave generics'
                     }
               }
         }) generics
     }"

text \<open>The names of an \<open>effects\<close> or \<open>capabilities\<close> clause.\<close>

definition parse_name_clause ::
  "rec_calls \<Rightarrow> keyword \<Rightarrow> string \<times> string \<Rightarrow> string \<times> string \<Rightarrow> string \<times> string \<Rightarrow> string list option parsing" where
  "parse_name_clause c kw opening entry closing =
     do {
       present \<leftarrow> eat (TkKeyword kw);
       if \<not> present then ret (Some [])
       else qbind (expect c [TkPunct PtLBrace] (fst opening) (snd opening)) (\<lambda>_.
         qbind (comma_list c (TkPunct PtRBrace)
             (qbind (expect_ident c (fst entry) (snd entry)) (\<lambda>(name, _). ret (Some name))) []) (\<lambda>names.
           qbind (expect c [TkPunct PtRBrace] (fst closing) (snd closing)) (\<lambda>_. ret (Some names))))
     }"

definition parse_effects_clause :: "rec_calls \<Rightarrow> string list option parsing" where
  "parse_effects_clause c =
     parse_name_clause c KwEffects (''E1007'', ''expected '{' after effects'')
       (''E1008'', ''expected effect name'') (''E1009'', ''expected '}' to close effects list'')"

definition parse_capabilities_clause :: "rec_calls \<Rightarrow> string list option parsing" where
  "parse_capabilities_clause c =
     parse_name_clause c KwCapabilities (''E1017'', ''expected '{' after capabilities'')
       (''E1018'', ''expected capability name'') (''E1019'', ''expected '}' to close capabilities list'')"

section \<open>Types\<close>

definition TUPLE_INTERNAL_NAME :: string where
  "TUPLE_INTERNAL_NAME = ''Tuple''"

definition self_type_expr :: "span \<Rightarrow> type_expr" where
  "self_type_expr sp = TypeExpr (TNamed ''Self'' []) sp"

text \<open>The segments of a path after its first one, joined by double colons, and the end of the last.\<close>

definition path_segments ::
  "rec_calls \<Rightarrow> string \<Rightarrow> string \<Rightarrow> string \<Rightarrow> nat \<Rightarrow> (string \<times> nat) option parsing" where
  "path_segments c code message name end_offset =
     qloop (rc_fuel c) (\<lambda>(full_name, e).
       do {
         sep \<leftarrow> eat (TkPunct PtColonColon);
         if \<not> sep then leave (Some (full_name, e))
         else qstep (expect_ident c code message)
           (\<lambda>(seg, seg_span). go_on (full_name @ ''::'' @ seg, span_end seg_span))
       }) (name, end_offset)"

definition parse_paren_type :: "rec_calls \<Rightarrow> nat \<Rightarrow> type_expr option parsing" where
  "parse_paren_type c start =
     do {
       unit_type \<leftarrow> eat (TkPunct PtRParen);
       if unit_type then do { p \<leftarrow> previous_span; ret (Some (TypeExpr TUnit (span_new start (span_end p)))) }
       else qbind (below_type c) (\<lambda>first. do {
         comma \<leftarrow> eat (TkPunct PtComma);
         if comma then
           qbind (comma_list c (TkPunct PtRParen) (below_type c) [first]) (\<lambda>items.
             qbind (expect c [TkPunct PtRParen] ''E1025'' ''expected ')' after tuple type'') (\<lambda>_.
               do {
                 p \<leftarrow> previous_span;
                 ret (Some (TypeExpr (TNamed TUPLE_INTERNAL_NAME items) (span_new start (span_end p))))
               }))
         else
           qbind (expect c [TkPunct PtRParen] ''E1025'' ''expected ')' after parenthesized type'') (\<lambda>_.
             do {
               p \<leftarrow> previous_span;
               ret (Some (TypeExpr (ty_kind first) (span_new start (span_end p))))
             })
       })
     }"

definition parse_fn_type :: "rec_calls \<Rightarrow> nat \<Rightarrow> string \<Rightarrow> type_expr option parsing" where
  "parse_fn_type c start full_name =
     qbind (comma_list c (TkPunct PtRParen) (below_type c) []) (\<lambda>args.
       qbind (expect c [TkPunct PtRParen] ''E1069'' ''expected ')' after Fn parameter types'') (\<lambda>_.
         qbind (expect c [TkPunct PtArrow] ''E1070'' ''expected '->' after Fn parameter list'') (\<lambda>_.
           qbind (below_type c) (\<lambda>ret_type.
             ret (Some (TypeExpr (TNamed full_name (args @ [ret_type]))
               (span_new start (span_end (ty_span ret_type)))))))))"

definition parse_type :: "rec_calls \<Rightarrow> type_expr option parsing" where
  "parse_type c =
     do {
       sp \<leftarrow> current_span;
       let start = span_start sp;
       hole \<leftarrow> at_kind [TkPunct PtUnderscore];
       if hole then
         do { hole_span \<leftarrow> current_span; bump_tok; ret (Some (TypeExpr THole hole_span)) }
       else do {
         paren \<leftarrow> eat (TkPunct PtLParen);
         if paren then parse_paren_type c start
         else do {
           dyn \<leftarrow> eat (TkKeyword KwDyn);
           if dyn then
             qbind (expect_ident c ''E1026'' (''expected trait name after 'dyn'' @ [CHR 0x27]))
               (\<lambda>(name, first_span).
                 qbind (path_segments c ''E1027'' ''expected path segment'' name (span_end first_span))
                   (\<lambda>(full_name, e). ret (Some (TypeExpr (TDynTrait full_name) (span_new start e)))))
           else
             qbind (expect_ident c ''E1026'' ''expected type name'') (\<lambda>(name, first_span).
               qbind (path_segments c ''E1027'' ''expected path segment'' name (span_end first_span))
                 (\<lambda>(path_name, e).
                   do {
                     let full_name = (if path_name \<noteq> ''Float'' then canonical_primitive_type_name path_name
                       else path_name);
                     fn_paren \<leftarrow> (if full_name = ''Fn'' then eat (TkPunct PtLParen) else ret False);
                     if fn_paren then parse_fn_type c start full_name
                     else do {
                       bracket \<leftarrow> eat (TkPunct PtLBracket);
                       if bracket then
                         qbind (comma_list c (TkPunct PtRBracket) (below_type c) []) (\<lambda>args.
                           qbind (expect c [TkPunct PtRBracket] ''E1028''
                               ''expected ']' after type arguments'') (\<lambda>_.
                             do {
                               p \<leftarrow> previous_span;
                               ret (Some (TypeExpr (TNamed full_name args) (span_new start (span_end p))))
                             }))
                       else ret (Some (TypeExpr (TNamed full_name []) (span_new start e)))
                     }
                   }))
         }
       }
     }"

section \<open>Parameters\<close>

text \<open>The receiver \<open>&self\<close> or \<open>&mut self\<close>, after its ampersand.\<close>

definition parse_ref_receiver :: "rec_calls \<Rightarrow> attribute list \<Rightarrow> param option parsing" where
  "parse_ref_receiver c attrs =
     do {
       recv_start \<leftarrow> current_span;
       bump_tok;
       _ \<leftarrow> eat (TkKeyword KwMut);
       qbind (expect_ident c ''E1083'' ''expected `self` after receiver reference'')
         (\<lambda>(recv_name, recv_span).
           if recv_name \<noteq> ''self'' then
             do { perror c ''E1083'' ''expected `self` after receiver reference'' recv_span; ret None }
           else
             (let sp = span_new (span_start recv_start) (span_end recv_span) in
              ret (Some \<lparr>p_name = ''self'', p_attrs = attrs, p_ty = self_type_expr sp, p_span = sp\<rparr>)))
     }"

definition parse_plain_param :: "rec_calls \<Rightarrow> attribute list \<Rightarrow> param option parsing" where
  "parse_plain_param c attrs =
     do {
       sp \<leftarrow> current_span;
       qbind (expect_ident c ''E1022'' ''expected parameter name'') (\<lambda>(name, _).
         qbind (expect c [TkPunct PtColon] ''E1023'' ''expected ':' after parameter name'') (\<lambda>_.
           qbind (parse_type c) (\<lambda>ty.
             ret (Some \<lparr>p_name = name, p_attrs = attrs, p_ty = ty,
               p_span = span_new (span_start sp) (span_end (ty_span ty))\<rparr>))))
     }"

text \<open>After a receiver the comma is optional and the loop goes on in either case.\<close>

definition after_receiver :: "param list \<Rightarrow> (param list + param list option) parsing" where
  "after_receiver params = do { _ \<leftarrow> eat (TkPunct PtComma); go_on params }"

definition parse_params :: "rec_calls \<Rightarrow> bool \<Rightarrow> param list option parsing" where
  "parse_params c allow_self_receiver =
     qbind (qloop (rc_fuel c) (\<lambda>params.
       do {
         at_end \<leftarrow> at_kind [TkPunct PtRParen];
         if at_end then leave (Some params)
         else do {
           attrs \<leftarrow> parse_attributes c;
           validate_attributes c attrs AtParam;
           let receiver = (allow_self_receiver \<and> params = []);
           amp \<leftarrow> (if receiver then at_kind [TkPunct PtAmpersand] else ret False);
           if amp then qstep (parse_ref_receiver c attrs) (\<lambda>p. after_receiver (params @ [p]))
           else do {
             self_name \<leftarrow> (if receiver then do { t \<leftarrow> current; ret (tok_kind t = TkIdent ''self'') }
               else ret False);
             colon_next \<leftarrow> peek_is 1 [TkPunct PtColon];
             if self_name \<and> \<not> colon_next then
               do {
                 sp \<leftarrow> current_span;
                 bump_tok;
                 after_receiver (params @
                   [\<lparr>p_name = ''self'', p_attrs = attrs, p_ty = self_type_expr sp, p_span = sp\<rparr>])
               }
             else
               qstep (parse_plain_param c attrs) (\<lambda>p.
                 do {
                   more \<leftarrow> eat (TkPunct PtComma);
                   if more then go_on (params @ [p]) else leave (Some (params @ [p]))
                 })
           }
         }
       }) [])
     (\<lambda>params. qbind (expect c [TkPunct PtRParen] ''E1024'' ''expected ')' after parameters'')
       (\<lambda>_. ret (Some params)))"

end
