(* ===== verification/ParserPatterns.thy ===== *)
theory ParserPatterns
  imports ParserTypes
begin

text \<open>
  Literals and patterns of the parser, and what it builds from \<open>for\<close> loops and from tuple patterns in
  \<open>let\<close>: \<open>src/parser.rs\<close>, lines 2132--2221, 3497--3883 and 3950--4165.
\<close>

section \<open>Literals\<close>

fun int_literal_suffix_to_ast ::
  "int_suffix_token \<Rightarrow> int_literal_suffix \<times> int_literal_kind \<times> string" where
  "int_literal_suffix_to_ast LexI8 = (I8, int_suffix_kind I8, ''i8'')"
| "int_literal_suffix_to_ast LexI16 = (I16, int_suffix_kind I16, ''i16'')"
| "int_literal_suffix_to_ast LexI32 = (I32, int_suffix_kind I32, ''i32'')"
| "int_literal_suffix_to_ast LexI64 = (I64, int_suffix_kind I64, ''i64'')"
| "int_literal_suffix_to_ast LexI128 = (I64, \<lparr>ilk_signedness = Signed, ilk_width = W128\<rparr>, ''i128'')"
| "int_literal_suffix_to_ast LexU8 = (U8, int_suffix_kind U8, ''u8'')"
| "int_literal_suffix_to_ast LexU16 = (U16, int_suffix_kind U16, ''u16'')"
| "int_literal_suffix_to_ast LexU32 = (U32, int_suffix_kind U32, ''u32'')"
| "int_literal_suffix_to_ast LexU64 = (U64, int_suffix_kind U64, ''u64'')"
| "int_literal_suffix_to_ast LexU128 = (U64, \<lparr>ilk_signedness = Unsigned, ilk_width = W128\<rparr>, ''u128'')"

fun float_literal_suffix_to_ast ::
  "float_suffix_token \<Rightarrow> float_literal_suffix \<times> float_literal_kind \<times> string" where
  "float_literal_suffix_to_ast LexF32 = (F32, float_suffix_kind F32, ''f32'')"
| "float_literal_suffix_to_ast LexF64 = (F64, float_suffix_kind F64, ''f64'')"

definition typed_int_literal_metadata ::
  "int_suffix_token option \<Rightarrow> span \<Rightarrow> string \<Rightarrow> int_literal_metadata option" where
  "typed_int_literal_metadata suffix raw_value_span raw_literal_text =
     map_option (\<lambda>s. case int_literal_suffix_to_ast s of (ast_suffix, ast_kind, suffix_text) \<Rightarrow>
       int_metadata_with_kind_and_suffix_text ast_suffix ast_kind suffix_text raw_value_span
         raw_literal_text) suffix"

definition typed_float_literal_metadata ::
  "float_suffix_token option \<Rightarrow> span \<Rightarrow> string \<Rightarrow> float_literal_metadata option" where
  "typed_float_literal_metadata suffix raw_value_span raw_literal_text =
     map_option (\<lambda>s. case float_literal_suffix_to_ast s of (ast_suffix, ast_kind, suffix_text) \<Rightarrow>
       float_metadata_with_kind_and_suffix_text ast_suffix ast_kind suffix_text raw_value_span
         raw_literal_text) suffix"

definition int_token_metadata :: "int_literal_token \<Rightarrow> int_literal_metadata option" where
  "int_token_metadata l =
     typed_int_literal_metadata (ilt_suffix l) (ilt_raw_value_span l) (ilt_raw_text l)"

definition float_token_metadata :: "float_literal_token \<Rightarrow> float_literal_metadata option" where
  "float_token_metadata l =
     typed_float_literal_metadata (flt_suffix l) (flt_raw_value_span l) (flt_raw_text l)"

section \<open>Patterns\<close>

text \<open>\<open>char::is_uppercase\<close> on the first character of an identifier, which the lexer takes from ASCII.\<close>

definition starts_uppercase :: "string \<Rightarrow> bool" where
  "starts_uppercase name = (case name of [] \<Rightarrow> False | x # _ \<Rightarrow> x \<in> set ''ABCDEFGHIJKLMNOPQRSTUVWXYZ'')"

definition parse_paren_pattern :: "rec_calls \<Rightarrow> nat \<Rightarrow> pattern option parsing" where
  "parse_paren_pattern c start =
     do {
       unit_pattern \<leftarrow> eat (TkPunct PtRParen);
       if unit_pattern then
         do { p \<leftarrow> previous_span; ret (Some (Pattern APUnit (span_new start (span_end p)))) }
       else qbind (below_pattern c) (\<lambda>first. do {
         comma \<leftarrow> eat (TkPunct PtComma);
         if comma then
           qbind (comma_list c (TkPunct PtRParen) (below_pattern c) [first]) (\<lambda>args.
             qbind (expect c [TkPunct PtRParen] ''E1046'' ''expected ')' after tuple pattern'') (\<lambda>close.
               ret (Some (Pattern (APVariant TUPLE_INTERNAL_NAME args) (span_new start (span_end close))))))
         else
           qbind (expect c [TkPunct PtRParen] ''E1046'' ''expected ')' after parenthesized pattern'')
             (\<lambda>close. ret (Some (Pattern (pat_kind first) (span_new start (span_end close)))))
       })
     }"

definition parse_struct_pattern_fields ::
  "rec_calls \<Rightarrow> (struct_pattern_field list \<times> bool) option parsing" where
  "parse_struct_pattern_fields c =
     qloop (rc_fuel c) (\<lambda>fields.
       do {
         at_end \<leftarrow> at_kind [TkPunct PtRBrace];
         if at_end then leave (Some (fields, False))
         else do {
           rest \<leftarrow> eat (TkPunct PtDotDot);
           if rest then do { _ \<leftarrow> eat (TkPunct PtComma); leave (Some (fields, True)) }
           else qstep (expect_ident c ''E1049'' ''expected struct pattern field'')
             (\<lambda>(field_name, field_span). do {
               colon \<leftarrow> eat (TkPunct PtColon);
               qstep (if colon then below_pattern c
                   else ret (Some (Pattern (APVar field_name) field_span))) (\<lambda>pat. do {
                 let fields' = fields @ [StructPatternField field_name pat];
                 more \<leftarrow> eat (TkPunct PtComma);
                 if more then go_on fields' else leave (Some (fields', False))
               })
             })
         }
       }) []"

definition parse_ident_pattern :: "rec_calls \<Rightarrow> string \<Rightarrow> span \<Rightarrow> pattern option parsing" where
  "parse_ident_pattern c name sp =
     do {
       brace \<leftarrow> eat (TkPunct PtLBrace);
       if brace then
         qbind (parse_struct_pattern_fields c) (\<lambda>(fields, has_rest).
           qbind (expect c [TkPunct PtRBrace] ''E1047'' ''expected '}' after struct pattern'') (\<lambda>close.
             ret (Some (Pattern (APStruct name fields has_rest)
               (span_new (span_start sp) (span_end close))))))
       else do {
         paren \<leftarrow> eat (TkPunct PtLParen);
         if paren then
           qbind (comma_list c (TkPunct PtRParen) (below_pattern c) []) (\<lambda>args.
             qbind (expect c [TkPunct PtRParen] ''E1047'' ''expected ')' after variant pattern'') (\<lambda>close.
               ret (Some (Pattern (APVariant name args) (span_new (span_start sp) (span_end close))))))
         else if starts_uppercase name then ret (Some (Pattern (APVariant name []) sp))
         else ret (Some (Pattern (APVar name) sp))
       }
     }"

definition parse_pattern_atom :: "rec_calls \<Rightarrow> pattern option parsing" where
  "parse_pattern_atom c =
     do {
       tok \<leftarrow> current;
       let sp = tok_span tok;
       let found = (\<lambda>k. do { bump_tok; ret (Some (Pattern k sp)) });
       case tok_kind tok of
         TkPunct PtUnderscore \<Rightarrow> found APWildcard
       | TkInt l \<Rightarrow> found (APInt (ilt_value l) (int_token_metadata l))
       | TkChar value \<Rightarrow> found (APChar value)
       | TkString value \<Rightarrow> found (APString value)
       | TkKeyword KwTrue \<Rightarrow> found (APBool True)
       | TkKeyword KwFalse \<Rightarrow> found (APBool False)
       | TkPunct PtLParen \<Rightarrow> do { bump_tok; parse_paren_pattern c (span_start sp) }
       | TkIdent name \<Rightarrow> do { bump_tok; parse_ident_pattern c name sp }
       | _ \<Rightarrow> do { perror c ''E1048'' ''expected match pattern'' sp; ret None }
     }"

definition parse_pattern :: "rec_calls \<Rightarrow> pattern option parsing" where
  "parse_pattern c =
     qbind (parse_pattern_atom c) (\<lambda>first.
       qbind (qloop (rc_fuel c) (\<lambda>patterns.
         do {
           pipe \<leftarrow> eat (TkPunct PtPipe);
           if pipe then qstep (parse_pattern_atom c) (\<lambda>p. go_on (patterns @ [p]))
           else leave (Some patterns)
         }) [first]) (\<lambda>patterns.
           ret (Some (if length patterns = 1 then hd patterns
             else Pattern (APOr patterns)
               (span_new (span_start (pat_span (hd patterns))) (span_end (pat_span (last patterns))))))))"

section \<open>Desugaring\<close>

definition next_for_id :: "nat parsing" where
  "next_for_id = State (\<lambda>st. (pr_for_counter st, st\<lparr>pr_for_counter := pr_for_counter st + 1\<rparr>))"

definition make_for_name :: "string \<Rightarrow> nat \<Rightarrow> string" where
  "make_for_name prefix n = ''aic_for_'' @ prefix @ ''_'' @ nat_str n"

definition make_bool_expr :: "bool \<Rightarrow> span \<Rightarrow> expr" where
  "make_bool_expr value sp = Expr (ABool value) sp"

definition make_int_expr :: "i64 \<Rightarrow> span \<Rightarrow> expr" where
  "make_int_expr value sp = Expr (AInt value None) sp"

definition make_unit_expr :: "span \<Rightarrow> expr" where
  "make_unit_expr sp = Expr AUnit sp"

definition make_var_expr :: "string \<Rightarrow> span \<Rightarrow> expr" where
  "make_var_expr name sp = Expr (AVar name) sp"

definition make_unit_block :: "span \<Rightarrow> block" where
  "make_unit_block sp = Block [] (Some (make_unit_expr sp)) sp"

definition wrap_if_true_expr :: "block \<Rightarrow> span \<Rightarrow> expr" where
  "wrap_if_true_expr then_block sp =
     Expr (AIf (make_bool_expr True sp) then_block (make_unit_block sp)) sp"

definition for_body_to_stmts :: "block \<Rightarrow> stmt list" where
  "for_body_to_stmts body =
     b_stmts body @ (case b_tail body of None \<Rightarrow> [] | Some e \<Rightarrow> [AExprStmt e (e_span e)])"

definition desugar_for_iter :: "string \<Rightarrow> expr \<Rightarrow> block \<Rightarrow> nat \<Rightarrow> expr parsing" where
  "desugar_for_iter binding iterable body start =
     do {
       n \<leftarrow> next_for_id;
       let sp = span_new start (span_end (b_span body));
       let iter_name = make_for_name ''iter'' n;
       let step_name = make_for_name ''step'' n;
       let step_item_expr = Expr (AFieldAccess (make_var_expr step_name sp) ''item'') sp;
       let step_iter_expr = Expr (AFieldAccess (make_var_expr step_name sp) ''iter'') sp;
       let some_arm_then = Block (AAssign iter_name step_iter_expr sp # for_body_to_stmts body)
         None (b_span body);
       let some_arm = MatchArm (Pattern (APVariant ''Some'' [Pattern (APVar binding) sp]) sp) None
         (wrap_if_true_expr some_arm_then sp) sp;
       let none_arm = MatchArm (Pattern (APVariant ''None'' []) sp) None (Expr (ABreak None) sp) sp;
       let loop_body = Block
         [ALet step_name False None
            (Expr (ACall (make_var_expr ''aic_for_next_iter'' sp) [make_var_expr iter_name sp] []) sp) sp,
          AExprStmt (Expr (AMatch step_item_expr [some_arm, none_arm]) sp) sp] None sp;
       let then_block = Block
         [ALet iter_name True None
            (Expr (ACall (make_var_expr ''aic_for_into_iter'' sp) [iterable] []) sp) sp]
         (Some (Expr (ALoop loop_body) sp)) sp;
       ret (wrap_if_true_expr then_block sp)
     }"

definition desugar_for_range :: "string \<Rightarrow> expr \<Rightarrow> expr \<Rightarrow> block \<Rightarrow> nat \<Rightarrow> expr parsing" where
  "desugar_for_range binding start_expr end_expr body start =
     do {
       n \<leftarrow> next_for_id;
       let sp = span_new start (span_end (b_span body));
       let cur_name = make_for_name ''range_cur'' n;
       let end_name = make_for_name ''range_end'' n;
       let range_then_stmts =
         [ALet binding False None (make_var_expr cur_name sp) sp,
          AAssign cur_name
            (Expr (ABinary Add (make_var_expr cur_name sp) (make_int_expr 1 sp)) sp) sp]
         @ for_body_to_stmts body;
       let range_if_expr = Expr (AIf
         (Expr (ABinary Lt (make_var_expr cur_name sp) (make_var_expr end_name sp)) sp)
         (Block range_then_stmts None (b_span body))
         (Block [] (Some (Expr (ABreak None) sp)) sp)) sp;
       let loop_body = Block [AExprStmt range_if_expr sp] None sp;
       let then_block = Block
         [ALet cur_name True None start_expr sp, ALet end_name False None end_expr sp]
         (Some (Expr (ALoop loop_body) sp)) sp;
       ret (wrap_if_true_expr then_block sp)
     }"

datatype tuple_let_pattern =
    TupBinding string span
  | TupWildcard
  | TupTuple "tuple_let_pattern list"

fun convert_let_pattern :: "rec_calls \<Rightarrow> pattern \<Rightarrow> tuple_let_pattern option parsing"
  and convert_let_patterns :: "rec_calls \<Rightarrow> pattern list \<Rightarrow> tuple_let_pattern list option parsing" where
  "convert_let_pattern c (Pattern k sp) =
     (case k of
        APVar name \<Rightarrow> ret (Some (TupBinding name sp))
      | APWildcard \<Rightarrow> ret (Some TupWildcard)
      | APVariant name args \<Rightarrow>
          if name = TUPLE_INTERNAL_NAME then
            qbind (convert_let_patterns c args) (\<lambda>items. ret (Some (TupTuple items)))
          else
            do {
              perror_help c ''E1031'' ''tuple let destructuring supports only names, `_`, and nested tuples''
                sp ''rewrite the pattern as `(a, b, ...)` with bindings/wildcards only'';
              ret None
            }
      | _ \<Rightarrow>
          do {
            perror_help c ''E1031'' ''tuple let destructuring supports only names, `_`, and nested tuples''
              sp ''rewrite the pattern as `(a, b, ...)` with bindings/wildcards only'';
            ret None
          })"
| "convert_let_patterns c [] = ret (Some [])"
| "convert_let_patterns c (p # ps) =
     qbind (convert_let_pattern c p) (\<lambda>item.
       qbind (convert_let_patterns c ps) (\<lambda>items. ret (Some (item # items))))"

text \<open>\<open>idx\<close> is the position of the first item of the list in its tuple.\<close>

fun expand_tuple_let_pattern :: "tuple_let_pattern \<Rightarrow> expr \<Rightarrow> span \<Rightarrow> stmt list"
  and expand_tuple_items :: "nat \<Rightarrow> tuple_let_pattern list \<Rightarrow> expr \<Rightarrow> span \<Rightarrow> stmt list" where
  "expand_tuple_let_pattern (TupBinding name binding_span) source sp =
     [ALet name False None source (span_new (span_start binding_span) (span_end sp))]"
| "expand_tuple_let_pattern TupWildcard source sp = []"
| "expand_tuple_let_pattern (TupTuple items) source sp = expand_tuple_items 0 items source sp"
| "expand_tuple_items idx [] source sp = []"
| "expand_tuple_items idx (item # items) source sp =
     expand_tuple_let_pattern item (Expr (AFieldAccess source (nat_str idx)) (e_span source)) sp @
     expand_tuple_items (idx + 1) items source sp"

definition TUPLE_LET_TMP_PREFIX :: string where
  "TUPLE_LET_TMP_PREFIX = ''__tuple_let_''"

definition next_tuple_let_name :: "string parsing" where
  "next_tuple_let_name = State (\<lambda>st.
     (TUPLE_LET_TMP_PREFIX @ nat_str (pr_tuple_binding_counter st),
      st\<lparr>pr_tuple_binding_counter := pr_tuple_binding_counter st + 1\<rparr>))"

definition expand_tuple_let ::
  "tuple_let_pattern \<Rightarrow> type_expr option \<Rightarrow> expr \<Rightarrow> span \<Rightarrow> stmt list parsing" where
  "expand_tuple_let pat ty e sp =
     do {
       temp_name \<leftarrow> next_tuple_let_name;
       ret (ALet temp_name False ty e sp #
         expand_tuple_let_pattern pat (expr_var temp_name (e_span e)) sp)
     }"

end
