(* ===== verification/ParserTemplates.thy ===== *)
theory ParserTemplates
  imports ParserPatterns
begin

text \<open>
  Template literals of the parser: \<open>src/parser.rs\<close>, lines 3155--3488. The code walks over the bytes
  of the raw text with a cursor; the model walks over its characters and keeps the cursor beside
  them. An interpolation is lexed and parsed by a parser of its own.
\<close>

definition content_offset :: "span \<Rightarrow> nat" where
  "content_offset token_span = span_start token_span + 2"

definition template_escapes :: "(rchar \<times> rchar) list" where
  "template_escapes = simple_escapes @ [(ch CHR ''{'', ch CHR ''{''), (ch CHR ''}'', ch CHR ''}'')]"

definition escape_error :: "rec_calls \<Rightarrow> string \<Rightarrow> nat \<Rightarrow> nat \<Rightarrow> (rchar \<times> nat \<times> rchar list) option parsing" where
  "escape_error c message s e = do { perror c ''E0005'' message (span_new s e); ret None }"

text \<open>
  \<open>rest\<close> is the text after the backslash at \<open>index\<close>; the result is the character, the number of bytes
  of the escape and the text after it.
\<close>

definition parse_template_escape ::
  "rec_calls \<Rightarrow> nat \<Rightarrow> nat \<Rightarrow> span \<Rightarrow> rchar list \<Rightarrow> (rchar \<times> nat \<times> rchar list) option parsing" where
  "parse_template_escape c raw_len index token_span rest =
     (let base = content_offset token_span in
      case rest of
        [] \<Rightarrow>
          do {
            perror c ''E0006'' ''unterminated template string literal''
              (span_new (base + index) (span_end token_span));
            ret None
          }
      | nxt # rest1 \<Rightarrow>
          (case map_of template_escapes nxt of
             Some value \<Rightarrow> ret (Some (value, 1 + length (utf8_encode nxt), rest1))
           | None \<Rightarrow>
               if nxt \<noteq> ch CHR ''u'' then
                 escape_error c (''unsupported escape sequence '' @
                     quote_str ([CHR 0x5C, CHR 0x5C] @ utf8_encode nxt))
                   (base + index) (base + index + 1 + length (utf8_encode nxt))
               else
                 (let cursor = index + 1 + length (utf8_encode nxt);
                      digits = takeWhile is_ascii_hexdigit (drop 1 rest1);
                      rest2 = dropWhile is_ascii_hexdigit (drop 1 rest1);
                      digits_end = cursor + 1 + blen digits
                  in if take 1 rest1 \<noteq> [ch CHR ''{''] then
                       escape_error c (''invalid Unicode escape, expected `'' @ [CHR 0x5C] @ ''u{...}`'')
                         (base + index) (base + min cursor raw_len)
                     else if take 1 rest2 \<noteq> [ch CHR ''}''] then
                       escape_error c ''invalid Unicode escape, expected closing `}`''
                         (base + index) (base + min digits_end raw_len)
                     else if digits = [] then
                       escape_error c ''invalid Unicode escape, missing codepoint digits''
                         (base + index) (base + digits_end + 1)
                     else if blen digits > 6 then
                       escape_error c ''invalid Unicode escape, codepoint has too many hex digits''
                         (base + index) (base + digits_end + 1)
                     else if \<not> scalar_value (radix_value 16 digits) then
                       escape_error c ''invalid Unicode codepoint in escape sequence''
                         (base + index) (base + digits_end + 1)
                     else ret (Some (radix_value 16 digits, digits_end + 1 - index, drop 1 rest2)))))"

text \<open>
  The text up to the brace that closes an interpolation, and the text after it; the arguments are the
  depth of nested braces and whether the scan is in a string, in a character and after a backslash.
\<close>

fun find_closing :: "nat \<Rightarrow> bool \<Rightarrow> bool \<Rightarrow> bool \<Rightarrow> rchar list \<Rightarrow> (rchar list \<times> rchar list) option" where
  "find_closing depth in_string in_char escaped [] = None"
| "find_closing depth in_string in_char escaped (x # xs) =
     (if in_string then
        map_option (\<lambda>(us, vs). (x # us, vs))
          (if escaped then find_closing depth True in_char False xs
           else if x = 92 then find_closing depth True in_char True xs
           else find_closing depth (x \<noteq> 34) in_char False xs)
      else if in_char then
        map_option (\<lambda>(us, vs). (x # us, vs))
          (if escaped then find_closing depth False True False xs
           else if x = 92 then find_closing depth False True True xs
           else find_closing depth False (x \<noteq> 39) False xs)
      else if x = ch CHR ''}'' \<and> depth = 0 then Some ([], xs)
      else
        map_option (\<lambda>(us, vs). (x # us, vs))
          (if x = 34 then find_closing depth True False escaped xs
           else if x = 39 then find_closing depth False True escaped xs
           else if x = ch CHR ''{'' then find_closing (depth + 1) False False escaped xs
           else if x = ch CHR ''}'' then find_closing (depth - 1) False False escaped xs
           else find_closing depth False False escaped xs))"

definition shift_diagnostic :: "nat \<Rightarrow> diagnostic \<Rightarrow> diagnostic" where
  "shift_diagnostic offset d =
     d\<lparr>d_spans := map (\<lambda>s. s\<lparr>ds_start := ds_start s + offset, ds_end := ds_end s + offset\<rparr>) (d_spans d),
       d_suggested_fixes := map (\<lambda>f. f\<lparr>sf_start := map_option (\<lambda>n. n + offset) (sf_start f),
         sf_end := map_option (\<lambda>n. n + offset) (sf_end f)\<rparr>) (d_suggested_fixes d)\<rparr>"

definition fragment_body :: "rec_calls \<Rightarrow> expr option parsing" where
  "fragment_body c =
     do {
       e \<leftarrow> State (rc_fragment c);
       (if e = None then ret ()
        else do {
          eof \<leftarrow> at_kind [TkEof];
          if eof then ret ()
          else do {
            sp \<leftarrow> current_span;
            perror c ''E1001'' ''expected end of interpolation expression'' sp
          }
        });
       ret e
     }"

definition parse_template_expr_fragment :: "rec_calls \<Rightarrow> string \<Rightarrow> span \<Rightarrow> expr option parsing" where
  "parse_template_expr_fragment c expr_src interp_span = State (\<lambda>st.
     let shift = shift_diagnostic (span_start interp_span) in
     case lex (rc_float c) (rc_derive c) expr_src (pr_file st) of
       None \<Rightarrow> (None, st\<lparr>pr_halted := True\<rparr>)
     | Some (tokens, lex_diags) \<Rightarrow>
         (let sub = (new_parser (pr_file st) tokens)
                \<lparr>pr_for_counter := pr_for_counter st,
                 pr_tuple_binding_counter := pr_tuple_binding_counter st\<rparr>;
              (e, sub') = run_state (fragment_body c) sub
          in (map_option (\<lambda>e. Expr (e_kind e) interp_span) e,
              st\<lparr>pr_diagnostics := pr_diagnostics st @ map shift lex_diags @ map shift (pr_diagnostics sub'),
                 pr_for_counter := pr_for_counter sub',
                 pr_tuple_binding_counter := pr_tuple_binding_counter sub',
                 pr_halted := pr_halted st \<or> pr_halted sub'\<rparr>)))"

text \<open>The variables of the loop: cursor, remaining text, the template so far, the pending literal, arguments.\<close>

definition template_brace ::
  "rec_calls \<Rightarrow> span \<Rightarrow> nat \<times> rchar list \<times> rchar list \<times> rchar list \<times> expr list \<Rightarrow>
   ((nat \<times> rchar list \<times> rchar list \<times> rchar list \<times> expr list) + (rchar list \<times> expr list) option) parsing" where
  "template_brace c token_span = (\<lambda>(cursor, after, template, literal, args).
     let base = content_offset token_span; expr_start = cursor + 1 in
     case find_closing 0 False False False after of
       None \<Rightarrow>
         do {
           perror c ''E1001'' ''unterminated interpolation expression''
             (span_new (base + cursor) (span_end token_span));
           leave None
         }
     | Some (inner, after') \<Rightarrow>
         (let expr_end = expr_start + blen inner;
              interp_span = span_new (base + expr_start) (base + expr_end)
          in if trim inner = [] then
               do { perror c ''E1001'' ''empty interpolation expression'' interp_span; leave None }
             else
               qstep (parse_template_expr_fragment c (utf8_encode_all (trim inner)) interp_span) (\<lambda>e.
                 go_on (expr_end + 1, after',
                   template @ literal @ map of_char (''{'' @ nat_str (length args) @ ''}''), [],
                   args @ [e]))))"

definition template_step ::
  "rec_calls \<Rightarrow> nat \<Rightarrow> span \<Rightarrow> nat \<times> rchar list \<times> rchar list \<times> rchar list \<times> expr list \<Rightarrow>
   ((nat \<times> rchar list \<times> rchar list \<times> rchar list \<times> expr list) + (rchar list \<times> expr list) option) parsing" where
  "template_step c raw_len token_span = (\<lambda>(cursor, rest, template, literal, args).
     case rest of
       [] \<Rightarrow> leave (Some (template @ literal, args))
     | x # after \<Rightarrow>
         if x = 92 then
           qstep (parse_template_escape c raw_len cursor token_span after) (\<lambda>(escaped, consumed, after').
             go_on (cursor + consumed, after', template, literal @ [escaped], args))
         else if x = ch CHR ''{'' then
           (if take 1 after = [ch CHR ''{'']
            then go_on (cursor + 2, drop 1 after, template, literal @ [ch CHR ''{''], args)
            else template_brace c token_span (cursor, after, template, literal, args))
         else if x = ch CHR ''}'' then
           (if take 1 after = [ch CHR ''}'']
            then go_on (cursor + 2, drop 1 after, template, literal @ [ch CHR ''}''], args)
            else
              do {
                perror c ''E1001''
                  (''unescaped '}' in template string; use '' @ quote_str ([CHR 0x5C] @ ''}'') @
                   '' or '}}' for a literal brace'')
                  (span_new (content_offset token_span + cursor) (content_offset token_span + cursor + 1));
                leave None
              })
         else go_on (cursor + length (utf8_encode x), after, template, literal @ [x], args))"

definition parse_template_literal :: "rec_calls \<Rightarrow> string \<Rightarrow> span \<Rightarrow> expr option parsing" where
  "parse_template_literal c raw token_span =
     qbind (qloop (length (str_chars raw) + 1) (template_step c (length raw) token_span)
         (0, str_chars raw, [], [], []))
       (\<lambda>(template, args).
         ret (Some (if args = [] then Expr (AString (utf8_encode_all template)) token_span
           else Expr (ATemplateLiteral (utf8_encode_all template) args) token_span)))"

end
