(* ===== verification/ParserExpr.thy ===== *)
theory ParserExpr
  imports ParserTemplates
begin

text \<open>
  The parser's methods for expressions, statements and blocks: \<open>src/parser.rs\<close>, lines 1984--2130,
  2223--3153, 3489--3495, 3885--3948 and 4329--4376. Calls of \<open>parse_expr\<close>, of \<open>parse_unary\<close> from
  itself and of \<open>parse_if_expr\<close> from itself go one level down.
\<close>

section \<open>Binary operators\<close>

fun pick_op :: "(token_kind \<times> bin_op) list \<Rightarrow> bin_op option parsing" where
  "pick_op [] = ret None"
| "pick_op ((k, op) # ops) = do { b \<leftarrow> at_kind [k]; if b then ret (Some op) else pick_op ops }"

text \<open>One level of the precedence ladder: operands of the next level, joined to the left.\<close>

definition binary_level ::
  "rec_calls \<Rightarrow> (token_kind \<times> bin_op) list \<Rightarrow> expr option parsing \<Rightarrow> expr option parsing" where
  "binary_level c ops operand =
     qbind operand (qloop (rc_fuel c) (\<lambda>lhs.
       do {
         op \<leftarrow> pick_op ops;
         case op of
           None \<Rightarrow> leave (Some lhs)
         | Some op \<Rightarrow>
             do {
               bump_tok;
               qstep operand (\<lambda>rhs.
                 go_on (Expr (ABinary op lhs rhs) (span_join (e_span lhs) (e_span rhs))))
             }
       }))"

section \<open>Blocks and statements\<close>

datatype return_in_block = RibStmt stmt | RibTail expr

definition recover_statement :: "rec_calls \<Rightarrow> unit parsing" where
  "recover_statement c =
     loop (rc_fuel c) () (\<lambda>_.
       do {
         at_end \<leftarrow> at_kind [TkEof, TkPunct PtRBrace];
         if at_end then leave ()
         else do {
           semi \<leftarrow> eat (TkPunct PtSemi);
           if semi then leave ()
           else do {
             stmt_start \<leftarrow> at_kind [TkKeyword KwLet, TkKeyword KwReturn, TkKeyword KwFor];
             if stmt_start then leave () else do { bump_tok; go_on () }
           }
         }
       }) ()"

definition assignment_ops :: "(token_kind \<times> bin_op option) list" where
  "assignment_ops =
     [(TkPunct PtEq, None), (TkPunct PtAmpEq, Some BitAnd), (TkPunct PtPipeEq, Some BitOr),
      (TkPunct PtCaretEq, Some BitXor), (TkPunct PtLShiftEq, Some Shl), (TkPunct PtRShiftEq, Some Shr),
      (TkPunct PtURShiftEq, Some Ushr)]"

definition at_assignment_stmt_start :: "bool parsing" where
  "at_assignment_stmt_start =
     do {
       t \<leftarrow> current;
       nxt \<leftarrow> peek_is 1 (map fst assignment_ops);
       ret (is_ident (tok_kind t) \<and> nxt)
     }"

text \<open>
  The end of a statement: after a semicolon its end, without one an error with a fix at
  \<open>expr_end\<close>.
\<close>

definition statement_end :: "rec_calls \<Rightarrow> string \<Rightarrow> string \<Rightarrow> nat \<Rightarrow> nat parsing" where
  "statement_end c code what expr_end =
     do {
       semi \<leftarrow> at_kind [TkPunct PtSemi];
       sp \<leftarrow> current_span;
       if semi then do { bump_tok; ret (span_end sp) }
       else do {
         perror_fix c code (''expected ';' after '' @ what) sp (''insert ';' after '' @ what) '';'' expr_end;
         ret expr_end
       }
     }"

definition parse_assign_stmt :: "rec_calls \<Rightarrow> stmt option parsing" where
  "parse_assign_stmt c =
     do {
       start \<leftarrow> current_span;
       qbind (expect_ident c ''E1060'' ''expected assignment target'') (\<lambda>(target, target_span). do {
         t \<leftarrow> current;
         case map_of assignment_ops (tok_kind t) of
           None \<Rightarrow>
             do {
               sp \<leftarrow> current_span;
               perror c ''E1061''
                 (''expected assignment operator ('=', '&=', '|=', '^=', '<<=', '>>=', '>>>=')'') sp;
               ret None
             }
         | Some compound_op \<Rightarrow>
             do {
               bump_tok;
               qbind (below_expr c) (\<lambda>rhs_expr. do {
                 let e = (case compound_op of
                     Some op \<Rightarrow>
                       (let lhs_expr = expr_var target target_span in
                        Expr (ABinary op lhs_expr rhs_expr) (span_join (e_span lhs_expr) (e_span rhs_expr)))
                   | None \<Rightarrow> rhs_expr);
                 stop \<leftarrow> statement_end c ''E1062'' ''assignment'' (span_end (e_span e));
                 ret (Some (AAssign target e (span_new (span_start start) stop)))
               })
             }
       })
     }"

definition break_has_value_start :: "bool parsing" where
  "break_has_value_start =
     do {
       b \<leftarrow> at_kind [TkPunct PtSemi, TkPunct PtRBrace, TkPunct PtRParen, TkPunct PtComma, TkEof];
       ret (\<not> b)
     }"

text \<open>The common part of \<open>break\<close> and \<open>return\<close>: the keyword, the optional value, the end.\<close>

definition parse_jump :: "rec_calls \<Rightarrow> (expr option \<Rightarrow> expr_kind) \<Rightarrow> expr option parsing" where
  "parse_jump c mk =
     do {
       start \<leftarrow> current_span;
       bump_tok;
       has_value \<leftarrow> break_has_value_start;
       qbind (if has_value then qbind (below_expr c) (\<lambda>e. ret (Some (Some e))) else ret (Some None)) (\<lambda>e. do {
         p \<leftarrow> previous_span;
         ret (Some (Expr (mk e) (span_new (span_start start)
           (case e of Some x \<Rightarrow> span_end (e_span x) | None \<Rightarrow> span_end p))))
       })
     }"

definition parse_break_expr :: "rec_calls \<Rightarrow> expr option parsing" where
  "parse_break_expr c = parse_jump c ABreak"

definition parse_return_expr :: "rec_calls \<Rightarrow> expr option parsing" where
  "parse_return_expr c = parse_jump c AReturn"

definition return_value :: "expr \<Rightarrow> expr option" where
  "return_value e = (case e_kind e of AReturn v \<Rightarrow> v | _ \<Rightarrow> None)"

definition parse_return_in_block :: "rec_calls \<Rightarrow> return_in_block option parsing" where
  "parse_return_in_block c =
     do {
       start \<leftarrow> current_span;
       qbind (parse_return_expr c) (\<lambda>r. do {
         let v = return_value r;
         semi \<leftarrow> at_kind [TkPunct PtSemi];
         if semi then
           do {
             sp \<leftarrow> current_span;
             bump_tok;
             ret (Some (RibStmt (AReturnStmt v (span_new (span_start start) (span_end sp)))))
           }
         else do {
           brace \<leftarrow> at_kind [TkPunct PtRBrace];
           if brace then ret (Some (RibTail (Expr (AReturn v) (e_span r))))
           else do {
             sp \<leftarrow> current_span;
             let insert_at = (case v of Some e \<Rightarrow> span_end (e_span e) | None \<Rightarrow> span_end (e_span r));
             perror_fix c ''E1034'' ''expected ';' after return'' sp ''insert ';' after return'' '';'' insert_at;
             ret (Some (RibStmt (AReturnStmt v (span_new (span_start start) insert_at))))
           }
         }
       })
     }"

text \<open>The target of a \<open>let\<close>: a tuple pattern or a name.\<close>

definition parse_let_target :: "rec_calls \<Rightarrow> (tuple_let_pattern + string) option parsing" where
  "parse_let_target c =
     do {
       paren \<leftarrow> at_kind [TkPunct PtLParen];
       if paren then
         qbind (parse_pattern c) (\<lambda>p. qbind (convert_let_pattern c p) (\<lambda>t. ret (Some (Inl t))))
       else qbind (expect_ident c ''E1031'' ''expected binding name after let'') (\<lambda>(name, _). ret (Some (Inr name)))
     }"

text \<open>\<open>if self.at_kind(k) { self.bump(); Some(m?) } else { None }\<close>\<close>

definition optional_part :: "token_kind \<Rightarrow> 'a option parsing \<Rightarrow> 'a option option parsing" where
  "optional_part k m =
     do { present \<leftarrow> eat k; if present then qbind m (\<lambda>x. ret (Some (Some x))) else ret (Some None) }"

definition parse_let_stmt :: "rec_calls \<Rightarrow> stmt list option parsing" where
  "parse_let_stmt c =
     do {
       start \<leftarrow> current_span;
       bump_tok;
       mutable \<leftarrow> eat (TkKeyword KwMut);
       qbind (parse_let_target c) (\<lambda>target.
         qbind (optional_part (TkPunct PtColon) (parse_type c)) (\<lambda>ty.
           qbind (expect c [TkPunct PtEq] ''E1032'' ''expected '=' in let binding'') (\<lambda>_.
             qbind (below_expr c) (\<lambda>e. do {
               stop \<leftarrow> statement_end c ''E1033'' ''let binding'' (span_end (e_span e));
               let sp = span_new (span_start start) stop;
               case target of
                 Inl pat \<Rightarrow>
                   do {
                     (if mutable then
                        perror_help c ''E1031''
                          ''tuple destructuring does not support `let mut`; mark individual bindings mutable later''
                          sp ''remove `mut` here and use separate mutable bindings if needed''
                      else ret ());
                     stmts \<leftarrow> expand_tuple_let pat ty e sp;
                     ret (Some stmts)
                   }
               | Inr name \<Rightarrow> ret (Some [ALet name mutable ty e sp])
             }))))
     }"

text \<open>The loop of \<open>parse_block\<close>: the statements and the tail expression.\<close>

definition block_step ::
  "rec_calls \<Rightarrow> stmt list \<Rightarrow> (stmt list + stmt list \<times> expr option) parsing" where
  "block_step c stmts =
     do {
       at_end \<leftarrow> at_kind [TkPunct PtRBrace, TkEof];
       if at_end then leave (stmts, None)
       else do {
         is_let \<leftarrow> at_kind [TkKeyword KwLet];
         if is_let then
           do {
             r \<leftarrow> parse_let_stmt c;
             case r of
               Some parsed \<Rightarrow> go_on (stmts @ parsed)
             | None \<Rightarrow> do { recover_statement c; go_on stmts }
           }
         else do {
           assign \<leftarrow> at_assignment_stmt_start;
           if assign then
             do {
               r \<leftarrow> parse_assign_stmt c;
               case r of
                 Some s \<Rightarrow> go_on (stmts @ [s])
               | None \<Rightarrow> do { recover_statement c; go_on stmts }
             }
           else do {
             is_return \<leftarrow> at_kind [TkKeyword KwReturn];
             if is_return then
               do {
                 r \<leftarrow> parse_return_in_block c;
                 case r of
                   Some (RibStmt s) \<Rightarrow> go_on (stmts @ [s])
                 | Some (RibTail e) \<Rightarrow> leave (stmts, Some e)
                 | None \<Rightarrow> do { recover_statement c; go_on stmts }
               }
             else do {
               r \<leftarrow> below_expr c;
               case r of
                 None \<Rightarrow> do { recover_statement c; go_on stmts }
               | Some e \<Rightarrow>
                   do {
                     semi \<leftarrow> at_kind [TkPunct PtSemi];
                     if semi then
                       do {
                         sp \<leftarrow> current_span;
                         bump_tok;
                         go_on (stmts @ [AExprStmt e (span_join (e_span e) sp)])
                       }
                     else leave (stmts, Some e)
                   }
             }
           }
         }
       }
     }"

definition parse_block :: "rec_calls \<Rightarrow> block option parsing" where
  "parse_block c =
     qbind (expect c [TkPunct PtLBrace] ''E1029'' ''expected '{' to start block'') (\<lambda>open_span. do {
       (stmts, tail_expr) \<leftarrow> loop (rc_fuel c) ([], None) (block_step c) [];
       qbind (expect c [TkPunct PtRBrace] ''E1030'' ''expected '}' to close block'') (\<lambda>close.
         ret (Some (Block stmts tail_expr (span_new (span_start open_span) (span_end close)))))
     })"

section \<open>Primary expressions\<close>

definition parse_if_expr :: "rec_calls \<Rightarrow> expr option parsing" where
  "parse_if_expr c =
     do {
       start \<leftarrow> current_span;
       bump_tok;
       qbind (below_expr c) (\<lambda>cond.
         qbind (parse_block c) (\<lambda>then_block.
           qbind (expect c [TkKeyword KwElse] ''E1042'' ''expected else branch for if expression'') (\<lambda>_. do {
             nested_if \<leftarrow> at_kind [TkKeyword KwIf];
             qbind (if nested_if
                 then qbind (below_if c) (\<lambda>nested. ret (Some (Block [] (Some nested) (e_span nested))))
                 else parse_block c) (\<lambda>else_block.
               ret (Some (Expr (AIf cond then_block else_block)
                 (span_new (span_start start) (span_end (b_span else_block))))))
           })))
     }"

definition parse_expr_without_struct_literals :: "rec_calls \<Rightarrow> expr option parsing" where
  "parse_expr_without_struct_literals c =
     do {
       prev \<leftarrow> with_state pr_disallow_struct_literal;
       modify (\<lambda>st. st\<lparr>pr_disallow_struct_literal := True\<rparr>);
       e \<leftarrow> below_expr c;
       modify (\<lambda>st. st\<lparr>pr_disallow_struct_literal := prev\<rparr>);
       ret e
     }"

definition parse_for_expr :: "rec_calls \<Rightarrow> expr option parsing" where
  "parse_for_expr c =
     do {
       start \<leftarrow> current_span;
       bump_tok;
       qbind (expect_ident c ''E1031'' ''expected loop binding name after `for`'') (\<lambda>(binding, _).
         qbind (expect c [TkKeyword KwIn] ''E1041''
             ''expected `in` after loop binding in `for` expression'') (\<lambda>_.
           qbind (parse_expr_without_struct_literals c) (\<lambda>iterable. do {
             range \<leftarrow> eat (TkPunct PtDotDot);
             if range then
               qbind (parse_expr_without_struct_literals c) (\<lambda>end_expr.
                 qbind (parse_block c) (\<lambda>body. do {
                   e \<leftarrow> desugar_for_range binding iterable end_expr body (span_start start);
                   ret (Some e)
                 }))
             else
               qbind (parse_block c) (\<lambda>body. do {
                 e \<leftarrow> desugar_for_iter binding iterable body (span_start start);
                 ret (Some e)
               })
           })))
     }"

definition parse_while_expr :: "rec_calls \<Rightarrow> expr option parsing" where
  "parse_while_expr c =
     do {
       start \<leftarrow> current_span;
       bump_tok;
       qbind (below_expr c) (\<lambda>cond. qbind (parse_block c) (\<lambda>body.
         ret (Some (Expr (AWhile cond body) (span_new (span_start start) (span_end (b_span body)))))))
     }"

definition parse_loop_expr :: "rec_calls \<Rightarrow> expr option parsing" where
  "parse_loop_expr c =
     do {
       start \<leftarrow> current_span;
       bump_tok;
       qbind (parse_block c) (\<lambda>body.
         ret (Some (Expr (ALoop body) (span_new (span_start start) (span_end (b_span body))))))
     }"

definition parse_continue_expr :: "expr option parsing" where
  "parse_continue_expr =
     do {
       start \<leftarrow> current_span;
       bump_tok;
       p \<leftarrow> previous_span;
       ret (Some (Expr AContinue (span_new (span_start start) (span_end p))))
     }"

definition parse_match_arm :: "rec_calls \<Rightarrow> match_arm option parsing" where
  "parse_match_arm c =
     do {
       start \<leftarrow> current_span;
       qbind (parse_pattern c) (\<lambda>pat.
         qbind (optional_part (TkKeyword KwIf) (below_expr c)) (\<lambda>guard.
           qbind (expect c [TkPunct PtFatArrow] ''E1044'' ''expected '=>' in match arm'') (\<lambda>_.
             qbind (below_expr c) (\<lambda>body.
               ret (Some (MatchArm pat guard body (span_new (span_start start) (span_end (e_span body)))))))))
     }"

definition parse_match_expr :: "rec_calls \<Rightarrow> expr option parsing" where
  "parse_match_expr c =
     do {
       start \<leftarrow> current_span;
       bump_tok;
       qbind (below_expr c) (\<lambda>e.
         qbind (expect c [TkPunct PtLBrace] ''E1043'' ''expected '{' for match arms'') (\<lambda>_.
           qbind (comma_list c (TkPunct PtRBrace) (parse_match_arm c) []) (\<lambda>arms.
             qbind (expect c [TkPunct PtRBrace] ''E1045'' ''expected '}' after match arms'') (\<lambda>close.
               ret (Some (Expr (AMatch e arms) (span_new (span_start start) (span_end close))))))))
     }"

definition looks_like_struct_literal :: "bool parsing" where
  "looks_like_struct_literal =
     do {
       brace \<leftarrow> at_kind [TkPunct PtLBrace];
       t1 \<leftarrow> peek_tok 1;
       colon \<leftarrow> peek_is 2 [TkPunct PtColon];
       ret (brace \<and>
         (case t1 of
            None \<Rightarrow> False
          | Some t \<Rightarrow> tok_kind t = TkPunct PtRBrace \<or> is_ident (tok_kind t) \<and> colon))
     }"

definition parse_field_init :: "rec_calls \<Rightarrow> (string \<times> expr \<times> span) option parsing" where
  "parse_field_init c =
     qbind (expect_ident c ''E1038'' ''expected struct field name'') (\<lambda>(field_name, field_span).
       qbind (expect c [TkPunct PtColon] ''E1039'' ''expected ':' after field name'') (\<lambda>_.
         qbind (below_expr c) (\<lambda>value.
           ret (Some (field_name, value, span_join field_span (e_span value))))))"

definition parse_ident_expr :: "rec_calls \<Rightarrow> string \<Rightarrow> span \<Rightarrow> expr option parsing" where
  "parse_ident_expr c name sp =
     qbind (path_segments c ''E1088'' (''expected path segment after '::'' @ [CHR 0x27]) name (span_end sp))
       (\<lambda>(full_name, e). do {
         disallow \<leftarrow> with_state pr_disallow_struct_literal;
         brace \<leftarrow> (if \<not> disallow \<and> \<not> contains_text ''::'' full_name then at_kind [TkPunct PtLBrace]
           else ret False);
         is_literal \<leftarrow> (if brace then looks_like_struct_literal else ret False);
         if is_literal then
           do {
             bump_tok;
             qbind (comma_list c (TkPunct PtRBrace) (parse_field_init c) []) (\<lambda>fields.
               qbind (expect c [TkPunct PtRBrace] ''E1040'' ''expected '}' after struct literal'') (\<lambda>close.
                 ret (Some (Expr (AStructInit full_name fields) (span_new (span_start sp) (span_end close))))))
           }
         else ret (Some (Expr (AVar full_name) (span_new (span_start sp) e)))
       })"

definition tuple_fields :: "expr list \<Rightarrow> (string \<times> expr \<times> span) list" where
  "tuple_fields items = map (\<lambda>(idx, e). (nat_str idx, e, e_span e)) (enumerate 0 items)"

definition parse_paren_expr :: "rec_calls \<Rightarrow> span \<Rightarrow> expr option parsing" where
  "parse_paren_expr c sp =
     do {
       unit_expr \<leftarrow> at_kind [TkPunct PtRParen];
       if unit_expr then
         do {
           close \<leftarrow> current_span;
           bump_tok;
           ret (Some (Expr AUnit (span_new (span_start sp) (span_end close))))
         }
       else qbind (below_expr c) (\<lambda>first. do {
         comma \<leftarrow> eat (TkPunct PtComma);
         if comma then
           qbind (comma_list c (TkPunct PtRParen) (below_expr c) [first]) (\<lambda>items.
             qbind (expect c [TkPunct PtRParen] ''E1037'' ''expected ')' after tuple expression'') (\<lambda>close.
               ret (Some (Expr (AStructInit TUPLE_INTERNAL_NAME (tuple_fields items))
                 (span_new (span_start sp) (span_end close))))))
         else
           qbind (expect c [TkPunct PtRParen] ''E1037'' ''expected ')' after expression'') (\<lambda>close.
             ret (Some (Expr (e_kind first) (span_new (span_start sp) (span_end close)))))
       })
     }"

definition parse_primary :: "rec_calls \<Rightarrow> expr option parsing" where
  "parse_primary c =
     do {
       tok \<leftarrow> current;
       let sp = tok_span tok;
       let found = (\<lambda>k. do { bump_tok; ret (Some (Expr k sp)) });
       case tok_kind tok of
         TkInt l \<Rightarrow> found (AInt (ilt_value l) (int_token_metadata l))
       | TkFloat l \<Rightarrow> found (AFloat (flt_value l) (float_token_metadata l))
       | TkString value \<Rightarrow> found (AString value)
       | TkTemplate raw \<Rightarrow> do { bump_tok; parse_template_literal c raw sp }
       | TkChar value \<Rightarrow> found (AChar value)
       | TkKeyword KwTrue \<Rightarrow> found (ABool True)
       | TkKeyword KwFalse \<Rightarrow> found (ABool False)
       | TkKeyword KwNull \<Rightarrow>
           do {
             bump_tok;
             perror_help c ''E1051'' ''null is not a language value; use Option and None/Some instead'' sp
               ''replace `null` with `None` or a concrete `Some(...)` value'';
             ret (Some (Expr AUnit sp))
           }
       | TkPunct PtLParen \<Rightarrow> do { bump_tok; parse_paren_expr c sp }
       | TkKeyword KwIf \<Rightarrow> parse_if_expr c
       | TkKeyword KwFor \<Rightarrow> parse_for_expr c
       | TkKeyword KwWhile \<Rightarrow> parse_while_expr c
       | TkKeyword KwLoop \<Rightarrow> parse_loop_expr c
       | TkKeyword KwBreak \<Rightarrow> parse_break_expr c
       | TkKeyword KwContinue \<Rightarrow> parse_continue_expr
       | TkKeyword KwReturn \<Rightarrow> parse_return_expr c
       | TkKeyword KwMatch \<Rightarrow> parse_match_expr c
       | TkKeyword KwUnsafe \<Rightarrow>
           do {
             bump_tok;
             qbind (parse_block c) (\<lambda>b.
               ret (Some (Expr (AUnsafeBlock b) (span_new (span_start sp) (span_end (b_span b))))))
           }
       | TkIdent name \<Rightarrow> do { bump_tok; parse_ident_expr c name sp }
       | _ \<Rightarrow>
           do {
             perror_fix c ''E1041'' ''expected expression'' sp ''insert an expression'' ''0'' (span_start sp);
             ret None
           }
     }"

section \<open>Postfix and unary expressions\<close>

text \<open>
  The arguments of a call: the values, the names (empty until the first named argument) and whether a
  named one was seen.
\<close>

definition parse_call_arg ::
  "rec_calls \<Rightarrow> expr list \<times> string option list \<times> bool \<Rightarrow>
   (expr list \<times> string option list \<times> bool) option parsing" where
  "parse_call_arg c = (\<lambda>(args, arg_names, saw_named).
     do {
       t \<leftarrow> current;
       colon_next \<leftarrow> peek_is 1 [TkPunct PtColon];
       case (tok_kind t, colon_next) of
         (TkIdent name, True) \<Rightarrow>
           do {
             bump_tok;
             bump_tok;
             qbind (below_expr c) (\<lambda>value.
               (let names = (if arg_names = [] \<and> args \<noteq> [] then replicate (length args) None else arg_names)
                in ret (Some (args @ [value], names @ [Some name], True))))
           }
       | _ \<Rightarrow>
           qbind (below_expr c) (\<lambda>arg. do {
             (if saw_named then
                perror_help c ''E1092'' ''positional arguments cannot follow named arguments'' (e_span arg)
                  ''place positional arguments first, then named arguments''
              else ret ());
             ret (Some (args @ [arg], if arg_names = [] then [] else arg_names @ [None], saw_named))
           })
     })"

definition parse_call_args :: "rec_calls \<Rightarrow> (expr list \<times> string option list) option parsing" where
  "parse_call_args c =
     qbind (qloop (rc_fuel c) (\<lambda>s.
       do {
         at_end \<leftarrow> at_kind [TkPunct PtRParen];
         if at_end then leave (Some s)
         else qstep (parse_call_arg c s) (\<lambda>s'.
           do { more \<leftarrow> eat (TkPunct PtComma); if more then go_on s' else leave (Some s') })
       }) ([], [], False))
     (\<lambda>(args, arg_names, _). ret (Some (args, arg_names)))"

definition parse_field_name :: "rec_calls \<Rightarrow> (string \<times> span) option parsing" where
  "parse_field_name c =
     do {
       t \<leftarrow> current;
       case tok_kind t of
         TkIdent name \<Rightarrow> do { sp \<leftarrow> current_span; bump_tok; ret (Some (name, sp)) }
       | TkInt l \<Rightarrow>
           if 0 \<le> sint (ilt_value l) \<and> ilt_suffix l = None then
             do { sp \<leftarrow> current_span; bump_tok; ret (Some (nat_str (nat (sint (ilt_value l))), sp)) }
           else
             do {
               sp \<leftarrow> current_span;
               perror c ''E1036'' (''expected field name or tuple index after '.'' @ [CHR 0x27]) sp;
               ret None
             }
       | _ \<Rightarrow>
           do {
             sp \<leftarrow> current_span;
             perror c ''E1036'' (''expected field name or tuple index after '.'' @ [CHR 0x27]) sp;
             ret None
           }
     }"

definition postfix_step :: "rec_calls \<Rightarrow> expr \<Rightarrow> (expr + expr option) parsing" where
  "postfix_step c e =
     do {
       call \<leftarrow> eat (TkPunct PtLParen);
       if call then
         qstep (parse_call_args c) (\<lambda>(args, arg_names).
           qstep (expect c [TkPunct PtRParen] ''E1035'' ''expected ')' after function arguments'') (\<lambda>close.
             go_on (Expr (ACall e args (if list_all (\<lambda>n. n = None) arg_names then [] else arg_names))
               (span_new (span_start (e_span e)) (span_end close)))))
       else do {
         dot \<leftarrow> eat (TkPunct PtDot);
         if dot then
           qstep (parse_field_name c) (\<lambda>(field, field_span).
             go_on (Expr (AFieldAccess e field) (span_new (span_start (e_span e)) (span_end field_span))))
         else do {
           question \<leftarrow> at_kind [TkPunct PtQuestion];
           if question then
             do {
               sp \<leftarrow> current_span;
               bump_tok;
               go_on (Expr (ATry e) (span_new (span_start (e_span e)) (span_end sp)))
             }
           else leave (Some e)
         }
       }
     }"

definition parse_postfix :: "rec_calls \<Rightarrow> expr option parsing" where
  "parse_postfix c = qbind (parse_primary c) (qloop (rc_fuel c) (postfix_step c))"

definition parse_closure_param :: "rec_calls \<Rightarrow> closure_param option parsing" where
  "parse_closure_param c =
     do {
       start \<leftarrow> current_span;
       qbind (expect_ident c ''E1072'' ''expected closure parameter name'') (\<lambda>(name, name_span).
         qbind (optional_part (TkPunct PtColon) (parse_type c)) (\<lambda>ty.
           ret (Some \<lparr>cp_name = name, cp_ty = ty,
             cp_span = span_new (span_start start)
               (case ty of Some t \<Rightarrow> span_end (ty_span t) | None \<Rightarrow> span_end name_span)\<rparr>)))
     }"

definition parse_closure_params :: "rec_calls \<Rightarrow> closure_param list option parsing" where
  "parse_closure_params c =
     do {
       none \<leftarrow> eat (TkPunct PtOrOr);
       if none then ret (Some [])
       else qbind (expect c [TkPunct PtPipe] ''E1071'' ''expected '|' to start closure expression'') (\<lambda>_.
         qbind (comma_list c (TkPunct PtPipe) (parse_closure_param c) []) (\<lambda>params.
           qbind (expect c [TkPunct PtPipe] ''E1073'' ''expected '|' to end closure parameters'') (\<lambda>_.
             ret (Some params))))
     }"

definition parse_closure_expr :: "rec_calls \<Rightarrow> expr option parsing" where
  "parse_closure_expr c =
     do {
       start \<leftarrow> current_span;
       qbind (parse_closure_params c) (\<lambda>params.
         qbind (expect c [TkPunct PtArrow] ''E1074'' ''expected '->' after closure parameters'') (\<lambda>_.
           qbind (parse_type c) (\<lambda>ret_type.
             qbind (parse_block c) (\<lambda>body.
               ret (Some (Expr (AClosure params ret_type body)
                 (span_new (span_start start) (span_end (b_span body)))))))))
     }"

text \<open>A prefix operator, whose operand is a unary expression again.\<close>

definition prefix_operator :: "rec_calls \<Rightarrow> bool parsing \<Rightarrow> (bool \<Rightarrow> expr \<Rightarrow> expr_kind) \<Rightarrow> expr option parsing" where
  "prefix_operator c modifier mk =
     do {
       start \<leftarrow> current_span;
       bump_tok;
       m \<leftarrow> modifier;
       qbind (below_unary c) (\<lambda>e.
         ret (Some (Expr (mk m e) (span_new (span_start start) (span_end (e_span e))))))
     }"

definition parse_unary :: "rec_calls \<Rightarrow> expr option parsing" where
  "parse_unary c =
     do {
       closure \<leftarrow> at_kind [TkPunct PtPipe, TkPunct PtOrOr];
       if closure then parse_closure_expr c
       else do {
         amp \<leftarrow> at_kind [TkPunct PtAmpersand];
         if amp then prefix_operator c (eat (TkKeyword KwMut)) ABorrow
         else do {
           await \<leftarrow> at_kind [TkKeyword KwAwait];
           if await then prefix_operator c (ret False) (\<lambda>_. AAwait)
           else do {
             minus \<leftarrow> at_kind [TkPunct PtMinus];
             if minus then prefix_operator c (ret False) (\<lambda>_. AUnary Neg)
             else do {
               bang \<leftarrow> at_kind [TkPunct PtBang];
               if bang then prefix_operator c (ret False) (\<lambda>_. AUnary Not)
               else do {
                 tilde \<leftarrow> at_kind [TkPunct PtTilde];
                 if tilde then prefix_operator c (ret False) (\<lambda>_. AUnary BitNot)
                 else parse_postfix c
               }
             }
           }
         }
       }
     }"

section \<open>The precedence ladder\<close>

definition parse_factor :: "rec_calls \<Rightarrow> expr option parsing" where
  "parse_factor c =
     binary_level c [(TkPunct PtStar, Mul), (TkPunct PtSlash, Div), (TkPunct PtPercent, Mod)]
       (parse_unary c)"

definition parse_term :: "rec_calls \<Rightarrow> expr option parsing" where
  "parse_term c = binary_level c [(TkPunct PtPlus, Add), (TkPunct PtMinus, Sub)] (parse_factor c)"

definition parse_shift :: "rec_calls \<Rightarrow> expr option parsing" where
  "parse_shift c =
     binary_level c [(TkPunct PtLShift, Shl), (TkPunct PtRShift, Shr), (TkPunct PtURShift, Ushr)]
       (parse_term c)"

definition parse_comparison :: "rec_calls \<Rightarrow> expr option parsing" where
  "parse_comparison c =
     binary_level c [(TkPunct PtLt, Lt), (TkPunct PtLe, Le), (TkPunct PtGt, Gt), (TkPunct PtGe, Ge)]
       (parse_shift c)"

definition parse_equality :: "rec_calls \<Rightarrow> expr option parsing" where
  "parse_equality c =
     binary_level c [(TkPunct PtEqEq, Eq), (TkPunct PtNe, Ne)] (parse_comparison c)"

definition parse_bit_and :: "rec_calls \<Rightarrow> expr option parsing" where
  "parse_bit_and c = binary_level c [(TkPunct PtAmpersand, BitAnd)] (parse_equality c)"

definition parse_bit_xor :: "rec_calls \<Rightarrow> expr option parsing" where
  "parse_bit_xor c = binary_level c [(TkPunct PtCaret, BitXor)] (parse_bit_and c)"

definition parse_bit_or :: "rec_calls \<Rightarrow> expr option parsing" where
  "parse_bit_or c = binary_level c [(TkPunct PtPipe, BitOr)] (parse_bit_xor c)"

definition parse_and :: "rec_calls \<Rightarrow> expr option parsing" where
  "parse_and c = binary_level c [(TkPunct PtAndAnd, And)] (parse_bit_or c)"

definition parse_or :: "rec_calls \<Rightarrow> expr option parsing" where
  "parse_or c = binary_level c [(TkPunct PtOrOr, Or)] (parse_and c)"

definition parse_expr :: "rec_calls \<Rightarrow> expr option parsing" where
  "parse_expr c = parse_or c"

section \<open>Tying the recursion\<close>

text \<open>
  The methods at level \<open>n\<close>, inside \<open>d\<close> possible levels of template literals; loops at a level have the
  number of the level as fuel. A fragment of a template literal starts a new parser, whose levels are
  counted anew from its own budget.
\<close>

definition calls ::
  "derive_reasoning \<Rightarrow> (string \<Rightarrow> f64 option) \<Rightarrow> nat \<Rightarrow>
   (parser \<Rightarrow> expr option \<times> parser) \<Rightarrow> (parser \<Rightarrow> expr option \<times> parser) \<Rightarrow>
   (parser \<Rightarrow> expr option \<times> parser) \<Rightarrow> (parser \<Rightarrow> type_expr option \<times> parser) \<Rightarrow>
   (parser \<Rightarrow> pattern option \<times> parser) \<Rightarrow> (parser \<Rightarrow> expr option \<times> parser) \<Rightarrow> rec_calls" where
  "calls derive parse_f64 n e u i t p f =
     \<lparr>rc_derive = derive, rc_float = parse_f64, rc_fuel = n, rc_expr = e, rc_unary = u, rc_if = i,
      rc_type = t, rc_pattern = p, rc_fragment = f\<rparr>"

definition fragment_levels :: "parser \<Rightarrow> nat" where
  "fragment_levels st = pr_step_budget st + 2"

type_synonym f64_parser = "string \<Rightarrow> f64 option"

fun run_type :: "derive_reasoning \<Rightarrow> f64_parser \<Rightarrow> nat \<Rightarrow> parser \<Rightarrow> type_expr option \<times> parser" where
  "run_type dr pf 0 st = run_state (halt None) st"
| "run_type dr pf (Suc n) st =
     run_state (parse_type (calls dr pf (Suc n) (run_state (halt None)) (run_state (halt None))
       (run_state (halt None)) (run_type dr pf n) (run_state (halt None)) (run_state (halt None)))) st"

fun run_pattern :: "derive_reasoning \<Rightarrow> f64_parser \<Rightarrow> nat \<Rightarrow> parser \<Rightarrow> pattern option \<times> parser" where
  "run_pattern dr pf 0 st = run_state (halt None) st"
| "run_pattern dr pf (Suc n) st =
     run_state (parse_pattern (calls dr pf (Suc n) (run_state (halt None)) (run_state (halt None))
       (run_state (halt None)) (run_state (halt None)) (run_pattern dr pf n) (run_state (halt None)))) st"

function run_expr :: "derive_reasoning \<Rightarrow> f64_parser \<Rightarrow> nat \<Rightarrow> nat \<Rightarrow> parser \<Rightarrow> expr option \<times> parser"
  and run_unary :: "derive_reasoning \<Rightarrow> f64_parser \<Rightarrow> nat \<Rightarrow> nat \<Rightarrow> parser \<Rightarrow> expr option \<times> parser"
  and run_if :: "derive_reasoning \<Rightarrow> f64_parser \<Rightarrow> nat \<Rightarrow> nat \<Rightarrow> parser \<Rightarrow> expr option \<times> parser"
  and run_fragment :: "derive_reasoning \<Rightarrow> f64_parser \<Rightarrow> nat \<Rightarrow> parser \<Rightarrow> expr option \<times> parser" where
  "run_expr dr pf d 0 st = run_state (halt None) st"
| "run_expr dr pf d (Suc n) st =
     run_state (parse_expr (calls dr pf (Suc n) (run_expr dr pf d n) (run_unary dr pf d n) (run_if dr pf d n)
       (run_type dr pf n) (run_pattern dr pf n) (run_fragment dr pf d))) st"
| "run_unary dr pf d 0 st = run_state (halt None) st"
| "run_unary dr pf d (Suc n) st =
     run_state (parse_unary (calls dr pf (Suc n) (run_expr dr pf d n) (run_unary dr pf d n) (run_if dr pf d n)
       (run_type dr pf n) (run_pattern dr pf n) (run_fragment dr pf d))) st"
| "run_if dr pf d 0 st = run_state (halt None) st"
| "run_if dr pf d (Suc n) st =
     run_state (parse_if_expr (calls dr pf (Suc n) (run_expr dr pf d n) (run_unary dr pf d n) (run_if dr pf d n)
       (run_type dr pf n) (run_pattern dr pf n) (run_fragment dr pf d))) st"
| "run_fragment dr pf 0 st = run_state (halt None) st"
| "run_fragment dr pf (Suc d) st = run_expr dr pf d (fragment_levels st) st"
  by pat_completeness auto
termination
  by (relation "inv_image (less_than <*lex*> less_than <*lex*> less_than)
      (\<lambda>x. case x of
         Inl (Inl (dr, pf, d, n, st)) \<Rightarrow> (d, 1, n)
       | Inl (Inr (dr, pf, d, n, st)) \<Rightarrow> (d, 1, n)
       | Inr (Inl (dr, pf, d, n, st)) \<Rightarrow> (d, 1, n)
       | Inr (Inr (dr, pf, d, st)) \<Rightarrow> (d, 0, 0::nat))") auto

definition expr_calls :: "derive_reasoning \<Rightarrow> f64_parser \<Rightarrow> nat \<Rightarrow> nat \<Rightarrow> rec_calls" where
  "expr_calls dr pf d n =
     calls dr pf n (run_expr dr pf d n) (run_unary dr pf d n) (run_if dr pf d n)
       (run_type dr pf n) (run_pattern dr pf n) (run_fragment dr pf d)"

end
