(* ===== verification/ParserItems.thy ===== *)
theory ParserItems
  imports ParserExpr
begin

text \<open>
  The parser's methods for items and programs and its entry points: \<open>src/parser.rs\<close>, lines 11--78,
  152--310, 712--1449, 1619--1730 and 4167--4327.
\<close>

section \<open>Functions\<close>

text \<open>The list of parameters, the arrow and the return type.\<close>

definition parse_signature :: "rec_calls \<Rightarrow> bool \<Rightarrow> string \<Rightarrow> string \<Rightarrow> (param list \<times> type_expr) option parsing" where
  "parse_signature c allow_self_receiver paren_message arrow_message =
     qbind (expect c [TkPunct PtLParen] ''E1005'' paren_message) (\<lambda>_.
       qbind (parse_params c allow_self_receiver) (\<lambda>params.
         qbind (expect c [TkPunct PtArrow] ''E1006'' arrow_message) (\<lambda>_.
           qbind (parse_type c) (\<lambda>ret_type. ret (Some (params, ret_type))))))"

definition function_signature :: "rec_calls \<Rightarrow> bool \<Rightarrow> (param list \<times> type_expr) option parsing" where
  "function_signature c allow_self_receiver =
     parse_signature c allow_self_receiver ''expected '(' after function name''
       ''expected '->' with function return type''"

text \<open>The body of a declaration that ends with a semicolon.\<close>

definition empty_body :: "span \<Rightarrow> block" where
  "empty_body sp = Block [] None (span_new (span_start sp) (span_end sp))"

definition parse_contracts :: "rec_calls \<Rightarrow> (expr option \<times> expr option) option parsing" where
  "parse_contracts c =
     qloop (rc_fuel c) (\<lambda>(requires, ensures).
       do {
         req \<leftarrow> eat (TkKeyword KwRequires);
         if req then qstep (below_expr c) (\<lambda>e. go_on (Some e, ensures))
         else do {
           ens \<leftarrow> eat (TkKeyword KwEnsures);
           if ens then qstep (below_expr c) (\<lambda>e. go_on (requires, Some e))
           else leave (Some (requires, ensures))
         }
       }) (None, None)"

definition parse_function ::
  "rec_calls \<Rightarrow> attribute list \<Rightarrow> bool \<Rightarrow> bool \<Rightarrow> nat \<Rightarrow> bool \<Rightarrow> visibility \<Rightarrow> fn_decl option parsing" where
  "parse_function c attrs is_async is_unsafe start allow_self_receiver vis =
     do {
       bump_tok;
       qbind (expect_ident c ''E1004'' ''expected function name'') (\<lambda>(name, _). do {
         generics0 \<leftarrow> parse_generics c;
         qbind (function_signature c allow_self_receiver) (\<lambda>(params, ret_type). do {
           generics \<leftarrow> parse_where_clause c generics0;
           qbind (parse_effects_clause c) (\<lambda>effects.
             qbind (parse_capabilities_clause c) (\<lambda>capabilities.
               qbind (parse_contracts c) (\<lambda>(requires, ensures).
                 qbind (parse_block c) (\<lambda>body.
                   ret (Some \<lparr>fn_name = name, fn_visibility = vis, fn_attrs = attrs,
                     fn_is_async = is_async, fn_is_unsafe = is_unsafe, fn_is_extern = False,
                     fn_extern_abi = None, fn_is_intrinsic = False, fn_intrinsic_abi = None,
                     fn_generics = generics, fn_params = params, fn_ret_type = ret_type,
                     fn_effects = effects, fn_capabilities = capabilities, fn_requires = requires,
                     fn_ensures = ensures, fn_body = body,
                     fn_span = span_new start (span_end (b_span body))\<rparr>)))))
         })
       })
     }"

definition parse_extern_rest ::
  "rec_calls \<Rightarrow> attribute list \<Rightarrow> visibility \<Rightarrow> span \<Rightarrow> string \<Rightarrow> fn_decl option parsing" where
  "parse_extern_rest c attrs vis start abi =
     qbind (expect_ident c ''E1004'' ''expected function name'') (\<lambda>(name, _). do {
       generics \<leftarrow> parse_generics c;
       (if generics \<noteq> [] then
          do {
            p \<leftarrow> previous_span;
            perror_help c ''E1065'' ''extern function declarations cannot declare generic parameters'' p
              ''declare concrete C ABI parameter and return types''
          }
        else ret ());
       qbind (function_signature c False) (\<lambda>(params, ret_type). do {
         extra \<leftarrow> at_kind [TkKeyword KwEffects, TkKeyword KwCapabilities, TkKeyword KwRequires,
           TkKeyword KwEnsures];
         (if extra then
            do {
              sp \<leftarrow> current_span;
              perror_help c ''E1066''
                ''extern function declarations cannot have effects/capabilities/contracts'' sp
                (''declare `extern` signatures only; wrap them in normal functions for '' @
                 ''effects/capabilities/contracts'');
              skip_until c [TkPunct PtSemi, TkEof]
            }
          else ret ());
         qbind (expect c [TkPunct PtSemi] ''E1067'' ''expected ';' after extern function declaration'')
           (\<lambda>semi.
             ret (Some \<lparr>fn_name = name, fn_visibility = vis, fn_attrs = attrs, fn_is_async = False,
               fn_is_unsafe = False, fn_is_extern = True, fn_extern_abi = Some abi,
               fn_is_intrinsic = False, fn_intrinsic_abi = None, fn_generics = generics,
               fn_params = params, fn_ret_type = ret_type, fn_effects = [], fn_capabilities = [],
               fn_requires = None, fn_ensures = None, fn_body = empty_body semi,
               fn_span = span_new (span_start start) (span_end semi)\<rparr>))
       })
     })"

definition parse_extern_function :: "rec_calls \<Rightarrow> attribute list \<Rightarrow> visibility \<Rightarrow> fn_decl option parsing" where
  "parse_extern_function c attrs vis =
     do {
       start \<leftarrow> current_span;
       bump_tok;
       abi_token \<leftarrow> current;
       case tok_kind abi_token of
         TkString abi \<Rightarrow>
           do {
             bump_tok;
             kw_fn \<leftarrow> at_kind [TkKeyword KwFn];
             if \<not> kw_fn then
               do {
                 sp \<leftarrow> current_span;
                 perror c ''E1064'' ''expected `fn` after extern ABI declaration'' sp;
                 ret None
               }
             else do { bump_tok; parse_extern_rest c attrs vis start abi }
           }
       | _ \<Rightarrow>
           do {
             perror_help c ''E1063''
               (''expected ABI string after `extern` (for example `extern '' @ dquoted ''C'' @ '' fn ...;`)'')
               (tok_span abi_token)
               (''use `extern '' @ dquoted ''C'' @ '' fn name(...) -> Ret;` for C ABI declarations'');
             ret None
           }
     }"

definition parse_intrinsic_function :: "rec_calls \<Rightarrow> attribute list \<Rightarrow> visibility \<Rightarrow> fn_decl option parsing" where
  "parse_intrinsic_function c attrs vis =
     do {
       start \<leftarrow> current_span;
       bump_tok;
       kw_fn \<leftarrow> at_kind [TkKeyword KwFn];
       if \<not> kw_fn then
         do {
           sp \<leftarrow> current_span;
           perror_help c ''E1093'' ''expected `fn` after `intrinsic`'' sp
             ''declare intrinsics as `intrinsic fn name(...) -> Ret;`'';
           ret None
         }
       else do {
         bump_tok;
         qbind (expect_ident c ''E1004'' ''expected function name'') (\<lambda>(name, _). do {
           generics \<leftarrow> parse_generics c;
           qbind (function_signature c False) (\<lambda>(params, ret_type).
             qbind (parse_effects_clause c) (\<lambda>effects.
               qbind (parse_capabilities_clause c) (\<lambda>capabilities. do {
                 contract \<leftarrow> at_kind [TkKeyword KwRequires, TkKeyword KwEnsures];
                 (if contract then
                    do {
                      sp \<leftarrow> current_span;
                      perror_help c ''E1093'' ''intrinsic declarations cannot declare requires/ensures contracts''
                        sp ''move contracts to wrapper functions around intrinsic calls'';
                      skip_until c [TkPunct PtSemi, TkPunct PtLBrace, TkEof]
                    }
                  else ret ());
                 brace \<leftarrow> at_kind [TkPunct PtLBrace];
                 if brace then
                   do {
                     sp \<leftarrow> current_span;
                     perror_help c ''E1093'' ''intrinsic declarations cannot have function bodies'' sp
                       ''declare intrinsics as `intrinsic fn name(...) -> Ret;`'';
                     _ \<leftarrow> parse_block c;
                     ret None
                   }
                 else
                   qbind (expect c [TkPunct PtSemi] ''E1093'' ''expected ';' after intrinsic declaration'')
                     (\<lambda>semi.
                       ret (Some \<lparr>fn_name = name, fn_visibility = vis, fn_attrs = attrs,
                         fn_is_async = False, fn_is_unsafe = False, fn_is_extern = False,
                         fn_extern_abi = None, fn_is_intrinsic = True,
                         fn_intrinsic_abi = Some ''runtime'', fn_generics = generics,
                         fn_params = params, fn_ret_type = ret_type, fn_effects = effects,
                         fn_capabilities = capabilities, fn_requires = None, fn_ensures = None,
                         fn_body = empty_body semi,
                         fn_span = span_new (span_start start) (span_end semi)\<rparr>))
               })))
         })
       }
     }"

text \<open>A \<open>{ ... }\<close> block with its nested blocks is skipped; the variable is the depth.\<close>

definition skip_balanced_braces :: "rec_calls \<Rightarrow> unit parsing" where
  "skip_balanced_braces c =
     loop (rc_fuel c) () (\<lambda>depth.
       do {
         at_end \<leftarrow> at_kind [TkEof];
         if at_end then leave ()
         else do {
           opening \<leftarrow> at_kind [TkPunct PtLBrace];
           if opening then do { bump_tok; go_on (depth + 1) }
           else do {
             closing \<leftarrow> at_kind [TkPunct PtRBrace];
             if closing \<and> depth - 1 = 0 then do { bump_tok; leave () }
             else do { bump_tok; go_on (if closing then depth - 1 else depth) }
           }
         }
       }) (0 :: nat)"

definition parse_trait_method_signature ::
  "rec_calls \<Rightarrow> attribute list \<Rightarrow> bool \<Rightarrow> bool \<Rightarrow> nat \<Rightarrow> visibility \<Rightarrow> fn_decl option parsing" where
  "parse_trait_method_signature c attrs is_async is_unsafe start vis =
     do {
       bump_tok;
       qbind (expect_ident c ''E1004'' ''expected method name'') (\<lambda>(name, _). do {
         generics0 \<leftarrow> parse_generics c;
         qbind (parse_signature c True ''expected '(' after method name''
             ''expected '->' with method return type'') (\<lambda>(params, ret_type). do {
           generics \<leftarrow> parse_where_clause c generics0;
           qbind (parse_effects_clause c) (\<lambda>effects.
             qbind (parse_capabilities_clause c) (\<lambda>capabilities. do {
               let mk = (\<lambda>body stop. \<lparr>fn_name = name, fn_visibility = vis, fn_attrs = attrs,
                 fn_is_async = is_async, fn_is_unsafe = is_unsafe, fn_is_extern = False,
                 fn_extern_abi = None, fn_is_intrinsic = False, fn_intrinsic_abi = None,
                 fn_generics = generics, fn_params = params, fn_ret_type = ret_type,
                 fn_effects = effects, fn_capabilities = capabilities, fn_requires = None,
                 fn_ensures = None, fn_body = body, fn_span = span_new start stop\<rparr>);
               contract \<leftarrow> at_kind [TkKeyword KwRequires, TkKeyword KwEnsures];
               (if contract then
                  do {
                    sp \<leftarrow> current_span;
                    perror_help c ''E1089'' ''trait method signatures cannot declare requires/ensures contracts''
                      sp ''move contracts to concrete impl methods'';
                    skip_until c [TkPunct PtSemi, TkPunct PtRBrace, TkEof]
                  }
                else ret ());
               brace \<leftarrow> at_kind [TkPunct PtLBrace];
               if brace then
                 do {
                   body_start \<leftarrow> current_span;
                   skip_balanced_braces c;
                   p \<leftarrow> previous_span;
                   let body_span = span_new (span_start body_start) (span_end p);
                   perror_help c ''E1098''
                     (''default method bodies are not supported in traits yet (`'' @ name @ ''`)'') body_span
                     (''end the trait signature with `;` and implement the body in each '' @
                      ''`impl Trait[Type] { ... }` block'');
                   ret (Some (mk (Block [] None body_span) (span_end body_span)))
                 }
               else
                 qbind (expect c [TkPunct PtSemi] ''E1089'' ''expected ';' after trait method signature'')
                   (\<lambda>semi. ret (Some (mk (empty_body semi) (span_end semi))))
             }))
         })
       })
     }"

section \<open>Structs and enums\<close>

definition parse_field :: "rec_calls \<Rightarrow> field_decl option parsing" where
  "parse_field c =
     do {
       start \<leftarrow> current_span;
       attrs \<leftarrow> parse_attributes c;
       validate_attributes c attrs AtField;
       vis \<leftarrow> parse_visibility_modifier c;
       qbind (expect_ident c ''E1012'' ''expected field name'') (\<lambda>(name, _).
         qbind (expect c [TkPunct PtColon] ''E1013'' ''expected ':' after field name'') (\<lambda>_.
           qbind (parse_type c) (\<lambda>ty.
             qbind (optional_part (TkPunct PtEq) (below_expr c)) (\<lambda>default_value.
               ret (Some \<lparr>fd_name = name, fd_visibility = vis, fd_attrs = attrs, fd_ty = ty,
                 fd_default_value = default_value,
                 fd_span = span_new (span_start start)
                   (case default_value of Some e \<Rightarrow> span_end (e_span e) | None \<Rightarrow> span_end (ty_span ty))\<rparr>)))))
     }"

definition parse_struct :: "rec_calls \<Rightarrow> attribute list \<Rightarrow> visibility \<Rightarrow> struct_def option parsing" where
  "parse_struct c attrs vis =
     do {
       start \<leftarrow> current_span;
       bump_tok;
       qbind (expect_ident c ''E1010'' ''expected struct name'') (\<lambda>(name, _). do {
         generics \<leftarrow> parse_generics c;
         qbind (expect c [TkPunct PtLBrace] ''E1011'' ''expected '{' after struct name'') (\<lambda>_.
           qbind (comma_list c (TkPunct PtRBrace) (parse_field c) []) (\<lambda>fields.
             qbind (expect c [TkPunct PtRBrace] ''E1014'' ''expected '}' after struct fields'') (\<lambda>close.
               qbind (optional_part (TkKeyword KwInvariant) (below_expr c)) (\<lambda>invariant.
                 ret (Some \<lparr>sd_name = name, sd_visibility = vis, sd_attrs = attrs,
                   sd_generics = generics, sd_fields = fields, sd_invariant = invariant,
                   sd_span = span_new (span_start start) (span_end close)\<rparr>)))))
       })
     }"

definition parse_payload :: "rec_calls \<Rightarrow> type_expr option parsing" where
  "parse_payload c =
     qbind (parse_type c) (\<lambda>ty.
       qbind (expect c [TkPunct PtRParen] ''E1018'' ''expected ')' after variant payload type'') (\<lambda>_.
         ret (Some ty)))"

definition parse_variant :: "rec_calls \<Rightarrow> variant_def option parsing" where
  "parse_variant c =
     do {
       start \<leftarrow> current_span;
       attrs \<leftarrow> parse_attributes c;
       validate_attributes c attrs AtVariant;
       qbind (expect_ident c ''E1017'' ''expected enum variant name'') (\<lambda>(name, _).
         qbind (optional_part (TkPunct PtLParen) (parse_payload c)) (\<lambda>payload. do {
           p \<leftarrow> previous_span;
           ret (Some \<lparr>vd_name = name, vd_attrs = attrs, vd_payload = payload,
             vd_span = span_new (span_start start)
               (case payload of Some ty \<Rightarrow> span_end (ty_span ty) | None \<Rightarrow> span_end p)\<rparr>)
         }))
     }"

definition parse_enum :: "rec_calls \<Rightarrow> attribute list \<Rightarrow> visibility \<Rightarrow> enum_def option parsing" where
  "parse_enum c attrs vis =
     do {
       start \<leftarrow> current_span;
       bump_tok;
       qbind (expect_ident c ''E1015'' ''expected enum name'') (\<lambda>(name, _). do {
         generics \<leftarrow> parse_generics c;
         qbind (expect c [TkPunct PtLBrace] ''E1016'' ''expected '{' after enum name'') (\<lambda>_.
           qbind (comma_list c (TkPunct PtRBrace) (parse_variant c) []) (\<lambda>variants.
             qbind (expect c [TkPunct PtRBrace] ''E1019'' ''expected '}' after enum variants'') (\<lambda>close.
               ret (Some \<lparr>ed_name = name, ed_visibility = vis, ed_attrs = attrs,
                 ed_generics = generics, ed_variants = variants,
                 ed_span = span_new (span_start start) (span_end close)\<rparr>))))
       })
     }"

section \<open>Traits and impls\<close>

definition at_member_start :: "bool parsing" where
  "at_member_start =
     do {
       kw \<leftarrow> at_kind (map TkKeyword [KwFn, KwAsync, KwUnsafe, KwType, KwConst, KwPub, KwPriv]);
       if kw then ret True
       else do {
         hash \<leftarrow> at_kind [TkPunct PtHash];
         bracket \<leftarrow> peek_is 1 [TkPunct PtLBracket];
         ret (hash \<and> bracket)
       }
     }"

definition at_container_terminator :: "bool parsing" where
  "at_container_terminator =
     at_kind (map TkKeyword
       [KwStruct, KwEnum, KwTrait, KwImpl, KwExtern, KwIntrinsic, KwModule, KwImport])"

definition unsupported_item ::
  "rec_calls \<Rightarrow> string \<Rightarrow> string \<Rightarrow> string \<Rightarrow> string \<Rightarrow> bool parsing" where
  "unsupported_item c container code kind hint =
     do {
       t \<leftarrow> peek_tok 1;
       sp0 \<leftarrow> current_span;
       let sp = (case t of
           Some t \<Rightarrow> if is_ident (tok_kind t) then span_new (span_start sp0) (span_end (tok_span t)) else sp0
         | None \<Rightarrow> sp0);
       perror_help c code (kind @ '' are not supported in '' @ container @ '' blocks yet'') sp hint;
       ret True
     }"

definition report_unsupported_associated_item :: "rec_calls \<Rightarrow> string \<Rightarrow> bool parsing" where
  "report_unsupported_associated_item c container =
     do {
       is_type \<leftarrow> at_kind [TkKeyword KwType];
       if is_type then
         unsupported_item c container ''E1084'' ''associated types''
           ''add a generic parameter to the trait instead, for example `trait Shape[T, Output]`''
       else do {
         is_const \<leftarrow> at_kind [TkKeyword KwConst];
         if is_const then
           unsupported_item c container ''E1085'' ''associated constants''
             (''declare a method that returns the value, for example `fn max_size(self: T) -> Int;`, '' @
              ''or use a module-level `const`'')
         else ret False
       }
     }"

text \<open>The variables are whether something was consumed and the depth of braces.\<close>

definition recover_member :: "rec_calls \<Rightarrow> nat \<Rightarrow> unit parsing" where
  "recover_member c member_start =
     do {
       index \<leftarrow> with_state pr_index;
       loop (rc_fuel c) () (\<lambda>(consumed, depth).
         do {
           at_end \<leftarrow> at_kind [TkEof];
           if at_end then leave ()
           else do {
             stop \<leftarrow> (if depth \<noteq> 0 then ret False
               else do {
                 brace \<leftarrow> at_kind [TkPunct PtRBrace];
                 if brace then ret True
                 else do {
                   semi \<leftarrow> eat (TkPunct PtSemi);
                   if semi then ret True
                   else if consumed then
                     do { m \<leftarrow> at_member_start; if m then ret True else at_container_terminator }
                   else ret False
                 }
               });
             if stop then leave ()
             else do {
               opening \<leftarrow> at_kind [TkPunct PtLBrace];
               if opening then do { bump_tok; go_on (True, depth + 1) }
               else do {
                 closing \<leftarrow> at_kind [TkPunct PtRBrace];
                 if closing \<and> depth - 1 = 0 then do { bump_tok; leave () }
                 else do { bump_tok; go_on (True, if closing then depth - 1 else depth) }
               }
             }
           }
         }) (index > member_start, 0 :: nat)
     }"

text \<open>
  One turn of the loop over the members of a trait or impl block: \<open>method\<close> parses a member after its
  modifiers, from the attributes, the two modifiers, the start and the visibility.
\<close>

definition member_step ::
  "rec_calls \<Rightarrow> string \<Rightarrow> string \<Rightarrow> string \<Rightarrow>
   (attribute list \<Rightarrow> bool \<Rightarrow> bool \<Rightarrow> nat \<Rightarrow> visibility \<Rightarrow> fn_decl option parsing) \<Rightarrow>
   fn_decl list \<Rightarrow> (fn_decl list + fn_decl list) parsing" where
  "member_step c container message hint method methods =
     do {
       at_end \<leftarrow> at_kind [TkPunct PtRBrace, TkEof];
       if at_end then leave methods
       else do {
         terminator \<leftarrow> at_container_terminator;
         if terminator then leave methods
         else do {
           member_index \<leftarrow> with_state pr_index;
           start \<leftarrow> current_span;
           attrs \<leftarrow> parse_attributes c;
           validate_attributes c attrs AtFunction;
           vis \<leftarrow> parse_visibility_modifier c;
           terminator' \<leftarrow> at_container_terminator;
           if terminator' then leave methods
           else do {
             unsupported \<leftarrow> report_unsupported_associated_item c container;
             if unsupported then do { recover_member c member_index; go_on methods }
             else do {
               is_async \<leftarrow> eat (TkKeyword KwAsync);
               is_unsafe \<leftarrow> eat (TkKeyword KwUnsafe);
               kw_fn \<leftarrow> at_kind [TkKeyword KwFn];
               if \<not> kw_fn then
                 do {
                   sp \<leftarrow> current_span;
                   perror_help c ''E1082'' message sp hint;
                   recover_member c member_index;
                   go_on methods
                 }
               else do {
                 m \<leftarrow> method attrs is_async is_unsafe (span_start start) vis;
                 case m of
                   Some f \<Rightarrow> go_on (methods @ [f])
                 | None \<Rightarrow> do { recover_member c member_index; go_on methods }
               }
             }
           }
         }
       }
     }"

definition parse_trait :: "rec_calls \<Rightarrow> attribute list \<Rightarrow> visibility \<Rightarrow> trait_def option parsing" where
  "parse_trait c attrs vis =
     do {
       start \<leftarrow> current_span;
       bump_tok;
       qbind (expect_ident c ''E1053'' ''expected trait name'') (\<lambda>(name, _). do {
         generics \<leftarrow> parse_generics c;
         let mk = (\<lambda>methods stop. \<lparr>td_name = name, td_visibility = vis, td_attrs = attrs,
           td_generics = generics, td_methods = methods, td_span = span_new (span_start start) stop\<rparr>);
         semi \<leftarrow> at_kind [TkPunct PtSemi];
         if semi then
           qbind (expect c [TkPunct PtSemi] ''E1054'' ''expected ';' after trait declaration'') (\<lambda>sp.
             ret (Some (mk [] (span_end sp))))
         else
           qbind (expect c [TkPunct PtLBrace] ''E1054'' ''expected ';' or '{' after trait declaration'') (\<lambda>_. do {
             methods \<leftarrow> loop (rc_fuel c) [] (member_step c ''trait''
               ''expected trait method signature (`fn`, `async fn`, or `unsafe fn`) in trait block''
               ''define signatures like `fn name(...) -> Ret;` inside trait blocks''
               (parse_trait_method_signature c)) [];
             qbind (expect c [TkPunct PtRBrace] ''E1086'' ''expected '}' after trait block'') (\<lambda>close.
               ret (Some (mk methods (span_end close))))
           })
       })
     }"

definition parse_impl_block ::
  "rec_calls \<Rightarrow> attribute list \<Rightarrow> visibility \<Rightarrow> nat \<Rightarrow> type_expr \<Rightarrow> impl_def option parsing" where
  "parse_impl_block c attrs vis start head_ty =
     do {
       methods \<leftarrow> loop (rc_fuel c) [] (member_step c ''impl''
         ''expected method declaration (`fn`, `async fn`, or `unsafe fn`) in impl block''
         ''define methods inside `impl Type { ... }` blocks''
         (\<lambda>attrs is_async is_unsafe start vis. parse_function c attrs is_async is_unsafe start True vis)) [];
       qbind (expect c [TkPunct PtRBrace] ''E1086'' ''expected '}' after impl block'') (\<lambda>close. do {
         (head_name, head_args) \<leftarrow>
           (case ty_kind head_ty of
              TNamed name args \<Rightarrow> ret (name, args)
            | _ \<Rightarrow>
                do {
                  perror c ''E1087'' ''impl target must be a named type'' (ty_span head_ty);
                  ret (''<?>'', [])
                });
         ret (Some \<lparr>id_trait_name = head_name, id_visibility = vis, id_attrs = attrs,
           id_trait_args = head_args, id_target = (if head_args \<noteq> [] then None else Some head_ty),
           id_methods = methods, id_is_inherent = (head_args = []),
           id_span = span_new start (span_end close)\<rparr>)
       })
     }"

definition parse_impl :: "rec_calls \<Rightarrow> attribute list \<Rightarrow> visibility \<Rightarrow> impl_def option parsing" where
  "parse_impl c attrs vis =
     do {
       start \<leftarrow> current_span;
       bump_tok;
       qbind (parse_type c) (\<lambda>head_ty. do {
         brace \<leftarrow> eat (TkPunct PtLBrace);
         if brace then parse_impl_block c attrs vis (span_start start) head_ty
         else
           (case ty_kind head_ty of
              TNamed trait_name trait_args \<Rightarrow>
                qbind (expect c [TkPunct PtSemi] ''E1058'' ''expected ';' after impl declaration'') (\<lambda>semi.
                  ret (Some \<lparr>id_trait_name = trait_name, id_visibility = vis, id_attrs = attrs,
                    id_trait_args = trait_args, id_target = None, id_methods = [],
                    id_is_inherent = False,
                    id_span = span_new (span_start start) (span_end semi)\<rparr>))
            | _ \<Rightarrow>
                do {
                  perror c ''E1055'' ''expected trait name after impl'' (ty_span head_ty);
                  ret None
                })
       })
     }"

section \<open>Type aliases and constants\<close>

text \<open>An alias or a constant is a function with an internal name.\<close>

definition internal_function ::
  "string \<Rightarrow> attribute list \<Rightarrow> generic_param list \<Rightarrow> type_expr \<Rightarrow> block \<Rightarrow> span \<Rightarrow> fn_decl" where
  "internal_function name attrs generics ty body sp =
     \<lparr>fn_name = name, fn_visibility = Private, fn_attrs = attrs, fn_is_async = False,
      fn_is_unsafe = False, fn_is_extern = False, fn_extern_abi = None, fn_is_intrinsic = False,
      fn_intrinsic_abi = None, fn_generics = generics, fn_params = [], fn_ret_type = ty,
      fn_effects = [], fn_capabilities = [], fn_requires = None, fn_ensures = None,
      fn_body = body, fn_span = sp\<rparr>"

definition parse_type_alias :: "rec_calls \<Rightarrow> attribute list \<Rightarrow> fn_decl option parsing" where
  "parse_type_alias c attrs =
     do {
       start \<leftarrow> current_span;
       bump_tok;
       qbind (expect_ident c ''E1075'' ''expected alias name after `type`'') (\<lambda>(alias_name, _). do {
         generics \<leftarrow> parse_generics c;
         qbind (expect c [TkPunct PtEq] ''E1076'' ''expected '=' in type alias declaration'') (\<lambda>_.
           qbind (parse_type c) (\<lambda>target_ty.
             qbind (expect c [TkPunct PtSemi] ''E1077'' ''expected ';' after type alias declaration'') (\<lambda>semi.
               ret (Some (internal_function (encode_internal_type_alias alias_name) attrs generics target_ty
                 (empty_body semi) (span_new (span_start start) (span_end semi)))))))
       })
     }"

definition parse_const_item :: "rec_calls \<Rightarrow> attribute list \<Rightarrow> fn_decl option parsing" where
  "parse_const_item c attrs =
     do {
       start \<leftarrow> current_span;
       bump_tok;
       qbind (expect_ident c ''E1078'' ''expected constant name after `const`'') (\<lambda>(const_name, _).
         qbind (expect c [TkPunct PtColon] ''E1079'' ''expected ':' after const name'') (\<lambda>_.
           qbind (parse_type c) (\<lambda>const_ty.
             qbind (expect c [TkPunct PtEq] ''E1080'' ''expected '=' in const declaration'') (\<lambda>_.
               qbind (below_expr c) (\<lambda>e.
                 qbind (expect c [TkPunct PtSemi] ''E1081'' ''expected ';' after const declaration'') (\<lambda>semi.
                   ret (Some (internal_function (encode_internal_const const_name) attrs [] const_ty
                     (Block [] (Some e) (span_new (span_start (e_span e)) (span_end (e_span e))))
                     (span_new (span_start start) (span_end semi))))))))))
     }"

section \<open>Items\<close>

definition reject_visibility :: "rec_calls \<Rightarrow> visibility \<Rightarrow> string \<Rightarrow> string \<Rightarrow> unit parsing" where
  "reject_visibility c vis message hint =
     (if vis \<noteq> Private then do { sp \<leftarrow> current_span; perror_help c ''E1091'' message sp hint }
      else ret ())"

text \<open>The keyword \<open>unsafe\<close> or \<open>async\<close> before a function.\<close>

definition parse_modified_function ::
  "rec_calls \<Rightarrow> attribute list \<Rightarrow> bool \<Rightarrow> bool \<Rightarrow> visibility \<Rightarrow> string \<Rightarrow> string \<Rightarrow> item option parsing" where
  "parse_modified_function c attrs is_async is_unsafe vis code message =
     do {
       start \<leftarrow> current_span;
       bump_tok;
       kw_fn \<leftarrow> at_kind [TkKeyword KwFn];
       if \<not> kw_fn then do { sp \<leftarrow> current_span; perror c code message sp; ret None }
       else do {
         validate_attributes c attrs AtFunction;
         qbind (parse_function c attrs is_async is_unsafe (span_start start) False vis)
           (\<lambda>f. ret (Some (AFunction f)))
       }
     }"

text \<open>The branches of \<open>parse_item\<close> in order: the keyword that selects each one, and what it does.\<close>

definition item_branches ::
  "rec_calls \<Rightarrow> attribute list \<Rightarrow> visibility \<Rightarrow> (keyword \<times> item option parsing) list" where
  "item_branches c attrs vis =
     [(KwExtern, do {
         validate_attributes c attrs AtFunction;
         qbind (parse_extern_function c attrs vis) (\<lambda>f. ret (Some (AFunction f))) }),
      (KwIntrinsic, do {
         validate_attributes c attrs AtFunction;
         qbind (parse_intrinsic_function c attrs vis) (\<lambda>f. ret (Some (AFunction f))) }),
      (KwType, do {
         validate_attributes c attrs AtTypeAlias;
         reject_visibility c vis ''visibility modifiers are not supported on `type` aliases''
           ''remove the visibility modifier from this `type` alias'';
         qbind (parse_type_alias c attrs) (\<lambda>f. ret (Some (AFunction f))) }),
      (KwConst, do {
         validate_attributes c attrs AtConst;
         reject_visibility c vis ''visibility modifiers are not supported on `const` items''
           ''remove the visibility modifier from this `const` item'';
         qbind (parse_const_item c attrs) (\<lambda>f. ret (Some (AFunction f))) }),
      (KwUnsafe, parse_modified_function c attrs False True vis ''E1068''
         ''expected `fn` after `unsafe` item modifier''),
      (KwAsync, parse_modified_function c attrs True False vis ''E1052'' ''expected `fn` after `async`''),
      (KwFn, do {
         start \<leftarrow> current_span;
         validate_attributes c attrs AtFunction;
         qbind (parse_function c attrs False False (span_start start) False vis)
           (\<lambda>f. ret (Some (AFunction f))) }),
      (KwStruct, do {
         validate_attributes c attrs AtStruct;
         qbind (parse_struct c attrs vis) (\<lambda>s. ret (Some (AStruct s))) }),
      (KwEnum, do {
         validate_attributes c attrs AtEnum;
         qbind (parse_enum c attrs vis) (\<lambda>e. ret (Some (AEnum e))) }),
      (KwTrait, do {
         validate_attributes c attrs AtTrait;
         qbind (parse_trait c attrs vis) (\<lambda>t. ret (Some (ATrait t))) }),
      (KwImpl, do {
         validate_attributes c attrs AtImpl;
         qbind (parse_impl c attrs vis) (\<lambda>i. ret (Some (AImpl i))) })]"

definition no_item :: "rec_calls \<Rightarrow> item option parsing" where
  "no_item c =
     do {
       sp \<leftarrow> current_span;
       perror_help c ''E1003''
         (''expected item declaration (`fn`, `async fn`, `unsafe fn`, `extern '' @ dquoted ''C'' @
          '' fn`, `intrinsic fn`, `type`, `const`, `struct`, `enum`, `trait`, `impl`)'') sp
         ''define functions or types at module scope'';
       ret None
     }"

fun choose_item :: "rec_calls \<Rightarrow> (keyword \<times> item option parsing) list \<Rightarrow> item option parsing" where
  "choose_item c [] = no_item c"
| "choose_item c ((kw, p) # branches) =
     do { b \<leftarrow> at_kind [TkKeyword kw]; if b then p else choose_item c branches }"

definition parse_item :: "rec_calls \<Rightarrow> item option parsing" where
  "parse_item c =
     do {
       attrs \<leftarrow> parse_attributes c;
       vis \<leftarrow> parse_visibility_modifier c;
       choose_item c (item_branches c attrs vis)
     }"

section \<open>Programs\<close>

definition parse_path :: "rec_calls \<Rightarrow> (string list \<times> span) option parsing" where
  "parse_path c =
     qbind (expect_ident c ''E1049'' ''expected path segment'') (\<lambda>(first, first_span).
       qbind (qloop (rc_fuel c) (\<lambda>(path, e).
         do {
           dot \<leftarrow> eat (TkPunct PtDot);
           if \<not> dot then leave (Some (path, e))
           else qstep (expect_ident c ''E1050'' ''expected path segment'')
             (\<lambda>(segment, sp). go_on (path @ [segment], span_end sp))
         }) ([first], span_end first_span))
       (\<lambda>(path, e). ret (Some (path, span_new (span_start first_span) e))))"

definition recover_item :: "rec_calls \<Rightarrow> unit parsing" where
  "recover_item c =
     loop (rc_fuel c) () (\<lambda>_.
       do {
         at_end \<leftarrow> at_kind [TkEof];
         if at_end then leave ()
         else do {
           item_start \<leftarrow> at_kind (map TkKeyword
             [KwAsync, KwFn, KwType, KwConst, KwExtern, KwUnsafe, KwStruct, KwEnum, KwTrait, KwImpl]);
           if item_start then leave () else do { bump_tok; go_on () }
         }
       }) ()"

definition parse_module :: "rec_calls \<Rightarrow> module_decl option parsing" where
  "parse_module c =
     qbind (parse_path c) (\<lambda>(path, sp).
       qbind (expect c [TkPunct PtSemi] ''E1001'' ''expected ';' after module declaration'') (\<lambda>_.
         ret (Some \<lparr>md_path = path, md_span = sp\<rparr>)))"

definition parse_imports :: "rec_calls \<Rightarrow> import_decl list option parsing" where
  "parse_imports c =
     qloop (rc_fuel c) (\<lambda>imports.
       do {
         kw \<leftarrow> at_kind [TkKeyword KwImport];
         if \<not> kw then leave (Some imports)
         else do {
           start \<leftarrow> current_span;
           bump_tok;
           qstep (parse_path c) (\<lambda>(path, path_span).
             qstep (expect c [TkPunct PtSemi] ''E1002'' ''expected ';' after import declaration'') (\<lambda>_.
               go_on (imports @ [\<lparr>imp_path = path,
                 imp_span = span_new (span_start start) (span_end path_span)\<rparr>])))
         }
       }) []"

definition parse_items :: "rec_calls \<Rightarrow> item list parsing" where
  "parse_items c =
     loop (rc_fuel c) [] (\<lambda>items.
       do {
         at_end \<leftarrow> at_kind [TkEof];
         if at_end then leave items
         else do {
           item_start \<leftarrow> with_state pr_index;
           it \<leftarrow> parse_item c;
           case it of
             Some i \<Rightarrow> go_on (items @ [i])
           | None \<Rightarrow>
               do {
                 at_end' \<leftarrow> at_kind [TkEof];
                 if at_end' then leave items
                 else do {
                   index \<leftarrow> with_state pr_index;
                   (if index = item_start then bump_tok else ret ());
                   recover_item c;
                   go_on items
                 }
               }
         }
       }) []"

definition parse_program :: "rec_calls \<Rightarrow> ast_program option parsing" where
  "parse_program c =
     do {
       start \<leftarrow> current_span;
       qbind (optional_part (TkKeyword KwModule) (parse_module c)) (\<lambda>module_decl.
         qbind (parse_imports c) (\<lambda>imports. do {
           items \<leftarrow> parse_items c;
           stop \<leftarrow> current_span;
           ret (Some \<lparr>ap_module = module_decl, ap_imports = imports, ap_items = items,
             ap_span = span_new (span_start start) (span_end stop)\<rparr>)
         }))
     }"

section \<open>Entry points\<close>

record parse_stats =
  ps_tokens :: nat
  ps_steps :: nat
  ps_budget :: nat
  ps_budget_exhausted :: bool

definition stats :: "parser \<Rightarrow> parse_stats" where
  "stats st =
     \<lparr>ps_tokens = length (pr_tokens st), ps_steps = pr_steps st, ps_budget = pr_step_budget st,
      ps_budget_exhausted = budget_exhausted st\<rparr>"

definition report_stuck :: "rec_calls \<Rightarrow> unit parsing" where
  "report_stuck c =
     do {
       st \<leftarrow> with_state (\<lambda>st. st);
       (if ps_budget_exhausted (stats st) then
          perror_help c ''E1099''
            (''parser stopped after '' @ nat_str (ps_steps (stats st)) @
             '' steps without making progress ('' @ nat_str (ps_tokens (stats st)) @ '' tokens)'')
            (tok_span (pr_tokens st ! min (pr_stuck_at st) (length (pr_tokens st) - 1)))
            ''this is a compiler bug; report the input and simplify the code near this location''
        else ret ())
     }"

text \<open>\<open>None\<close> stands for a panic and for a parse that does not end.\<close>

definition parse_with_step_budget ::
  "derive_reasoning \<Rightarrow> f64_parser \<Rightarrow> string \<Rightarrow> string \<Rightarrow> nat option \<Rightarrow>
   (ast_program option \<times> diagnostic list \<times> parse_stats) option" where
  "parse_with_step_budget dr pf source src_file step_budget =
     (case lex pf dr source src_file of
        None \<Rightarrow> None
      | Some (tokens, diagnostics) \<Rightarrow>
          (let st0 = new_parser src_file tokens;
               st1 = (case step_budget of Some b \<Rightarrow> st0\<lparr>pr_step_budget := b\<rparr> | None \<Rightarrow> st0);
               c = expr_calls dr pf (length source) (pr_step_budget st1 + 2);
               (program, st2) = run_state (parse_program c) st1;
               (_, st3) = run_state (report_stuck c) st2
           in if pr_halted st3 then None
              else Some (program, diagnostics @ pr_diagnostics st3, stats st2)))"

definition parse_with_stats ::
  "derive_reasoning \<Rightarrow> f64_parser \<Rightarrow> string \<Rightarrow> string \<Rightarrow>
   (ast_program option \<times> diagnostic list \<times> parse_stats) option" where
  "parse_with_stats dr pf source src_file = parse_with_step_budget dr pf source src_file None"

definition parse ::
  "derive_reasoning \<Rightarrow> f64_parser \<Rightarrow> string \<Rightarrow> string \<Rightarrow> (ast_program option \<times> diagnostic list) option" where
  "parse dr pf source src_file =
     map_option (\<lambda>(program, ds, _). (program, ds)) (parse_with_stats dr pf source src_file)"

end
