(* ===== verification/ParserProgress.thy ===== *)
theory ParserProgress
  imports ParserItems
begin

text \<open>
  The measure of progress of the parser. The steps left in the budget bound the depth of recursion and
  the turns of every loop, because each descent and each turn looks at a token that is not the end of
  the file. This theory has the calculus and its rules for the methods below expressions.
\<close>

section \<open>The measure and the invariant\<close>

definition steps_left :: "parser \<Rightarrow> nat" where
  "steps_left st = pr_step_budget st + 1 - pr_steps st"

definition short_template :: "nat \<Rightarrow> token \<Rightarrow> bool" where
  "short_template d t = (case tok_kind t of TkTemplate raw \<Rightarrow> length raw \<le> d | _ \<Rightarrow> True)"

definition wf_parser :: "nat \<Rightarrow> parser \<Rightarrow> bool" where
  "wf_parser d st \<longleftrightarrow>
     \<not> pr_halted st \<and> pr_tokens st \<noteq> [] \<and> tok_kind (last (pr_tokens st)) = TkEof \<and>
     list_all (short_template d) (pr_tokens st)"

text \<open>
  \<open>ok c d k p Q\<close>: from a well-formed state in which the steps left stay \<open>k\<close> below the fuel of \<open>c\<close>, the
  computation ends in a well-formed state in which they stay \<open>Q r\<close> below it, for its value \<open>r\<close>. So
  \<open>Suc k\<close> after \<open>k\<close> means that a step was made.
\<close>

definition ok :: "rec_calls \<Rightarrow> nat \<Rightarrow> nat \<Rightarrow> 'a parsing \<Rightarrow> ('a \<Rightarrow> nat) \<Rightarrow> bool" where
  "ok c d k p Q \<longleftrightarrow>
     (\<forall>st. wf_parser d st \<longrightarrow> steps_left st + k < rc_fuel c \<longrightarrow>
        (case run_state p st of (r, st') \<Rightarrow> wf_parser d st' \<and> steps_left st' + Q r < rc_fuel c))"

abbreviation oks :: "rec_calls \<Rightarrow> nat \<Rightarrow> nat \<Rightarrow> 'a parsing \<Rightarrow> bool" where
  "oks c d k p \<equiv> ok c d k p (\<lambda>_. k)"

definition sound_call :: "nat \<Rightarrow> nat \<Rightarrow> (parser \<Rightarrow> 'a \<times> parser) \<Rightarrow> bool" where
  "sound_call d n f \<longleftrightarrow>
     (\<forall>st. wf_parser d st \<longrightarrow> steps_left st < n \<longrightarrow>
        wf_parser d (snd (f st)) \<and> steps_left (snd (f st)) \<le> steps_left st)"

definition good :: "nat \<Rightarrow> rec_calls \<Rightarrow> bool" where
  "good d c \<longleftrightarrow>
     sound_call d (rc_fuel c - 1) (rc_expr c) \<and> sound_call d (rc_fuel c - 1) (rc_unary c) \<and>
     sound_call d (rc_fuel c - 2) (rc_if c) \<and> sound_call d (rc_fuel c - 1) (rc_type c) \<and>
     sound_call d (rc_fuel c - 1) (rc_pattern c) \<and>
     (\<forall>d' st. d = Suc d' \<longrightarrow> wf_parser d' st \<longrightarrow> wf_parser d' (snd (rc_fragment c st)))"

named_theorems ok_rules \<open>rules of the progress calculus\<close>

lemma okI:
  assumes "\<And>st r st'. wf_parser d st \<Longrightarrow> steps_left st + k < rc_fuel c \<Longrightarrow> run_state p st = (r, st') \<Longrightarrow>
    wf_parser d st' \<and> steps_left st' + Q r < rc_fuel c"
  shows "ok c d k p Q"
  unfolding ok_def using assms by (auto split: prod.split)

lemma okD:
  assumes "ok c d k p Q" "wf_parser d st" "steps_left st + k < rc_fuel c" "run_state p st = (r, st')"
  shows "wf_parser d st'" "steps_left st' + Q r < rc_fuel c"
  using assms(1) [unfolded ok_def, rule_format, OF assms(2,3)] assms(4) by simp_all

lemma ok_weaken:
  assumes "ok c d k p Q'" "\<And>x. Q x \<le> Q' x"
  shows "ok c d k p Q"
proof (rule okI)
  fix st r st'
  assume "wf_parser d st" "steps_left st + k < rc_fuel c" "run_state p st = (r, st')"
  from okD [OF assms(1) this] assms(2) [of r]
  show "wf_parser d st' \<and> steps_left st' + Q r < rc_fuel c" by simp
qed

lemma ok_bind:
  assumes "ok c d k m Q'" "\<And>x. ok c d (Q' x) (f x) Q"
  shows "ok c d k (State_Monad.bind m f) Q"
proof (rule okI)
  fix st r st'
  assume st: "wf_parser d st" "steps_left st + k < rc_fuel c"
    and "run_state (State_Monad.bind m f) st = (r, st')"
  from this(3) obtain x s1 where 1: "run_state m st = (x, s1)" "run_state (f x) s1 = (r, st')"
    by (rule run_state_bindE)
  from okD [OF assms(1) st 1(1)] okD [OF assms(2) _ _ 1(2)]
  show "wf_parser d st' \<and> steps_left st' + Q r < rc_fuel c" by blast
qed

lemma ok_bind_same: "oks c d k m \<Longrightarrow> (\<And>x. ok c d k (f x) Q) \<Longrightarrow> ok c d k (State_Monad.bind m f) Q"
  by (rule ok_bind)

lemma ok_ret [ok_rules]: "Q x \<le> k \<Longrightarrow> ok c d k (ret x) Q"
  unfolding ok_def by auto

lemma ok_bind_ret [ok_rules]: "ok c d k (f x) Q \<Longrightarrow> ok c d k (State_Monad.bind (ret x) f) Q"
  by simp

lemma ok_if_value [ok_rules]:
  "ok c d k p Q \<Longrightarrow> ok c d k (if True then p else q) Q"
  "ok c d k q Q \<Longrightarrow> ok c d k (if False then p else q) Q"
  "ok c d k q Q \<Longrightarrow> ok c d k (if \<not> True then p else q) Q"
  "ok c d k p Q \<Longrightarrow> ok c d k (if \<not> False then p else q) Q"
  by simp_all

lemma ok_if [ok_rules]:
  "(b \<Longrightarrow> ok c d k p Q) \<Longrightarrow> (\<not> b \<Longrightarrow> ok c d k q Q) \<Longrightarrow> ok c d k (if b then p else q) Q"
  by simp

lemma ok_let [ok_rules]: "ok c d k (f v) Q \<Longrightarrow> ok c d k (Let v f) Q"
  by simp

lemma ok_prod [ok_rules]: "(\<And>a b. x = (a, b) \<Longrightarrow> ok c d k (f a b) Q) \<Longrightarrow> ok c d k (case x of (a, b) \<Rightarrow> f a b) Q"
  by (cases x) simp

lemma ok_option [ok_rules]:
  "(x = None \<Longrightarrow> ok c d k p Q) \<Longrightarrow> (\<And>y. x = Some y \<Longrightarrow> ok c d k (f y) Q) \<Longrightarrow>
     ok c d k (case x of None \<Rightarrow> p | Some y \<Rightarrow> f y) Q"
  by (cases x) simp_all

text \<open>One rule per datatype that the methods match on, with one premise for each constructor.\<close>

lemmas ok_cases =
  token_kind.split [where P = "\<lambda>p. ok c d k p Q" for c d k Q, THEN iffD2]
  keyword.split [where P = "\<lambda>p. ok c d k p Q" for c d k Q, THEN iffD2]
  punct.split [where P = "\<lambda>p. ok c d k p Q" for c d k Q, THEN iffD2]
  pattern_kind.split [where P = "\<lambda>p. ok c d k p Q" for c d k Q, THEN iffD2]
  type_kind.split [where P = "\<lambda>p. ok c d k p Q" for c d k Q, THEN iffD2]
  conjI allI impI

lemma ok_bind_if:
  "(b \<Longrightarrow> oks c d k p) \<Longrightarrow> (\<not> b \<Longrightarrow> oks c d k q) \<Longrightarrow> (\<And>x. ok c d k (f x) Q) \<Longrightarrow>
     ok c d k (State_Monad.bind (if b then p else q) f) Q"
  by (cases b) (auto intro: ok_bind)

lemma ok_qbind:
  assumes "ok c d k m Q'" "Q None \<le> Q' None" "\<And>x. ok c d (Q' (Some x)) (f x) Q"
  shows "ok c d k (qbind m f) Q"
  unfolding qbind_def
  by (rule ok_bind [OF assms(1)]) (auto intro: ok_ret assms split: option.split)

lemma ok_qbind_same:
  "oks c d k m \<Longrightarrow> Q None \<le> k \<Longrightarrow> (\<And>x. ok c d k (f x) Q) \<Longrightarrow> ok c d k (qbind m f) Q"
  by (rule ok_qbind)

lemma ok_qstep:
  assumes "ok c d k m Q'" "Q (Inr None) \<le> Q' None" "\<And>x. ok c d (Q' (Some x)) (f x) Q"
  shows "ok c d k (qstep m f) Q"
  unfolding qstep_def
  by (rule ok_bind [OF assms(1)]) (auto intro: ok_ret assms split: option.split)

lemma ok_qstep_same:
  "oks c d k m \<Longrightarrow> Q (Inr None) \<le> k \<Longrightarrow> (\<And>x. ok c d k (f x) Q) \<Longrightarrow> ok c d k (qstep m f) Q"
  by (rule ok_qstep)

text \<open>The bound after a turn of a loop.\<close>

definition turn :: "nat \<Rightarrow> ('s + 'r) \<Rightarrow> nat" where
  "turn k r = (case r of Inl _ \<Rightarrow> Suc k | Inr _ \<Rightarrow> k)"

lemma turn_simps [simp]: "turn k (Inl s) = Suc k" "turn k (Inr y) = k"
  by (simp_all add: turn_def)

lemma turn_le [simp]: "turn k r \<le> Suc k"
  by (cases r) simp_all

lemma ok_loop_fuel:
  assumes "\<And>k s. j \<le> k \<Longrightarrow> ok c d k (body s) (turn k)"
  shows "j \<le> k \<Longrightarrow> rc_fuel c \<le> m + k \<Longrightarrow> oks c d k (loop m x body s)"
proof (induction m arbitrary: k s)
  case 0
  then show ?case unfolding ok_def by auto
next
  case (Suc m)
  show ?case
    unfolding loop.simps
  proof (rule ok_bind [OF assms])
    show "j \<le> k" by fact
    fix r
    show "ok c d (turn k r) (case r of Inl s' \<Rightarrow> loop m x body s' | Inr y \<Rightarrow> ret y) (\<lambda>_. k)"
    proof (cases r)
      case (Inl s')
      from Suc.prems have "oks c d (Suc k) (loop m x body s')" by (intro Suc.IH) auto
      from ok_weaken [OF this, of "\<lambda>_. k"] Inl show ?thesis by simp
    next
      case (Inr y)
      then show ?thesis by (simp add: ok_ret)
    qed
  qed
qed

lemma oks_loop:
  "(\<And>j s. k \<le> j \<Longrightarrow> ok c d j (body s) (turn j)) \<Longrightarrow> oks c d k (loop (rc_fuel c) x body s)"
  by (rule ok_loop_fuel [of k]) auto

lemmas ok_loop [ok_rules] =
  ok_bind_same [OF oks_loop] ok_qbind_same [OF oks_loop] ok_weaken [OF oks_loop]

section \<open>Primitive operations\<close>

lemma current_cases:
  assumes "wf_parser d st" "run_state current st = (t, st')"
  shows "wf_parser d st'" "short_template d t"
    "tok_kind t = TkEof \<and> steps_left st' \<le> steps_left st \<or> steps_left st' < steps_left st"
proof -
  let ?ts = "pr_tokens st"
  from assms have ts: "?ts \<noteq> []" "tok_kind (last ?ts) = TkEof" "list_all (short_template d) ?ts"
    by (auto simp: wf_parser_def)
  then have last: "?ts ! (length ?ts - 1) = last ?ts" by (simp add: last_conv_nth)
  have "length ?ts - 1 < length ?ts" "min (pr_index st) (length ?ts - 1) < length ?ts"
    using ts(1) by (simp_all add: min_less_iff_disj)
  with ts(3) have "short_template d (?ts ! (length ?ts - 1))"
    "short_template d (?ts ! min (pr_index st) (length ?ts - 1))"
    by (auto simp: list_all_length)
  with assms ts last show "wf_parser d st'" "short_template d t"
    "tok_kind t = TkEof \<and> steps_left st' \<le> steps_left st \<or> steps_left st' < steps_left st"
    by (auto simp: current_def Let_def wf_parser_def steps_left_def split: if_splits)
qed

lemma ok_current: "ok c d k current (\<lambda>t. if tok_kind t = TkEof then k else Suc k)"
proof (rule okI)
  fix st t st'
  assume "wf_parser d st" "steps_left st + k < rc_fuel c" "run_state current st = (t, st')"
  with current_cases [OF this(1,3)]
  show "wf_parser d st' \<and> steps_left st' + (if tok_kind t = TkEof then k else Suc k) < rc_fuel c"
    by auto
qed

lemma ok_bind_current [ok_rules]:
  assumes "\<And>t. tok_kind t \<noteq> TkEof \<Longrightarrow> short_template d t \<Longrightarrow> ok c d (Suc k) (f t) Q"
    and "\<And>t. tok_kind t = TkEof \<Longrightarrow> ok c d k (f t) Q"
  shows "ok c d k (State_Monad.bind current f) Q"
proof (rule okI)
  fix st r st'
  assume st: "wf_parser d st" "steps_left st + k < rc_fuel c"
    and "run_state (State_Monad.bind current f) st = (r, st')"
  from this(3) obtain t s1 where 1: "run_state current st = (t, s1)" "run_state (f t) s1 = (r, st')"
    by (rule run_state_bindE)
  note cc = current_cases [OF st(1) 1(1)]
  show "wf_parser d st' \<and> steps_left st' + Q r < rc_fuel c"
  proof (cases "tok_kind t = TkEof")
    case True
    with okD [OF assms(2) cc(1) _ 1(2)] cc(3) st(2) show ?thesis by auto
  next
    case False
    with okD [OF assms(1) cc(1) _ 1(2)] cc(2,3) st(2) show ?thesis by auto
  qed
qed

text \<open>The bound after \<open>at_kind ks\<close> with the answer \<open>b\<close>: the end of the file is the only free answer.\<close>

definition after_at :: "token_kind list \<Rightarrow> nat \<Rightarrow> bool \<Rightarrow> nat" where
  "after_at ks k b = (if b = (TkEof \<in> set ks) then k else Suc k)"

lemma ok_at_kind [ok_rules]:
  assumes "ok c d (after_at ks k True) (f True) Q" "ok c d (after_at ks k False) (f False) Q"
  shows "ok c d k (State_Monad.bind (at_kind ks) f) Q"
proof -
  have "ok c d k (at_kind ks) (after_at ks k)"
    unfolding at_kind_def by (intro ok_rules) (auto simp: after_at_def)
  then show ?thesis
  proof (rule ok_bind)
    fix b show "ok c d (after_at ks k b) (f b) Q" using assms by (cases b) simp_all
  qed
qed

lemma oks_with_state: "oks c d k (with_state f)"
  unfolding ok_def with_state_def by auto

lemma oks_bump: "oks c d k bump_tok"
  unfolding ok_def bump_tok_def modify_def by (auto simp: wf_parser_def steps_left_def)

lemma oks_current_span: "oks c d k current_span"
  unfolding current_span_def by (intro ok_rules) (auto simp: after_at_def)

lemma oks_at_kind: "oks c d k (at_kind ks)"
  unfolding at_kind_def by (intro ok_rules) (auto simp: after_at_def)

lemma oks_peek_tok: "oks c d k (peek_tok n)"
  unfolding peek_tok_def by (rule oks_with_state)

lemma oks_peek_is: "oks c d k (peek_is n ks)"
  unfolding peek_is_def by (rule ok_bind_same [OF oks_peek_tok]) (intro ok_rules order_refl)

lemma oks_previous_span: "oks c d k previous_span"
  unfolding previous_span_def by (rule oks_with_state)

lemmas ok_bind_primitive [ok_rules] =
  ok_bind_same [OF oks_with_state] ok_bind_same [OF oks_bump] ok_bind_same [OF oks_current_span]
  ok_bind_same [OF oks_peek_tok] ok_bind_same [OF oks_peek_is] ok_bind_same [OF oks_previous_span]

lemma all_registered: "list_all is_registered REGISTERED_DIAGNOSTIC_CODES"
  by (simp add: list_all_iff is_registered_def)

lemmas registered_codes [simp] =
  all_registered [unfolded REGISTERED_DIAGNOSTIC_CODES_def list.pred_inject]

lemma wf_report:
  "wf_parser d st \<Longrightarrow> x \<noteq> None \<Longrightarrow>
     wf_parser d (snd (run_state (report x) st)) \<and> steps_left (snd (run_state (report x) st)) = steps_left st"
  by (auto simp: report_def wf_parser_def steps_left_def)

lemma oks_report: "x \<noteq> None \<Longrightarrow> oks c d k (report x)"
  unfolding ok_def by (auto simp: report_def wf_parser_def steps_left_def)

lemma diagnostic_registered: "is_registered code \<Longrightarrow> diagnostic_error dr code message src_file sp \<noteq> None"
  by (simp add: diagnostic_error_def assert_registered_iff)

lemma oks_perror: "is_registered code \<Longrightarrow> oks c d k (perror c' code message sp)"
  unfolding perror_def
  by (intro ok_rules oks_report diagnostic_registered)

lemma oks_perror_help: "is_registered code \<Longrightarrow> oks c d k (perror_help c' code message sp hint)"
  unfolding perror_help_def
  by (intro ok_rules oks_report) (simp add: diagnostic_registered)

lemma oks_perror_fix: "is_registered code \<Longrightarrow> oks c d k (perror_fix c' code message sp a b n)"
  unfolding perror_fix_def
  by (intro ok_rules oks_report) (simp add: diagnostic_registered)

lemmas ok_bind_error [ok_rules] =
  ok_bind_same [OF oks_perror] ok_bind_same [OF oks_perror_help] ok_bind_same [OF oks_perror_fix]

lemma ok_expect:
  "TkEof \<notin> set ks \<Longrightarrow> is_registered code \<Longrightarrow>
     ok c d k (expect c' ks code message) (\<lambda>r. case r of None \<Rightarrow> k | Some _ \<Rightarrow> Suc k)"
  unfolding expect_def by (intro ok_rules) (auto simp: after_at_def)

lemma ok_expect_ident:
  "is_registered code \<Longrightarrow>
     ok c d k (expect_ident c' code message) (\<lambda>r. case r of None \<Rightarrow> k | Some _ \<Rightarrow> Suc k)"
  unfolding expect_ident_def
  by (intro ok_rules) (auto split: token_kind.split intro!: ok_rules)

lemma ok_eat [ok_rules]:
  "k' \<noteq> TkEof \<Longrightarrow> ok c d (Suc k) (f True) Q \<Longrightarrow> ok c d k (f False) Q \<Longrightarrow>
     ok c d k (State_Monad.bind (eat k') f) Q"
proof -
  assume "k' \<noteq> TkEof" and f: "ok c d (Suc k) (f True) Q" "ok c d k (f False) Q"
  then have "ok c d k (eat k') (\<lambda>b. if b then Suc k else k)"
    unfolding eat_def by (intro ok_rules) (auto simp: after_at_def)
  then show ?thesis by (rule ok_bind) (use f in simp)
qed

lemma ok_bind_if_eat [ok_rules]:
  "k' \<noteq> TkEof \<Longrightarrow> ok c d (Suc k) (f True) Q \<Longrightarrow> ok c d k (f False) Q \<Longrightarrow>
     ok c d k (State_Monad.bind (if b then eat k' else ret False) f) Q"
  by (cases b) (simp_all add: ok_eat)

lemma ok_bind_if_at [ok_rules]:
  assumes "TkEof \<notin> set ks" "ok c d (Suc k) (f True) Q" "ok c d k (f False) Q"
  shows "ok c d k (State_Monad.bind (if b then at_kind ks else ret False) f) Q"
  using ok_at_kind [of c d ks k f Q] assms by (cases b) (simp_all add: after_at_def)

lemma ok_bind_if_ident [ok_rules]:
  assumes "ok c d (Suc k) (f True) Q" "\<And>j. k \<le> j \<Longrightarrow> ok c d j (f False) Q"
  shows "ok c d k (State_Monad.bind
    (if b then do { t \<leftarrow> current; ret (tok_kind t = TkIdent name) } else ret False) f) Q"
proof -
  have "ok c d k (State_Monad.bind current (\<lambda>t. f (tok_kind t = TkIdent name))) Q"
  proof (rule ok_bind_current)
    fix t show "ok c d (Suc k) (f (tok_kind t = TkIdent name)) Q"
      using assms by (cases "tok_kind t = TkIdent name") simp_all
  next
    fix t assume "tok_kind t = TkEof"
    with assms(2) [of k] show "ok c d k (f (tok_kind t = TkIdent name)) Q" by simp
  qed
  with assms(2) [of k] show ?thesis by (cases b) simp_all
qed

declare ok_bind_if [ok_rules]

lemma ok_qbind_expect [ok_rules]:
  "TkEof \<notin> set ks \<Longrightarrow> is_registered code \<Longrightarrow> Q None \<le> k \<Longrightarrow> (\<And>x. ok c d (Suc k) (f x) Q) \<Longrightarrow>
     ok c d k (qbind (expect c' ks code message) f) Q"
  "is_registered code \<Longrightarrow> Q None \<le> k \<Longrightarrow> (\<And>x. ok c d (Suc k) (g x) Q) \<Longrightarrow>
     ok c d k (qbind (expect_ident c' code message) g) Q"
  by (rule ok_qbind [OF ok_expect], simp_all) (rule ok_qbind [OF ok_expect_ident], simp_all)

lemma ok_qstep_expect [ok_rules]:
  "TkEof \<notin> set ks \<Longrightarrow> is_registered code \<Longrightarrow> Q (Inr None) \<le> k \<Longrightarrow> (\<And>x. ok c d (Suc k) (f x) Q) \<Longrightarrow>
     ok c d k (qstep (expect c' ks code message) f) Q"
  "is_registered code \<Longrightarrow> Q (Inr None) \<le> k \<Longrightarrow> (\<And>x. ok c d (Suc k) (g x) Q) \<Longrightarrow>
     ok c d k (qstep (expect_ident c' code message) g) Q"
  by (rule ok_qstep [OF ok_expect], simp_all) (rule ok_qstep [OF ok_expect_ident], simp_all)

lemma oks_expect: "TkEof \<notin> set ks \<Longrightarrow> is_registered code \<Longrightarrow> oks c d k (expect c' ks code message)"
  by (rule ok_weaken [OF ok_expect]) (auto split: option.split)

lemma oks_expect_ident: "is_registered code \<Longrightarrow> oks c d k (expect_ident c' code message)"
  by (rule ok_weaken [OF ok_expect_ident]) (auto split: option.split)

lemma oks_eat: "k' \<noteq> TkEof \<Longrightarrow> oks c d k (eat k')"
  unfolding eat_def by (intro ok_rules) (auto simp: after_at_def)

lemmas ok_bind_expect [ok_rules] = ok_bind_same [OF oks_expect] ok_bind_same [OF oks_expect_ident]

lemmas ok_tail_primitive [ok_rules] =
  ok_weaken [OF oks_perror] ok_weaken [OF oks_perror_help] ok_weaken [OF oks_perror_fix]
  ok_weaken [OF oks_eat] ok_weaken [OF oks_at_kind] ok_weaken [OF oks_current_span]
  ok_weaken [OF oks_bump]

lemma oks_skip_until: "TkEof \<in> set ks \<Longrightarrow> oks c d k (skip_until c ks)"
  unfolding skip_until_def by (intro ok_rules) (auto simp: after_at_def)

lemmas ok_skip_until [ok_rules] = ok_bind_same [OF oks_skip_until] ok_weaken [OF oks_skip_until]

lemma oks_comma_list:
  "closing \<noteq> TkEof \<Longrightarrow> (\<And>j. k \<le> j \<Longrightarrow> oks c d j item) \<Longrightarrow> oks c d k (comma_list c closing item xs)"
  unfolding comma_list_def by (intro ok_rules ok_qstep_same) (auto simp: after_at_def)

section \<open>Attributes, generics and types\<close>

lemma oks_validate_from: "oks c d k (validate_attributes_from c earlier attrs target)"
proof (induction attrs arbitrary: earlier)
  case Nil
  show ?case by (simp add: ok_ret)
next
  case (Cons attr attrs)
  show ?case
    unfolding validate_attributes_from.simps validate_web_attribute_target_def
      validate_web_attribute_shape_def
    by (intro ok_rules ok_weaken [OF Cons] ok_bind_same) auto
qed

lemma oks_validate: "oks c d k (validate_attributes c attrs target)"
  unfolding validate_attributes_def by (rule oks_validate_from)

lemmas ok_validate [ok_rules] = ok_bind_same [OF oks_validate]

lemma oks_attribute_value: "oks c d k (parse_attribute_value c)"
  unfolding parse_attribute_value_def
  by (intro ok_rules ok_cases) auto

lemma oks_recover_delimiter: "oks c d k (recover_to_attribute_delimiter c)"
  unfolding recover_to_attribute_delimiter_def by (intro ok_rules) (auto simp: after_at_def)

lemma oks_recover_end: "oks c d k (recover_to_attribute_end c)"
  unfolding recover_to_attribute_end_def by (intro ok_rules) (auto simp: after_at_def)

lemmas ok_attribute_parts [ok_rules] =
  ok_bind_same [OF oks_attribute_value] ok_bind_same [OF oks_recover_delimiter]
  ok_bind_same [OF oks_recover_end]

lemma ok_after_argument [ok_rules]:
  "(\<And>a. Q (Inl a) \<le> Suc k) \<Longrightarrow> (\<And>a. Q (Inr a) \<le> k) \<Longrightarrow> ok c d k (after_argument args) Q"
  unfolding after_argument_def by (intro ok_rules) (auto simp: after_at_def)

lemma oks_attribute_args: "oks c d k (parse_attribute_args c)"
  unfolding parse_attribute_args_def by (intro ok_rules) (auto simp: after_at_def)

lemmas ok_attribute_args [ok_rules] = ok_bind_same [OF oks_attribute_args]

lemma oks_attributes: "oks c d k (parse_attributes c)"
  unfolding parse_attributes_def by (intro ok_rules) (auto simp: after_at_def)

lemma oks_visibility: "oks c d k (parse_visibility_modifier c)"
  unfolding parse_visibility_modifier_def by (intro ok_rules) (auto simp: after_at_def)

lemma oks_bounds: "oks c d k (parse_bounds c message)"
  unfolding parse_bounds_def by (intro ok_rules) (auto simp: after_at_def)

lemmas ok_prefix_parts [ok_rules] =
  ok_bind_same [OF oks_attributes] ok_bind_same [OF oks_visibility] ok_bind_same [OF oks_bounds]
  ok_weaken [OF oks_bounds]

lemma oks_generics: "oks c d k (parse_generics c)"
  unfolding parse_generics_def by (intro ok_rules) (auto simp: after_at_def)

lemma ok_bind_option [ok_rules]:
  "(x = None \<Longrightarrow> oks c d k p) \<Longrightarrow> (\<And>y. x = Some y \<Longrightarrow> oks c d k (g y)) \<Longrightarrow>
     (\<And>r. ok c d k (f r) Q) \<Longrightarrow>
     ok c d k (State_Monad.bind (case x of None \<Rightarrow> p | Some y \<Rightarrow> g y) f) Q"
  by (cases x) (auto intro: ok_bind)

lemma oks_where: "oks c d k (parse_where_clause c generics)"
  unfolding parse_where_clause_def by (intro ok_rules) (auto simp: after_at_def)

lemma oks_name_clause:
  "is_registered (fst a) \<Longrightarrow> is_registered (fst b) \<Longrightarrow> is_registered (fst e) \<Longrightarrow>
     oks c d k (parse_name_clause c kw a b e)"
  unfolding parse_name_clause_def
  by (intro ok_rules ok_qbind_same [OF oks_comma_list]) (auto simp: after_at_def)

lemma oks_effects_clause: "oks c d k (parse_effects_clause c)"
  unfolding parse_effects_clause_def by (rule oks_name_clause) simp_all

lemma oks_capabilities_clause: "oks c d k (parse_capabilities_clause c)"
  unfolding parse_capabilities_clause_def by (rule oks_name_clause) simp_all

lemmas ok_clauses [ok_rules] =
  ok_bind_same [OF oks_generics] ok_bind_same [OF oks_where]
  ok_qbind_same [OF oks_effects_clause] ok_qbind_same [OF oks_capabilities_clause]

lemma sound_call_ok:
  assumes "sound_call d (rc_fuel c - j) f" "j \<le> k"
  shows "oks c d k (State f)"
proof (rule okI)
  fix st r st'
  assume st: "wf_parser d st" "steps_left st + k < rc_fuel c" and run: "run_state (State f) st = (r, st')"
  from st(2) assms(2) have "steps_left st < rc_fuel c - j" by simp
  with assms(1) st run show "wf_parser d st' \<and> steps_left st' + k < rc_fuel c"
    by (auto simp: sound_call_def dest!: spec [of _ st])
qed

lemma oks_below:
  "good d c \<Longrightarrow> 0 < k \<Longrightarrow> oks c d k (below_expr c)"
  "good d c \<Longrightarrow> 0 < k \<Longrightarrow> oks c d k (below_unary c)"
  "good d c \<Longrightarrow> 1 < k \<Longrightarrow> oks c d k (below_if c)"
  "good d c \<Longrightarrow> 0 < k \<Longrightarrow> oks c d k (below_type c)"
  "good d c \<Longrightarrow> 0 < k \<Longrightarrow> oks c d k (below_pattern c)"
  unfolding good_def
  by ((elim conjE, rule sound_call_ok, assumption, simp)+)

lemmas ok_below [ok_rules] =
  oks_below [THEN ok_bind_same] oks_below [THEN ok_qbind_same] oks_below [THEN ok_qstep_same]
  oks_below [THEN ok_weaken]

lemma oks_path_segments: "is_registered code \<Longrightarrow> oks c d k (path_segments c code message name e)"
  unfolding path_segments_def by (intro ok_rules) (auto simp: after_at_def)

lemmas ok_path_segments [ok_rules] = ok_qbind_same [OF oks_path_segments]

lemmas ok_comma_lists [ok_rules] = ok_qbind_same [OF oks_comma_list]

lemma oks_paren_type: "good d c \<Longrightarrow> 0 < k \<Longrightarrow> oks c d k (parse_paren_type c start)"
  unfolding parse_paren_type_def by (intro ok_rules) (auto simp: after_at_def)

lemma oks_fn_type: "good d c \<Longrightarrow> 0 < k \<Longrightarrow> oks c d k (parse_fn_type c start name)"
  unfolding parse_fn_type_def by (intro ok_rules) (auto simp: after_at_def)

lemmas ok_type_parts [ok_rules] = oks_paren_type [THEN ok_weaken] oks_fn_type [THEN ok_weaken]

lemma oks_type: "good d c \<Longrightarrow> oks c d k (parse_type c)"
  unfolding parse_type_def by (intro ok_rules) (auto simp: after_at_def)

lemma oks_ref_receiver: "oks c d k (parse_ref_receiver c attrs)"
  unfolding parse_ref_receiver_def by (intro ok_rules) (auto simp: after_at_def)

lemma oks_plain_param: "good d c \<Longrightarrow> oks c d k (parse_plain_param c attrs)"
  unfolding parse_plain_param_def
  by (intro ok_rules ok_qbind_same [OF oks_type]) (auto simp: after_at_def)

lemma oks_after_receiver: "oks c d k (after_receiver params)"
  unfolding after_receiver_def by (intro ok_rules) (auto simp: after_at_def)

lemmas ok_param_parts [ok_rules] =
  ok_qstep_same [OF oks_ref_receiver] oks_plain_param [THEN ok_qstep_same]
  ok_weaken [OF oks_after_receiver]

lemma oks_params: "good d c \<Longrightarrow> oks c d k (parse_params c allow_self)"
  unfolding parse_params_def by (intro ok_rules) (auto simp: after_at_def)

lemmas ok_types [ok_rules] = oks_type [THEN ok_qbind_same] oks_params [THEN ok_qbind_same]

section \<open>Patterns\<close>

lemma oks_paren_pattern: "good d c \<Longrightarrow> 0 < k \<Longrightarrow> oks c d k (parse_paren_pattern c start)"
  unfolding parse_paren_pattern_def by (intro ok_rules) (auto simp: after_at_def)

lemma ok_qstep_if [ok_rules]:
  "(b \<Longrightarrow> oks c d k p) \<Longrightarrow> (\<not> b \<Longrightarrow> oks c d k q) \<Longrightarrow> Q (Inr None) \<le> k \<Longrightarrow> (\<And>x. ok c d k (f x) Q) \<Longrightarrow>
     ok c d k (qstep (if b then p else q) f) Q"
  by (cases b) (auto intro: ok_qstep_same)

lemma ok_qbind_if [ok_rules]:
  "(b \<Longrightarrow> oks c d k p) \<Longrightarrow> (\<not> b \<Longrightarrow> oks c d k q) \<Longrightarrow> Q None \<le> k \<Longrightarrow> (\<And>x. ok c d k (f x) Q) \<Longrightarrow>
     ok c d k (qbind (if b then p else q) f) Q"
  by (cases b) (auto intro: ok_qbind_same)

lemma oks_struct_pattern_fields:
  "good d c \<Longrightarrow> 0 < k \<Longrightarrow> oks c d k (parse_struct_pattern_fields c)"
  unfolding parse_struct_pattern_fields_def by (intro ok_rules) (auto simp: after_at_def)

lemmas ok_pattern_parts [ok_rules] =
  oks_paren_pattern [THEN ok_weaken] oks_struct_pattern_fields [THEN ok_qbind_same]

lemma oks_ident_pattern: "good d c \<Longrightarrow> 0 < k \<Longrightarrow> oks c d k (parse_ident_pattern c name sp)"
  unfolding parse_ident_pattern_def by (intro ok_rules) (auto simp: after_at_def)

lemmas ok_ident_pattern [ok_rules] = oks_ident_pattern [THEN ok_weaken]

lemma oks_pattern_atom: "good d c \<Longrightarrow> oks c d k (parse_pattern_atom c)"
  unfolding parse_pattern_atom_def
  by (intro ok_rules ok_cases) auto

lemmas ok_pattern_atom [ok_rules] = oks_pattern_atom [THEN ok_qbind_same] oks_pattern_atom [THEN ok_qstep_same]

lemma oks_pattern: "good d c \<Longrightarrow> oks c d k (parse_pattern c)"
  unfolding parse_pattern_def by (intro ok_rules) (auto simp: after_at_def)

lemma oks_convert:
  "oks c d k (convert_let_pattern c' p)"
  "oks c d k (convert_let_patterns c' ps)"
proof (induction c' p and c' ps arbitrary: k and k rule: convert_let_pattern_convert_let_patterns.induct)
  case (1 c' kind sp)
  then show ?case
    unfolding convert_let_pattern.simps
    by (intro ok_rules ok_cases ok_qbind_same) auto
next
  case (2 c')
  then show ?case by (auto intro!: ok_rules)
next
  case (3 c' p ps)
  then show ?case by (auto intro!: ok_rules ok_qbind_same)
qed

lemmas ok_patterns [ok_rules] =
  oks_pattern [THEN ok_qbind_same] ok_qbind_same [OF oks_convert(1)]

section \<open>Template literals\<close>

text \<open>A property of the values that a computation can return.\<close>

definition returns :: "'a parsing \<Rightarrow> ('a \<Rightarrow> bool) \<Rightarrow> bool" where
  "returns p P \<longleftrightarrow> (\<forall>st. P (fst (run_state p st)))"

lemma returns_ret: "P x \<Longrightarrow> returns (ret x) P"
  by (simp add: returns_def)

lemma returns_bind: "(\<And>x. returns (f x) P) \<Longrightarrow> returns (State_Monad.bind m f) P"
  by (auto simp: returns_def split: prod.split)

lemma returns_bindP:
  "returns m P' \<Longrightarrow> (\<And>x. P' x \<Longrightarrow> returns (f x) P) \<Longrightarrow> returns (State_Monad.bind m f) P"
  unfolding returns_def by (auto split: prod.split) (metis fst_conv)

lemma returns_qstep:
  "returns m P' \<Longrightarrow> P (Inr None) \<Longrightarrow> (\<And>x. P' (Some x) \<Longrightarrow> returns (f x) P) \<Longrightarrow> returns (qstep m f) P"
  unfolding qstep_def by (rule returns_bindP, assumption) (auto intro: returns_ret split: option.split)

lemma returns_True: "returns m (\<lambda>_. True)"
  by (simp add: returns_def)

text \<open>A loop over a shrinking local variable.\<close>

lemma ok_shrinking_loop:
  assumes "\<And>s. I s \<Longrightarrow> oks c d k (body s)"
    and "\<And>s. I s \<Longrightarrow> returns (body s) (\<lambda>r. \<forall>s'. r = Inl s' \<longrightarrow> I s' \<and> size_of s' < size_of s)"
  shows "I s \<Longrightarrow> size_of s < m \<Longrightarrow> oks c d k (loop m x body s)"
proof (induction m arbitrary: s)
  case 0
  then show ?case by simp
next
  case (Suc m)
  show ?case
    unfolding loop.simps
  proof (rule okI)
    let ?rest = "\<lambda>r. case r of Inl s' \<Rightarrow> loop m x body s' | Inr y \<Rightarrow> ret y"
    fix st r st'
    assume st: "wf_parser d st" "steps_left st + k < rc_fuel c"
      and "run_state (State_Monad.bind (body s) ?rest) st = (r, st')"
    from this(3) obtain v s1 where 1: "run_state (body s) st = (v, s1)" "run_state (?rest v) s1 = (r, st')"
      by (rule run_state_bindE)
    note wf1 = okD [OF assms(1) [OF Suc.prems(1)] st 1(1)]
    show "wf_parser d st' \<and> steps_left st' + k < rc_fuel c"
    proof (cases v)
      case (Inl s')
      with assms(2) [OF Suc.prems(1)] 1(1) have "I s'" "size_of s' < size_of s"
        unfolding returns_def by (metis fst_conv)+
      with Suc.IH [of s'] Suc.prems(2) have "oks c d k (loop m x body s')" by simp
      from okD [OF this wf1] 1(2) Inl show ?thesis by simp
    next
      case (Inr y)
      with 1(2) wf1 show ?thesis by simp
    qed
  qed
qed

lemma find_closing_append:
  "find_closing depth a b e cs = Some (us, vs) \<Longrightarrow> cs = us @ ch CHR ''}'' # vs"
  by (induction depth a b e cs arbitrary: us vs rule: find_closing.induct)
    (auto split: if_splits)

lemma escape_shorter:
  "returns (parse_template_escape c raw_len index sp cs)
     (\<lambda>r. \<forall>v n cs'. r = Some (v, n, cs') \<longrightarrow> length cs' \<le> length cs \<and> blen cs' \<le> blen cs)"
proof -
  have drop: "length (drop 1 xs) \<le> length xs" "blen (drop 1 xs) \<le> blen xs" for xs :: "rchar list"
    by (cases xs, simp_all)+
  have rest: "length (drop 1 (dropWhile is_ascii_hexdigit (drop 1 xs))) \<le> length xs"
    "blen (drop 1 (dropWhile is_ascii_hexdigit (drop 1 xs))) \<le> blen xs" for xs
    using drop [of xs] drop [of "dropWhile is_ascii_hexdigit (drop 1 xs)"]
      length_dropWhile_le [of is_ascii_hexdigit "drop 1 xs"] blen_dropWhile [of is_ascii_hexdigit "drop 1 xs"]
    by linarith+
  show ?thesis
    unfolding parse_template_escape_def Let_def escape_error_def
    by (cases cs)
      (auto split: option.split intro!: returns_ret returns_bind trans_le_add2 le_SucI
        rest [unfolded One_nat_def length_drop])
qed

lemma oks_escape: "oks c d k (parse_template_escape c' raw_len index sp cs)"
  unfolding parse_template_escape_def Let_def escape_error_def
  by (cases cs) (auto split: option.split intro!: ok_rules)

lemma lex_template_tokens:
  assumes "lex pf dr src src_file = Some (ts, ds)"
  shows "ts \<noteq> []" "tok_kind (last ts) = TkEof" "length src \<le> d \<Longrightarrow> list_all (short_template d) ts"
proof -
  from lex_located [of pf dr src src_file] assms obtain us where
    ts: "ts = us @ [\<lparr>tok_kind = TkEof, tok_span = span_new (blen (str_chars src)) (blen (str_chars src))\<rparr>]" and
    us: "list_all (\<lambda>t. located pf (str_chars src) t \<and> span_end (tok_span t) \<le> blen (str_chars src)) us"
    by auto
  from ts show "ts \<noteq> []" "tok_kind (last ts) = TkEof" by simp_all
  assume d: "length src \<le> d"
  have "short_template d t" if "t \<in> set us" for t
  proof (cases "tok_kind t")
    case (TkTemplate raw)
    with us that obtain before cs after where
      "str_chars src = before @ cs @ after" "spells pf (TkTemplate raw) cs"
      by (auto simp: list_all_iff located_def)
    moreover have "0 < length (utf8_encode x)" for x by simp
    from this [of 34] this [of 36] this [of 102] have "2 < length (utf8_encode 36) + 2 * length (utf8_encode 34)"
      "2 < length (utf8_encode 102) + 2 * length (utf8_encode 34)" by linarith+
    ultimately have "length raw + 2 < blen (str_chars src)"
      by (auto simp: blen_def [symmetric])
    with length_encode_chars [of src] d TkTemplate show ?thesis
      by (simp add: short_template_def blen_def)
  qed (simp_all add: short_template_def)
  with ts show "list_all (short_template d) ts" by (simp add: list_all_iff short_template_def)
qed

lemma wf_keep: "oks (c\<lparr>rc_fuel := Suc (steps_left st)\<rparr>) d 0 p \<Longrightarrow> wf_parser d st \<Longrightarrow> wf_parser d (snd (run_state p st))"
  by (cases "run_state p st") (auto dest: okD(1))

lemma wf_fragment_body:
  assumes "good (Suc d) c" "wf_parser d st"
  shows "wf_parser d (snd (run_state (fragment_body c) st))"
proof -
  obtain e s1 where e: "rc_fragment c st = (e, s1)" by force
  with assms have s1: "wf_parser d s1" unfolding good_def by (metis snd_conv)
  let ?p = "do {
      eof \<leftarrow> at_kind [TkEof];
      (if eof then ret ()
       else do { sp \<leftarrow> current_span; perror c ''E1001'' ''expected end of interpolation expression'' sp });
      ret e
    }"
  have "oks (c\<lparr>rc_fuel := Suc (steps_left s1)\<rparr>) d 0 ?p" by (intro ok_rules) (auto simp: after_at_def)
  from wf_keep [OF this s1] s1 e show ?thesis
    by (simp add: fragment_body_def split: prod.splits if_splits)
qed

lemma oks_fragment:
  assumes "good d c" "length src < d"
  shows "oks c d k (parse_template_expr_fragment c src sp)"
proof (rule okI)
  fix st r st'
  assume st: "wf_parser d st" "steps_left st + k < rc_fuel c"
    and run: "run_state (parse_template_expr_fragment c src sp) st = (r, st')"
  from assms(2) obtain d' where d: "d = Suc d'" by (cases d) auto
  obtain ts ds where lexed: "lex (rc_float c) (rc_derive c) src (pr_file st) = Some (ts, ds)"
    using lex_located by metis
  note tokens = lex_template_tokens [OF lexed]
  let ?sub = "(new_parser (pr_file st) ts)\<lparr>pr_for_counter := pr_for_counter st,
    pr_tuple_binding_counter := pr_tuple_binding_counter st\<rparr>"
  have "wf_parser d' ?sub"
    using tokens(1,2) tokens(3) [of d'] assms(2) d by (simp add: wf_parser_def new_parser_def)
  with wf_fragment_body [of d' c ?sub] assms(1) d
  have "wf_parser d' (snd (run_state (fragment_body c) ?sub))" by simp
  with run lexed st show "wf_parser d st' \<and> steps_left st' + k < rc_fuel c"
    by (auto simp: parse_template_expr_fragment_def Let_def wf_parser_def steps_left_def split: prod.splits)
qed

lemma oks_template_brace:
  assumes "good d c" "blen after < d"
  shows "oks c d k (template_brace c sp (cursor, after, template, literal, args))"
proof -
  have "length (utf8_encode_all (trim inner)) < d" if "find_closing 0 False False False after = Some (inner, rest)"
    for inner rest
  proof -
    from find_closing_append [OF that] have "blen inner \<le> blen after" by simp
    with blen_trim [of inner] assms(2) show ?thesis by (simp add: blen_def)
  qed
  with assms(1) show ?thesis
    unfolding template_brace_def Let_def
    by (auto split: option.split intro!: ok_rules ok_qstep_same oks_fragment)
qed

lemma oks_template_step:
  assumes "good d c" "blen rest \<le> d"
  shows "oks c d k (template_step c raw_len sp (cursor, rest, template, literal, args))"
proof (cases rest)
  case Nil
  then show ?thesis by (simp add: template_step_def ok_ret)
next
  case (Cons x after)
  have "0 < length (utf8_encode x)" by simp
  with Cons assms(2) have "blen after < d" by (simp only: blen_simps)
  with assms(1) Cons show ?thesis
    unfolding template_step_def
    by (auto intro!: ok_rules ok_qstep_same oks_escape oks_template_brace)
qed

lemma template_step_shrinks:
  assumes "blen rest \<le> d"
  shows "returns (template_step c raw_len sp (cursor, rest, template, literal, args))
    (\<lambda>r. \<forall>s'. r = Inl s' \<longrightarrow> blen (fst (snd s')) \<le> d \<and> length (fst (snd s')) < length rest)"
    (is "returns ?p ?P")
proof (cases rest)
  case Nil
  then show ?thesis by (simp add: template_step_def returns_ret)
next
  case (Cons x after)
  have tail: "blen (drop 1 ys) \<le> blen ys" for ys :: "rchar list" by (cases ys) simp_all
  from assms Cons have after: "blen after \<le> d" by simp
  have brace: "returns (template_brace c sp (cursor, after, template, literal, args)) ?P"
    unfolding template_brace_def Let_def
    using after Cons find_closing_append [of 0 False False False after]
    by (auto split: option.split intro!: returns_ret returns_bind returns_qstep [OF returns_True])
  have esc: "returns (qstep (parse_template_escape c raw_len cursor sp after) (\<lambda>(escaped, consumed, after').
      go_on (cursor + consumed, after', template, literal @ [escaped], args))) ?P"
    by (rule returns_qstep [OF escape_shorter]) (use after Cons in \<open>auto intro!: returns_ret\<close>)
  show ?thesis
    using Cons brace esc after tail [of after] unfolding template_step_def
    by (auto intro!: returns_ret returns_bind)
qed

lemma oks_template_literal:
  assumes "good d c" "length raw \<le> d"
  shows "oks c d k (parse_template_literal c raw sp)"
proof -
  have "oks c d k (loop (length (str_chars raw) + 1) None (template_step c (length raw) sp)
      (0, str_chars raw, [], [], []))"
  proof (rule ok_shrinking_loop [where I = "\<lambda>s. blen (fst (snd s)) \<le> d"
        and size_of = "\<lambda>s. length (fst (snd s))"])
    fix s :: "nat \<times> rchar list \<times> rchar list \<times> rchar list \<times> expr list"
    assume s: "blen (fst (snd s)) \<le> d"
    obtain cursor rest template literal args where eq: "s = (cursor, rest, template, literal, args)"
      by (metis surj_pair)
    with s oks_template_step [OF assms(1)] show "oks c d k (template_step c (length raw) sp s)" by simp
    from s eq template_step_shrinks [of rest d c "length raw" sp cursor template literal args]
    show "returns (template_step c (length raw) sp s)
      (\<lambda>r. \<forall>s'. r = Inl s' \<longrightarrow> blen (fst (snd s')) \<le> d \<and>
        length (fst (snd s')) < length (fst (snd s)))" by simp
  next
    show "blen (fst (snd (0, str_chars raw, [], [], []))) \<le> d"
      using length_encode_chars [of raw] assms(2) by (simp add: blen_def)
  qed simp
  then show ?thesis
    unfolding parse_template_literal_def by (rule ok_qbind_same) (simp, intro ok_rules, simp)
qed

end
