(* ===== verification/ParserTotal.thy ===== *)
theory ParserTotal
  imports ParserProgress
begin

text \<open>
  The parser always ends and never panics: the rules of \<open>ParserProgress\<close> for expressions, statements
  and items, and the recursion. The nesting of template literals is bounded by the length of the
  source.
\<close>

section \<open>Expressions and statements\<close>

lemma oks_pick_op: "oks c d k (pick_op ops)"
proof (induction ops rule: pick_op.induct)
  case (2 a op ops)
  then show ?case
    unfolding pick_op.simps by (intro ok_bind_same [OF oks_at_kind]) (auto intro!: ok_rules)
qed (simp add: ok_ret)

lemma ok_pick_op:
  "TkEof \<notin> fst ` set ops \<Longrightarrow> ok c d k (pick_op ops) (\<lambda>r. case r of None \<Rightarrow> k | Some _ \<Rightarrow> Suc k)"
proof (induction ops arbitrary: k rule: pick_op.induct)
  case 1
  show ?case by (simp add: ok_ret)
next
  case (2 a op ops)
  have "ok c d (Suc k) (pick_op ops) (\<lambda>r. case r of None \<Rightarrow> k | Some _ \<Rightarrow> Suc k)"
    by (rule ok_weaken [OF oks_pick_op]) (auto split: option.split)
  with 2 show ?case
    unfolding pick_op.simps by (intro ok_rules) (auto simp: after_at_def)
qed

lemma oks_binary_level:
  assumes "TkEof \<notin> fst ` set ops" "\<And>j. oks c d j operand"
  shows "oks c d k (binary_level c ops operand)"
  unfolding binary_level_def
proof (rule ok_qbind_same [OF assms(2)], simp, rule oks_loop)
  fix j lhs
  show "ok c d j (do {
      op \<leftarrow> pick_op ops;
      case op of
        None \<Rightarrow> leave (Some lhs)
      | Some op \<Rightarrow> do {
          bump_tok;
          qstep operand (\<lambda>rhs. go_on (Expr (ABinary op lhs rhs) (span_join (e_span lhs) (e_span rhs))))
        }
    }) (turn j)"
    by (rule ok_bind [OF ok_pick_op [OF assms(1)]])
      (auto intro!: ok_rules ok_qstep_same [OF assms(2)] split: option.split)
qed

lemma oks_recover_statement: "oks c d k (recover_statement c)"
  unfolding recover_statement_def by (intro ok_rules) (auto simp: after_at_def)

lemma oks_assignment_start: "oks c d k at_assignment_stmt_start"
  unfolding at_assignment_stmt_start_def by (intro ok_rules) auto

lemma oks_statement_end: "is_registered code \<Longrightarrow> oks c d k (statement_end c code what e)"
  unfolding statement_end_def by (intro ok_rules) (auto simp: after_at_def)

lemmas ok_statement_parts [ok_rules] =
  ok_bind_same [OF oks_recover_statement] ok_bind_same [OF oks_assignment_start]
  ok_bind_same [OF oks_statement_end]

lemma oks_assign_stmt: "good d c \<Longrightarrow> oks c d k (parse_assign_stmt c)"
  unfolding parse_assign_stmt_def by (intro ok_rules) (auto simp: after_at_def)

lemma oks_break_value: "oks c d k break_has_value_start"
  unfolding break_has_value_start_def by (intro ok_rules) (auto simp: after_at_def)

lemmas ok_break_value [ok_rules] = ok_bind_same [OF oks_break_value]

lemma oks_jump: "good d c \<Longrightarrow> 0 < k \<Longrightarrow> oks c d k (parse_jump c mk)"
  unfolding parse_jump_def by (intro ok_rules ok_qbind_same) auto

lemma oks_break_expr: "good d c \<Longrightarrow> 0 < k \<Longrightarrow> oks c d k (parse_break_expr c)"
  unfolding parse_break_expr_def by (rule oks_jump)

lemma oks_return_expr: "good d c \<Longrightarrow> 0 < k \<Longrightarrow> oks c d k (parse_return_expr c)"
  unfolding parse_return_expr_def by (rule oks_jump)

lemmas ok_jumps [ok_rules] = oks_return_expr [THEN ok_qbind_same]
  oks_return_expr [THEN ok_weaken] oks_break_expr [THEN ok_weaken]

lemma oks_return_in_block: "good d c \<Longrightarrow> 0 < k \<Longrightarrow> oks c d k (parse_return_in_block c)"
  unfolding parse_return_in_block_def by (intro ok_rules) (auto simp: after_at_def)

lemma oks_let_target: "good d c \<Longrightarrow> oks c d k (parse_let_target c)"
  unfolding parse_let_target_def by (intro ok_rules) (auto simp: after_at_def)

lemma ok_optional_part:
  "k' \<noteq> TkEof \<Longrightarrow> oks c d (Suc k) m \<Longrightarrow>
     ok c d k (optional_part k' m) (\<lambda>_. k)"
  unfolding optional_part_def by (intro ok_rules ok_qbind_same [where m = m]) (auto intro: ok_weaken)

lemmas ok_optional_part' [ok_rules] = ok_qbind_same [OF ok_optional_part]

lemmas ok_let_target [ok_rules] = oks_let_target [THEN ok_qbind_same] 

lemma oks_counters: "oks c d k next_tuple_let_name" "oks c d k next_for_id" "oks c d k (modify (\<lambda>st. st\<lparr>pr_disallow_struct_literal := b\<rparr>))"
  by (simp_all add: ok_def next_tuple_let_name_def next_for_id_def modify_def wf_parser_def steps_left_def)

lemmas ok_counters [ok_rules] = ok_bind_same [OF oks_counters(1)] ok_bind_same [OF oks_counters(2)]
  ok_bind_same [OF oks_counters(3)]

lemma oks_expand_tuple_let: "oks c d k (expand_tuple_let pat ty e sp)"
  unfolding expand_tuple_let_def by (intro ok_rules) simp

lemmas ok_expand_tuple_let [ok_rules] = ok_bind_same [OF oks_expand_tuple_let]

lemma ok_sum [ok_rules]:
  "(\<And>a. x = Inl a \<Longrightarrow> ok c d k (f a) Q) \<Longrightarrow> (\<And>b. x = Inr b \<Longrightarrow> ok c d k (g b) Q) \<Longrightarrow>
     ok c d k (case x of Inl a \<Rightarrow> f a | Inr b \<Rightarrow> g b) Q"
  by (cases x) simp_all

lemma oks_let_stmt: "good d c \<Longrightarrow> 0 < k \<Longrightarrow> oks c d k (parse_let_stmt c)"
  unfolding parse_let_stmt_def
  by (intro ok_rules oks_type) (simp_all add: after_at_def)

lemma ok_return_in_block [ok_rules]:
  "(\<And>s. x = RibStmt s \<Longrightarrow> ok c d k (f s) Q) \<Longrightarrow> (\<And>e. x = RibTail e \<Longrightarrow> ok c d k (g e) Q) \<Longrightarrow>
     ok c d k (case x of RibStmt s \<Rightarrow> f s | RibTail e \<Rightarrow> g e) Q"
  by (cases x) simp_all

lemmas ok_statements [ok_rules] =
  oks_let_stmt [THEN ok_bind_same] oks_assign_stmt [THEN ok_bind_same]
  oks_return_in_block [THEN ok_bind_same]

lemma ok_block_step: "good d c \<Longrightarrow> ok c d k (block_step c stmts) (turn k)"
  unfolding block_step_def by (intro ok_rules) (auto simp: after_at_def)

lemma oks_block: "good d c \<Longrightarrow> oks c d k (parse_block c)"
  unfolding parse_block_def
  by (rule ok_qbind_same [OF oks_expect], simp_all)
    (rule ok_bind_same [OF oks_loop [OF ok_block_step]], auto intro!: ok_rules)

lemmas ok_block [ok_rules] = oks_block [THEN ok_qbind_same] oks_block [THEN ok_bind_same]

lemma oks_if_expr: "good d c \<Longrightarrow> 0 < k \<Longrightarrow> oks c d k (parse_if_expr c)"
  unfolding parse_if_expr_def by (intro ok_rules oks_block) (auto simp: after_at_def)

lemma oks_without_struct_literals:
  "good d c \<Longrightarrow> 0 < k \<Longrightarrow> oks c d k (parse_expr_without_struct_literals c)"
  unfolding parse_expr_without_struct_literals_def by (intro ok_rules) auto

lemma oks_desugar_for:
  "oks c d k (desugar_for_range binding start_expr end_expr body start)"
  "oks c d k (desugar_for_iter binding iterable body start)"
  unfolding desugar_for_range_def desugar_for_iter_def by (intro ok_rules, simp)+

lemmas ok_for_parts [ok_rules] =
  oks_without_struct_literals [THEN ok_qbind_same] ok_bind_same [OF oks_desugar_for(1)]
  ok_bind_same [OF oks_desugar_for(2)]

lemma oks_for_expr: "good d c \<Longrightarrow> 0 < k \<Longrightarrow> oks c d k (parse_for_expr c)"
  unfolding parse_for_expr_def by (intro ok_rules) (auto simp: after_at_def)

lemma oks_while_expr: "good d c \<Longrightarrow> 0 < k \<Longrightarrow> oks c d k (parse_while_expr c)"
  unfolding parse_while_expr_def by (intro ok_rules) auto

lemma oks_loop_expr: "good d c \<Longrightarrow> 0 < k \<Longrightarrow> oks c d k (parse_loop_expr c)"
  unfolding parse_loop_expr_def by (intro ok_rules) auto

lemma oks_continue_expr: "oks c d k parse_continue_expr"
  unfolding parse_continue_expr_def by (intro ok_rules) auto

lemma oks_match_arm: "good d c \<Longrightarrow> 0 < k \<Longrightarrow> oks c d k (parse_match_arm c)"
  unfolding parse_match_arm_def by (intro ok_rules oks_below) (auto simp: after_at_def)

lemmas ok_match_arm [ok_rules] = oks_match_arm

lemma oks_match_expr: "good d c \<Longrightarrow> 0 < k \<Longrightarrow> oks c d k (parse_match_expr c)"
  unfolding parse_match_expr_def by (intro ok_rules) auto

lemma oks_looks_like: "oks c d k looks_like_struct_literal"
  unfolding looks_like_struct_literal_def by (intro ok_rules) (auto simp: after_at_def)

lemma oks_field_init: "good d c \<Longrightarrow> oks c d k (parse_field_init c)"
  unfolding parse_field_init_def by (intro ok_rules) auto

lemmas ok_literal_parts [ok_rules] =
  ok_bind_same [OF oks_looks_like] oks_field_init oks_looks_like oks_at_kind

lemma oks_ident_expr: "good d c \<Longrightarrow> oks c d k (parse_ident_expr c name sp)"
  unfolding parse_ident_expr_def by (intro ok_rules ) (auto simp: after_at_def)

lemma oks_paren_expr: "good d c \<Longrightarrow> 0 < k \<Longrightarrow> oks c d k (parse_paren_expr c sp)"
  unfolding parse_paren_expr_def by (intro ok_rules oks_below) (auto simp: after_at_def)

lemmas ok_primary_parts [ok_rules] =
  oks_if_expr [THEN ok_weaken] oks_for_expr [THEN ok_weaken] oks_while_expr [THEN ok_weaken]
  oks_loop_expr [THEN ok_weaken] ok_weaken [OF oks_continue_expr] oks_match_expr [THEN ok_weaken]
  oks_ident_expr [THEN ok_weaken] oks_paren_expr [THEN ok_weaken] oks_template_literal [THEN ok_weaken]

lemma oks_primary: "good d c \<Longrightarrow> oks c d k (parse_primary c)"
  unfolding parse_primary_def by (intro ok_rules ok_cases) (auto simp: short_template_def)

lemma oks_call_arg: "good d c \<Longrightarrow> 0 < k \<Longrightarrow> oks c d k (parse_call_arg c s)"
  unfolding parse_call_arg_def
  by (cases s, clarify, intro ok_rules)
    (auto intro!: ok_rules split: token_kind.split bool.split)

lemmas ok_call_arg [ok_rules] = oks_call_arg [THEN ok_qstep_same]

lemma oks_call_args: "good d c \<Longrightarrow> 0 < k \<Longrightarrow> oks c d k (parse_call_args c)"
  unfolding parse_call_args_def by (intro ok_rules) (auto simp: after_at_def)

lemma oks_field_name: "oks c d k (parse_field_name c)"
  unfolding parse_field_name_def by (intro ok_rules ok_cases) auto

lemmas ok_postfix_parts [ok_rules] =
  oks_call_args [THEN ok_qstep_same] ok_qstep_same [OF oks_field_name]

lemma ok_postfix_step: "good d c \<Longrightarrow> ok c d k (postfix_step c e) (turn k)"
  unfolding postfix_step_def by (intro ok_rules) (auto simp: after_at_def)

lemma oks_postfix: "good d c \<Longrightarrow> oks c d k (parse_postfix c)"
  unfolding parse_postfix_def
  by (intro ok_qbind_same oks_primary oks_loop ok_postfix_step) simp_all

lemma oks_closure_param: "good d c \<Longrightarrow> oks c d k (parse_closure_param c)"
  unfolding parse_closure_param_def by (intro ok_rules oks_type) auto

lemmas ok_closure_param [ok_rules] = oks_closure_param

lemma oks_closure_params: "good d c \<Longrightarrow> oks c d k (parse_closure_params c)"
  unfolding parse_closure_params_def by (intro ok_rules) auto

lemmas ok_closure_params [ok_rules] = oks_closure_params [THEN ok_qbind_same]

lemma oks_closure_expr: "good d c \<Longrightarrow> oks c d k (parse_closure_expr c)"
  unfolding parse_closure_expr_def by (intro ok_rules) auto

lemma oks_prefix_operator:
  "good d c \<Longrightarrow> 0 < k \<Longrightarrow> oks c d k modifier \<Longrightarrow> oks c d k (prefix_operator c modifier mk)"
  unfolding prefix_operator_def by (intro ok_rules ok_bind_same [where m = modifier]) auto

lemmas ok_unary_parts [ok_rules] =
  oks_prefix_operator [THEN ok_weaken] oks_closure_expr [THEN ok_weaken] oks_postfix [THEN ok_weaken]

lemma oks_unary: "good d c \<Longrightarrow> oks c d k (parse_unary c)"
  unfolding parse_unary_def by (intro ok_rules) (auto simp: after_at_def intro: ok_rules)

lemma oks_expr: "good d c \<Longrightarrow> oks c d k (parse_expr c)"
  unfolding parse_expr_def parse_or_def parse_and_def parse_bit_or_def parse_bit_xor_def
    parse_bit_and_def parse_equality_def parse_comparison_def parse_shift_def parse_term_def
    parse_factor_def
  by (intro oks_binary_level oks_unary) auto

section \<open>Items and programs\<close>

lemma oks_signature: "good d c \<Longrightarrow> oks c d k (parse_signature c b m m')"
  unfolding parse_signature_def by (intro ok_rules) auto

lemma oks_function_signature: "good d c \<Longrightarrow> oks c d k (function_signature c b)"
  unfolding function_signature_def by (rule oks_signature)

lemma oks_contracts: "good d c \<Longrightarrow> oks c d k (parse_contracts c)"
  unfolding parse_contracts_def by (intro ok_rules) auto

lemmas ok_function_parts [ok_rules] =
  oks_signature [THEN ok_qbind_same] oks_function_signature [THEN ok_qbind_same]
  oks_contracts [THEN ok_qbind_same]

lemma oks_function: "good d c \<Longrightarrow> oks c d k (parse_function c attrs a u start self vis)"
  unfolding parse_function_def by (intro ok_rules) auto

lemma oks_extern_rest: "good d c \<Longrightarrow> oks c d k (parse_extern_rest c attrs vis start abi)"
  unfolding parse_extern_rest_def by (intro ok_rules) (auto simp: after_at_def intro!: ok_rules)

lemmas ok_extern_rest [ok_rules] = oks_extern_rest [THEN ok_weaken]

lemma oks_extern_function: "good d c \<Longrightarrow> oks c d k (parse_extern_function c attrs vis)"
  unfolding parse_extern_function_def by (intro ok_rules ok_cases) (auto simp: after_at_def)

lemma oks_intrinsic_function: "good d c \<Longrightarrow> oks c d k (parse_intrinsic_function c attrs vis)"
  unfolding parse_intrinsic_function_def by (intro ok_rules) (auto simp: after_at_def)

lemma oks_skip_braces: "oks c d k (skip_balanced_braces c)"
  unfolding skip_balanced_braces_def by (intro ok_rules) (auto simp: after_at_def)

lemmas ok_skip_braces [ok_rules] = ok_bind_same [OF oks_skip_braces]

lemma oks_trait_method: "good d c \<Longrightarrow> oks c d k (parse_trait_method_signature c attrs a u start vis)"
  unfolding parse_trait_method_signature_def by (intro ok_rules) (auto simp: after_at_def)

lemma oks_field: "good d c \<Longrightarrow> oks c d k (parse_field c)"
  unfolding parse_field_def by (intro ok_rules oks_below) auto

lemmas ok_field [ok_rules] = oks_field

lemma oks_struct: "good d c \<Longrightarrow> oks c d k (parse_struct c attrs vis)"
  unfolding parse_struct_def by (intro ok_rules oks_below) auto

lemma oks_payload: "good d c \<Longrightarrow> oks c d k (parse_payload c)"
  unfolding parse_payload_def by (intro ok_rules) auto

lemma oks_variant: "good d c \<Longrightarrow> oks c d k (parse_variant c)"
  unfolding parse_variant_def by (intro ok_rules oks_payload) auto

lemmas ok_variant [ok_rules] = oks_variant

lemma oks_enum: "good d c \<Longrightarrow> oks c d k (parse_enum c attrs vis)"
  unfolding parse_enum_def by (intro ok_rules) auto

lemma oks_member_start: "oks c d k at_member_start"
  unfolding at_member_start_def by (intro ok_rules) (auto simp: after_at_def)

lemma oks_terminator: "oks c d k at_container_terminator"
  unfolding at_container_terminator_def by (rule oks_at_kind)

lemmas ok_member_tests [ok_rules] =
  ok_bind_same [OF oks_member_start] ok_bind_same [OF oks_terminator] ok_weaken [OF oks_terminator]

lemma oks_unsupported_item:
  "is_registered code \<Longrightarrow> oks c d k (unsupported_item c container code kind hint)"
  unfolding unsupported_item_def by (intro ok_rules) auto

lemma oks_unsupported: "oks c d k (report_unsupported_associated_item c container)"
  unfolding report_unsupported_associated_item_def
  by (intro ok_rules ok_weaken [OF oks_unsupported_item]) (auto simp: after_at_def)

lemmas ok_unsupported [ok_rules] = ok_bind_same [OF oks_unsupported]

lemma oks_recover_member: "oks c d k (recover_member c start)"
  unfolding recover_member_def
  by (intro ok_rules) (auto simp: after_at_def intro!: ok_rules)

lemmas ok_recover_member [ok_rules] = ok_bind_same [OF oks_recover_member]

lemma ok_member_step:
  assumes "good d c" "\<And>attrs a u start vis j. oks c d j (method attrs a u start vis)"
  shows "ok c d k (member_step c container message hint method methods) (turn k)"
  unfolding member_step_def
  by (intro ok_rules ok_bind_same [OF assms(2)]) (auto simp: after_at_def assms)

lemmas ok_members =
  ok_bind_same [OF oks_loop [OF ok_member_step [OF _ oks_trait_method]]]
  ok_bind_same [OF oks_loop [OF ok_member_step [OF _ oks_function]]]

lemma oks_trait: "good d c \<Longrightarrow> oks c d k (parse_trait c attrs vis)"
  unfolding parse_trait_def by (intro ok_members ok_rules) (auto simp: after_at_def)

lemma oks_impl_block: "good d c \<Longrightarrow> oks c d k (parse_impl_block c attrs vis start head_ty)"
  unfolding parse_impl_block_def
  by (intro ok_members ok_rules) (auto split: type_kind.split intro!: ok_rules)

lemmas ok_impl_block [ok_rules] = oks_impl_block [THEN ok_weaken]

lemma oks_impl: "good d c \<Longrightarrow> oks c d k (parse_impl c attrs vis)"
  unfolding parse_impl_def by (intro ok_rules ok_cases) auto

lemma oks_type_alias: "good d c \<Longrightarrow> oks c d k (parse_type_alias c attrs)"
  unfolding parse_type_alias_def by (intro ok_rules) auto

lemma oks_const_item: "good d c \<Longrightarrow> oks c d k (parse_const_item c attrs)"
  unfolding parse_const_item_def by (intro ok_rules) auto

lemma oks_reject_visibility: "oks c d k (reject_visibility c vis message hint)"
  unfolding reject_visibility_def by (intro ok_rules) auto

lemmas ok_item_parts [ok_rules] =
  ok_bind_same [OF oks_reject_visibility]
  oks_function [THEN ok_qbind_same] oks_extern_function [THEN ok_qbind_same]
  oks_intrinsic_function [THEN ok_qbind_same] oks_type_alias [THEN ok_qbind_same]
  oks_const_item [THEN ok_qbind_same] oks_struct [THEN ok_qbind_same] oks_enum [THEN ok_qbind_same]
  oks_trait [THEN ok_qbind_same] oks_impl [THEN ok_qbind_same]

lemma oks_modified_function:
  "good d c \<Longrightarrow> is_registered code \<Longrightarrow> oks c d k (parse_modified_function c attrs a u vis code message)"
  unfolding parse_modified_function_def by (intro ok_rules) (auto simp: after_at_def)

lemma oks_item_branches:
  assumes "good d c"
  shows "\<forall>(kw, p) \<in> set (item_branches c attrs vis). \<forall>j. oks c d j p"
  unfolding item_branches_def list.set ball_simps prod.case
  by (intro conjI allI ok_rules oks_modified_function assms ballI) (simp_all add: assms)

lemma oks_no_item: "oks c d k (no_item c)"
  unfolding no_item_def by (intro ok_rules) simp_all

lemma oks_choose_item:
  "\<forall>(kw, p) \<in> set branches. \<forall>j. oks c d j p \<Longrightarrow> oks c d k (choose_item c branches)"
proof (induction c branches rule: choose_item.induct)
  case (2 c kw p branches)
  then show ?case
    unfolding choose_item.simps by (intro ok_bind_same [OF oks_at_kind] ok_if) auto
qed (simp add: oks_no_item)

lemma oks_item: "good d c \<Longrightarrow> oks c d k (parse_item c)"
  unfolding parse_item_def
  by (intro ok_rules ok_weaken [OF oks_choose_item [OF oks_item_branches]]) auto

lemma oks_path: "oks c d k (parse_path c)"
  unfolding parse_path_def by (intro ok_rules) auto

lemma oks_recover_item: "oks c d k (recover_item c)"
  unfolding recover_item_def by (intro ok_rules) (auto simp: after_at_def)

lemmas ok_program_parts [ok_rules] =
  ok_qbind_same [OF oks_path] ok_qstep_same [OF oks_path] ok_bind_same [OF oks_recover_item]
  oks_item [THEN ok_bind_same]

lemma oks_module: "oks c d k (parse_module c)"
  unfolding parse_module_def by (intro ok_rules) auto

lemma oks_imports: "oks c d k (parse_imports c)"
  unfolding parse_imports_def by (intro ok_rules) (auto simp: after_at_def)

lemma oks_items: "good d c \<Longrightarrow> oks c d k (parse_items c)"
  unfolding parse_items_def
  by (rule oks_loop) (intro ok_rules, auto simp: after_at_def)

lemma oks_program: "good d c \<Longrightarrow> oks c d k (parse_program c)"
  unfolding parse_program_def
  by (intro ok_rules ok_qbind_same [OF oks_imports] ok_bind_same [OF oks_items] oks_module) auto

lemma oks_report_stuck: "oks c d k (report_stuck c)"
  unfolding report_stuck_def by (intro ok_rules) auto

section \<open>The recursion\<close>

lemma sound_callI:
  assumes "\<And>k. oks c d k p" "n = rc_fuel c"
  shows "sound_call d n (run_state p)"
  unfolding sound_call_def
proof (intro allI impI)
  fix st
  assume st: "wf_parser d st" "steps_left st < n"
  obtain r st' where run: "run_state p st = (r, st')" by force
  have "steps_left st + (n - 1 - steps_left st) < rc_fuel c" using st(2) assms(2) by simp
  from okD [OF assms(1) st(1) this run] run st(2) assms(2)
  show "wf_parser d (snd (run_state p st)) \<and> steps_left (snd (run_state p st)) \<le> steps_left st"
    by simp
qed

lemma calls_simps [simp]:
  "rc_fuel (calls dr pf n e u i t p f) = n" "rc_expr (calls dr pf n e u i t p f) = e"
  "rc_unary (calls dr pf n e u i t p f) = u" "rc_if (calls dr pf n e u i t p f) = i"
  "rc_type (calls dr pf n e u i t p f) = t" "rc_pattern (calls dr pf n e u i t p f) = p"
  "rc_fragment (calls dr pf n e u i t p f) = f"
  by (simp_all add: calls_def)

lemma sound_zero: "sound_call d 0 f"
  by (simp add: sound_call_def)

text \<open>Types use only types and patterns only patterns, so the other calls do not matter to them.\<close>

lemmas primitives_unfold =
  expect_def expect_ident_def perror_def perror_help_def perror_fix_def comma_list_def path_segments_def
  calls_def rec_calls.simps

lemma parse_type_calls:
  "parse_type (calls dr pf n e u i t p f) = parse_type (calls dr pf n e' u' i' t p' f')"
  unfolding parse_type_def parse_paren_type_def parse_fn_type_def primitives_unfold ..

lemma parse_pattern_calls:
  "parse_pattern (calls dr pf n e u i t p f) = parse_pattern (calls dr pf n e' u' i' t' p f')"
  unfolding parse_pattern_def parse_pattern_atom_def parse_paren_pattern_def parse_ident_pattern_def
    parse_struct_pattern_fields_def primitives_unfold ..

text \<open>Calls that return at once are sound at every level.\<close>

abbreviation quiet :: "parser \<Rightarrow> 'a option \<times> parser" where
  "quiet \<equiv> (\<lambda>st. (None, st))"

lemma sound_quiet: "sound_call d n quiet"
  by (simp add: sound_call_def)

lemma sound_run_type: "sound_call d n (run_type dr pf n)"
proof (induction n)
  case (Suc n)
  let ?c = "calls dr pf (Suc n) quiet quiet quiet (run_type dr pf n) quiet quiet"
  have "good d ?c" using Suc by (simp add: good_def sound_quiet)
  with oks_type have "sound_call d (Suc n) (run_state (parse_type ?c))"
    by (intro sound_callI) auto
  moreover have "run_type dr pf (Suc n) = run_state (parse_type ?c)"
    using parse_type_calls by (intro ext) (simp only: run_type.simps, metis)
  ultimately show ?case by simp
qed (rule sound_zero)

lemma sound_run_pattern: "sound_call d n (run_pattern dr pf n)"
proof (induction n)
  case (Suc n)
  let ?c = "calls dr pf (Suc n) quiet quiet quiet quiet (run_pattern dr pf n) quiet"
  have "good d ?c" using Suc by (simp add: good_def sound_quiet)
  with oks_pattern have "sound_call d (Suc n) (run_state (parse_pattern ?c))"
    by (intro sound_callI) auto
  moreover have "run_pattern dr pf (Suc n) = run_state (parse_pattern ?c)"
    using parse_pattern_calls by (intro ext) (simp only: run_pattern.simps, metis)
  ultimately show ?case by simp
qed (rule sound_zero)

lemma steps_left_fragment: "steps_left st < fragment_levels st"
  by (simp add: steps_left_def fragment_levels_def)

lemma sound_run_level:
  assumes "\<And>d' n. d = Suc d' \<Longrightarrow> sound_call d' n (run_expr dr pf d' n)"
  shows "sound_call d n (run_expr dr pf d n) \<and> sound_call d n (run_unary dr pf d n) \<and>
    sound_call d (n - 1) (run_if dr pf d n)"
proof (induction n)
  case 0
  show ?case by (simp add: sound_zero)
next
  case (Suc n)
  let ?c = "calls dr pf (Suc n) (run_expr dr pf d n) (run_unary dr pf d n) (run_if dr pf d n)
       (run_type dr pf n) (run_pattern dr pf n) (run_fragment dr pf d)"
  have fragment: "wf_parser d' (snd (run_fragment dr pf d st))" if "d = Suc d'" "wf_parser d' st" for d' st
    using assms [OF that(1)] that steps_left_fragment [of st] by (simp add: sound_call_def)
  have good: "good d ?c"
    unfolding good_def using Suc fragment by (simp add: sound_run_type sound_run_pattern)
  have step: "run_expr dr pf d (Suc n) = run_state (parse_expr ?c)"
    "run_unary dr pf d (Suc n) = run_state (parse_unary ?c)"
    "run_if dr pf d (Suc n) = run_state (parse_if_expr ?c)"
    by (rule ext, simp)+
  have "sound_call d n (run_state (parse_if_expr ?c))"
    unfolding sound_call_def
  proof (intro allI impI)
    fix st
    assume st: "wf_parser d st" "steps_left st < n"
    obtain r st' where run: "run_state (parse_if_expr ?c) st = (r, st')" by force
    have "steps_left st + (n - steps_left st) < rc_fuel ?c" "0 < n - steps_left st" using st(2) by simp_all
    from okD [OF oks_if_expr [OF good this(2)] st(1) this(1) run] run st(2)
    show "wf_parser d (snd (run_state (parse_if_expr ?c) st)) \<and>
      steps_left (snd (run_state (parse_if_expr ?c) st)) \<le> steps_left st" by simp
  qed
  then show ?case
    unfolding step using good by (auto intro!: sound_callI oks_expr oks_unary)
qed

lemma sound_run:
  "sound_call d n (run_expr dr pf d n) \<and> sound_call d n (run_unary dr pf d n) \<and>
    sound_call d (n - 1) (run_if dr pf d n)"
  by (induction d arbitrary: n) (rule sound_run_level, simp)+

lemma sound_call_mono: "sound_call d n f \<Longrightarrow> m \<le> n \<Longrightarrow> sound_call d m f"
  by (auto simp: sound_call_def)

lemma good_expr_calls: "good d (expr_calls dr pf d n)"
proof -
  have "wf_parser d' (snd (run_fragment dr pf d st))" if "d = Suc d'" "wf_parser d' st" for d' st
    using sound_run [of d' "fragment_levels st" dr pf] that steps_left_fragment [of st]
    by (simp add: sound_call_def)
  with sound_run [of d n dr pf] sound_run_type [of d n dr pf] sound_run_pattern [of d n dr pf]
  show ?thesis
    unfolding good_def expr_calls_def calls_simps by (auto elim: sound_call_mono)
qed

lemma wf_start:
  assumes "lex pf dr source src_file = Some (tokens, ds)"
  shows "wf_parser (length source) (new_parser src_file tokens)"
    "wf_parser (length source) ((new_parser src_file tokens)\<lparr>pr_step_budget := b\<rparr>)"
  using lex_template_tokens [OF assms] by (auto simp: wf_parser_def new_parser_def)

lemma run_program_ends:
  assumes "wf_parser d st" "run_state (parse_program (expr_calls dr pf d (pr_step_budget st + 2))) st = (r, st')"
  shows "wf_parser d st'" "steps_left st' < pr_step_budget st + 2"
proof -
  let ?c = "expr_calls dr pf d (pr_step_budget st + 2)"
  have fuel: "rc_fuel ?c = pr_step_budget st + 2" by (simp add: expr_calls_def)
  have "steps_left st + 0 < rc_fuel ?c" unfolding fuel by (simp add: steps_left_def)
  from okD [OF oks_program [OF good_expr_calls] assms(1) this assms(2)]
  show "wf_parser d st'" "steps_left st' < pr_step_budget st + 2" unfolding fuel by simp_all
qed


end
