(* ===== verification/Formatter.thy ===== *)
theory Formatter
  imports ParserItems Ir
begin

text \<open>
  The canonical printer: \<open>src/formatter.rs\<close>, as \<open>format_program\<close> uses it, that is with
  \<open>source = None\<close>. Then no comments are pending and no source spelling is looked up, so the methods
  that print trivia (\<open>leading\<close>, \<open>trailing\<close>, \<open>comments_before\<close>, \<open>attributes\<close> between two attributes)
  append nothing, and a method of \<open>Printer\<close> is the function from its arguments to the text that it
  appends. The Unicode tables behind the debug text of a character and the shortest decimal text of
  a float belong to the Rust standard library and are the parameters \<open>fx_debug_char\<close> and
  \<open>fx_float_text\<close>.
\<close>

section \<open>Text\<close>

definition hex_upper :: "nat \<Rightarrow> char" where
  "hex_upper d = char_of (if d < 10 then 48 + d else 55 + d)"

text \<open>\<open>{:X}\<close> of a number below 256, without leading zeros.\<close>

definition hex_str :: "nat \<Rightarrow> string" where
  "hex_str n = (if n < 16 then [hex_upper n] else [hex_upper (n div 16), hex_upper (n mod 16)])"

definition visibility_prefix :: "visibility \<Rightarrow> string" where
  "visibility_prefix v = (case v of Private \<Rightarrow> [] | Public \<Rightarrow> ''pub '' | Crate \<Rightarrow> ''pub(crate) '')"

definition escape_char :: "rchar \<Rightarrow> string" where
  "escape_char c =
     (if c = 0x5C then [CHR 0x5C, CHR 0x5C]
      else if c = 34 then [CHR 0x5C, CHR 34]
      else if c = 10 then [CHR 0x5C, CHR ''n'']
      else if c = 13 then [CHR 0x5C, CHR ''r'']
      else if c = 9 then [CHR 0x5C, CHR ''t'']
      else if c = 0 then [CHR 0x5C, CHR ''0'']
      else if c \<le> 0x1F \<or> c = 0x7F then [CHR 0x5C, CHR ''u'', CHR ''{''] @ hex_str c @ ''}''
      else utf8_encode c)"

definition escape_aic_string_literal :: "string \<Rightarrow> string" where
  "escape_aic_string_literal value = concat (map escape_char (str_chars value))"

definition escape_template_literal_segment :: "string \<Rightarrow> string" where
  "escape_template_literal_segment text =
     concat (map (\<lambda>c. if c = ch CHR ''{'' then ''{{'' else if c = ch CHR ''}'' then ''}}'' else escape_char c)
       (str_chars text))"

section \<open>Types\<close>

definition HOLE_TYPE_REPR :: string where
  "HOLE_TYPE_REPR = ''<?>''"

definition fmt_base_type_name :: "string \<Rightarrow> string" where
  "fmt_base_type_name ty = (case split_text ''['' ty of Some (base, _) \<Rightarrow> base | None \<Rightarrow> ty)"

text \<open>The state is the current piece (in order) and the depth of brackets.\<close>

fun split_top_level_from :: "int \<Rightarrow> string \<Rightarrow> string \<Rightarrow> string list" where
  "split_top_level_from depth piece [] = (if str_trim piece = [] then [] else [str_trim piece])"
| "split_top_level_from depth piece (c # cs) =
     (if c = CHR ''['' then split_top_level_from (depth + 1) (piece @ [c]) cs
      else if c = CHR '']'' then split_top_level_from (depth - 1) (piece @ [c]) cs
      else if c = CHR '','' \<and> depth = 0 then str_trim piece # split_top_level_from depth [] cs
      else split_top_level_from depth (piece @ [c]) cs)"

definition split_top_level :: "string \<Rightarrow> string list" where
  "split_top_level input = split_top_level_from 0 [] input"

definition extract_generic_args :: "string \<Rightarrow> string list option" where
  "extract_generic_args ty =
     (case split_text ''['' ty of
        None \<Rightarrow> None
      | Some (base, rest) \<Rightarrow>
          if \<not> ends_with ty '']'' \<or> rest = [] then None else Some (split_top_level (butlast rest)))"

lemma length_split_top_level:
  "a \<in> set (split_top_level_from depth piece cs) \<Longrightarrow> length a \<le> length piece + length cs"
proof (induction depth piece cs rule: split_top_level_from.induct)
  case (1 depth piece)
  then show ?case using length_str_trim [of piece] by (auto split: if_splits)
next
  case (2 depth piece c cs)
  note IH = 2(1-4)
  show ?case
  proof (cases "c = CHR '','' \<and> depth = 0")
    case True
    with 2(5) have "a = str_trim piece \<or> a \<in> set (split_top_level_from depth [] cs)" by simp
    with True IH(3) length_str_trim [of piece] show ?thesis by auto
  next
    case False
    with 2(5) IH(1,2,4) show ?thesis by (simp split: if_splits)
  qed
qed

lemma length_generic_args:
  assumes "extract_generic_args ty = Some args" "a \<in> set args"
  shows "length a < length ty"
proof -
  from assms(1) obtain base rest where *: "split_text ''['' ty = Some (base, rest)"
    and "args = split_top_level (butlast rest)"
    by (auto simp: extract_generic_args_def split: option.splits if_splits)
  with length_split_top_level [of a 0 "[]" "butlast rest"] assms(2) split_text_Some [OF *]
  show ?thesis by (simp add: split_top_level_def)
qed

function format_type_repr :: "string \<Rightarrow> string" where
  "format_type_repr repr0 =
     (let repr = str_trim repr0 in
      if repr = HOLE_TYPE_REPR then ''_''
      else case extract_generic_args repr of
        None \<Rightarrow> canonical_primitive_type_name repr
      | Some args \<Rightarrow>
          (let rendered = map format_type_repr args;
               base = canonical_primitive_type_name (fmt_base_type_name repr)
           in if base = TUPLE_INTERNAL_NAME then
                (if length rendered = 1 then ''('' @ hd rendered @ '',)''
                 else ''('' @ join_with '', '' rendered @ '')'')
              else base @ ''['' @ join_with '', '' rendered @ '']''))"
  by pat_completeness auto
termination
proof (relation "measure length", simp)
  fix repr0 repr args a
  assume "repr = str_trim repr0" "extract_generic_args repr = Some args" "a \<in> set args"
  with length_generic_args [of repr args a] length_str_trim [of repr0]
  show "(a, repr0) \<in> measure length" by simp
qed

declare format_type_repr.simps [simp del]

section \<open>Sugar\<close>

text \<open>The parts of a term of a given form; \<open>None\<close> is the early return of the recognizers.\<close>

definition accept :: "bool \<Rightarrow> unit option" where
  "accept b = (if b then Some () else None)"

definition view_let :: "ir_stmt \<Rightarrow> (string \<times> bool \<times> type_id option \<times> ir_expr) option" where
  "view_let s = (case s of ILet _ name mutable ty e _ \<Rightarrow> Some (name, mutable, ty, e) | _ \<Rightarrow> None)"

definition view_assign :: "ir_stmt \<Rightarrow> (string \<times> ir_expr) option" where
  "view_assign s = (case s of IAssign target e _ \<Rightarrow> Some (target, e) | _ \<Rightarrow> None)"

definition view_expr_stmt :: "ir_stmt \<Rightarrow> ir_expr option" where
  "view_expr_stmt s = (case s of IExprStmt e _ \<Rightarrow> Some e | _ \<Rightarrow> None)"

definition view_if :: "ir_expr \<Rightarrow> (ir_expr \<times> ir_block \<times> ir_block) option" where
  "view_if e = (case ie_kind e of IIf c t els \<Rightarrow> Some (c, t, els) | _ \<Rightarrow> None)"

definition view_loop :: "ir_expr \<Rightarrow> ir_block option" where
  "view_loop e = (case ie_kind e of ILoop b \<Rightarrow> Some b | _ \<Rightarrow> None)"

definition view_match :: "ir_expr \<Rightarrow> (ir_expr \<times> ir_match_arm list) option" where
  "view_match e = (case ie_kind e of IMatch s arms \<Rightarrow> Some (s, arms) | _ \<Rightarrow> None)"

definition view_call :: "ir_expr \<Rightarrow> (ir_expr \<times> ir_expr list) option" where
  "view_call e = (case ie_kind e of ICall callee args _ _ \<Rightarrow> Some (callee, args) | _ \<Rightarrow> None)"

definition is_var :: "ir_expr \<Rightarrow> string \<Rightarrow> bool" where
  "is_var e expected = (ie_kind e = IVar expected)"

definition is_field_of_var :: "ir_expr \<Rightarrow> string \<Rightarrow> string \<Rightarrow> bool" where
  "is_field_of_var e var expected_field =
     (case ie_kind e of
        IFieldAccess base field \<Rightarrow> field = expected_field \<and> is_var base var
      | _ \<Rightarrow> False)"

text \<open>The argument of a call of \<open>function\<close> with one argument.\<close>

definition call_arg :: "ir_expr \<Rightarrow> string \<Rightarrow> ir_expr option" where
  "call_arg e fname =
     (case view_call e of
        Some (callee, [a]) \<Rightarrow> if is_var callee fname then Some a else None
      | _ \<Rightarrow> None)"

definition is_unit_block :: "ir_block \<Rightarrow> bool" where
  "is_unit_block b =
     (ib_stmts b = [] \<and> (case ib_tail b of None \<Rightarrow> True | Some t \<Rightarrow> ie_kind t = IUnit))"

definition is_break_none_expr :: "ir_expr \<Rightarrow> bool" where
  "is_break_none_expr e = (ie_kind e = IBreak None)"

definition is_int_literal :: "ir_expr \<Rightarrow> i64 \<Rightarrow> bool" where
  "is_int_literal e w = (case ie_kind e of IInt v _ \<Rightarrow> v = w | _ \<Rightarrow> False)"

definition is_increment_expr :: "ir_expr \<Rightarrow> string \<Rightarrow> bool" where
  "is_increment_expr e target =
     (case ie_kind e of
        IBinary op l r \<Rightarrow> op = Add \<and> is_var l target \<and> is_int_literal r 1
      | _ \<Rightarrow> False)"

definition extract_if_true_then_block :: "ir_expr \<Rightarrow> ir_block option" where
  "extract_if_true_then_block e = do {
     (c, t, els) \<leftarrow> view_if e;
     _ \<leftarrow> accept (ie_kind c = IBool True \<and> is_unit_block els);
     Some t
   }"

text \<open>The bodies of the two arms of \<open>match .. { Some(x) => .., None => break }\<close>.\<close>

definition variant_args :: "ir_pattern \<Rightarrow> (string \<times> ir_pattern list) option" where
  "variant_args p = (case ipat_kind p of IPVariant name args \<Rightarrow> Some (name, args) | _ \<Rightarrow> None)"

definition bound_name :: "ir_pattern \<Rightarrow> string option" where
  "bound_name p = (case ipat_kind p of IPVar name \<Rightarrow> Some name | _ \<Rightarrow> None)"

fun some_arm_binding :: "ir_match_arm \<Rightarrow> (string \<times> ir_expr) option" where
  "some_arm_binding (IMatchArm p guard body _) =
     (case variant_args p of
        Some (name, [a]) \<Rightarrow>
          if name = ''Some'' \<and> guard = None then map_option (\<lambda>b. (b, body)) (bound_name a) else None
      | _ \<Rightarrow> None)"

fun is_none_break_arm :: "ir_match_arm \<Rightarrow> bool" where
  "is_none_break_arm (IMatchArm p guard body _) =
     (variant_args p = Some (''None'', []) \<and> guard = None \<and> is_break_none_expr body)"

datatype rendered_iterable = RenderExpr ir_expr | RenderRange ir_expr ir_expr

record rendered_for =
  rf_binding :: string
  rf_iterable :: rendered_iterable
  rf_body :: ir_block

text \<open>A block without its first \<open>n\<close> statements and without a tail.\<close>

definition body_after :: "nat \<Rightarrow> ir_block \<Rightarrow> ir_block" where
  "body_after n b = IBlock (ib_node b) (drop n (ib_stmts b)) None (ib_span b)"

definition the_only :: "'a list \<Rightarrow> 'a option" where
  "the_only xs = (case xs of [x] \<Rightarrow> Some x | _ \<Rightarrow> None)"

definition the_two :: "'a list \<Rightarrow> ('a \<times> 'a) option" where
  "the_two xs = (case xs of [x, y] \<Rightarrow> Some (x, y) | _ \<Rightarrow> None)"

definition first_of :: "'a list \<Rightarrow> 'a option" where
  "first_of xs = (case xs of [] \<Rightarrow> None | x # _ \<Rightarrow> Some x)"

definition extract_iter_for :: "ir_stmt \<Rightarrow> ir_block \<Rightarrow> rendered_for option" where
  "extract_iter_for init loop_body = do {
     (iter_name, mutable, ty, init_expr) \<leftarrow> view_let init;
     _ \<leftarrow> accept (mutable \<and> ty = None);
     iterable \<leftarrow> call_arg init_expr ''aic_for_into_iter'';
     _ \<leftarrow> accept (ib_tail loop_body = None);
     (s0, s1) \<leftarrow> the_two (ib_stmts loop_body);
     (step_name, step_mutable, step_ty, nxt) \<leftarrow> view_let s0;
     _ \<leftarrow> accept (\<not> step_mutable \<and> step_ty = None);
     a \<leftarrow> call_arg nxt ''aic_for_next_iter'';
     _ \<leftarrow> accept (is_var a iter_name);
     match_expr \<leftarrow> view_expr_stmt s1;
     (scrutinee, arms) \<leftarrow> view_match match_expr;
     _ \<leftarrow> accept (is_field_of_var scrutinee step_name ''item'');
     (arm_some, arm_none) \<leftarrow> the_two arms;
     (binding, some_body) \<leftarrow> some_arm_binding arm_some;
     _ \<leftarrow> accept (is_none_break_arm arm_none);
     some_then \<leftarrow> extract_if_true_then_block some_body;
     _ \<leftarrow> accept (ib_tail some_then = None);
     first \<leftarrow> first_of (ib_stmts some_then);
     (target, e) \<leftarrow> view_assign first;
     _ \<leftarrow> accept (target = iter_name \<and> is_field_of_var e step_name ''iter'');
     Some \<lparr>rf_binding = binding, rf_iterable = RenderExpr iterable, rf_body = body_after 1 some_then\<rparr>
   }"

definition extract_vec_for :: "ir_stmt \<Rightarrow> ir_stmt \<Rightarrow> ir_block \<Rightarrow> rendered_for option" where
  "extract_vec_for s0 s1 loop_body = do {
     (iter_name, mutable, _, iterable_expr) \<leftarrow> view_let s0;
     _ \<leftarrow> accept (\<not> mutable);
     (index_name, index_mutable, _, zero) \<leftarrow> view_let s1;
     _ \<leftarrow> accept (index_mutable \<and> is_int_literal zero 0);
     _ \<leftarrow> accept (ib_tail loop_body = None);
     s \<leftarrow> the_only (ib_stmts loop_body);
     match_expr \<leftarrow> view_expr_stmt s;
     (scrutinee, arms) \<leftarrow> view_match match_expr;
     (arm_some, arm_none) \<leftarrow> the_two arms;
     (callee, args) \<leftarrow> view_call scrutinee;
     _ \<leftarrow> accept (is_var callee ''aic_vec_get_intrinsic'');
     (a0, a1) \<leftarrow> the_two args;
     _ \<leftarrow> accept (is_var a0 iter_name \<and> is_var a1 index_name);
     (binding, some_body) \<leftarrow> some_arm_binding arm_some;
     _ \<leftarrow> accept (is_none_break_arm arm_none);
     some_then \<leftarrow> extract_if_true_then_block some_body;
     _ \<leftarrow> accept (ib_tail some_then = None);
     first \<leftarrow> first_of (ib_stmts some_then);
     (target, e) \<leftarrow> view_assign first;
     _ \<leftarrow> accept (target = index_name \<and> is_increment_expr e index_name);
     Some \<lparr>rf_binding = binding, rf_iterable = RenderExpr iterable_expr, rf_body = body_after 1 some_then\<rparr>
   }"

definition is_less_than :: "ir_expr \<Rightarrow> string \<Rightarrow> string \<Rightarrow> bool" where
  "is_less_than e a b =
     (case ie_kind e of IBinary op l r \<Rightarrow> op = Lt \<and> is_var l a \<and> is_var r b | _ \<Rightarrow> False)"

definition is_break_block :: "ir_block \<Rightarrow> bool" where
  "is_break_block b =
     (ib_stmts b = [] \<and> (case ib_tail b of None \<Rightarrow> False | Some t \<Rightarrow> is_break_none_expr t))"

definition extract_range_for :: "ir_stmt \<Rightarrow> ir_stmt \<Rightarrow> ir_block \<Rightarrow> rendered_for option" where
  "extract_range_for s0 s1 loop_body = do {
     (cur_name, cur_mutable, _, start_expr) \<leftarrow> view_let s0;
     _ \<leftarrow> accept cur_mutable;
     (end_name, end_mutable, _, end_expr) \<leftarrow> view_let s1;
     _ \<leftarrow> accept (\<not> end_mutable);
     _ \<leftarrow> accept (ib_tail loop_body = None);
     s \<leftarrow> the_only (ib_stmts loop_body);
     if_expr \<leftarrow> view_expr_stmt s;
     (cond, then_block, else_block) \<leftarrow> view_if if_expr;
     _ \<leftarrow> accept (is_less_than cond cur_name end_name);
     _ \<leftarrow> accept (is_break_block else_block);
     _ \<leftarrow> accept (2 \<le> length (ib_stmts then_block) \<and> ib_tail then_block = None);
     (binding, bound_mutable, _, source) \<leftarrow> view_let (ib_stmts then_block ! 0);
     _ \<leftarrow> accept (\<not> bound_mutable \<and> is_var source cur_name);
     (target, e) \<leftarrow> view_assign (ib_stmts then_block ! 1);
     _ \<leftarrow> accept (target = cur_name \<and> is_increment_expr e cur_name);
     Some \<lparr>rf_binding = binding, rf_iterable = RenderRange start_expr end_expr,
       rf_body = body_after 2 then_block\<rparr>
   }"

definition extract_for_syntax :: "ir_expr \<Rightarrow> rendered_for option" where
  "extract_for_syntax e = do {
     (cond, then_block, else_block) \<leftarrow> view_if e;
     _ \<leftarrow> accept (ie_kind cond = IBool True \<and> is_unit_block else_block);
     loop_expr \<leftarrow> ib_tail then_block;
     loop_body \<leftarrow> view_loop loop_expr;
     (case ib_stmts then_block of
        [s] \<Rightarrow> extract_iter_for s loop_body
      | [s0, s1] \<Rightarrow>
          (case extract_range_for s0 s1 loop_body of
             Some r \<Rightarrow> Some r
           | None \<Rightarrow> extract_vec_for s0 s1 loop_body)
      | _ \<Rightarrow> None)
   }"

text \<open>The nested \<open>if\<close> of an \<open>else if\<close> chain.\<close>

definition else_if_expr :: "ir_block \<Rightarrow> ir_expr option" where
  "else_if_expr b =
     (case ib_tail b of
        None \<Rightarrow> None
      | Some t \<Rightarrow>
          if ib_stmts b = [] \<and> view_if t \<noteq> None \<and> ie_span t = ib_span b \<and> extract_for_syntax t = None
          then Some t else None)"

section \<open>Bindings of tuples\<close>

definition parse_usize :: "string \<Rightarrow> nat option" where
  "parse_usize s =
     (let digits = (case strip_prefix ''+'' s of Some r \<Rightarrow> r | None \<Rightarrow> s);
          value = foldl (\<lambda>acc c. acc * 10 + (of_char c - 48)) 0 digits
      in if digits \<noteq> [] \<and> list_all is_ascii_digit digits \<and> value < 2 ^ 64 then Some value else None)"

fun tuple_field_path :: "ir_expr \<Rightarrow> string \<Rightarrow> nat list option" where
  "tuple_field_path (IExpr _ k _) root =
     (case k of
        IVar name \<Rightarrow> if name = root then Some [] else None
      | IFieldAccess base field \<Rightarrow> do {
          path \<leftarrow> tuple_field_path base root;
          idx \<leftarrow> parse_usize field;
          Some (path @ [idx])
        }
      | _ \<Rightarrow> None)"

record tuple_let_group =
  tlg_ty :: "type_id option"
  tlg_expr :: ir_expr
  tlg_span :: span
  tlg_bindings :: "(string \<times> nat list) list"

fun ir_stmt_span :: "ir_stmt \<Rightarrow> span" where
  "ir_stmt_span (ILet _ _ _ _ _ sp) = sp"
| "ir_stmt_span (IAssign _ _ sp) = sp"
| "ir_stmt_span (IExprStmt _ sp) = sp"
| "ir_stmt_span (IReturnStmt _ sp) = sp"
| "ir_stmt_span (IAssert _ _ sp) = sp"

definition tuple_binding :: "string \<Rightarrow> ir_stmt \<Rightarrow> (string \<times> nat list) option" where
  "tuple_binding name s = do {
     (binding, mutable, ty, field_expr) \<leftarrow> view_let s;
     _ \<leftarrow> accept (\<not> mutable \<and> ty = None);
     path \<leftarrow> tuple_field_path field_expr name;
     Some (binding, path)
   }"

fun tuple_bindings :: "string \<Rightarrow> ir_stmt list \<Rightarrow> (string \<times> nat list) list" where
  "tuple_bindings name [] = []"
| "tuple_bindings name (s # ss) =
     (case tuple_binding name s of Some b \<Rightarrow> b # tuple_bindings name ss | None \<Rightarrow> [])"

definition tuple_let_group_of :: "ir_stmt \<Rightarrow> ir_stmt list \<Rightarrow> tuple_let_group option" where
  "tuple_let_group_of s ss = do {
     (name, mutable, ty, e) \<leftarrow> view_let s;
     _ \<leftarrow> accept (\<not> mutable \<and> starts_with name TUPLE_LET_TMP_PREFIX);
     Some \<lparr>tlg_ty = ty, tlg_expr = e, tlg_span = ir_stmt_span s, tlg_bindings = tuple_bindings name ss\<rparr>
   }"

definition path_at :: "nat list \<Rightarrow> nat \<Rightarrow> nat option" where
  "path_at path depth = (if depth < length path then Some (path ! depth) else None)"

definition bindings_at :: "(string \<times> nat list) list \<Rightarrow> nat \<Rightarrow> nat \<Rightarrow> (string \<times> nat list) list" where
  "bindings_at bindings depth idx = filter (\<lambda>(_, path). path_at path depth = Some idx) bindings"

definition pattern_width :: "(string \<times> nat list) list \<Rightarrow> nat \<Rightarrow> nat" where
  "pattern_width bindings depth =
     (let indices = List.map_filter (\<lambda>(_, path). path_at path depth) bindings
      in if indices = [] then 1 else Suc (Max (set indices)))"

definition longest_path :: "(string \<times> nat list) list \<Rightarrow> nat" where
  "longest_path bindings = foldr (\<lambda>(_, path). max (length path)) bindings 0"

lemma longest_path_ge: "(name, path) \<in> set bindings \<Longrightarrow> length path \<le> longest_path bindings"
  unfolding longest_path_def by (induction bindings) auto

lemma longest_path_le: "(\<And>name path. (name, path) \<in> set bindings \<Longrightarrow> length path \<le> n) \<Longrightarrow> longest_path bindings \<le> n"
proof (induction bindings)
  case (Cons b bindings)
  have "longest_path bindings \<le> n" by (rule Cons.IH) (use Cons.prems in auto)
  with Cons.prems [of "fst b" "snd b"] show ?case by (cases b) (simp add: longest_path_def)
qed (simp add: longest_path_def)

lemma longest_path_nested:
  assumes "bindings_at bindings depth idx \<noteq> []"
  shows "longest_path (bindings_at bindings depth idx) - Suc depth < longest_path bindings - depth"
proof -
  from assms obtain name path where "(name, path) \<in> set bindings" "path_at path depth = Some idx"
    by (auto simp: bindings_at_def filter_empty_conv)
  with longest_path_ge [of name path bindings] have "depth < longest_path bindings"
    by (simp add: path_at_def split: if_splits)
  moreover have "longest_path (bindings_at bindings depth idx) \<le> longest_path bindings"
    by (rule longest_path_le) (auto simp: bindings_at_def intro: longest_path_ge)
  ultimately show ?thesis by simp
qed

function render_tuple_pattern :: "(string \<times> nat list) list \<Rightarrow> nat \<Rightarrow> string" where
  "render_tuple_pattern bindings depth =
     (let parts = map (\<lambda>idx.
            if bindings_at bindings depth idx = [] then ''_''
            else if length (bindings_at bindings depth idx) = 1 \<and>
                length (snd (hd (bindings_at bindings depth idx))) = depth + 1
            then fst (hd (bindings_at bindings depth idx))
            else render_tuple_pattern (bindings_at bindings depth idx) (depth + 1))
          [0..<pattern_width bindings depth]
      in if length parts = 1 then ''('' @ hd parts @ '',)'' else ''('' @ join_with '', '' parts @ '')'')"
  by pat_completeness auto
termination
  by (relation "measure (\<lambda>(bindings, depth). longest_path bindings - depth)")
    (simp_all add: longest_path_nested)

declare render_tuple_pattern.simps [simp del]

section \<open>Literals, patterns and attributes\<close>

record fmt_ctx =
  fx_type :: "type_id \<Rightarrow> string option"
  fx_debug_char :: "rchar \<Rightarrow> string"
  fx_float_text :: "f64 \<Rightarrow> string"

definition f64_infinity :: f64 where
  "f64_infinity = 0x7FF0000000000000"

definition f64_neg_infinity :: f64 where
  "f64_neg_infinity = 0xFFF0000000000000"

text \<open>\<open>is_nan\<close> on the bit pattern: all bits of the exponent are set and some bit of the fraction is.\<close>

definition f64_is_nan :: "f64 \<Rightarrow> bool" where
  "f64_is_nan v = (0x7FF0000000000000 < take_bit 63 v)"

definition render_float_literal :: "fmt_ctx \<Rightarrow> f64 \<Rightarrow> string" where
  "render_float_literal fx value =
     (if f64_is_nan value then ''NaN''
      else if value = f64_infinity then ''inf''
      else if value = f64_neg_infinity then ''-inf''
      else
        (let text = fx_float_text fx value
         in if CHR ''.'' \<notin> set text \<and> CHR ''e'' \<notin> set text \<and> CHR ''E'' \<notin> set text
            then text @ ''.0'' else text))"

definition display_type :: "fmt_ctx \<Rightarrow> type_id \<Rightarrow> string" where
  "display_type fx ty = (case fx_type fx ty of Some repr \<Rightarrow> format_type_repr repr | None \<Rightarrow> ''_'')"

definition fmt_int :: "i64 \<Rightarrow> int_literal_metadata option \<Rightarrow> string" where
  "fmt_int v meta =
     (case meta of
        Some m \<Rightarrow> ilm_raw_literal_text m @ ilm_suffix_text m
      | None \<Rightarrow> int_str (sint v))"

definition fmt_float :: "fmt_ctx \<Rightarrow> f64 \<Rightarrow> float_literal_metadata option \<Rightarrow> string" where
  "fmt_float fx v meta =
     (case meta of
        Some m \<Rightarrow> flm_raw_literal_text m @ flm_suffix_text m
      | None \<Rightarrow> render_float_literal fx v)"

definition fmt_bool :: "bool \<Rightarrow> string" where
  "fmt_bool b = (if b then ''true'' else ''false'')"

definition fmt_string :: "string \<Rightarrow> string" where
  "fmt_string v = [CHR 34] @ escape_aic_string_literal v @ [CHR 34]"

fun fmt_pattern :: "fmt_ctx \<Rightarrow> ir_pattern \<Rightarrow> string"
  and fmt_pattern_field :: "fmt_ctx \<Rightarrow> ir_struct_pattern_field \<Rightarrow> string" where
  "fmt_pattern fx (IPattern _ k _) =
     (case k of
        IPWildcard \<Rightarrow> ''_''
      | IPVar v \<Rightarrow> v
      | IPInt v meta \<Rightarrow> fmt_int v meta
      | IPChar v \<Rightarrow> fx_debug_char fx v
      | IPString v \<Rightarrow> fmt_string v
      | IPBool v \<Rightarrow> fmt_bool v
      | IPUnit \<Rightarrow> ''()''
      | IPOr ps \<Rightarrow> join_with '' | '' (map (fmt_pattern fx) ps)
      | IPVariant name args \<Rightarrow>
          (if name = TUPLE_INTERNAL_NAME then
             ''('' @ join_with '', '' (map (fmt_pattern fx) args) @
             (if length args = 1 then '','' else []) @ '')''
           else name @
             (if args \<noteq> [] then ''('' @ join_with '', '' (map (fmt_pattern fx) args) @ '')'' else []))
      | IPStruct name fs has_rest \<Rightarrow>
          name @ '' { '' @ join_with '', '' (map (fmt_pattern_field fx) fs) @
          (if has_rest then (if fs \<noteq> [] then '', '' else []) @ ''..'' else []) @ '' }'')"
| "fmt_pattern_field fx (IStructPatternField name p) =
     (if ipat_kind p = IPVar name then name else name @ '': '' @ fmt_pattern fx p)"

definition fmt_attribute_value :: "attribute_value \<Rightarrow> string" where
  "fmt_attribute_value v =
     (case av_kind v of
        AttrString text \<Rightarrow> fmt_string text
      | AttrInt number \<Rightarrow> int_str (sint number)
      | AttrBool BoolTrue \<Rightarrow> ''true''
      | AttrBool BoolFalse \<Rightarrow> ''false''
      | AttrIdent name \<Rightarrow> name)"

fun fmt_attribute_arg :: "attribute_arg \<Rightarrow> string" where
  "fmt_attribute_arg (Positional v) = fmt_attribute_value v"
| "fmt_attribute_arg (Named name v _) = name @ '' = '' @ fmt_attribute_value v"

definition format_single_attribute :: "attribute \<Rightarrow> string" where
  "format_single_attribute attr =
     ''#['' @ attr_name attr @
     (if attr_args attr \<noteq> [] then ''('' @ join_with '', '' (map fmt_attribute_arg (attr_args attr)) @ '')''
      else []) @ '']''"

definition format_attributes_inline :: "attribute list \<Rightarrow> string" where
  "format_attributes_inline attrs = join_with '' '' (map format_single_attribute attrs) @ '' ''"

section \<open>Expressions, statements and blocks\<close>

definition PREFIX_OPERAND_PREC :: nat where
  "PREFIX_OPERAND_PREC = 11"

fun binop_info :: "bin_op \<Rightarrow> nat \<times> string" where
  "binop_info Or = (1, ''||'')"
| "binop_info And = (2, ''&&'')"
| "binop_info BitOr = (3, ''|'')"
| "binop_info BitXor = (4, ''^'')"
| "binop_info BitAnd = (5, ''&'')"
| "binop_info Eq = (6, ''=='')"
| "binop_info Ne = (6, ''!='')"
| "binop_info Lt = (7, ''<'')"
| "binop_info Le = (7, ''<='')"
| "binop_info Gt = (7, ''>'')"
| "binop_info Ge = (7, ''>='')"
| "binop_info Shl = (8, ''<<'')"
| "binop_info Shr = (8, ''>>'')"
| "binop_info Ushr = (8, ''>>>'')"
| "binop_info Add = (9, ''+'')"
| "binop_info Sub = (9, ''-'')"
| "binop_info Mul = (10, ''*'')"
| "binop_info Div = (10, ''/'')"
| "binop_info Mod = (10, ''%'')"

fun unary_text :: "unary_op \<Rightarrow> string" where
  "unary_text Neg = ''-''"
| "unary_text Not = ''!''"
| "unary_text BitNot = ''~''"

text \<open>The operands that \<open>await\<close> and \<open>?\<close> put in parentheses.\<close>

definition needs_paren :: "ir_expr \<Rightarrow> bool" where
  "needs_paren e =
     (case ie_kind e of IBinary _ _ _ \<Rightarrow> True | IIf _ _ _ \<Rightarrow> True | IMatch _ _ \<Rightarrow> True | _ \<Rightarrow> False)"

definition parens :: "bool \<Rightarrow> string \<Rightarrow> string" where
  "parens b text = (if b then ''('' @ text @ '')'' else text)"

definition arg_label :: "string option list \<Rightarrow> nat \<Rightarrow> string" where
  "arg_label names idx =
     (case (if idx < length names then names ! idx else None) of
        Some name \<Rightarrow> name @ '': ''
      | None \<Rightarrow> [])"

text \<open>The fields of a tuple literal by index.\<close>

definition tuple_items :: "(string \<times> ir_expr \<times> span) list \<Rightarrow> (nat \<times> ir_expr) list" where
  "tuple_items fs =
     sort_key fst (List.map_filter (\<lambda>(field, e, _). map_option (\<lambda>idx. (idx, e)) (parse_usize field)) fs)"

definition fmt_closure_param :: "fmt_ctx \<Rightarrow> ir_closure_param \<Rightarrow> string" where
  "fmt_closure_param fx p =
     icp_name p @ (case icp_ty p of Some ty \<Rightarrow> '': '' @ display_type fx ty | None \<Rightarrow> [])"

text \<open>Sizes of what the recognizers of sugar return.\<close>

lemma accept_Some [simp]: "accept b = Some u \<longleftrightarrow> b"
  by (simp add: accept_def)

lemma view_let_Some: "view_let s = Some (name, m, ty, e) \<Longrightarrow> size e < size s"
  by (auto simp: view_let_def split: ir_stmt.splits)

lemma view_assign_Some: "view_assign s = Some (target, e) \<Longrightarrow> size e < size s"
  by (auto simp: view_assign_def split: ir_stmt.splits)

lemma view_expr_stmt_Some: "view_expr_stmt s = Some e \<Longrightarrow> size e < size s"
  by (auto simp: view_expr_stmt_def split: ir_stmt.splits)

lemma size_view_kind: "size e = Suc (size (ie_kind e))"
  by (cases e) simp

lemma view_if_Some: "view_if e = Some (c, t, els) \<Longrightarrow> size c + size t + size els < size e"
  by (auto simp: view_if_def size_view_kind [of e] split: ir_expr_kind.splits)

lemma view_loop_Some: "view_loop e = Some b \<Longrightarrow> size b < size e"
  by (auto simp: view_loop_def size_view_kind [of e] split: ir_expr_kind.splits)

lemma view_match_Some: "view_match e = Some (m, arms) \<Longrightarrow> size_list size arms < size e"
  by (auto simp: view_match_def size_view_kind [of e] split: ir_expr_kind.splits)

lemma view_call_Some: "view_call e = Some (callee, args) \<Longrightarrow> size_list size args < size e"
  by (auto simp: view_call_def size_view_kind [of e] split: ir_expr_kind.splits)

lemma call_arg_Some: "call_arg e fname = Some a \<Longrightarrow> size a < size e"
  by (auto simp: call_arg_def dest!: view_call_Some split: option.splits list.splits if_splits)

lemma block_parts:
  "s \<in> set (ib_stmts b) \<Longrightarrow> size s < size b" "ib_tail b = Some t \<Longrightarrow> size t < size b"
  by (cases b, auto dest: size_list_estimation' [where f = size, OF _ order_refl])+

lemma some_arm_Some: "some_arm_binding arm = Some (binding, body) \<Longrightarrow> size body < size arm"
  by (cases arm) (auto split: option.splits list.splits if_splits)

lemma size_list_drop: "size_list f (drop n xs) \<le> size_list f xs"
  by (induction xs arbitrary: n) (auto simp: drop_Cons split: nat.split intro: le_SucI trans_le_add2)

lemma size_body_after: "size (body_after n b) \<le> size b"
  using size_list_drop [of size n "ib_stmts b"] by (cases b; cases "ib_tail b") (simp_all add: body_after_def)

lemma if_true_Some: "extract_if_true_then_block e = Some b \<Longrightarrow> size b < size e"
  by (auto simp: extract_if_true_then_block_def Option.bind_eq_Some_conv dest!: view_if_Some)

lemma the_two_Some: "the_two xs = Some (x, y) \<Longrightarrow> xs = [x, y]"
  by (auto simp: the_two_def split: list.splits)

lemma the_only_Some: "the_only xs = Some x \<Longrightarrow> xs = [x]"
  by (auto simp: the_only_def split: list.splits)

lemmas extract_sizes = view_let_Some view_expr_stmt_Some view_if_Some view_loop_Some view_match_Some
  call_arg_Some some_arm_Some if_true_Some

lemma iter_for_size:
  assumes "extract_iter_for s b = Some r"
  shows "size (rf_body r) < size b" "\<exists>i. rf_iterable r = RenderExpr i \<and> size i < size s"
proof -
  from assms obtain iter_name init iterable s0 s1 m scrutinee arms a1 a2 binding body then_block where
    p: "view_let s = Some (iter_name, True, None, init)" "call_arg init ''aic_for_into_iter'' = Some iterable"
    "the_two (ib_stmts b) = Some (s0, s1)" "view_expr_stmt s1 = Some m" "view_match m = Some (scrutinee, arms)"
    "the_two arms = Some (a1, a2)" "some_arm_binding a1 = Some (binding, body)"
    "extract_if_true_then_block body = Some then_block"
    and r: "r = \<lparr>rf_binding = binding, rf_iterable = RenderExpr iterable, rf_body = body_after 1 then_block\<rparr>"
    by (auto simp: extract_iter_for_def Option.bind_eq_Some_conv)
  from p(3) have "s1 \<in> set (ib_stmts b)" by (auto dest: the_two_Some)
  from block_parts(1) [OF this] extract_sizes(2) [OF p(4)] extract_sizes(5) [OF p(5)]
    the_two_Some [OF p(6)] extract_sizes(7) [OF p(7)] extract_sizes(8) [OF p(8)]
    size_body_after [of 1 then_block] r
  show "size (rf_body r) < size b" by simp
  from r extract_sizes(1) [OF p(1)] extract_sizes(6) [OF p(2)]
  show "\<exists>i. rf_iterable r = RenderExpr i \<and> size i < size s" by simp
qed

lemma vec_for_size:
  assumes "extract_vec_for s0 s1 b = Some r"
  shows "size (rf_body r) < size b" "\<exists>i. rf_iterable r = RenderExpr i \<and> size i < size s0"
proof -
  from assms obtain iter_name ty iterable s m scrutinee arms a1 a2 binding body then_block where
    p: "view_let s0 = Some (iter_name, False, ty, iterable)"
    "the_only (ib_stmts b) = Some s" "view_expr_stmt s = Some m" "view_match m = Some (scrutinee, arms)"
    "the_two arms = Some (a1, a2)" "some_arm_binding a1 = Some (binding, body)"
    "extract_if_true_then_block body = Some then_block"
    and r: "r = \<lparr>rf_binding = binding, rf_iterable = RenderExpr iterable, rf_body = body_after 1 then_block\<rparr>"
    by (auto simp: extract_vec_for_def Option.bind_eq_Some_conv)
  from p(2) have "s \<in> set (ib_stmts b)" by (auto dest: the_only_Some)
  from block_parts(1) [OF this] extract_sizes(2) [OF p(3)] extract_sizes(5) [OF p(4)]
    the_two_Some [OF p(5)] extract_sizes(7) [OF p(6)] extract_sizes(8) [OF p(7)]
    size_body_after [of 1 then_block] r
  show "size (rf_body r) < size b" by simp
  from r extract_sizes(1) [OF p(1)] show "\<exists>i. rf_iterable r = RenderExpr i \<and> size i < size s0" by simp
qed

lemma range_for_size:
  assumes "extract_range_for s0 s1 b = Some r"
  shows "size (rf_body r) < size b"
    "\<exists>x y. rf_iterable r = RenderRange x y \<and> size x < size s0 \<and> size y < size s1"
proof -
  from assms obtain cur ty x en ty' y s m cond then_block els binding where
    p: "view_let s0 = Some (cur, True, ty, x)" "view_let s1 = Some (en, False, ty', y)"
    "the_only (ib_stmts b) = Some s" "view_expr_stmt s = Some m" "view_if m = Some (cond, then_block, els)"
    and r: "r = \<lparr>rf_binding = binding, rf_iterable = RenderRange x y, rf_body = body_after 2 then_block\<rparr>"
    by (auto simp: extract_range_for_def Option.bind_eq_Some_conv)
  from p(3) have "s \<in> set (ib_stmts b)" by (auto dest: the_only_Some)
  from block_parts(1) [OF this] extract_sizes(2) [OF p(4)] extract_sizes(3) [OF p(5)]
    size_body_after [of 2 then_block] r
  show "size (rf_body r) < size b" by simp
  from r extract_sizes(1) [OF p(1)] extract_sizes(1) [OF p(2)]
  show "\<exists>x y. rf_iterable r = RenderRange x y \<and> size x < size s0 \<and> size y < size s1" by simp
qed

lemma for_syntax_size:
  assumes "extract_for_syntax e = Some r"
  shows "size (rf_body r) < size e"
    "rf_iterable r = RenderExpr i \<Longrightarrow> size i < size e"
    "rf_iterable r = RenderRange x y \<Longrightarrow> size x < size e \<and> size y < size e"
proof -
  from assms obtain c t els l b where
    p: "view_if e = Some (c, t, els)" "ib_tail t = Some l" "view_loop l = Some b"
    and r: "(case ib_stmts t of [s] \<Rightarrow> extract_iter_for s b
      | [s0, s1] \<Rightarrow> (case extract_range_for s0 s1 b of Some r \<Rightarrow> Some r | None \<Rightarrow> extract_vec_for s0 s1 b)
      | _ \<Rightarrow> None) = Some r"
    by (auto simp: extract_for_syntax_def Option.bind_eq_Some_conv)
  from p(1) extract_sizes(3) have t: "size t < size e" by fastforce
  from block_parts(2) [OF p(2)] extract_sizes(4) [OF p(3)] have b: "size b < size t" by simp
  from r consider s where "ib_stmts t = [s]" "extract_iter_for s b = Some r"
    | s0 s1 where "ib_stmts t = [s0, s1]" "extract_range_for s0 s1 b = Some r"
    | s0 s1 where "ib_stmts t = [s0, s1]" "extract_vec_for s0 s1 b = Some r"
    by (auto split: list.splits option.splits)
  then have "size (rf_body r) < size e \<and> (\<forall>i. rf_iterable r = RenderExpr i \<longrightarrow> size i < size e) \<and>
    (\<forall>x y. rf_iterable r = RenderRange x y \<longrightarrow> size x < size e \<and> size y < size e)"
  proof cases
    case 1
    with iter_for_size [OF 1(2)] block_parts(1) [of s t] t b show ?thesis by auto
  next
    case 2
    with range_for_size [OF 2(2)] block_parts(1) [of s0 t] block_parts(1) [of s1 t] t b show ?thesis by auto
  next
    case 3
    with vec_for_size [OF 3(2)] block_parts(1) [of s0 t] t b show ?thesis by auto
  qed
  then show "size (rf_body r) < size e"
    "rf_iterable r = RenderExpr i \<Longrightarrow> size i < size e"
    "rf_iterable r = RenderRange x y \<Longrightarrow> size x < size e \<and> size y < size e"
    by auto
qed

lemma else_if_size: "else_if_expr b = Some t \<Longrightarrow> size t < size b"
  by (auto simp: else_if_expr_def dest: block_parts(2) split: option.splits if_splits)

lemma tuple_group_size: "tuple_let_group_of s ss = Some g \<Longrightarrow> size (tlg_expr g) < size s"
  by (auto simp: tuple_let_group_of_def Option.bind_eq_Some_conv dest!: view_let_Some)

lemma tuple_items_size: "(idx, e) \<in> set (tuple_items fs) \<Longrightarrow> \<exists>n sp. (n, e, sp) \<in> set fs"
  by (fastforce simp: tuple_items_def List.map_filter_def)

lemma field_size:
  "(n, e :: ir_expr, sp) \<in> set fs \<Longrightarrow> size e < size_list (size_prod (\<lambda>x. 0) (size_prod size (\<lambda>x. 0))) fs"
  by (induction fs) auto

lemma tuple_item_size:
  "(idx, e) \<in> set (tuple_items fs) \<Longrightarrow> size e < size_list (size_prod (\<lambda>x. 0) (size_prod size (\<lambda>x. 0))) fs"
  by (auto dest!: tuple_items_size field_size)

lemma member_size: "x \<in> set xs \<Longrightarrow> size (x :: ir_match_arm) < Suc (size_list size xs)"
  by (induction xs) auto

lemma arg_size: "(idx, x :: ir_expr) \<in> set (enumerate n xs) \<Longrightarrow> size x < Suc (size_list size xs)"
proof (induction xs arbitrary: n)
  case (Cons a xs)
  have "size x < Suc (size_list size xs)" if "(idx, x) \<in> set (enumerate (Suc n) xs)"
    using that by (rule Cons.IH)
  with Cons.prems show ?case by auto
qed simp

lemma for_syntax_sizes:
  "extract_for_syntax e = Some r \<Longrightarrow> size (rf_body r) < size e \<and>
     (\<forall>i. rf_iterable r = RenderExpr i \<longrightarrow> size i < size e) \<and>
     (\<forall>x y. rf_iterable r = RenderRange x y \<longrightarrow> size x < size e \<and> size y < size e)"
  using for_syntax_size by blast

lemma size_rest_stmts: "size_list size (drop n ss) \<le> size (s :: ir_stmt) + size_list size ss"
  using size_list_drop [of size n ss] by simp

lemma kind_size: "ie_kind e = k \<Longrightarrow> size e = Suc (size k)"
  using size_view_kind [of e] by simp

function fmt_expr :: "fmt_ctx \<Rightarrow> nat \<Rightarrow> nat \<Rightarrow> ir_expr \<Rightarrow> string"
  and fmt_template :: "fmt_ctx \<Rightarrow> nat \<Rightarrow> nat \<Rightarrow> string \<Rightarrow> ir_expr list \<Rightarrow> string"
  and fmt_arm :: "fmt_ctx \<Rightarrow> nat \<Rightarrow> ir_match_arm \<Rightarrow> string"
  and fmt_block :: "fmt_ctx \<Rightarrow> nat \<Rightarrow> ir_block \<Rightarrow> string"
  and fmt_stmts :: "fmt_ctx \<Rightarrow> nat \<Rightarrow> ir_stmt list \<Rightarrow> string"
  and fmt_stmt :: "fmt_ctx \<Rightarrow> nat \<Rightarrow> ir_stmt \<Rightarrow> string" where
  "fmt_expr fx parent_prec indent e =
     (case extract_for_syntax e of
        Some r \<Rightarrow>
          ''for '' @ rf_binding r @ '' in '' @
          (case rf_iterable r of
             RenderExpr i \<Rightarrow> fmt_expr fx 0 indent i
           | RenderRange a b \<Rightarrow> fmt_expr fx 0 indent a @ ''..'' @ fmt_expr fx 0 indent b) @
          '' '' @ fmt_block fx indent (rf_body r)
      | None \<Rightarrow>
          (case ie_kind e of
             IInt v meta \<Rightarrow> fmt_int v meta
           | IFloat v meta \<Rightarrow> fmt_float fx v meta
           | IBool v \<Rightarrow> fmt_bool v
           | IChar v \<Rightarrow> fx_debug_char fx v
           | IString v \<Rightarrow> fmt_string v
           | IUnit \<Rightarrow> ''()''
           | IVar v \<Rightarrow> v
           | ICall callee args names _ \<Rightarrow>
               fmt_expr fx PREFIX_OPERAND_PREC indent callee @ ''('' @
               join_with '', '' (map (\<lambda>(idx, a). arg_label names idx @ fmt_expr fx 0 indent a)
                 (enumerate 0 args)) @ '')''
           | ITemplateLiteral template args \<Rightarrow>
               ''f'' @ [CHR 34] @ fmt_template fx indent 0 template args @ [CHR 34]
           | IClosure params ret_type body \<Rightarrow>
               ''|'' @ join_with '', '' (map (fmt_closure_param fx) params) @ ''| -> '' @
               display_type fx ret_type @ '' '' @ fmt_block fx indent body
           | IIf cond then_block else_block \<Rightarrow>
               ''if '' @ fmt_expr fx 0 indent cond @ '' '' @ fmt_block fx indent then_block @ '' else '' @
               (case else_if_expr else_block of
                  Some nested \<Rightarrow> fmt_expr fx 0 indent nested
                | None \<Rightarrow> fmt_block fx indent else_block)
           | IWhile cond body \<Rightarrow>
               ''while '' @ fmt_expr fx 0 indent cond @ '' '' @ fmt_block fx indent body
           | ILoop body \<Rightarrow> ''loop '' @ fmt_block fx indent body
           | IBreak v \<Rightarrow>
               ''break'' @ (case v of Some x \<Rightarrow> '' '' @ fmt_expr fx 0 indent x | None \<Rightarrow> [])
           | IReturn v \<Rightarrow>
               ''return'' @ (case v of Some x \<Rightarrow> '' '' @ fmt_expr fx 0 indent x | None \<Rightarrow> [])
           | IContinue \<Rightarrow> ''continue''
           | IMatch scrutinee arms \<Rightarrow>
               ''match '' @ fmt_expr fx 0 indent scrutinee @ '' {'' @ [CHR 10] @
               concat (map (fmt_arm fx (indent + 4)) arms) @ spaces indent @ ''}''
           | IBinary op lhs rhs \<Rightarrow>
               (let (prec, op_str) = binop_info op in
                parens (prec < parent_prec)
                  (fmt_expr fx prec indent lhs @ '' '' @ op_str @ '' '' @ fmt_expr fx (prec + 1) indent rhs))
           | IUnary op x \<Rightarrow> unary_text op @ fmt_expr fx PREFIX_OPERAND_PREC indent x
           | IBorrow mutable x \<Rightarrow>
               ''&'' @ (if mutable then ''mut '' else []) @ fmt_expr fx PREFIX_OPERAND_PREC indent x
           | IAwait x \<Rightarrow> ''await '' @ parens (needs_paren x) (fmt_expr fx 9 indent x)
           | ITry x \<Rightarrow> parens (needs_paren x) (fmt_expr fx 10 indent x) @ ''?''
           | IUnsafeBlock b \<Rightarrow> ''unsafe '' @ fmt_block fx indent b
           | IStructInit name fs \<Rightarrow>
               (if name = TUPLE_INTERNAL_NAME then
                  ''('' @ join_with '', '' (map (\<lambda>(_, x). fmt_expr fx 0 indent x) (tuple_items fs)) @
                  (if length (tuple_items fs) = 1 then '','' else []) @ '')''
                else
                  name @ '' {'' @
                  join_with '', '' (map (\<lambda>(field, x, _). field @ '': '' @ fmt_expr fx 0 indent x) fs) @ ''}'')
           | IFieldAccess base field \<Rightarrow> fmt_expr fx PREFIX_OPERAND_PREC indent base @ ''.'' @ field))"
| "fmt_template fx indent idx template [] = escape_template_literal_segment template"
| "fmt_template fx indent idx template (a # args) =
     (case split_text (''{'' @ nat_str idx @ ''}'') template of
        None \<Rightarrow> escape_template_literal_segment template
      | Some (lead, rest) \<Rightarrow>
          escape_template_literal_segment lead @ ''{'' @ fmt_expr fx 0 indent a @ ''}'' @
          fmt_template fx indent (idx + 1) rest args)"
| "fmt_arm fx indent (IMatchArm pat guard body _) =
     spaces indent @ fmt_pattern fx pat @
     (case guard of Some g \<Rightarrow> '' if '' @ fmt_expr fx 0 indent g | None \<Rightarrow> []) @
     '' => '' @ fmt_expr fx 0 indent body @ '','' @ [CHR 10]"
| "fmt_block fx indent (IBlock _ stmts tail_expr _) =
     ''{'' @ [CHR 10] @ fmt_stmts fx (indent + 4) stmts @
     (case tail_expr of
        Some t \<Rightarrow> spaces (indent + 4) @ fmt_expr fx 0 (indent + 4) t @ [CHR 10]
      | None \<Rightarrow> []) @ spaces indent @ ''}''"
| "fmt_stmts fx indent [] = []"
| "fmt_stmts fx indent (s # ss) =
     spaces indent @
     (case tuple_let_group_of s ss of
        Some g \<Rightarrow>
          ''let '' @ render_tuple_pattern (tlg_bindings g) 0 @
          (case tlg_ty g of Some ty \<Rightarrow> '': '' @ display_type fx ty | None \<Rightarrow> []) @ '' = '' @
          fmt_expr fx 0 indent (tlg_expr g) @ '';'' @ [CHR 10] @
          fmt_stmts fx indent (drop (length (tlg_bindings g)) ss)
      | None \<Rightarrow> fmt_stmt fx indent s @ [CHR 10] @ fmt_stmts fx indent ss)"
| "fmt_stmt fx indent (ILet _ name mutable ty e _) =
     ''let '' @ (if mutable then ''mut '' else []) @ name @
     (case ty of Some t \<Rightarrow> '': '' @ display_type fx t | None \<Rightarrow> []) @ '' = '' @
     fmt_expr fx 0 indent e @ '';''"
| "fmt_stmt fx indent (IAssign target e _) = target @ '' = '' @ fmt_expr fx 0 indent e @ '';''"
| "fmt_stmt fx indent (IExprStmt e _) = fmt_expr fx 0 indent e @ '';''"
| "fmt_stmt fx indent (IReturnStmt v _) =
     ''return'' @ (case v of Some x \<Rightarrow> '' '' @ fmt_expr fx 0 indent x | None \<Rightarrow> []) @ '';''"
| "fmt_stmt fx indent (IAssert e message _) =
     ''assert '' @ fmt_expr fx 0 indent e @ ''; // '' @ message"
  by pat_completeness auto
termination
  by (relation "measure (\<lambda>x. case x of
      Inl (Inl (_, _, _, e)) \<Rightarrow> size e
    | Inl (Inr (Inl (_, _, _, _, args))) \<Rightarrow> size_list size args
    | Inl (Inr (Inr (_, _, arm))) \<Rightarrow> size arm
    | Inr (Inl (_, _, b)) \<Rightarrow> size b
    | Inr (Inr (Inl (_, _, ss))) \<Rightarrow> size_list size ss
    | Inr (Inr (Inr (_, _, s))) \<Rightarrow> size s)")
    (auto simp: less_Suc_eq_le size_rest_stmts dest!: kind_size for_syntax_sizes else_if_size tuple_group_size field_size
    tuple_item_size member_size arg_size)

declare fmt_expr.simps [simp del]

section \<open>Items\<close>

definition format_generic_params :: "ir_generic_param list \<Rightarrow> string" where
  "format_generic_params generics =
     (if generics = [] then []
      else ''['' @ join_with '', '' (map (\<lambda>g.
          if igp_bounds g = [] then igp_name g
          else igp_name g @ '': '' @ join_with '' + '' (igp_bounds g)) generics) @ '']'')"

definition sorted_unique :: "string list \<Rightarrow> string list" where
  "sorted_unique items = remdups_adj (sort items)"

definition fmt_param :: "fmt_ctx \<Rightarrow> ir_param \<Rightarrow> string" where
  "fmt_param fx p =
     (if ip_attrs p = [] then [] else format_attributes_inline (ip_attrs p)) @
     ip_name p @ '': '' @ display_type fx (ip_ty p)"

definition fmt_params :: "fmt_ctx \<Rightarrow> ir_param list \<Rightarrow> string" where
  "fmt_params fx ps = join_with '', '' (map (fmt_param fx) ps)"

definition effects_and_capabilities :: "ir_function \<Rightarrow> string" where
  "effects_and_capabilities f =
     (if if_effects f \<noteq> [] then '' effects { '' @ join_with '', '' (sorted_unique (if_effects f)) @ '' }''
      else []) @
     (if if_capabilities f \<noteq> []
      then '' capabilities { '' @ join_with '', '' (sorted_unique (if_capabilities f)) @ '' }'' else [])"

text \<open>The name, the generics, the parameters and the return type.\<close>

definition fmt_head :: "fmt_ctx \<Rightarrow> string \<Rightarrow> ir_function \<Rightarrow> string" where
  "fmt_head fx name f =
     name @ format_generic_params (if_generics f) @ ''('' @ fmt_params fx (if_params f) @ '') -> '' @
     display_type fx (if_ret_type f)"

definition fmt_signature :: "fmt_ctx \<Rightarrow> ir_function \<Rightarrow> string \<Rightarrow> string" where
  "fmt_signature fx f name =
     (if if_is_async f then ''async '' else []) @ (if if_is_unsafe f then ''unsafe '' else []) @
     ''fn '' @ fmt_head fx name f @ effects_and_capabilities f @
     (case if_requires f of Some e \<Rightarrow> '' requires '' @ fmt_expr fx 0 0 e | None \<Rightarrow> []) @
     (case if_ensures f of Some e \<Rightarrow> '' ensures '' @ fmt_expr fx 0 0 e | None \<Rightarrow> [])"

text \<open>Attributes, each on a line of its own.\<close>

definition fmt_attributes :: "nat \<Rightarrow> attribute list \<Rightarrow> string" where
  "fmt_attributes indent attrs =
     concat (map (\<lambda>a. spaces indent @ format_single_attribute a @ [CHR 10]) attrs)"

definition fmt_function :: "fmt_ctx \<Rightarrow> ir_function \<Rightarrow> string" where
  "fmt_function fx f =
     fmt_attributes 0 (if_attrs f) @
     (case decode_internal_type_alias (if_name f) of
        Some name \<Rightarrow>
          ''type '' @ name @ format_generic_params (if_generics f) @ '' = '' @
          display_type fx (if_ret_type f) @ '';''
      | None \<Rightarrow>
          (case decode_internal_const (if_name f) of
             Some name \<Rightarrow>
               ''const '' @ name @ '': '' @ display_type fx (if_ret_type f) @ '' = '' @
               (case ib_tail (if_body f) of Some e \<Rightarrow> fmt_expr fx 0 0 e | None \<Rightarrow> ''()'') @ '';''
           | None \<Rightarrow>
               visibility_prefix (if_visibility f) @
               (if if_is_extern f then
                  ''extern '' @ [CHR 34] @
                  (case if_extern_abi f of Some abi \<Rightarrow> abi | None \<Rightarrow> ''C'') @ [CHR 34] @ '' fn '' @
                  fmt_head fx (if_name f) f @ '';''
                else if if_is_intrinsic f then
                  ''intrinsic fn '' @ fmt_head fx (if_name f) f @ effects_and_capabilities f @ '';''
                else fmt_signature fx f (if_name f) @ '' '' @ fmt_block fx 0 (if_body f)))) @ [CHR 10]"

definition method_name :: "ir_function \<Rightarrow> string" where
  "method_name m = last_segment (if_name m)"

definition fmt_field :: "fmt_ctx \<Rightarrow> ir_field \<Rightarrow> string" where
  "fmt_field fx f =
     fmt_attributes 4 (ifd_attrs f) @ spaces 4 @ visibility_prefix (ifd_visibility f) @ ifd_name f @
     '': '' @ display_type fx (ifd_ty f) @
     (case ifd_default_value f of Some e \<Rightarrow> '' = '' @ fmt_expr fx 0 4 e | None \<Rightarrow> []) @ '','' @ [CHR 10]"

definition fmt_struct_def :: "fmt_ctx \<Rightarrow> ir_struct_def \<Rightarrow> string" where
  "fmt_struct_def fx s =
     fmt_attributes 0 (isd_attrs s) @ visibility_prefix (isd_visibility s) @ ''struct '' @ isd_name s @
     format_generic_params (isd_generics s) @ '' {'' @ [CHR 10] @
     concat (map (fmt_field fx) (isd_fields s)) @ ''}'' @
     (case isd_invariant s of Some e \<Rightarrow> '' invariant '' @ fmt_expr fx 0 0 e | None \<Rightarrow> []) @ [CHR 10]"

definition fmt_variant :: "fmt_ctx \<Rightarrow> ir_variant_def \<Rightarrow> string" where
  "fmt_variant fx v =
     fmt_attributes 4 (ivd_attrs v) @ spaces 4 @ ivd_name v @
     (case ivd_payload v of Some ty \<Rightarrow> ''('' @ display_type fx ty @ '')'' | None \<Rightarrow> []) @ '','' @ [CHR 10]"

definition fmt_enum_def :: "fmt_ctx \<Rightarrow> ir_enum_def \<Rightarrow> string" where
  "fmt_enum_def fx e =
     fmt_attributes 0 (ied_attrs e) @ visibility_prefix (ied_visibility e) @ ''enum '' @ ied_name e @
     format_generic_params (ied_generics e) @ '' {'' @ [CHR 10] @
     concat (map (fmt_variant fx) (ied_variants e)) @ ''}'' @ [CHR 10]"

definition fmt_trait_method :: "fmt_ctx \<Rightarrow> ir_function \<Rightarrow> string" where
  "fmt_trait_method fx m =
     fmt_attributes 4 (if_attrs m) @ spaces 4 @ visibility_prefix (if_visibility m) @
     fmt_signature fx m (method_name m) @ '';'' @ [CHR 10]"

definition fmt_trait_def :: "fmt_ctx \<Rightarrow> ir_trait_def \<Rightarrow> string" where
  "fmt_trait_def fx t =
     fmt_attributes 0 (itd_attrs t) @ visibility_prefix (itd_visibility t) @ ''trait '' @ itd_name t @
     format_generic_params (itd_generics t) @
     (if itd_methods t = [] then '';'' @ [CHR 10]
      else '' {'' @ [CHR 10] @ concat (map (fmt_trait_method fx) (itd_methods t)) @ ''}'' @ [CHR 10])"

definition fmt_impl_method :: "fmt_ctx \<Rightarrow> ir_function \<Rightarrow> string" where
  "fmt_impl_method fx m =
     fmt_attributes 4 (if_attrs m) @ spaces 4 @ visibility_prefix (if_visibility m) @
     fmt_signature fx m (method_name m) @ '' '' @ fmt_block fx 4 (if_body m) @ [CHR 10]"

definition fmt_impl_def :: "fmt_ctx \<Rightarrow> ir_impl_def \<Rightarrow> string" where
  "fmt_impl_def fx i =
     fmt_attributes 0 (iid_attrs i) @ visibility_prefix (iid_visibility i) @ ''impl '' @
     (if iid_is_inherent i then
        (case iid_target i of Some ty \<Rightarrow> display_type fx ty | None \<Rightarrow> iid_trait_name i)
      else iid_trait_name i @
        (if iid_trait_args i \<noteq> []
         then ''['' @ join_with '', '' (map (display_type fx) (iid_trait_args i)) @ '']'' else [])) @
     (if \<not> iid_is_inherent i \<and> iid_methods i = [] then '';'' @ [CHR 10]
      else '' {'' @ [CHR 10] @ concat (map (fmt_impl_method fx) (iid_methods i)) @ ''}'' @ [CHR 10])"

section \<open>Programs\<close>

text \<open>The function \<open>Name::default()\<close> that the IR builder adds for a struct whose fields have defaults.\<close>

definition strip_suffix :: "string \<Rightarrow> string \<Rightarrow> string option" where
  "strip_suffix p s = (if ends_with s p then Some (take (length s - length p) s) else None)"

definition is_synthesized_struct_default :: "ir_function \<Rightarrow> ir_program \<Rightarrow> bool" where
  "is_synthesized_struct_default f p =
     (case strip_suffix ''::default'' (if_name f) of
        None \<Rightarrow> False
      | Some struct_name \<Rightarrow>
          ib_stmts (if_body f) = [] \<and>
          (case ib_tail (if_body f) of Some t \<Rightarrow> ie_kind t = IStructInit struct_name [] | None \<Rightarrow> False) \<and>
          list_ex (\<lambda>it. case it of
              IStruct s \<Rightarrow>
                isd_name s = struct_name \<and> isd_span s = if_span f \<and>
                list_all (\<lambda>fd. ifd_default_value fd \<noteq> None) (isd_fields s)
            | _ \<Rightarrow> False) (irp_items p))"

definition fmt_import :: "string list \<Rightarrow> string" where
  "fmt_import path = ''import '' @ join_with ''.'' path @ '';'' @ [CHR 10]"

definition fmt_imports :: "string list list \<Rightarrow> string" where
  "fmt_imports imports =
     (if imports = [] then []
      else concat (map snd (sort_key fst (map (\<lambda>i. (i, fmt_import i)) imports))) @ [CHR 10])"

fun fmt_item :: "fmt_ctx \<Rightarrow> ir_item \<Rightarrow> string" where
  "fmt_item fx (IFunction f) = fmt_function fx f"
| "fmt_item fx (IStruct s) = fmt_struct_def fx s"
| "fmt_item fx (IEnum e) = fmt_enum_def fx e"
| "fmt_item fx (ITrait t) = fmt_trait_def fx t"
| "fmt_item fx (IImpl i) = fmt_impl_def fx i"

definition is_printed :: "ir_program \<Rightarrow> ir_item \<Rightarrow> bool" where
  "is_printed p it = (case it of IFunction f \<Rightarrow> \<not> is_synthesized_struct_default f p | _ \<Rightarrow> True)"

definition type_map :: "ir_program \<Rightarrow> type_id \<Rightarrow> string option" where
  "type_map p = map_of (bt_collect (map (\<lambda>t. (tdef_id t, tdef_repr t)) (irp_types p)))"

definition new_printer :: "(rchar \<Rightarrow> string) \<Rightarrow> (f64 \<Rightarrow> string) \<Rightarrow> ir_program \<Rightarrow> fmt_ctx" where
  "new_printer debug_char float_text p =
     \<lparr>fx_type = type_map p, fx_debug_char = debug_char, fx_float_text = float_text\<rparr>"

definition fmt_program :: "fmt_ctx \<Rightarrow> ir_program \<Rightarrow> string" where
  "fmt_program fx p =
     (case irp_module p of
        Some path \<Rightarrow> ''module '' @ join_with ''.'' path @ '';'' @ [CHR 10, CHR 10]
      | None \<Rightarrow> []) @
     fmt_imports (irp_imports p) @
     join_with [CHR 10] (map (fmt_item fx) (filter (is_printed p) (irp_items p)))"

definition format_program :: "(rchar \<Rightarrow> string) \<Rightarrow> (f64 \<Rightarrow> string) \<Rightarrow> ir_program \<Rightarrow> string" where
  "format_program debug_char float_text p = fmt_program (new_printer debug_char float_text p) p"

end
