(* ===== verification/Sessions.thy ===== *)
theory Sessions
  imports ParserTemplates "HOL-Library.Option_ord" "HOL-Library.Product_Lexorder"
begin

text \<open>
  Sessions of agents and their leases on symbols: the state of \<open>src/session.rs\<close> and the commands
  \<open>create\<close>, \<open>list\<close>, \<open>lock acquire\<close> and \<open>lock release\<close>. The state lives in one JSON file; a file is
  absent, unreadable, not decodable, or holds a value, and what \<open>write_state\<close> stores is what
  \<open>load_state\<close> reads back (the round trip of serde). Time is a 64 bit count of milliseconds that the
  caller passes in; \<open>+\<close> wraps on it, as it does in a release build. The outcome of the calls of the
  operating system (creating the directory, taking the file lock, writing) is an argument.
\<close>

type_synonym u64 = "64 word"

text \<open>\<open>anyhow::Result\<close>: an error is its message.\<close>

type_synonym 'a outcome = "string + 'a"

fun and_then :: "'e + 'a \<Rightarrow> ('a \<Rightarrow> 'e + 'b) \<Rightarrow> 'e + 'b" where
  "and_then (Inl e) f = Inl e"
| "and_then (Inr x) f = f x"

fun collect_results :: "('a \<Rightarrow> 'e + 'b) \<Rightarrow> 'a list \<Rightarrow> 'e + 'b list" where
  "collect_results f [] = Inr []"
| "collect_results f (x # xs) =
     and_then (f x) (\<lambda>y. and_then (collect_results f xs) (\<lambda>ys. Inr (y # ys)))"

section \<open>Paths\<close>

text \<open>
  Paths of Unix as strings. Resolving symbolic links (\<open>machine_paths::canonical_machine_path_buf\<close>)
  asks the file system and is the argument \<open>canonical\<close>.
\<close>

definition path_is_absolute :: "string \<Rightarrow> bool" where
  "path_is_absolute p = starts_with p ''/''"

definition path_join :: "string \<Rightarrow> string \<Rightarrow> string" where
  "path_join a b =
     (if path_is_absolute b then b
      else if a = [] \<or> ends_with a ''/'' then a @ b
      else a @ ''/'' @ b)"

text \<open>The components of a canonical path.\<close>

definition path_parts :: "string \<Rightarrow> string list" where
  "path_parts p = (if path_is_absolute p then [''/''] else []) @ filter (\<lambda>s. s \<noteq> [] \<and> s \<noteq> ''.'') (split_on CHR ''/'' p)"

definition strip_path_prefix :: "string \<Rightarrow> string \<Rightarrow> string option" where
  "strip_path_prefix base p =
     (if take (length (path_parts base)) (path_parts p) = path_parts base
      then Some (join_with ''/'' (drop (length (path_parts base)) (path_parts p)))
      else None)"

definition normalize_separators :: "string \<Rightarrow> string" where
  "normalize_separators raw = map (\<lambda>c. if c = CHR 0x5C then CHR ''/'' else c) raw"

definition canonical_machine_path :: "(string \<Rightarrow> string) \<Rightarrow> string \<Rightarrow> string" where
  "canonical_machine_path canonical p = normalize_separators (canonical p)"

definition resolve_support_path :: "string \<Rightarrow> string \<Rightarrow> string" where
  "resolve_support_path project_root raw =
     (if path_is_absolute raw then raw else path_join project_root raw)"

definition relativize_path :: "(string \<Rightarrow> string) \<Rightarrow> string \<Rightarrow> string \<Rightarrow> string" where
  "relativize_path canonical project_root p =
     (case strip_path_prefix (canonical project_root) (canonical p) of
        Some relative \<Rightarrow> normalize_separators relative
      | None \<Rightarrow> canonical_machine_path canonical (canonical p))"

definition display_path :: "(string \<Rightarrow> string) \<Rightarrow> string \<Rightarrow> string" where
  "display_path canonical p = canonical_machine_path canonical p"

section \<open>Symbols\<close>

datatype query_symbol_kind =
    SymFunction | SymStruct | SymEnum | SymVariant | SymTrait | SymImpl | SymModule

fun query_symbol_kind_as_str :: "query_symbol_kind \<Rightarrow> string" where
  "query_symbol_kind_as_str SymFunction = ''function''"
| "query_symbol_kind_as_str SymStruct = ''struct''"
| "query_symbol_kind_as_str SymEnum = ''enum''"
| "query_symbol_kind_as_str SymVariant = ''variant''"
| "query_symbol_kind_as_str SymTrait = ''trait''"
| "query_symbol_kind_as_str SymImpl = ''impl''"
| "query_symbol_kind_as_str SymModule = ''module''"

record symbol_contracts =
  sc_requires :: "string option"
  sc_ensures :: "string option"
  sc_invariant :: "string option"

record symbol_location =
  sloc_file :: string
  sloc_line :: nat
  sloc_column :: nat
  sloc_span_start :: nat
  sloc_span_end :: nat

record symbol_record =
  srec_name :: string
  srec_kind :: query_symbol_kind
  srec_signature :: string
  srec_module :: "string option"
  srec_location :: symbol_location
  srec_effects :: "string list"
  srec_contracts :: symbol_contracts
  srec_capabilities :: "string list"
  srec_generics :: "string list"
  srec_requires :: "string option"
  srec_ensures :: "string option"
  srec_invariant :: "string option"
  srec_container :: "string option"

record session_symbol =
  ss_key :: string
  ss_kind :: string
  ss_name :: string
  ss_module :: "string option"
  ss_file :: "string option"
  ss_span_start :: "nat option"
  ss_span_end :: "nat option"
  ss_synthetic :: bool

definition or_root :: "string option \<Rightarrow> string" where
  "or_root m = (case m of Some name \<Rightarrow> name | None \<Rightarrow> ''<root>'')"

definition symbol_to_session_symbol ::
  "(string \<Rightarrow> string) \<Rightarrow> string \<Rightarrow> symbol_record \<Rightarrow> session_symbol" where
  "symbol_to_session_symbol canonical project_root s =
     (let file_name = relativize_path canonical project_root (sloc_file (srec_location s)) in
      \<lparr>ss_key = query_symbol_kind_as_str (srec_kind s) @ '':'' @ or_root (srec_module s) @ '':'' @ srec_name s @
         '':'' @ file_name @ '':'' @ nat_str (sloc_span_start (srec_location s)),
       ss_kind = query_symbol_kind_as_str (srec_kind s), ss_name = srec_name s, ss_module = srec_module s,
       ss_file = Some file_name, ss_span_start = Some (sloc_span_start (srec_location s)),
       ss_span_end = Some (sloc_span_end (srec_location s)), ss_synthetic = False\<rparr>)"

subsection \<open>The selector of a command line\<close>

record target_selector =
  ts_kind :: "query_symbol_kind option"
  ts_name :: string
  ts_module :: "string option"

definition parse_kind_label :: "string \<Rightarrow> query_symbol_kind option" where
  "parse_kind_label raw =
     map_of [(''function'', SymFunction), (''fn'', SymFunction), (''struct'', SymStruct),
       (''enum'', SymEnum), (''variant'', SymVariant), (''trait'', SymTrait), (''impl'', SymImpl),
       (''module'', SymModule)] (to_ascii_lowercase (str_trim raw))"

definition split_module_and_name :: "string \<Rightarrow> string option \<times> string" where
  "split_module_and_name raw =
     (case rsplit_once CHR ''.'' raw of
        Some (module, name) \<Rightarrow>
          if str_trim module \<noteq> [] \<and> str_trim name \<noteq> [] then (Some (str_trim module), str_trim name)
          else (None, str_trim raw)
      | None \<Rightarrow> (None, str_trim raw))"

definition parse_target_selector :: "string list \<Rightarrow> target_selector outcome" where
  "parse_target_selector tokens =
     (if tokens = [] then Inl ''--for requires a target selector''
      else let parts = split_whitespace (join_with '' '' tokens) in
        if parts = [] then Inl ''--for requires a non-empty target selector''
        else
          let kind = parse_kind_label (hd parts) in
          if kind \<noteq> None \<and> length parts < 2
          then Inl (''--for requires a symbol name after '' @ in_backticks (hd parts))
          else
            let raw_name = str_trim (join_with '' '' (if kind = None then parts else tl parts)) in
            if raw_name = [] then Inl ''--for requires a non-empty symbol name''
            else let (module, name) = split_module_and_name raw_name in
              Inr \<lparr>ts_kind = kind, ts_name = name, ts_module = module\<rparr>)"

definition matches_selector :: "target_selector \<Rightarrow> symbol_record \<Rightarrow> bool" where
  "matches_selector sel s =
     (srec_name s = ts_name sel \<and>
      (case ts_kind sel of None \<Rightarrow> True | Some k \<Rightarrow> srec_kind s = k) \<and>
      (case ts_module sel of None \<Rightarrow> True | Some m \<Rightarrow> srec_module s = Some m))"

definition select_cli_target ::
  "(string \<Rightarrow> string) \<Rightarrow> string \<Rightarrow> symbol_record list \<Rightarrow> target_selector \<Rightarrow> session_symbol outcome" where
  "select_cli_target canonical project_root symbols sel =
     (case sort_key (\<lambda>s. (query_symbol_kind_as_str (srec_kind s), srec_module s, sloc_file (srec_location s),
         sloc_span_start (srec_location s))) (filter (matches_selector sel) symbols) of
        [] \<Rightarrow> Inl (''unknown session target '' @ in_backticks (ts_name sel))
      | [s] \<Rightarrow> Inr (symbol_to_session_symbol canonical project_root s)
      | many \<Rightarrow> Inl (''ambiguous session target '' @ in_backticks (ts_name sel) @ ''; choose one of: '' @
          join_with '', '' (map (\<lambda>s. query_symbol_kind_as_str (srec_kind s) @ '' '' @ srec_name s @ '' ('' @
            or_root (srec_module s) @ '')'') many)))"

text \<open>
  What a command sees of the project: its root, the symbols that \<open>symbol_query::list_symbols\<close> finds
  there, and the resolution of paths.
\<close>

record session_env =
  env_canonical :: "string \<Rightarrow> string"
  env_project_root :: string
  env_symbols :: "symbol_record list outcome"

definition env_root :: "session_env \<Rightarrow> string" where
  "env_root env = env_canonical env (env_project_root env)"

definition resolve_cli_target :: "session_env \<Rightarrow> string list \<Rightarrow> session_symbol outcome" where
  "resolve_cli_target env tokens =
     and_then (parse_target_selector tokens) (\<lambda>sel.
     and_then (env_symbols env) (\<lambda>symbols.
       select_cli_target (env_canonical env) (env_root env) symbols sel))"

section \<open>The stored state\<close>

record stored_session =
  st_id :: string
  st_label :: "string option"
  st_created_ms :: u64

record stored_lock =
  lk_session_id :: string
  lk_operation_id :: "string option"
  lk_acquired_ms :: u64
  lk_expires_ms :: u64
  lk_target :: session_symbol

record session_state =
  ses_schema_version :: nat
  ses_next_session_seq :: u64
  ses_sessions :: "stored_session list"
  ses_locks :: "stored_lock list"

definition SESSION_SCHEMA_VERSION :: nat where
  "SESSION_SCHEMA_VERSION = 1"

definition default_next_session_seq :: u64 where
  "default_next_session_seq = 1"

definition DEFAULT_LEASE_MS :: u64 where
  "DEFAULT_LEASE_MS = 30000"

abbreviation lk_key :: "stored_lock \<Rightarrow> string" where
  "lk_key l \<equiv> ss_key (lk_target l)"

definition sort_locks :: "stored_lock list \<Rightarrow> stored_lock list" where
  "sort_locks = sort_key (\<lambda>l. (lk_key l, lk_session_id l, lk_operation_id l))"

definition lock_is_expired :: "stored_lock \<Rightarrow> u64 \<Rightarrow> bool" where
  "lock_is_expired l now_ms = (lk_expires_ms l \<le> now_ms)"

record session_lock_view =
  lv_session_id :: string
  lv_operation_id :: "string option"
  lv_acquired_ms :: u64
  lv_expires_ms :: u64
  lv_expired :: bool
  lv_target :: session_symbol

definition lock_view :: "stored_lock \<Rightarrow> u64 \<Rightarrow> session_lock_view" where
  "lock_view l now_ms =
     \<lparr>lv_session_id = lk_session_id l, lv_operation_id = lk_operation_id l,
      lv_acquired_ms = lk_acquired_ms l, lv_expires_ms = lk_expires_ms l,
      lv_expired = lock_is_expired l now_ms, lv_target = lk_target l\<rparr>"

definition ensure_session_exists :: "session_state \<Rightarrow> string \<Rightarrow> unit outcome" where
  "ensure_session_exists st session_id =
     (if list_ex (\<lambda>s. st_id s = session_id) (ses_sessions st) then Inr ()
      else Inl (''unknown session '' @ in_backticks session_id))"

section \<open>The state file\<close>

definition sessions_root :: "string \<Rightarrow> string" where
  "sessions_root project_root = path_join project_root ''.aic-sessions''"

definition state_path :: "string \<Rightarrow> string" where
  "state_path project_root = path_join (sessions_root project_root) ''state.json''"

datatype 'a file_content = Absent | Unreadable string | Undecodable string | Stored 'a

record session_io =
  io_create_dir_error :: "string option"
  io_state_lock_error :: "string option"
  io_write_error :: "string option"

definition empty_state :: session_state where
  "empty_state =
     \<lparr>ses_schema_version = SESSION_SCHEMA_VERSION, ses_next_session_seq = default_next_session_seq,
      ses_sessions = [], ses_locks = []\<rparr>"

definition load_state :: "string \<Rightarrow> session_state file_content \<Rightarrow> session_state outcome" where
  "load_state project_root content =
     (case content of
        Absent \<Rightarrow> Inr empty_state
      | Unreadable _ \<Rightarrow> Inl (''failed to read '' @ state_path project_root)
      | Undecodable _ \<Rightarrow> Inl (''failed to parse '' @ state_path project_root)
      | Stored st \<Rightarrow>
          if ses_schema_version st \<noteq> SESSION_SCHEMA_VERSION
          then Inl (''unsupported session state schema version '' @ nat_str (ses_schema_version st) @
            '' in '' @ state_path project_root)
          else Inr (st\<lparr>ses_sessions := sort_key st_id (ses_sessions st), ses_locks := sort_locks (ses_locks st)\<rparr>))"

definition with_error :: "string option \<Rightarrow> unit outcome" where
  "with_error e = (case e of Some msg \<Rightarrow> Inl msg | None \<Rightarrow> Inr ())"

text \<open>The operation runs on the loaded state under the file lock; an error leaves the file alone.\<close>

definition with_state_mut ::
  "session_io \<Rightarrow> string \<Rightarrow> (session_state \<Rightarrow> ('r \<times> session_state) outcome) \<Rightarrow>
     session_state file_content \<Rightarrow> 'r outcome \<times> session_state file_content" where
  "with_state_mut io project_root op content =
     (case and_then (with_error (io_create_dir_error io)) (\<lambda>_.
           and_then (with_error (io_state_lock_error io)) (\<lambda>_.
           and_then (load_state project_root content) op)) of
        Inl e \<Rightarrow> (Inl e, content)
      | Inr (r, st) \<Rightarrow>
          (case io_write_error io of
             Some e \<Rightarrow> (Inl e, content)
           | None \<Rightarrow> (Inr r, Stored st)))"

section \<open>The commands\<close>

definition CLI_CONTRACT_VERSION :: string where
  "CLI_CONTRACT_VERSION = ''1.0''"

definition SESSION_PHASE :: string where
  "SESSION_PHASE = ''session''"

record session_summary =
  sum_id :: string
  sum_label :: "string option"
  sum_created_ms :: u64
  sum_active_locks :: nat

record session_create_response =
  scr_protocol_version :: string
  scr_phase :: string
  scr_command :: string
  scr_session :: session_summary

text \<open>\<open>{:04}\<close>\<close>

definition pad4 :: "string \<Rightarrow> string" where
  "pad4 s = replicate (4 - length s) CHR ''0'' @ s"

definition session_id_of :: "u64 \<Rightarrow> string" where
  "session_id_of seq = ''sess-'' @ pad4 (nat_str (unat seq))"

definition non_empty :: "string option \<Rightarrow> string option" where
  "non_empty s = (case s of Some t \<Rightarrow> if str_trim t = [] then None else Some (str_trim t) | None \<Rightarrow> None)"

definition create_in ::
  "string option \<Rightarrow> u64 \<Rightarrow> session_state \<Rightarrow> (session_create_response \<times> session_state) outcome" where
  "create_in label now_ms st =
     (let ident = session_id_of (ses_next_session_seq st) in
      Inr (\<lparr>scr_protocol_version = CLI_CONTRACT_VERSION, scr_phase = SESSION_PHASE,
            scr_command = ''create'',
            scr_session = \<lparr>sum_id = ident, sum_label = label, sum_created_ms = now_ms,
              sum_active_locks = 0\<rparr>\<rparr>,
           st\<lparr>ses_next_session_seq := ses_next_session_seq st + 1,
              ses_sessions := sort_key st_id (ses_sessions st @
                [\<lparr>st_id = ident, st_label = label, st_created_ms = now_ms\<rparr>])\<rparr>))"

definition create_session ::
  "session_env \<Rightarrow> session_io \<Rightarrow> string option \<Rightarrow> u64 \<Rightarrow> session_state file_content \<Rightarrow>
     session_create_response outcome \<times> session_state file_content" where
  "create_session env io label now_ms =
     with_state_mut io (env_root env) (create_in (non_empty label) now_ms)"

record session_list_response =
  slist_protocol_version :: string
  slist_phase :: string
  slist_command :: string
  slist_sessions :: "session_summary list"
  slist_locks :: "session_lock_view list"

definition active_locks :: "session_state \<Rightarrow> string \<Rightarrow> u64 \<Rightarrow> nat" where
  "active_locks st session_id now_ms =
     length (filter (\<lambda>l. lk_session_id l = session_id \<and> \<not> lock_is_expired l now_ms) (ses_locks st))"

definition list_sessions ::
  "session_env \<Rightarrow> u64 \<Rightarrow> session_state file_content \<Rightarrow> session_list_response outcome" where
  "list_sessions env now_ms content =
     and_then (load_state (env_root env) content) (\<lambda>st. Inr
       \<lparr>slist_protocol_version = CLI_CONTRACT_VERSION, slist_phase = SESSION_PHASE,
        slist_command = ''list'',
        slist_sessions = map (\<lambda>s. \<lparr>sum_id = st_id s, sum_label = st_label s,
          sum_created_ms = st_created_ms s, sum_active_locks = active_locks st (st_id s) now_ms\<rparr>)
          (ses_sessions st),
        slist_locks = sort_key (\<lambda>v. (ss_key (lv_target v), lv_session_id v, lv_operation_id v))
          (map (\<lambda>l. lock_view l now_ms) (ses_locks st))\<rparr>)"

record session_lock_response =
  slr_protocol_version :: string
  slr_phase :: string
  slr_command :: string
  slr_action :: string
  slr_ok :: bool
  slr_session_id :: string
  slr_target :: session_symbol
  slr_lock :: "session_lock_view option"
  slr_denied_by :: "string option"
  slr_reclaimed_from :: "string option"
  slr_message :: string

definition lock_response ::
  "string \<Rightarrow> bool \<Rightarrow> string \<Rightarrow> session_symbol \<Rightarrow> session_lock_view option \<Rightarrow> string option \<Rightarrow>
     string option \<Rightarrow> string \<Rightarrow> session_lock_response" where
  "lock_response action ok session_id target lock denied_by reclaimed_from message =
     \<lparr>slr_protocol_version = CLI_CONTRACT_VERSION, slr_phase = SESSION_PHASE, slr_command = ''lock'',
      slr_action = action, slr_ok = ok, slr_session_id = session_id, slr_target = target,
      slr_lock = lock, slr_denied_by = denied_by, slr_reclaimed_from = reclaimed_from,
      slr_message = message\<rparr>"

text \<open>\<open>iter().position(..)\<close> with the element found.\<close>

fun find_index :: "('a \<Rightarrow> bool) \<Rightarrow> 'a list \<Rightarrow> (nat \<times> 'a) option" where
  "find_index P [] = None"
| "find_index P (x # xs) =
     (if P x then Some (0, x) else map_option (\<lambda>(i, y). (Suc i, y)) (find_index P xs))"

definition remove_at :: "nat \<Rightarrow> 'a list \<Rightarrow> 'a list" where
  "remove_at i xs = take i xs @ drop (Suc i) xs"

definition acquire_in ::
  "string \<Rightarrow> session_symbol \<Rightarrow> u64 \<Rightarrow> string option \<Rightarrow> u64 \<Rightarrow> session_state \<Rightarrow>
     (session_lock_response \<times> session_state) outcome" where
  "acquire_in session_id target lease_ms operation_id now_ms st =
     and_then (ensure_session_exists st session_id) (\<lambda>_.
       let stored = \<lparr>lk_session_id = session_id, lk_operation_id = operation_id,
             lk_acquired_ms = now_ms, lk_expires_ms = now_ms + lease_ms, lk_target = target\<rparr>;
           store = (\<lambda>reclaimed locks.
             Inr (lock_response ''acquire'' True session_id target (Some (lock_view stored now_ms))
                    None reclaimed
                    (case reclaimed of
                       Some previous \<Rightarrow> ''lock acquired after reclaiming expired lease from '' @ previous
                     | None \<Rightarrow> ''lock acquired''),
                  st\<lparr>ses_locks := sort_locks (locks @ [stored])\<rparr>))
       in case find_index (\<lambda>l. lk_key l = ss_key target) (ses_locks st) of
            None \<Rightarrow> store None (ses_locks st)
          | Some (index, existing) \<Rightarrow>
              if \<not> lock_is_expired existing now_ms \<and> lk_session_id existing \<noteq> session_id
              then Inr (lock_response ''acquire'' False session_id target
                (Some (lock_view existing now_ms)) (Some (lk_session_id existing)) None
                (''lock denied: '' @ ss_key target @ '' is already held by '' @ lk_session_id existing @
                 '' until '' @ nat_str (unat (lk_expires_ms existing))), st)
              else store (if lk_session_id existing \<noteq> session_id then Some (lk_session_id existing) else None)
                (remove_at index (ses_locks st)))"

definition acquire_lock ::
  "session_env \<Rightarrow> session_io \<Rightarrow> string \<Rightarrow> string list \<Rightarrow> u64 \<Rightarrow>
     string option \<Rightarrow> u64 \<Rightarrow> session_state file_content \<Rightarrow>
     session_lock_response outcome \<times> session_state file_content" where
  "acquire_lock env io session_id target_tokens lease_ms operation_id now_ms content =
     (if lease_ms = 0 then (Inl ''--lease-ms must be greater than 0'', content)
      else if str_trim session_id = [] then (Inl ''session id must not be empty'', content)
      else case resolve_cli_target env target_tokens of
        Inl e \<Rightarrow> (Inl e, content)
      | Inr target \<Rightarrow>
          with_state_mut io (env_root env)
            (acquire_in (str_trim session_id) target lease_ms (non_empty operation_id) now_ms) content)"

definition release_in ::
  "string \<Rightarrow> session_symbol \<Rightarrow> u64 \<Rightarrow> session_state \<Rightarrow> (session_lock_response \<times> session_state) outcome" where
  "release_in session_id target now_ms st =
     and_then (ensure_session_exists st session_id) (\<lambda>_.
       case find_index (\<lambda>l. lk_key l = ss_key target) (ses_locks st) of
         None \<Rightarrow>
           Inr (lock_response ''release'' False session_id target None None None
             (''no lock is recorded for '' @ ss_key target), st)
       | Some (index, existing) \<Rightarrow>
           if lk_session_id existing \<noteq> session_id
           then Inr (lock_response ''release'' False session_id target
             (Some (lock_view existing now_ms)) (Some (lk_session_id existing)) None
             (''lock release denied: '' @ ss_key target @ '' is owned by '' @ lk_session_id existing), st)
           else Inr (lock_response ''release'' True session_id target
             (Some (lock_view existing now_ms)) None None ''lock released'',
             st\<lparr>ses_locks := remove_at index (ses_locks st)\<rparr>))"

definition release_lock ::
  "session_env \<Rightarrow> session_io \<Rightarrow> string \<Rightarrow> string list \<Rightarrow> u64 \<Rightarrow>
     session_state file_content \<Rightarrow> session_lock_response outcome \<times> session_state file_content" where
  "release_lock env io session_id target_tokens now_ms content =
     (if str_trim session_id = [] then (Inl ''session id must not be empty'', content)
      else case resolve_cli_target env target_tokens of
        Inl e \<Rightarrow> (Inl e, content)
      | Inr target \<Rightarrow>
          with_state_mut io (env_root env) (release_in (str_trim session_id) target now_ms) content)"

end
