(* ===== verification/SessionLeases.thy ===== *)
theory SessionLeases
  imports Sessions "HOL-Library.Multiset"
begin

text \<open>
  What the commands of \<open>src/session.rs\<close> guarantee: the invariant of the stored state, the leases as
  an abstract table, and a lease that no other session takes away before it ends.
\<close>

section \<open>Names of sessions\<close>

definition decimal_value :: "string \<Rightarrow> nat" where
  "decimal_value s = foldl (\<lambda>acc c. acc * 10 + (of_char c - 48)) 0 s"

lemma decimal_value_snoc: "decimal_value (s @ [c]) = decimal_value s * 10 + (of_char c - 48)"
  by (simp add: decimal_value_def)

lemma decimal_value_nat_str: "decimal_value (nat_str n) = n"
proof (induction n rule: nat_str.induct)
  case (1 n)
  show ?case
  proof (cases "n < 10")
    case True
    then show ?thesis by (simp add: nat_str.simps [of n] decimal_value_def of_digit_char)
  next
    case False
    with 1 have "decimal_value (nat_str (n div 10)) = n div 10" by simp
    with False show ?thesis
      by (simp add: nat_str.simps [of n] decimal_value_snoc of_digit_char)
  qed
qed

lemma decimal_value_zeros: "decimal_value (replicate k CHR ''0'' @ s) = decimal_value s"
  by (induction k) (simp_all add: decimal_value_def)

lemma session_id_of_inj: "session_id_of a = session_id_of b \<longleftrightarrow> a = b"
proof
  assume "session_id_of a = session_id_of b"
  then have "decimal_value (pad4 (nat_str (unat a))) = decimal_value (pad4 (nat_str (unat b)))"
    by (simp add: session_id_of_def)
  then have "unat a = unat b" by (simp add: pad4_def decimal_value_zeros decimal_value_nat_str)
  then show "a = b" by (simp add: word_unat_eq_iff)
qed simp

section \<open>The invariant\<close>

abbreviation lock_order :: "stored_lock \<Rightarrow> string \<times> string \<times> string option" where
  "lock_order l \<equiv> (lk_key l, lk_session_id l, lk_operation_id l)"

definition session_ids :: "session_state \<Rightarrow> string set" where
  "session_ids st = st_id ` set (ses_sessions st)"

definition sessions_ok :: "session_state \<Rightarrow> bool" where
  "sessions_ok st \<longleftrightarrow>
     sorted (map st_id (ses_sessions st)) \<and> distinct (map st_id (ses_sessions st)) \<and>
     (\<forall>i \<in> session_ids st. \<exists>n < ses_next_session_seq st. i = session_id_of n)"

definition locks_ok :: "session_state \<Rightarrow> bool" where
  "locks_ok st \<longleftrightarrow>
     sorted (map lock_order (ses_locks st)) \<and> distinct (map (\<lambda>l. lk_key l) (ses_locks st)) \<and>
     (\<forall>l \<in> set (ses_locks st). lk_session_id l \<in> session_ids st)"

definition session_ok :: "session_state \<Rightarrow> bool" where
  "session_ok st \<longleftrightarrow> ses_schema_version st = SESSION_SCHEMA_VERSION \<and> sessions_ok st \<and> locks_ok st"

lemma session_ok_empty [simp]: "session_ok empty_state"
  by (simp add: session_ok_def sessions_ok_def locks_ok_def empty_state_def session_ids_def)

lemma load_state_ok: "session_ok st \<Longrightarrow> load_state root (Stored st) = Inr st"
  by (simp add: load_state_def session_ok_def sessions_ok_def locks_ok_def sort_locks_def
      sort_key_id_if_sorted)

lemma set_sort_locks [simp]: "set (sort_locks ls) = set ls"
  by (simp add: sort_locks_def)

lemma sorted_sort_locks: "sorted (map lock_order (sort_locks ls))"
  by (simp add: sort_locks_def)

lemma distinct_sort_locks: "distinct (map f (sort_locks ls)) \<longleftrightarrow> distinct (map f ls)"
  using mset_eq_imp_distinct_iff [of "map f (sort_locks ls)" "map f ls"] by (simp add: sort_locks_def)

lemma find_index_None: "find_index P xs = None \<longleftrightarrow> (\<forall>x \<in> set xs. \<not> P x)"
  by (induction xs) auto

lemma find_index_split:
  "find_index P xs = Some (i, x) \<Longrightarrow> \<exists>ys zs. xs = ys @ x # zs \<and> i = length ys \<and> P x \<and> remove_at i xs = ys @ zs"
proof (induction xs arbitrary: i)
  case (Cons a xs)
  show ?case
  proof (cases "P a")
    case True
    with Cons.prems have "a # xs = [] @ x # xs \<and> i = length [] \<and> P x \<and> remove_at i (a # xs) = [] @ xs"
      by (auto simp: remove_at_def)
    then show ?thesis by blast
  next
    case False
    with Cons.prems obtain k where "find_index P xs = Some (k, x)" "i = Suc k" by auto
    with Cons.IH obtain ys zs where "xs = ys @ x # zs" "k = length ys" "P x" by blast
    with \<open>i = Suc k\<close> have "a # xs = (a # ys) @ x # zs \<and> i = length (a # ys) \<and> P x \<and>
        remove_at i (a # xs) = (a # ys) @ zs"
      by (simp add: remove_at_def)
    then show ?thesis by blast
  qed
qed simp

section \<open>The table of leases\<close>

definition held :: "session_state \<Rightarrow> string \<Rightarrow> stored_lock option" where
  "held st k = find (\<lambda>l. lk_key l = k) (ses_locks st)"

lemma find_key_iff:
  "distinct (map f xs) \<Longrightarrow> find (\<lambda>x. f x = k) xs = Some x \<longleftrightarrow> x \<in> set xs \<and> f x = k"
  by (induction xs) auto

lemma held_iff:
  "session_ok st \<Longrightarrow> held st k = Some l \<longleftrightarrow> l \<in> set (ses_locks st) \<and> lk_key l = k"
  unfolding held_def session_ok_def locks_ok_def by (simp add: find_key_iff)

lemma held_None: "held st k = None \<longleftrightarrow> (\<forall>l \<in> set (ses_locks st). lk_key l \<noteq> k)"
  unfolding held_def by (auto simp: find_None_iff)

lemma option_eqI: "(\<And>x. a = Some x \<longleftrightarrow> b = Some x) \<Longrightarrow> a = b"
  by (cases a; cases b) auto

lemma held_eqI:
  "session_ok st \<Longrightarrow> session_ok st' \<Longrightarrow>
   (\<And>l. l \<in> set (ses_locks st') \<Longrightarrow> lk_key l \<noteq> k0 \<Longrightarrow> l \<in> set (ses_locks st)) \<Longrightarrow>
   (\<And>l. l \<in> set (ses_locks st) \<Longrightarrow> lk_key l \<noteq> k0 \<Longrightarrow> l \<in> set (ses_locks st')) \<Longrightarrow>
   k \<noteq> k0 \<Longrightarrow> held st' k = held st k"
  by (rule option_eqI) (auto simp: held_iff)

text \<open>A granted lease, as the table sees it.\<close>

definition granted :: "string \<Rightarrow> session_symbol \<Rightarrow> u64 \<Rightarrow> string option \<Rightarrow> u64 \<Rightarrow> stored_lock" where
  "granted session_id target lease_ms operation_id now_ms =
     \<lparr>lk_session_id = session_id, lk_operation_id = operation_id, lk_acquired_ms = now_ms,
      lk_expires_ms = now_ms + lease_ms, lk_target = target\<rparr>"

definition taken :: "session_state \<Rightarrow> string \<Rightarrow> string \<Rightarrow> u64 \<Rightarrow> bool" where
  "taken st session_id k now_ms \<longleftrightarrow>
     (\<exists>l. held st k = Some l \<and> \<not> lock_is_expired l now_ms \<and> lk_session_id l \<noteq> session_id)"

text \<open>The new list of locks replaces the entry of the key, if there was one.\<close>

lemma replace_lock_ok:
  assumes "session_ok st" "lk_session_id l \<in> session_ids st"
    and "locks = filter (\<lambda>x. lk_key x \<noteq> lk_key l) (ses_locks st)"
  shows "session_ok (st\<lparr>ses_locks := sort_locks (locks @ [l])\<rparr>)"
    and "held (st\<lparr>ses_locks := sort_locks (locks @ [l])\<rparr>) = (held st)(lk_key l := Some l)"
proof -
  from assms(1) have "distinct (map (\<lambda>x. lk_key x) (ses_locks st))"
    by (simp add: session_ok_def locks_ok_def)
  then have "distinct (map (\<lambda>x. lk_key x) (locks @ [l]))"
    by (auto simp: assms(3) distinct_map_filter)
  with assms show ok: "session_ok (st\<lparr>ses_locks := sort_locks (locks @ [l])\<rparr>)"
    by (auto simp: session_ok_def locks_ok_def sessions_ok_def session_ids_def sorted_sort_locks
        distinct_sort_locks)
  show "held (st\<lparr>ses_locks := sort_locks (locks @ [l])\<rparr>) = (held st)(lk_key l := Some l)"
  proof
    fix k
    show "held (st\<lparr>ses_locks := sort_locks (locks @ [l])\<rparr>) k = ((held st)(lk_key l := Some l)) k"
    proof (cases "k = lk_key l")
      case True
      with ok show ?thesis by (auto simp: held_iff)
    next
      case False
      with held_eqI [OF assms(1) ok, of "lk_key l" k] assms(3) show ?thesis by auto
    qed
  qed
qed

lemma remove_lock_ok:
  assumes "session_ok st"
  shows "session_ok (st\<lparr>ses_locks := filter (\<lambda>x. lk_key x \<noteq> k0) (ses_locks st)\<rparr>)"
    and "held (st\<lparr>ses_locks := filter (\<lambda>x. lk_key x \<noteq> k0) (ses_locks st)\<rparr>) = (held st)(k0 := None)"
proof -
  from assms show ok: "session_ok (st\<lparr>ses_locks := filter (\<lambda>x. lk_key x \<noteq> k0) (ses_locks st)\<rparr>)"
    by (auto simp: session_ok_def locks_ok_def sessions_ok_def session_ids_def distinct_map_filter
        sorted_filter)
  show "held (st\<lparr>ses_locks := filter (\<lambda>x. lk_key x \<noteq> k0) (ses_locks st)\<rparr>) = (held st)(k0 := None)"
  proof
    fix k
    show "held (st\<lparr>ses_locks := filter (\<lambda>x. lk_key x \<noteq> k0) (ses_locks st)\<rparr>) k = ((held st)(k0 := None)) k"
    proof (cases "k = k0")
      case True
      then show ?thesis by (simp add: held_None)
    next
      case False
      with held_eqI [OF assms ok, of k0 k] show ?thesis by auto
    qed
  qed
qed

lemma found_lock:
  assumes "session_ok st" "find_index (\<lambda>l. lk_key l = k) (ses_locks st) = Some (i, l)"
  shows "held st k = Some l" "remove_at i (ses_locks st) = filter (\<lambda>x. lk_key x \<noteq> k) (ses_locks st)"
proof -
  from find_index_split [OF assms(2)] obtain ys zs
    where *: "ses_locks st = ys @ l # zs" "lk_key l = k" "remove_at i (ses_locks st) = ys @ zs"
    by blast
  with assms(1) show "held st k = Some l" by (simp add: held_iff)
  from assms(1) *(1) have "distinct (map (\<lambda>x. lk_key x) (ys @ l # zs))"
    by (simp add: session_ok_def locks_ok_def)
  then have "lk_key l \<notin> (\<lambda>x. lk_key x) ` set (ys @ zs)" by auto
  with *(2) have "\<forall>x \<in> set (ys @ zs). lk_key x \<noteq> k" by (metis imageI)
  with * show "remove_at i (ses_locks st) = filter (\<lambda>x. lk_key x \<noteq> k) (ses_locks st)"
    by (auto simp: filter_id_conv)
qed

lemma no_lock: "find_index (\<lambda>l. lk_key l = k) (ses_locks st) = None \<longleftrightarrow> held st k = None"
  by (simp add: find_index_None held_None)

section \<open>The operations on the state\<close>

lemma granted_simps [simp]:
  "lk_key (granted session_id target lease_ms operation_id now_ms) = ss_key target"
  "lk_session_id (granted session_id target lease_ms operation_id now_ms) = session_id"
  "lk_expires_ms (granted session_id target lease_ms operation_id now_ms) = now_ms + lease_ms"
  by (simp_all add: granted_def)

lemma ensure_session: "ensure_session_exists st i = Inr u \<longleftrightarrow> i \<in> session_ids st"
  by (auto simp: ensure_session_exists_def session_ids_def list_ex_iff)

lemma and_then_Inr: "and_then x f = Inr y \<longleftrightarrow> (\<exists>z. x = Inr z \<and> f z = Inr y)"
  by (cases x) auto

lemma lock_response_ok [simp]: "slr_ok (lock_response a b c d e f g h) = b"
  by (simp add: lock_response_def)

lemma ensure_session_Inr: "i \<in> session_ids st \<Longrightarrow> ensure_session_exists st i = Inr ()"
  using ensure_session [of st i "()"] by simp

lemma acquire_in_session:
  "acquire_in session_id target lease_ms operation_id now_ms st = Inr z \<Longrightarrow> session_id \<in> session_ids st"
  by (auto simp: acquire_in_def and_then_Inr ensure_session simp del: and_then.simps)

lemma acquire_in_cases:
  assumes "session_ok st" "acquire_in session_id target lease_ms operation_id now_ms st = Inr (r, st')"
  shows "taken st session_id (ss_key target) now_ms \<Longrightarrow> \<not> slr_ok r \<and> st' = st"
    and "\<not> taken st session_id (ss_key target) now_ms \<Longrightarrow>
      slr_ok r \<and> st' = st\<lparr>ses_locks := sort_locks
        (filter (\<lambda>x. lk_key x \<noteq> ss_key target) (ses_locks st) @
          [granted session_id target lease_ms operation_id now_ms])\<rparr>"
proof -
  from assms(2) have "session_id \<in> session_ids st" by (rule acquire_in_session)
  note run = assms(2) [unfolded acquire_in_def ensure_session_Inr [OF this] and_then.simps Let_def]
  have "(taken st session_id (ss_key target) now_ms \<longrightarrow> \<not> slr_ok r \<and> st' = st) \<and>
    (\<not> taken st session_id (ss_key target) now_ms \<longrightarrow>
      slr_ok r \<and> st' = st\<lparr>ses_locks := sort_locks
        (filter (\<lambda>x. lk_key x \<noteq> ss_key target) (ses_locks st) @
          [granted session_id target lease_ms operation_id now_ms])\<rparr>)"
  proof (cases "find_index (\<lambda>l. lk_key l = ss_key target) (ses_locks st)")
    case None
    then have "filter (\<lambda>x. lk_key x \<noteq> ss_key target) (ses_locks st) = ses_locks st"
      by (simp add: find_index_None filter_id_conv)
    moreover from None have "held st (ss_key target) = None" by (simp add: no_lock)
    ultimately show ?thesis using None run by (auto simp: taken_def granted_def)
  next
    case (Some found)
    then obtain i l where *: "find_index (\<lambda>l. lk_key l = ss_key target) (ses_locks st) = Some (i, l)"
      by (cases found) auto
    from found_lock [OF assms(1) *] run * show ?thesis
      by (auto simp: taken_def granted_def split: if_splits)
  qed
  then show "taken st session_id (ss_key target) now_ms \<Longrightarrow> \<not> slr_ok r \<and> st' = st"
    "\<not> taken st session_id (ss_key target) now_ms \<Longrightarrow>
      slr_ok r \<and> st' = st\<lparr>ses_locks := sort_locks
        (filter (\<lambda>x. lk_key x \<noteq> ss_key target) (ses_locks st) @
          [granted session_id target lease_ms operation_id now_ms])\<rparr>"
    by blast+
qed

lemma acquire_in_total:
  "i \<in> session_ids st \<Longrightarrow> \<exists>r st'. acquire_in i target lease_ms operation_id now_ms st = Inr (r, st')"
  unfolding acquire_in_def ensure_session_Inr and_then.simps Let_def by (auto split: option.splits)

lemma acquire_in_ok:
  assumes "session_ok st" "acquire_in session_id target lease_ms operation_id now_ms st = Inr (r, st')"
  shows "session_ok st'"
    and "held st' = (if taken st session_id (ss_key target) now_ms then held st
      else (held st)(ss_key target := Some (granted session_id target lease_ms operation_id now_ms)))"
proof -
  let ?g = "granted session_id target lease_ms operation_id now_ms"
  note * = replace_lock_ok [OF assms(1), of ?g, OF _ refl]
  from acquire_in_session [OF assms(2)] have "lk_session_id ?g \<in> session_ids st" by simp
  note ** = *(1) [OF this] *(2) [OF this]
  show "session_ok st'"
    using acquire_in_cases [OF assms] assms(1) **(1) by (metis granted_simps(1))
  show "held st' = (if taken st session_id (ss_key target) now_ms then held st
      else (held st)(ss_key target := Some ?g))"
    using acquire_in_cases [OF assms] **(2) by (metis granted_simps(1))
qed

lemma release_in_cases:
  assumes "session_ok st" "release_in session_id target now_ms st = Inr (r, st')"
  shows "st' = (if \<exists>l. held st (ss_key target) = Some l \<and> lk_session_id l = session_id
      then st\<lparr>ses_locks := filter (\<lambda>x. lk_key x \<noteq> ss_key target) (ses_locks st)\<rparr> else st)"
    and "slr_ok r \<longleftrightarrow> (\<exists>l. held st (ss_key target) = Some l \<and> lk_session_id l = session_id)"
proof -
  from assms(2) have "session_id \<in> session_ids st"
    by (auto simp: release_in_def and_then_Inr ensure_session simp del: and_then.simps)
  note run = assms(2) [unfolded release_in_def ensure_session_Inr [OF this] and_then.simps]
  have "st' = (if \<exists>l. held st (ss_key target) = Some l \<and> lk_session_id l = session_id
      then st\<lparr>ses_locks := filter (\<lambda>x. lk_key x \<noteq> ss_key target) (ses_locks st)\<rparr> else st) \<and>
    (slr_ok r \<longleftrightarrow> (\<exists>l. held st (ss_key target) = Some l \<and> lk_session_id l = session_id))"
  proof (cases "find_index (\<lambda>l. lk_key l = ss_key target) (ses_locks st)")
    case None
    moreover from this have "held st (ss_key target) = None" by (simp add: no_lock)
    ultimately show ?thesis using run by auto
  next
    case (Some found)
    then obtain i l where *: "find_index (\<lambda>l. lk_key l = ss_key target) (ses_locks st) = Some (i, l)"
      by (cases found) auto
    from found_lock [OF assms(1) *] run * show ?thesis by (auto split: if_splits)
  qed
  then show "st' = (if \<exists>l. held st (ss_key target) = Some l \<and> lk_session_id l = session_id
      then st\<lparr>ses_locks := filter (\<lambda>x. lk_key x \<noteq> ss_key target) (ses_locks st)\<rparr> else st)"
    "slr_ok r \<longleftrightarrow> (\<exists>l. held st (ss_key target) = Some l \<and> lk_session_id l = session_id)"
    by blast+
qed

lemma release_in_ok:
  assumes "session_ok st" "release_in session_id target now_ms st = Inr (r, st')"
  shows "session_ok st'"
    and "held st' = (if \<exists>l. held st (ss_key target) = Some l \<and> lk_session_id l = session_id
      then (held st)(ss_key target := None) else held st)"
  using release_in_cases(1) [OF assms] assms(1) remove_lock_ok [OF assms(1), of "ss_key target"]
  by (metis (no_types, lifting))+

lemma next_seq: "n + 1 \<noteq> 0 \<Longrightarrow> unat (n + 1) = Suc (unat n) \<and> (m < n + 1 \<longleftrightarrow> m < n \<or> m = n)"
  for m n :: u64
  using unatSuc [of n] by (auto simp: add.commute [of 1] simp: word_less_nat_alt less_Suc_eq word_unat_eq_iff)

lemma create_in_ok:
  assumes "session_ok st" "ses_next_session_seq st + 1 \<noteq> 0" "create_in label now_ms st = Inr (r, st')"
  shows "session_ok st'" "held st' = held st"
    and "session_ids st' = insert (sum_id (scr_session r)) (session_ids st)"
    and "sum_id (scr_session r) \<notin> session_ids st"
    and "unat (ses_next_session_seq st') = Suc (unat (ses_next_session_seq st))"
proof -
  define n where "n = ses_next_session_seq st"
  from assms(3) have r: "sum_id (scr_session r) = session_id_of n"
    and st': "st' = st\<lparr>ses_next_session_seq := n + 1, ses_sessions := sort_key st_id (ses_sessions st @
      [\<lparr>st_id = session_id_of n, st_label = label, st_created_ms = now_ms\<rparr>])\<rparr>"
    by (auto simp: create_in_def Let_def n_def)
  from assms(2) next_seq [of n] st' show "unat (ses_next_session_seq st') = Suc (unat (ses_next_session_seq st))"
    by (simp add: n_def)
  from st' r show ids: "session_ids st' = insert (sum_id (scr_session r)) (session_ids st)"
    by (auto simp: session_ids_def)
  from assms(1) show fresh: "sum_id (scr_session r) \<notin> session_ids st"
    by (auto simp: r n_def session_ok_def sessions_ok_def session_id_of_inj)
  from st' show "held st' = held st" by (simp add: held_def fun_eq_iff)
  have "distinct (map st_id (ses_sessions st'))"
    using mset_eq_imp_distinct_iff [of "map st_id (ses_sessions st')"
        "map st_id (ses_sessions st) @ [session_id_of n]"] assms(1) fresh
    by (auto simp: st' r session_ok_def sessions_ok_def session_ids_def)
  moreover have "\<exists>m < n + 1. i = session_id_of m" if "i \<in> session_ids st'" for i
    using that assms(1,2) next_seq [of n]
    by (auto simp: ids r n_def session_ok_def sessions_ok_def)
  moreover have "sorted (map st_id (ses_sessions st'))" by (simp add: st')
  moreover have "ses_next_session_seq st' = n + 1" by (simp add: st')
  ultimately have "sessions_ok st'" by (simp add: sessions_ok_def)
  moreover have "locks_ok st'"
    using assms(1) ids by (auto simp: session_ok_def locks_ok_def st')
  ultimately show "session_ok st'" using assms(1) by (simp add: session_ok_def st')
qed

section \<open>Runs of commands\<close>

datatype session_command =
    CreateCommand "string option" u64
  | AcquireCommand string "string list" u64 "string option" u64
  | ReleaseCommand string "string list" u64

fun command_time :: "session_command \<Rightarrow> u64" where
  "command_time (CreateCommand _ now_ms) = now_ms"
| "command_time (AcquireCommand _ _ _ _ now_ms) = now_ms"
| "command_time (ReleaseCommand _ _ now_ms) = now_ms"

text \<open>The session in whose name a command acts.\<close>

fun command_session :: "session_command \<Rightarrow> string option" where
  "command_session (CreateCommand _ _) = None"
| "command_session (AcquireCommand i _ _ _ _) = Some (str_trim i)"
| "command_session (ReleaseCommand i _ _) = Some (str_trim i)"

type_synonym session_step = "session_env \<times> session_io \<times> session_command"

fun run_command :: "session_step \<Rightarrow> session_state file_content \<Rightarrow> session_state file_content" where
  "run_command (env, io, CreateCommand label now_ms) content = snd (create_session env io label now_ms content)"
| "run_command (env, io, AcquireCommand i tokens lease_ms operation_id now_ms) content =
     snd (acquire_lock env io i tokens lease_ms operation_id now_ms content)"
| "run_command (env, io, ReleaseCommand i tokens now_ms) content =
     snd (release_lock env io i tokens now_ms content)"

definition run_commands :: "session_step list \<Rightarrow> session_state file_content \<Rightarrow> session_state file_content" where
  "run_commands steps content = fold run_command steps content"

text \<open>The state that the next command loads; the root of the project occurs in messages only.\<close>

definition loaded :: "session_state file_content \<Rightarrow> session_state" where
  "loaded content = (case content of Stored st \<Rightarrow> st | _ \<Rightarrow> empty_state)"

definition content_ok :: "session_state file_content \<Rightarrow> bool" where
  "content_ok content \<longleftrightarrow> content = Absent \<or> (\<exists>st. content = Stored st \<and> session_ok st)"

lemma load_loaded: "content_ok content \<Longrightarrow> load_state root content = Inr (loaded content)"
  by (auto simp: content_ok_def loaded_def load_state_ok) (simp add: load_state_def)

lemma loaded_ok: "content_ok content \<Longrightarrow> session_ok (loaded content)"
  by (auto simp: content_ok_def loaded_def)

lemma with_state_mut_cases:
  assumes "content_ok content" "with_state_mut io root op content = (out, content')"
  shows "content' = content \<and> (\<exists>e. out = Inl e) \<or>
    (\<exists>r st'. op (loaded content) = Inr (r, st') \<and> out = Inr r \<and> content' = Stored st')"
  using assms(2) load_loaded [OF assms(1), of root]
  by (auto simp: with_state_mut_def with_error_def split: option.splits sum.splits)

text \<open>Each command either leaves the file alone or stores what its operation makes of the loaded state.\<close>

lemma run_command_cases:
  assumes "content_ok content"
  shows "run_command (env, io, c) content = content \<or>
    (\<exists>st'. run_command (env, io, c) content = Stored st' \<and>
      ((\<exists>label r. c = CreateCommand label (command_time c) \<and>
          create_in (non_empty label) (command_time c) (loaded content) = Inr (r, st')) \<or>
       (\<exists>i target lease_ms operation_id r. command_session c = Some i \<and>
          acquire_in i target lease_ms operation_id (command_time c) (loaded content) = Inr (r, st')) \<or>
       (\<exists>i target r. command_session c = Some i \<and>
          release_in i target (command_time c) (loaded content) = Inr (r, st'))))"
proof (cases c)
  case (CreateCommand label now_ms)
  obtain out content' where "create_session env io label now_ms content = (out, content')" by fastforce
  with with_state_mut_cases [OF assms, of io "env_root env" "create_in (non_empty label) now_ms"]
  show ?thesis by (auto simp: CreateCommand create_session_def)
next
  case (AcquireCommand i tokens lease_ms operation_id now_ms)
  obtain out content' where run: "acquire_lock env io i tokens lease_ms operation_id now_ms content = (out, content')"
    by fastforce
  show ?thesis
  proof (cases "lease_ms = 0 \<or> str_trim i = [] \<or> (\<exists>e. resolve_cli_target env tokens = Inl e)")
    case True
    with run show ?thesis by (auto simp: AcquireCommand acquire_lock_def split: if_splits)
  next
    case False
    then obtain target where "resolve_cli_target env tokens = Inr target"
      by (cases "resolve_cli_target env tokens") auto
    with False run with_state_mut_cases [OF assms, of io "env_root env"
        "acquire_in (str_trim i) target lease_ms (non_empty operation_id) now_ms" out content']
    show ?thesis by (simp add: AcquireCommand acquire_lock_def) blast
  qed
next
  case (ReleaseCommand i tokens now_ms)
  obtain out content' where run: "release_lock env io i tokens now_ms content = (out, content')"
    by fastforce
  show ?thesis
  proof (cases "str_trim i = [] \<or> (\<exists>e. resolve_cli_target env tokens = Inl e)")
    case True
    with run show ?thesis by (auto simp: ReleaseCommand release_lock_def split: if_splits)
  next
    case False
    then obtain target where "resolve_cli_target env tokens = Inr target"
      by (cases "resolve_cli_target env tokens") auto
    with False run with_state_mut_cases [OF assms, of io "env_root env"
        "release_in (str_trim i) target now_ms" out content']
    show ?thesis by (simp add: ReleaseCommand release_lock_def) blast
  qed
qed

section \<open>Leases over runs\<close>

text \<open>
  The contract of a table of leases: a step leaves a lease alone to which it is harmless. \<open>room n\<close>
  says that the table takes \<open>n\<close> more steps (ids of sessions are 64 bit numbers).
\<close>

locale lease_protocol =
  fixes room :: "nat \<Rightarrow> 's \<Rightarrow> bool"
    and step :: "'c \<Rightarrow> 's \<Rightarrow> 's"
    and holder :: "'s \<Rightarrow> 'k \<Rightarrow> 'l option"
    and harmless :: "'l \<Rightarrow> 'c \<Rightarrow> bool"
  assumes room_step: "room (Suc n) s \<Longrightarrow> room n (step c s)"
    and step_keeps: "room (Suc n) s \<Longrightarrow> holder s k = Some l \<Longrightarrow> harmless l c \<Longrightarrow> holder (step c s) k = Some l"
begin

lemma room_run: "room (length cs + n) s \<Longrightarrow> room n (fold step cs s)"
  by (induction cs arbitrary: s) (simp_all add: room_step)

lemma run_keeps:
  "room (length cs + n) s \<Longrightarrow> holder s k = Some l \<Longrightarrow> (\<And>c. c \<in> set cs \<Longrightarrow> harmless l c) \<Longrightarrow>
   holder (fold step cs s) k = Some l"
  by (induction cs arbitrary: s) (simp_all add: room_step step_keeps)

end

definition room :: "nat \<Rightarrow> session_state file_content \<Rightarrow> bool" where
  "room n content \<longleftrightarrow> content_ok content \<and> unat (ses_next_session_seq (loaded content)) + n < 2 ^ 64"

definition harmless :: "stored_lock \<Rightarrow> session_step \<Rightarrow> bool" where
  "harmless l s \<longleftrightarrow> (case s of (env, io, c) \<Rightarrow>
     \<not> lock_is_expired l (command_time c) \<and> command_session c \<noteq> Some (lk_session_id l))"

lemma loaded_Stored [simp]: "loaded (Stored st) = st"
  by (simp add: loaded_def)

lemma content_ok_Stored [simp]: "content_ok (Stored st) \<longleftrightarrow> session_ok st"
  by (simp add: content_ok_def)

lemma acquire_in_next:
  "session_ok st \<Longrightarrow> acquire_in i target lease_ms operation_id now_ms st = Inr (r, st') \<Longrightarrow>
   ses_next_session_seq st' = ses_next_session_seq st \<and> session_ids st' = session_ids st"
  using acquire_in_cases [of st i target lease_ms operation_id now_ms r st']
  by (cases "taken st i (ss_key target) now_ms") (auto simp: session_ids_def)

lemma release_in_next:
  "session_ok st \<Longrightarrow> release_in i target now_ms st = Inr (r, st') \<Longrightarrow>
   ses_next_session_seq st' = ses_next_session_seq st \<and> session_ids st' = session_ids st"
  using release_in_cases(1) [of st i target now_ms r st'] by (auto simp: session_ids_def)

lemma room_next: "room (Suc n) content \<Longrightarrow> ses_next_session_seq (loaded content) + 1 \<noteq> 0"
proof
  assume room: "room (Suc n) content" and "ses_next_session_seq (loaded content) + 1 = 0"
  from this(2) have "ses_next_session_seq (loaded content) = - 1"
    by (simp add: eq_neg_iff_add_eq_0)
  with room show False by (simp add: room_def unsigned_minus_1_eq_mask mask_eq_exp_minus_1)
qed

lemma run_command_room: "room (Suc n) content \<Longrightarrow> room n (run_command s content)"
proof -
  assume room: "room (Suc n) content"
  then have ok: "content_ok content" "session_ok (loaded content)"
    by (auto simp: room_def loaded_ok)
  obtain env io c where s: "s = (env, io, c)" by (cases s)
  from run_command_cases [OF ok(1), of env io c]
  show "room n (run_command s content)"
    unfolding s
  proof (elim disjE exE conjE)
    fix st' label r
    assume "run_command (env, io, c) content = Stored st'"
      "create_in (non_empty label) (command_time c) (loaded content) = Inr (r, st')"
    with create_in_ok(1,5) [OF ok(2) room_next [OF room]] room
    show "room n (run_command (env, io, c) content)" by (simp add: room_def)
  next
    fix st' i target lease_ms operation_id r
    assume "run_command (env, io, c) content = Stored st'"
      "acquire_in i target lease_ms operation_id (command_time c) (loaded content) = Inr (r, st')"
    with acquire_in_ok(1) [OF ok(2)] acquire_in_next [OF ok(2)] room
    show "room n (run_command (env, io, c) content)" by (simp add: room_def)
  next
    fix st' i target r
    assume "run_command (env, io, c) content = Stored st'"
      "release_in i target (command_time c) (loaded content) = Inr (r, st')"
    with release_in_ok(1) [OF ok(2)] release_in_next [OF ok(2)] room
    show "room n (run_command (env, io, c) content)" by (simp add: room_def)
  qed (use room in \<open>simp add: room_def\<close>)
qed

lemma run_command_keeps:
  assumes "room (Suc n) content" "held (loaded content) k = Some l" "harmless l s"
  shows "held (loaded (run_command s content)) k = Some l"
proof -
  from assms(1) have ok: "content_ok content" "session_ok (loaded content)"
    by (auto simp: room_def loaded_ok)
  obtain env io c where s: "s = (env, io, c)" by (cases s)
  from assms(3) have l: "\<not> lock_is_expired l (command_time c)" "command_session c \<noteq> Some (lk_session_id l)"
    by (auto simp: harmless_def s)
  from run_command_cases [OF ok(1), of env io c]
  show ?thesis
    unfolding s
  proof (elim disjE exE conjE)
    fix st' label r
    assume "run_command (env, io, c) content = Stored st'"
      "create_in (non_empty label) (command_time c) (loaded content) = Inr (r, st')"
    with create_in_ok(2) [OF ok(2) room_next [OF assms(1)]] assms(2)
    show "held (loaded (run_command (env, io, c) content)) k = Some l" by simp
  next
    fix st' i target lease_ms operation_id r
    assume "run_command (env, io, c) content = Stored st'" "command_session c = Some i"
      "acquire_in i target lease_ms operation_id (command_time c) (loaded content) = Inr (r, st')"
    with acquire_in_ok(2) [OF ok(2)] assms(2) l
    show "held (loaded (run_command (env, io, c) content)) k = Some l"
      by (auto simp: taken_def)
  next
    fix st' i target r
    assume "run_command (env, io, c) content = Stored st'" "command_session c = Some i"
      "release_in i target (command_time c) (loaded content) = Inr (r, st')"
    with release_in_ok(2) [OF ok(2)] assms(2) l
    show "held (loaded (run_command (env, io, c) content)) k = Some l"
      by auto
  qed (use assms(2) in simp)
qed

interpretation sl: lease_protocol room run_command "\<lambda>content. held (loaded content)" harmless
  by unfold_locales (use run_command_room run_command_keeps in blast)+

text \<open>
  C22: After any run of commands from an empty project, whatever the outcome of each command, the state
  file holds a consistent state: the ids of sessions are pairwise distinct and in order, no symbol has
  two locks, the locks are in order, and every lock belongs to a session that exists.
\<close>

theorem session_state_invariant:
  assumes "length steps < 2 ^ 64 - 1" "run_commands steps Absent = Stored st"
  shows "sorted_wrt (<) (map st_id (ses_sessions st)) \<and> distinct (map (\<lambda>l. lk_key l) (ses_locks st)) \<and>
    sorted (map lock_order (ses_locks st)) \<and>
    (\<forall>l \<in> set (ses_locks st). lk_session_id l \<in> st_id ` set (ses_sessions st))"
proof -
  have "room (length steps + 0) Absent"
    using assms(1) by (simp add: room_def content_ok_def loaded_def empty_state_def default_next_session_seq_def)
  from sl.room_run [OF this] assms(2) have "session_ok st"
    by (simp add: room_def run_commands_def)
  then show ?thesis
    by (auto simp: session_ok_def sessions_ok_def locks_ok_def session_ids_def strict_sorted_iff)
qed

text \<open>
  C23: A lease is safe until it ends: while the clock of every command is before the end of a lock's
  lease, commands of other sessions (creating sessions, acquiring or releasing locks on any symbol)
  leave the lock exactly as it is.
\<close>

theorem lease_undisturbed:
  assumes "content_ok content" "unat (ses_next_session_seq (loaded content)) + length steps < 2 ^ 64"
    and "held (loaded content) k = Some l" "\<And>s. s \<in> set steps \<Longrightarrow> harmless l s"
  shows "held (loaded (run_commands steps content)) k = Some l"
  unfolding run_commands_def
  by (rule sl.run_keeps [where n = 0]) (use assms in \<open>auto simp: room_def\<close>)


section \<open>A run\<close>

text \<open>A project with one function, two sessions, and a lease of ten milliseconds on the function.\<close>

definition demo_symbol :: symbol_record where
  "demo_symbol = \<lparr>srec_name = ''f'', srec_kind = SymFunction, srec_signature = ''fn f() -> Int'',
     srec_module = None, srec_location = \<lparr>sloc_file = ''/p/src/main.aic'', sloc_line = 1, sloc_column = 1,
       sloc_span_start = 0, sloc_span_end = 20\<rparr>,
     srec_effects = [], srec_contracts = \<lparr>sc_requires = None, sc_ensures = None, sc_invariant = None\<rparr>,
     srec_capabilities = [], srec_generics = [], srec_requires = None, srec_ensures = None,
     srec_invariant = None, srec_container = None\<rparr>"

definition demo_env :: session_env where
  "demo_env = \<lparr>env_canonical = (\<lambda>p. p), env_project_root = ''/p'', env_symbols = Inr [demo_symbol]\<rparr>"

definition demo_io :: session_io where
  "demo_io = \<lparr>io_create_dir_error = None, io_state_lock_error = None, io_write_error = None\<rparr>"

definition demo_steps :: "session_step list" where
  "demo_steps = [(demo_env, demo_io, CreateCommand (Some ''alpha'') 100),
     (demo_env, demo_io, CreateCommand None 101),
     (demo_env, demo_io, AcquireCommand ''sess-0001'' [''f''] 10 None 1000)]"

definition demo_target :: session_symbol where
  "demo_target = \<lparr>ss_key = ''function:<root>:f:src/main.aic:0'', ss_kind = ''function'', ss_name = ''f'',
     ss_module = None, ss_file = Some ''src/main.aic'', ss_span_start = Some 0, ss_span_end = Some 20,
     ss_synthetic = False\<rparr>"

definition demo_lock :: stored_lock where
  "demo_lock = \<lparr>lk_session_id = ''sess-0001'', lk_operation_id = None, lk_acquired_ms = 1000,
     lk_expires_ms = 1010, lk_target = demo_target\<rparr>"

definition demo_state :: session_state where
  "demo_state = \<lparr>ses_schema_version = 1, ses_next_session_seq = 3,
     ses_sessions = [\<lparr>st_id = ''sess-0001'', st_label = Some ''alpha'', st_created_ms = 100\<rparr>,
       \<lparr>st_id = ''sess-0002'', st_label = None, st_created_ms = 101\<rparr>],
     ses_locks = [demo_lock]\<rparr>"

lemma demo_run: "run_commands demo_steps Absent = Stored demo_state"
  by code_simp

lemma demo_target: "resolve_cli_target demo_env [''f''] = Inr demo_target"
  by code_simp

lemma demo_content: "content_ok (Stored demo_state)"
proof -
  have "room (length demo_steps + 0) Absent"
    by (simp add: room_def content_ok_def loaded_def empty_state_def default_next_session_seq_def demo_steps_def)
  from sl.room_run [OF this] demo_run show ?thesis by (simp add: room_def run_commands_def)
qed

lemma demo_held: "held demo_state (ss_key demo_target) = Some demo_lock"
  by (simp add: held_def demo_state_def demo_lock_def)

lemma demo_trim: "str_trim ''sess-0002'' = ''sess-0002''"
  by code_simp

theorem session_state_invariant_witness: "distinct (map (\<lambda>l. lk_key l) (ses_locks demo_state))"
  using session_state_invariant [OF _ demo_run] by (simp add: demo_steps_def)

theorem lease_undisturbed_witness:
  "held (loaded (run_commands [(demo_env, demo_io, AcquireCommand ''sess-0002'' [''f''] 10 None 1005)]
     (Stored demo_state))) (ss_key demo_target) = Some demo_lock"
proof (rule lease_undisturbed [OF demo_content])
  show "unat (ses_next_session_seq (loaded (Stored demo_state))) +
      length [(demo_env, demo_io, AcquireCommand ''sess-0002'' [''f''] 10 None 1005)] < 2 ^ 64"
    by (simp add: demo_state_def)
  show "held (loaded (Stored demo_state)) (ss_key demo_target) = Some demo_lock"
    by (simp add: demo_held)
  show "harmless demo_lock s"
    if "s \<in> set [(demo_env, demo_io, AcquireCommand ''sess-0002'' [''f''] 10 None 1005)]" for s
    using that by (simp add: harmless_def lock_is_expired_def demo_lock_def demo_trim)
qed


end
