(* ===== verification/StateLock.thy ===== *)
theory StateLock
  imports SessionLeases
begin

text \<open>
  The lock file around the state of the sessions: \<open>acquire_state_lock_with_options\<close> and
  \<open>with_state_mut\<close> of \<open>src/session.rs\<close>. First the decisions of one process: what it reads from the
  lock file, when it takes a lock for stale, the loop over its attempts. Then processes side by side
  as a machine whose steps are the file operations of the code (\<open>create_new\<close>, \<open>write\<close>, \<open>read\<close>,
  \<open>rename\<close>, \<open>remove_file\<close>), each of which the operating system makes atomic.
\<close>

section \<open>The lock file\<close>

record state_lock_metadata =
  slm_schema_version :: nat
  slm_pid :: nat
  slm_host :: string
  slm_created_ms :: u64
  slm_process_hint :: string

definition STATE_LOCK_SCHEMA_VERSION :: nat where
  "STATE_LOCK_SCHEMA_VERSION = 1"

definition LOCK_WAIT_RETRIES :: nat where
  "LOCK_WAIT_RETRIES = 200"

definition DEFAULT_STALE_LOCK_TTL_MS :: u64 where
  "DEFAULT_STALE_LOCK_TTL_MS = 120000"

definition current_metadata :: "nat \<Rightarrow> string \<Rightarrow> u64 \<Rightarrow> state_lock_metadata" where
  "current_metadata pid host now_ms =
     \<lparr>slm_schema_version = STATE_LOCK_SCHEMA_VERSION, slm_pid = pid, slm_host = host,
      slm_created_ms = now_ms, slm_process_hint = ''pid='' @ nat_str pid @ ''@'' @ host\<rparr>"

text \<open>\<open>parse::<u32>()\<close>\<close>

definition parse_u32 :: "string \<Rightarrow> nat option" where
  "parse_u32 s =
     (let digits = (case strip_prefix ''+'' s of Some r \<Rightarrow> r | None \<Rightarrow> s)
      in if digits \<noteq> [] \<and> list_all is_ascii_digit digits \<and> decimal_value digits < 2 ^ 32
         then Some (decimal_value digits) else None)"

text \<open>\<open>raw\<close> is what reading the file gave, \<open>decode\<close> is \<open>serde_json::from_str\<close>.\<close>

definition read_lock_metadata ::
  "(string \<Rightarrow> state_lock_metadata outcome) \<Rightarrow> string \<Rightarrow> string outcome \<Rightarrow> state_lock_metadata outcome" where
  "read_lock_metadata decode host raw =
     and_then raw (\<lambda>text.
       case decode text of
         Inr m \<Rightarrow> Inr m
       | Inl json_err \<Rightarrow>
           (case parse_u32 (str_trim text) of
              Some pid \<Rightarrow> Inr \<lparr>slm_schema_version = 0, slm_pid = pid, slm_host = host,
                slm_created_ms = 0, slm_process_hint = ''legacy_pid_only''\<rparr>
            | None \<Rightarrow> Inl (json_err @ '' (raw: '' @ str_trim text @ '')'')))"

text \<open>What a process knows: its host name and id, the clock, and the answers of \<open>kill -0\<close>.\<close>

record observer =
  ob_host :: string
  ob_pid :: nat
  ob_now_ms :: u64
  ob_kill :: "nat \<Rightarrow> bool option"

definition process_is_alive :: "observer \<Rightarrow> nat \<Rightarrow> bool option" where
  "process_is_alive ob pid =
     (if pid = ob_pid ob then Some True
      else if pid = 0 \<or> 2 ^ 31 - 1 < pid then Some False
      else ob_kill ob pid)"

definition lock_age :: "observer \<Rightarrow> state_lock_metadata \<Rightarrow> u64" where
  "lock_age ob m = (if slm_created_ms m \<le> ob_now_ms ob then ob_now_ms ob - slm_created_ms m else 0)"

definition owner_alive :: "observer \<Rightarrow> state_lock_metadata \<Rightarrow> bool option" where
  "owner_alive ob m = (if slm_host m = ob_host ob then process_is_alive ob (slm_pid m) else None)"

definition stale_by_pid :: "observer \<Rightarrow> state_lock_metadata \<Rightarrow> bool" where
  "stale_by_pid ob m = (slm_host m = ob_host ob \<and> owner_alive ob m = Some False)"

definition stale_by_age :: "observer \<Rightarrow> u64 \<Rightarrow> state_lock_metadata \<Rightarrow> bool" where
  "stale_by_age ob stale_lock_ttl_ms m =
     (slm_host m = ob_host ob \<and> stale_lock_ttl_ms < lock_age ob m \<and> owner_alive ob m \<noteq> Some True)"

definition is_stale :: "observer \<Rightarrow> u64 \<Rightarrow> state_lock_metadata \<Rightarrow> bool" where
  "is_stale ob stale_lock_ttl_ms m = (stale_by_pid ob m \<or> stale_by_age ob stale_lock_ttl_ms m)"

text \<open>The summary of an observation; \<open>renamed\<close> is the outcome of \<open>reclaim_state_lock_file\<close>.\<close>

definition observation :: "observer \<Rightarrow> u64 \<Rightarrow> bool \<Rightarrow> state_lock_metadata outcome \<Rightarrow> string" where
  "observation ob stale_lock_ttl_ms renamed metadata =
     (case metadata of
        Inl reason \<Rightarrow> ''malformed lock metadata: '' @ reason
      | Inr m \<Rightarrow>
          if is_stale ob stale_lock_ttl_ms m \<and> renamed
          then ''reclaimed stale lock pid='' @ nat_str (slm_pid m) @ '' host='' @ slm_host m @ '' age_ms='' @
            nat_str (unat (lock_age ob m)) @ '' reason='' @
            (if stale_by_pid ob m then ''owner process is no longer alive'' else ''lock age exceeded stale TTL'')
          else ''lock owner pid='' @ nat_str (slm_pid m) @ '' host='' @ slm_host m @ '' age_ms='' @
            nat_str (unat (lock_age ob m)) @ '' alive='' @
            (case owner_alive ob m of
               Some True \<Rightarrow> ''alive'' | Some False \<Rightarrow> ''dead'' | None \<Rightarrow> ''unknown''))"

text \<open>
  What one attempt meets: the file was created (and the metadata written, or not), it exists, or the
  file system refused. The loop as a function of the attempts.
\<close>

datatype attempt =
    Created "string option"
  | Exists observer "state_lock_metadata outcome" bool
  | Refused

fun state_lock_loop :: "string \<Rightarrow> u64 \<Rightarrow> string option \<Rightarrow> nat \<Rightarrow> (nat \<Rightarrow> attempt) \<Rightarrow> nat outcome" where
  "state_lock_loop path ttl last_observation 0 attempts =
     Inl (''timed out waiting for session state lock '' @ path @ '' ('' @
       (case last_observation of Some o' \<Rightarrow> o' | None \<Rightarrow> ''lock metadata unavailable'') @
       ''); if owner is no longer running, remove the lock file and retry'')"
| "state_lock_loop path ttl last_observation (Suc retries) attempts =
     (case attempts retries of
        Created None \<Rightarrow> Inr retries
      | Created (Some e) \<Rightarrow> Inl e
      | Exists ob metadata renamed \<Rightarrow>
          state_lock_loop path ttl (Some (observation ob ttl renamed metadata)) retries attempts
      | Refused \<Rightarrow> Inl (''failed to acquire state lock '' @ path))"

definition acquire_state_lock :: "string \<Rightarrow> u64 \<Rightarrow> (nat \<Rightarrow> attempt) \<Rightarrow> nat outcome" where
  "acquire_state_lock project_root stale_lock_ttl_ms attempts =
     state_lock_loop (path_join (sessions_root project_root) ''.state.lock'') stale_lock_ttl_ms None
       LOCK_WAIT_RETRIES attempts"

section \<open>Processes\<close>

text \<open>
  A process is named by its id. \<open>Waiting n\<close> has \<open>n\<close> attempts left; \<open>Seen n\<close> found the file there and
  reads it next; \<open>Reclaiming n\<close> took it for stale and renames it next; \<open>Creating i\<close> created the file
  and writes its metadata next; \<open>Entered\<close>, \<open>Working st\<close> (the state is loaded) and \<open>Done\<close> (the state is
  written) are inside \<open>with_state_mut\<close>.
\<close>

datatype 's process =
    Outside | Waiting nat | Seen nat | Reclaiming nat | Creating nat | Entered | Working 's | Done
  | TimedOut | Crashed

text \<open>
  The directory entry of the lock file names an inode; an inode is empty until its creator has
  written the metadata. \<open>lw_log\<close> records whose operations were stored, in order.
\<close>

record 's lock_world =
  lw_entry :: "nat option"
  lw_file :: "nat \<Rightarrow> state_lock_metadata option"
  lw_next :: nat
  lw_process :: "nat \<Rightarrow> 's process"
  lw_state :: 's
  lw_log :: "nat list"

text \<open>
  The host name that a process sees, the machine it runs on, the time after which a lock is stale,
  and the operation that it runs under the lock; an operation that fails stores nothing.
\<close>

record 's lock_config =
  cfg_host :: "nat \<Rightarrow> string"
  cfg_machine :: "nat \<Rightarrow> nat"
  cfg_ttl_ms :: u64
  cfg_op :: "nat \<Rightarrow> 's \<Rightarrow> 's option"

fun is_running :: "'s process \<Rightarrow> bool" where
  "is_running Outside = False"
| "is_running TimedOut = False"
| "is_running Crashed = False"
| "is_running _ = True"

text \<open>\<open>kill -0\<close> finds the running processes of the machine.\<close>

definition observer_of :: "'s lock_config \<Rightarrow> 's lock_world \<Rightarrow> nat \<Rightarrow> u64 \<Rightarrow> observer" where
  "observer_of cfg w p now_ms =
     \<lparr>ob_host = cfg_host cfg p, ob_pid = p, ob_now_ms = now_ms,
      ob_kill = (\<lambda>q. Some (cfg_machine cfg q = cfg_machine cfg p \<and> is_running (lw_process w q)))\<rparr>"

datatype lock_action =
    Start | OpenNew | WriteMetadata u64 | ReadMetadata u64 | RenameStale | LoadState | StoreState
  | RemoveFile | Crash

definition to_process :: "nat \<Rightarrow> 's process \<Rightarrow> 's lock_world \<Rightarrow> 's lock_world" where
  "to_process p pc w = w\<lparr>lw_process := (lw_process w)(p := pc)\<rparr>"

definition apply_op :: "'s lock_config \<Rightarrow> nat \<Rightarrow> 's \<Rightarrow> 's" where
  "apply_op cfg p st = (case cfg_op cfg p st of Some st' \<Rightarrow> st' | None \<Rightarrow> st)"

text \<open>One step of process \<open>p\<close>; \<open>None\<close> when the process is not at that point of the code.\<close>

fun lock_step :: "'s lock_config \<Rightarrow> nat \<Rightarrow> lock_action \<Rightarrow> 's lock_world \<Rightarrow> 's lock_world option" where
  "lock_step cfg p Start w =
     (case lw_process w p of Outside \<Rightarrow> Some (to_process p (Waiting LOCK_WAIT_RETRIES) w) | _ \<Rightarrow> None)"
| "lock_step cfg p OpenNew w =
     (case lw_process w p of
        Waiting 0 \<Rightarrow> Some (to_process p TimedOut w)
      | Waiting (Suc n) \<Rightarrow>
          if lw_entry w = None
          then Some (to_process p (Creating (lw_next w))
            (w\<lparr>lw_entry := Some (lw_next w), lw_file := (lw_file w)(lw_next w := None),
               lw_next := Suc (lw_next w)\<rparr>))
          else Some (to_process p (Seen n) w)
      | _ \<Rightarrow> None)"
| "lock_step cfg p (WriteMetadata now_ms) w =
     (case lw_process w p of
        Creating i \<Rightarrow> Some (to_process p Entered
          (w\<lparr>lw_file := (lw_file w)(i := Some (current_metadata p (cfg_host cfg p) now_ms))\<rparr>))
      | _ \<Rightarrow> None)"
| "lock_step cfg p (ReadMetadata now_ms) w =
     (case lw_process w p of
        Seen n \<Rightarrow>
          (case lw_entry w of
             None \<Rightarrow> Some (to_process p (Waiting n) w)
           | Some i \<Rightarrow>
               (case lw_file w i of
                  None \<Rightarrow> Some (to_process p (Waiting n) w)
                | Some m \<Rightarrow>
                    if is_stale (observer_of cfg w p now_ms) (cfg_ttl_ms cfg) m
                    then Some (to_process p (Reclaiming n) w)
                    else Some (to_process p (Waiting n) w)))
      | _ \<Rightarrow> None)"
| "lock_step cfg p RenameStale w =
     (case lw_process w p of
        Reclaiming n \<Rightarrow> Some (to_process p (Waiting n) (w\<lparr>lw_entry := None\<rparr>))
      | _ \<Rightarrow> None)"
| "lock_step cfg p LoadState w =
     (case lw_process w p of Entered \<Rightarrow> Some (to_process p (Working (lw_state w)) w) | _ \<Rightarrow> None)"
| "lock_step cfg p StoreState w =
     (case lw_process w p of
        Working st \<Rightarrow>
          (case cfg_op cfg p st of
             Some st' \<Rightarrow> Some (to_process p Done (w\<lparr>lw_state := st', lw_log := lw_log w @ [p]\<rparr>))
           | None \<Rightarrow> Some (to_process p Done w))
      | _ \<Rightarrow> None)"
| "lock_step cfg p RemoveFile w =
     (case lw_process w p of Done \<Rightarrow> Some (to_process p Outside (w\<lparr>lw_entry := None\<rparr>)) | _ \<Rightarrow> None)"
| "lock_step cfg p Crash w =
     (if is_running (lw_process w p) then Some (to_process p Crashed w) else None)"

fun lock_run :: "'s lock_config \<Rightarrow> (nat \<times> lock_action) list \<Rightarrow> 's lock_world \<Rightarrow> 's lock_world option" where
  "lock_run cfg [] w = Some w"
| "lock_run cfg ((p, a) # steps) w =
     (case lock_step cfg p a w of Some w' \<Rightarrow> lock_run cfg steps w' | None \<Rightarrow> None)"

definition fresh_world :: "'s \<Rightarrow> 's lock_world" where
  "fresh_world st =
     \<lparr>lw_entry = None, lw_file = (\<lambda>_. None), lw_next = 0, lw_process = (\<lambda>_. Outside),
      lw_state = st, lw_log = []\<rparr>"

section \<open>Mutual exclusion\<close>

fun is_inside :: "'s process \<Rightarrow> bool" where
  "is_inside Entered = True"
| "is_inside (Working _) = True"
| "is_inside Done = True"
| "is_inside _ = False"

definition holds_file :: "'s lock_config \<Rightarrow> 's lock_world \<Rightarrow> nat \<Rightarrow> bool" where
  "holds_file cfg w p \<longleftrightarrow>
     (\<exists>i. lw_process w p = Creating i \<and> lw_entry w = Some i \<and> lw_file w i = None) \<or>
     (is_inside (lw_process w p) \<and> (\<exists>i m. lw_entry w = Some i \<and> lw_file w i = Some m \<and>
        slm_pid m = p \<and> slm_host m = cfg_host cfg p))"

definition is_active :: "'s process \<Rightarrow> bool" where
  "is_active pc \<longleftrightarrow> is_inside pc \<or> (\<exists>i. pc = Creating i)"

text \<open>
  As long as nobody dies, the file belongs to the one process that is creating it or inside, no
  process takes it for stale, and the state that a process inside has loaded is the current one.
\<close>

definition lock_inv :: "'s \<Rightarrow> 's lock_config \<Rightarrow> 's lock_world \<Rightarrow> bool" where
  "lock_inv st0 cfg w \<longleftrightarrow>
     (\<forall>p. is_active (lw_process w p) \<longrightarrow> holds_file cfg w p \<and> 0 < p \<and> p < 2 ^ 31) \<and>
     (\<forall>p q. is_active (lw_process w p) \<longrightarrow> is_active (lw_process w q) \<longrightarrow> p = q) \<and>
     (\<forall>i. lw_entry w = Some i \<longrightarrow> (\<exists>p. is_active (lw_process w p))) \<and>
     (\<forall>p n. lw_process w p \<noteq> Reclaiming n) \<and>
     (\<forall>p st. lw_process w p = Working st \<longrightarrow> st = lw_state w) \<and>
     lw_state w = fold (apply_op cfg) (lw_log w) st0"

lemma is_active_simps [simp]:
  "\<not> is_active Outside" "\<not> is_active (Waiting n)" "\<not> is_active (Seen n)" "\<not> is_active (Reclaiming n)"
  "is_active (Creating i)" "is_active Entered" "is_active (Working st)" "is_active Done"
  "\<not> is_active TimedOut" "\<not> is_active Crashed"
  by (simp_all add: is_active_def)

lemma is_active_running: "is_active pc \<Longrightarrow> is_running pc"
  by (cases pc) auto

lemma to_process_simps [simp]:
  "lw_process (to_process p pc w) = (lw_process w)(p := pc)"
  "lw_entry (to_process p pc w) = lw_entry w" "lw_file (to_process p pc w) = lw_file w"
  "lw_next (to_process p pc w) = lw_next w" "lw_state (to_process p pc w) = lw_state w"
  "lw_log (to_process p pc w) = lw_log w"
  by (simp_all add: to_process_def)

text \<open>A process that is neither active nor reclaiming, before and after a step that changes nothing else.\<close>

lemma inv_passive:
  assumes "lock_inv st0 cfg w" "\<not> is_active (lw_process w p)" "\<not> is_active pc" "\<And>n. pc \<noteq> Reclaiming n"
  shows "lock_inv st0 cfg (to_process p pc w)"
  using assms unfolding lock_inv_def holds_file_def by (auto split: if_splits) (metis | blast)+

lemma inv_holds: "lock_inv st0 cfg w \<Longrightarrow> is_active (lw_process w p) \<Longrightarrow> holds_file cfg w p"
  unfolding lock_inv_def by blast

lemma inv_state: "lock_inv st0 cfg w \<Longrightarrow> lw_state w = fold (apply_op cfg) (lw_log w) st0"
  unfolding lock_inv_def by blast

text \<open>The active process moves on.\<close>

lemma inv_active:
  assumes "lock_inv st0 cfg w" "is_active (lw_process w p)"
    and "is_active pc" "holds_file cfg (to_process p pc w') p"
    and "lw_entry w' = lw_entry w" "lw_process w' = lw_process w"
    and "\<And>st. pc = Working st \<Longrightarrow> st = lw_state w'"
    and "lw_state w' = fold (apply_op cfg) (lw_log w') st0"
  shows "lock_inv st0 cfg (to_process p pc w')"
proof -
  from assms(1,2) have only: "\<not> is_active (lw_process w q)" if "q \<noteq> p" for q
    using that unfolding lock_inv_def by blast
  have "\<not> is_active (Reclaiming n :: 'a process)" for n by simp
  with assms(3) have "pc \<noteq> Reclaiming n" for n by metis
  moreover have "lw_process w q \<noteq> Working st" if "q \<noteq> p" for q st
    using only [OF that] by (metis is_active_simps(7))
  ultimately show ?thesis
    using assms only unfolding lock_inv_def by auto
qed

lemma stale_never:
  assumes "lock_inv st0 cfg w" "\<And>p q. cfg_host cfg p = cfg_host cfg q \<Longrightarrow> cfg_machine cfg p = cfg_machine cfg q"
    and "lw_entry w = Some i" "lw_file w i = Some m" "\<not> is_active (lw_process w p)"
  shows "\<not> is_stale (observer_of cfg w p now_ms) ttl m"
proof -
  from assms(1,3) obtain q where q: "is_active (lw_process w q)" unfolding lock_inv_def by blast
  with assms(1) have h: "holds_file cfg w q" "0 < q" "q < 2 ^ 31" unfolding lock_inv_def by blast+
  with assms(3,4) have m: "slm_pid m = q" "slm_host m = cfg_host cfg q" by (auto simp: holds_file_def)
  from q assms(5) have "q \<noteq> p" by auto
  then have "owner_alive (observer_of cfg w p now_ms) m = Some True" if "slm_host m = cfg_host cfg p"
    using that m h(2,3) assms(2) [of p q] is_active_running [OF q]
    by (auto simp: owner_alive_def process_is_alive_def observer_of_def)
  then show ?thesis
    by (auto simp: is_stale_def stale_by_pid_def stale_by_age_def observer_of_def)
qed

lemma lock_step_inv:
  assumes "lock_inv st0 cfg w" "lock_step cfg p a w = Some w'" "a \<noteq> Crash" "0 < p" "p < 2 ^ 31"
    and hosts: "\<And>p q. cfg_host cfg p = cfg_host cfg q \<Longrightarrow> cfg_machine cfg p = cfg_machine cfg q"
  shows "lock_inv st0 cfg w'"
proof (cases a)
  case Start
  with assms(2) have "lw_process w p = Outside" "w' = to_process p (Waiting LOCK_WAIT_RETRIES) w"
    by (auto split: process.splits)
  with inv_passive [OF assms(1), of p] show ?thesis by simp
next
  case OpenNew
  with assms(2) consider
      pc where "\<not> is_active (lw_process w p)" "w' = to_process p pc w" "pc = TimedOut \<or> (\<exists>n. pc = Seen n)"
    | n where "lw_process w p = Waiting (Suc n)" "lw_entry w = None"
        "w' = to_process p (Creating (lw_next w)) (w\<lparr>lw_entry := Some (lw_next w),
          lw_file := (lw_file w)(lw_next w := None), lw_next := Suc (lw_next w)\<rparr>)"
    by (auto split: process.splits nat.splits if_splits)
  then show ?thesis
  proof cases
    case 1
    with inv_passive [OF assms(1), of p pc] show ?thesis by auto
  next
    case 2
    with assms(1) have none: "\<not> is_active (lw_process w q)" for q
      unfolding lock_inv_def holds_file_def by fastforce
    then have "lw_process w q \<noteq> Working st" for q st by (metis is_active_simps(7))
    with none assms(1,4,5) show ?thesis
      unfolding 2(3) lock_inv_def holds_file_def by auto
  qed
next
  case (WriteMetadata now_ms)
  with assms(2) obtain i where i: "lw_process w p = Creating i"
    "w' = to_process p Entered (w\<lparr>lw_file := (lw_file w)(i := Some (current_metadata p (cfg_host cfg p) now_ms))\<rparr>)"
    by (auto split: process.splits)
  with inv_holds [OF assms(1), of p] have "lw_entry w = Some i" by (auto simp: holds_file_def)
  with i inv_state [OF assms(1)] show ?thesis
    by (auto intro!: inv_active [OF assms(1)] simp: holds_file_def current_metadata_def)
next
  case (ReadMetadata now_ms)
  with assms(2) obtain n where n: "lw_process w p = Seen n" by (auto split: process.splits)
  with stale_never [OF assms(1) hosts, of _ _ p now_ms "cfg_ttl_ms cfg"] ReadMetadata assms(2)
  have "w' = to_process p (Waiting n) w" by (auto split: option.splits if_splits)
  with inv_passive [OF assms(1), of p "Waiting n"] n show ?thesis by simp
next
  case RenameStale
  with assms(1,2) show ?thesis unfolding lock_inv_def by (auto split: process.splits)
next
  case LoadState
  with assms(2) have "lw_process w p = Entered" "w' = to_process p (Working (lw_state w)) w"
    by (auto split: process.splits)
  with inv_holds [OF assms(1), of p] inv_state [OF assms(1)] show ?thesis
    by (auto intro!: inv_active [OF assms(1)] simp: holds_file_def)
next
  case StoreState
  with assms(2) obtain st where st: "lw_process w p = Working st" by (auto split: process.splits)
  then have "st = lw_state w" using assms(1) unfolding lock_inv_def by blast
  with StoreState st assms(2) have "w' = to_process p Done w \<or>
      (\<exists>st'. cfg_op cfg p (lw_state w) = Some st' \<and>
        w' = to_process p Done (w\<lparr>lw_state := st', lw_log := lw_log w @ [p]\<rparr>))"
    by (auto split: option.splits)
  then show ?thesis using inv_holds [OF assms(1), of p] inv_state [OF assms(1)] st
    by (auto intro!: inv_active [OF assms(1)] simp: apply_op_def holds_file_def)
next
  case RemoveFile
  with assms(2) have p: "lw_process w p = Done" "w' = to_process p Outside (w\<lparr>lw_entry := None\<rparr>)"
    by (auto split: process.splits)
  with assms(1) have only: "\<not> is_active (lw_process w q)" if "q \<noteq> p" for q
    using that unfolding lock_inv_def by (metis is_active_simps(8))
  then have "lw_process w q \<noteq> Working st" if "q \<noteq> p" for q st using that by (metis is_active_simps(7))
  with only assms(1) show ?thesis unfolding p(2) lock_inv_def by auto
next
  case Crash
  with assms(3) show ?thesis by simp
qed

lemma lock_run_inv:
  assumes "lock_inv st0 cfg w" "lock_run cfg steps w = Some w'"
    and "\<And>p a. (p, a) \<in> set steps \<Longrightarrow> a \<noteq> Crash \<and> 0 < p \<and> p < 2 ^ 31"
    and "\<And>p q. cfg_host cfg p = cfg_host cfg q \<Longrightarrow> cfg_machine cfg p = cfg_machine cfg q"
  shows "lock_inv st0 cfg w'"
  using assms(1-3)
proof (induction steps arbitrary: w)
  case (Cons s steps)
  obtain p a where s: "s = (p, a)" by fastforce
  with Cons.prems(2) obtain w1 where w1: "lock_step cfg p a w = Some w1" "lock_run cfg steps w1 = Some w'"
    by (auto split: option.splits)
  from Cons.prems(3) [of p a] s have "a \<noteq> Crash" "0 < p" "p < 2 ^ 31" by auto
  from lock_step_inv [OF Cons.prems(1) w1(1) this assms(4)] have "lock_inv st0 cfg w1" .
  moreover have "b \<noteq> Crash \<and> 0 < q \<and> q < 2 ^ 31" if "(q, b) \<in> set steps" for q b
    using that Cons.prems(3) [of q b] by simp
  ultimately show ?case by (intro Cons.IH [OF _ w1(2)]) blast+
qed simp

lemma lock_inv_fresh: "lock_inv st0 cfg (fresh_world st0)"
  by (simp add: lock_inv_def fresh_world_def)


text \<open>Processes that each create a session, all on one machine.\<close>

definition create_op :: "nat \<Rightarrow> session_state \<Rightarrow> session_state option" where
  "create_op p st = (case create_in None (of_nat p) st of Inr (_, st') \<Rightarrow> Some st' | Inl _ \<Rightarrow> None)"

definition one_machine :: "session_state lock_config" where
  "one_machine = \<lparr>cfg_host = (\<lambda>_. ''h''), cfg_machine = (\<lambda>_. 0), cfg_ttl_ms = DEFAULT_STALE_LOCK_TTL_MS,
     cfg_op = create_op\<rparr>"

definition taking_turns :: "(nat \<times> lock_action) list" where
  "taking_turns = [(1, Start), (1, OpenNew), (2, Start), (2, OpenNew), (2, ReadMetadata 0),
     (1, WriteMetadata 0), (2, OpenNew), (2, ReadMetadata 1), (1, LoadState), (1, StoreState), (1, RemoveFile),
     (2, OpenNew), (2, WriteMetadata 2), (2, LoadState), (2, StoreState)]"

lemma taking_turns_run:
  "case lock_run one_machine taking_turns (fresh_world empty_state) of
     Some w \<Rightarrow> is_inside (lw_process w 2) \<and> map st_id (ses_sessions (lw_state w)) = [''sess-0001'', ''sess-0002'']
   | None \<Rightarrow> False"
  by code_simp


section \<open>When a process dies\<close>

text \<open>
  Process 1 dies inside. Processes 2 and 3 both read its metadata; 2 removes the stale file and takes
  the lock; then 3, still acting on what it has read, removes the file of 2 and takes the lock as well.
\<close>

definition race_begin :: "(nat \<times> lock_action) list" where
  "race_begin = [(1, Start), (1, OpenNew), (1, WriteMetadata 0), (1, Crash),
     (2, Start), (2, OpenNew), (2, ReadMetadata 1), (3, Start), (3, OpenNew), (3, ReadMetadata 1),
     (2, RenameStale), (2, OpenNew), (2, WriteMetadata 2), (2, LoadState),
     (3, RenameStale), (3, OpenNew), (3, WriteMetadata 3), (3, LoadState)]"

definition race_end :: "(nat \<times> lock_action) list" where
  "race_end = [(2, StoreState), (2, RemoveFile), (3, StoreState), (3, RemoveFile)]"

text \<open>Two machines on which the host name is not in the environment, with the project on a shared disk.\<close>

definition two_machines :: "session_state lock_config" where
  "two_machines = one_machine\<lparr>cfg_host := (\<lambda>_. ''unknown-host''), cfg_machine := (\<lambda>p. p)\<rparr>"

definition unknown_hosts :: "(nat \<times> lock_action) list" where
  "unknown_hosts = [(1, Start), (1, OpenNew), (1, WriteMetadata 0), (2, Start), (2, OpenNew),
     (2, ReadMetadata 1), (2, RenameStale), (2, OpenNew), (2, WriteMetadata 2)]"


definition blocked :: "'s \<Rightarrow> 's lock_world \<Rightarrow> bool" where
  "blocked st w \<longleftrightarrow> (\<exists>i. lw_entry w = Some i \<and> lw_file w i = None) \<and> lw_state w = st \<and>
     (\<forall>p. \<not> is_active (lw_process w p) \<and> (\<forall>n. lw_process w p \<noteq> Reclaiming n))"

lemma blocked_step:
  assumes "blocked st w" "lock_step cfg p a w = Some w'"
  shows "blocked st w'"
proof -
  from assms have "(\<exists>pc. w' = to_process p pc w \<and> \<not> is_active pc \<and> (\<forall>n. pc \<noteq> Reclaiming n))"
  proof (cases a)
    case Crash
    with assms(2) show ?thesis by (auto split: if_splits)
  qed (auto simp: blocked_def split: process.splits nat.splits if_splits option.splits; metis is_active_simps)+
  with assms(1) show ?thesis by (auto simp: blocked_def split: if_splits)
qed

lemma blocked_run: "blocked st w \<Longrightarrow> lock_run cfg steps w = Some w' \<Longrightarrow> blocked st w'"
  by (induction cfg steps w rule: lock_run.induct) (auto split: option.splits dest: blocked_step)

text \<open>
  A process that dies after it has created the lock file and before it has written its metadata
  leaves a file that nobody ever takes for stale: from then on, whatever the processes do, no process
  gets inside and the state never changes.
\<close>

theorem empty_lock_file_blocks:
  assumes "lw_entry w = Some i" "lw_file w i = None"
    and "\<And>p. \<not> is_active (lw_process w p)" "\<And>p n. lw_process w p \<noteq> Reclaiming n"
    and "lock_run cfg steps w = Some w'"
  shows "\<not> is_inside (lw_process w' p) \<and> lw_state w' = lw_state w"
proof -
  have "blocked (lw_state w) w" using assms(1-4) by (auto simp: blocked_def)
  then have "blocked (lw_state w) w'" using assms(5) by (rule blocked_run)
  then show ?thesis by (auto simp: blocked_def is_active_def)
qed

text \<open>Process 1 dies with the file created; process 2 tries, and gives up in the end.\<close>

definition orphan_begin :: "(nat \<times> lock_action) list" where
  "orphan_begin = [(1, Start), (1, OpenNew), (1, Crash)]"

lemma lock_step_frame: "lock_step cfg p a w = Some w' \<Longrightarrow> q \<noteq> p \<Longrightarrow> lw_process w' q = lw_process w q"
  by (cases a) (auto split: process.splits nat.splits if_splits option.splits)

lemma lock_run_frame:
  "lock_run cfg steps w = Some w' \<Longrightarrow> q \<notin> fst ` set steps \<Longrightarrow> lw_process w' q = lw_process w q"
  by (induction cfg steps w rule: lock_run.induct) (auto split: option.splits dest: lock_step_frame)

lemma orphan_run:
  "case lock_run one_machine orphan_begin (fresh_world empty_state) of
     Some w \<Rightarrow> lw_entry w = Some 0 \<and> lw_file w 0 = None \<and> lw_state w = empty_state \<and> lw_process w 1 = Crashed
   | None \<Rightarrow> False"
  by code_simp

theorem empty_lock_file_blocks_witness:
  "\<exists>w. lock_run one_machine orphan_begin (fresh_world empty_state) = Some w \<and>
     (\<forall>steps w' p. lock_run one_machine steps w = Some w' \<longrightarrow>
       \<not> is_inside (lw_process w' p) \<and> lw_state w' = empty_state)"
proof -
  from orphan_run obtain w where w: "lock_run one_machine orphan_begin (fresh_world empty_state) = Some w"
    and parts: "lw_entry w = Some 0" "lw_file w 0 = None" "lw_state w = empty_state" "lw_process w 1 = Crashed"
    by (auto split: option.splits)
  have "lw_process w p = (if p = 1 then Crashed else Outside)" for p
    using lock_run_frame [OF w, of p] parts(4) by (auto simp: orphan_begin_def fresh_world_def)
  then have "\<not> is_inside (lw_process w' p) \<and> lw_state w' = empty_state"
    if "lock_run one_machine steps w = Some w'" for steps w' p
    using empty_lock_file_blocks [OF parts(1,2) _ _ that] parts(3) by simp
  with w show ?thesis by blast
qed

text \<open>
  C27: A lock left by a process that died inside is recovered: a process on the same host with two
  attempts left, running alone, takes the stale file away and enters.
\<close>

theorem dead_owner_recovered:
  assumes "lw_process w p = Waiting (Suc (Suc n))" "lw_entry w = Some i" "lw_file w i = Some m"
    and "slm_host m = cfg_host cfg p" "slm_pid m \<noteq> p" "lw_process w (slm_pid m) = Crashed"
  shows "\<exists>w'. lock_run cfg [(p, OpenNew), (p, ReadMetadata now_ms), (p, RenameStale), (p, OpenNew),
    (p, WriteMetadata now_ms)] w = Some w' \<and> lw_process w' p = Entered \<and> lw_state w' = lw_state w"
proof -
  have "is_stale (observer_of cfg (to_process p (Seen (Suc n)) w) p now_ms) (cfg_ttl_ms cfg) m"
    using assms(4-6)
    by (simp add: is_stale_def stale_by_pid_def owner_alive_def process_is_alive_def observer_of_def)
  with assms(1-3) show ?thesis by simp
qed

definition dead_owner_begin :: "(nat \<times> lock_action) list" where
  "dead_owner_begin = [(1, Start), (1, OpenNew), (1, WriteMetadata 0), (1, Crash), (2, Start)]"

lemma dead_owner_run:
  "case lock_run one_machine dead_owner_begin (fresh_world empty_state) of
     Some w \<Rightarrow> lw_entry w = Some 0 \<and> lw_file w 0 = Some (current_metadata 1 ''h'' 0) \<and>
       lw_process w 1 = Crashed \<and> lw_process w 2 = Waiting (Suc (Suc 198))
   | None \<Rightarrow> False"
  by code_simp

theorem dead_owner_recovered_witness:
  "\<exists>w w'. lock_run one_machine dead_owner_begin (fresh_world empty_state) = Some w \<and>
     lock_run one_machine [(2, OpenNew), (2, ReadMetadata 9), (2, RenameStale), (2, OpenNew),
       (2, WriteMetadata 9)] w = Some w' \<and> lw_process w' 2 = Entered"
proof -
  from dead_owner_run obtain w
    where w: "lock_run one_machine dead_owner_begin (fresh_world empty_state) = Some w"
    and parts: "lw_entry w = Some 0" "lw_file w 0 = Some (current_metadata 1 ''h'' 0)"
      "lw_process w 1 = Crashed" "lw_process w 2 = Waiting (Suc (Suc 198))"
    by (auto split: option.splits)
  have "slm_host (current_metadata 1 ''h'' 0) = cfg_host one_machine 2"
    "slm_pid (current_metadata 1 ''h'' 0) \<noteq> 2"
    "lw_process w (slm_pid (current_metadata 1 ''h'' 0)) = Crashed"
    using parts(3) by (simp_all add: current_metadata_def one_machine_def)
  from dead_owner_recovered [OF parts(4,1,2) this] w show ?thesis by blast
qed

end
