(* ===== verification/SessionPlans.thy ===== *)
theory SessionPlans
  imports SessionLeases Diagnostics
begin

text \<open>
  Plans of patches of several sessions: \<open>detect_conflicts\<close> and \<open>validate_merge\<close> of
  \<open>src/session.rs\<close>, with the texts of its commands. Reading and decoding the plan and the patches,
  copying the project, applying a patch (\<open>src/patch_protocol.rs\<close>) and running the front end on the
  copy are arguments.
\<close>

section \<open>Patches and plans\<close>

record patch_param_spec =
  pps_name :: string
  pps_ty :: string

record patch_function_spec =
  pfs_name :: string
  pfs_params :: "patch_param_spec list"
  pfs_return_type :: string
  pfs_body :: string
  pfs_effects :: "string list"
  pfs_capabilities :: "string list"
  pfs_requires :: "string option"
  pfs_ensures :: "string option"

record patch_field_spec =
  pfd_name :: string
  pfd_ty :: string

datatype patch_operation =
    AddFunction "string option" "string option" patch_function_spec
  | ModifyMatchArm "string option" string nat string string
  | AddField "string option" string patch_field_spec

record patch_document =
  pd_operations :: "patch_operation list"

record session_plan_operation =
  spo_session_id :: string
  spo_operation_id :: string
  spo_patch :: string

record planned_operation =
  po_session_id :: string
  po_operation_id :: string
  po_patch_display :: string
  po_document :: patch_document
  po_symbols :: "session_symbol list"

record session_conflict =
  cf_kind :: string
  cf_symbol :: "session_symbol option"
  cf_sessions :: "string list"
  cf_operation_ids :: "string list"
  cf_patches :: "string list"
  cf_message :: string

record plan_analysis =
  pa_operations :: "planned_operation list"
  pa_conflicts :: "session_conflict list"

section \<open>The symbols that a patch touches\<close>

definition resolve_named_symbol ::
  "(string \<Rightarrow> string) \<Rightarrow> string \<Rightarrow> symbol_record list \<Rightarrow> query_symbol_kind \<Rightarrow> string \<Rightarrow> string option \<Rightarrow>
     session_symbol outcome" where
  "resolve_named_symbol canonical root symbols kind name target_file =
     (let target_name = str_trim name;
          expected_file = map_option (\<lambda>v. relativize_path canonical root (resolve_support_path root v)) target_file;
          candidates = sort_key (\<lambda>s. (srec_module s, sloc_file (srec_location s), sloc_span_start (srec_location s)))
            (filter (\<lambda>s. case expected_file of
                None \<Rightarrow> True
              | Some fl \<Rightarrow> relativize_path canonical root (sloc_file (srec_location s)) = fl)
              (filter (\<lambda>s. srec_kind s = kind \<and> srec_name s = target_name) symbols))
      in if target_name = [] then Inl (query_symbol_kind_as_str kind @ '' target name must not be empty'')
         else case candidates of
           [] \<Rightarrow> Inl (''unable to resolve '' @ query_symbol_kind_as_str kind @ '' '' @ in_backticks target_name @
             (case expected_file of Some fl \<Rightarrow> '' in '' @ fl | None \<Rightarrow> []))
         | [s] \<Rightarrow> Inr (symbol_to_session_symbol canonical root s)
         | many \<Rightarrow> Inl (''ambiguous '' @ query_symbol_kind_as_str kind @ '' '' @ in_backticks target_name @ '' across '' @
             join_with '', '' (map (\<lambda>s. display_path canonical (sloc_file (srec_location s))) many)))"

definition synthetic_add_function_symbol ::
  "(string \<Rightarrow> string) \<Rightarrow> string \<Rightarrow> symbol_record list \<Rightarrow> string \<Rightarrow> string option \<Rightarrow> string option \<Rightarrow>
     session_symbol outcome" where
  "synthetic_add_function_symbol canonical root symbols raw_name target_file after_symbol =
     (let function_name = str_trim raw_name in
      if function_name = [] then Inl ''add_function requires non-empty function.name''
      else and_then
        (case target_file of
           Some fl \<Rightarrow> Inr (relativize_path canonical root (resolve_support_path root fl))
         | None \<Rightarrow>
             (case after_symbol of
                Some after \<Rightarrow>
                  and_then (resolve_named_symbol canonical root symbols SymFunction after None) (\<lambda>s.
                    case ss_file s of
                      Some fl \<Rightarrow> Inr fl
                    | None \<Rightarrow> Inl (''unable to resolve file for after_symbol '' @ in_backticks after))
              | None \<Rightarrow> Inr (relativize_path canonical root (path_join root ''src/main.aic''))))
        (\<lambda>fl. Inr \<lparr>ss_key = ''pending:function:'' @ fl @ '':'' @ function_name, ss_kind = ''function'',
           ss_name = function_name, ss_module = None, ss_file = Some fl, ss_span_start = None,
           ss_span_end = None, ss_synthetic = True\<rparr>))"

fun touched_symbol ::
  "(string \<Rightarrow> string) \<Rightarrow> string \<Rightarrow> symbol_record list \<Rightarrow> patch_operation \<Rightarrow> session_symbol outcome" where
  "touched_symbol canonical root symbols (ModifyMatchArm target_file target_function _ _ _) =
     resolve_named_symbol canonical root symbols SymFunction target_function target_file"
| "touched_symbol canonical root symbols (AddField target_file target_struct _) =
     resolve_named_symbol canonical root symbols SymStruct target_struct target_file"
| "touched_symbol canonical root symbols (AddFunction target_file after_symbol f) =
     synthetic_add_function_symbol canonical root symbols (str_trim (pfs_name f)) target_file after_symbol"

text \<open>\<open>dedup_by\<close> on a key keeps the first of equal neighbours.\<close>

fun dedup_key :: "('a \<Rightarrow> 'b) \<Rightarrow> 'a list \<Rightarrow> 'a list" where
  "dedup_key f (x # y # xs) = (if f y = f x then dedup_key f (x # xs) else x # dedup_key f (y # xs))"
| "dedup_key f xs = xs"

definition touched_symbols_for_document ::
  "(string \<Rightarrow> string) \<Rightarrow> string \<Rightarrow> symbol_record list \<Rightarrow> patch_document \<Rightarrow> session_symbol list outcome" where
  "touched_symbols_for_document canonical root symbols document =
     and_then (collect_results (touched_symbol canonical root symbols) (pd_operations document)) (\<lambda>touched.
       Inr (dedup_key ss_key (sort_key ss_key touched)))"

section \<open>The analysis of a plan\<close>

text \<open>What the commands read besides the state: the plan and the patches, by path.\<close>

record plan_files =
  pf_plan :: "string \<Rightarrow> session_plan_operation list file_content"
  pf_patch :: "string \<Rightarrow> patch_document outcome"

definition read_plan_document ::
  "plan_files \<Rightarrow> string \<Rightarrow> session_plan_operation list outcome" where
  "read_plan_document fs plan_path =
     (case pf_plan fs plan_path of
        Absent \<Rightarrow> Inl (''failed to read session plan '' @ plan_path)
      | Unreadable _ \<Rightarrow> Inl (''failed to read session plan '' @ plan_path)
      | Undecodable _ \<Rightarrow> Inl (''failed to parse session plan '' @ plan_path)
      | Stored ops \<Rightarrow>
          if ops = [] then Inl ''session plan must contain at least one operation'' else Inr ops)"

definition operation_conflict :: "string \<Rightarrow> string \<Rightarrow> string \<Rightarrow> string \<Rightarrow> string \<Rightarrow> session_conflict" where
  "operation_conflict kind session_id operation_id patch_display message =
     \<lparr>cf_kind = kind, cf_symbol = None, cf_sessions = [session_id], cf_operation_ids = [operation_id],
      cf_patches = [patch_display], cf_message = message\<rparr>"

text \<open>One entry of the plan: the operation that is planned, or the conflict that rules it out.\<close>

definition plan_entry ::
  "session_env \<Rightarrow> plan_files \<Rightarrow> string list \<Rightarrow> symbol_record list \<Rightarrow> session_plan_operation \<Rightarrow>
     session_conflict + planned_operation" where
  "plan_entry env fs known_ids symbols item =
     (let session_id = str_trim (spo_session_id item);
          operation_id = str_trim (spo_operation_id item);
          patch_path = resolve_support_path (env_root env) (spo_patch item);
          patch_display = display_path (env_canonical env) patch_path
      in if session_id = [] \<or> operation_id = [] then
           Inl (operation_conflict ''invalid_operation'' session_id operation_id patch_display
             ''session plan entries require non-empty session_id and operation_id'')
         else if session_id \<notin> set known_ids then
           Inl (operation_conflict ''unknown_session'' session_id operation_id patch_display
             (''session '' @ in_backticks session_id @ '' does not exist''))
         else case pf_patch fs patch_path of
           Inl err \<Rightarrow> Inl (operation_conflict ''patch_document'' session_id operation_id patch_display err)
         | Inr document \<Rightarrow>
             (case touched_symbols_for_document (env_canonical env) (env_root env) symbols document of
                Inl err \<Rightarrow> Inl (operation_conflict ''symbol_resolution'' session_id operation_id patch_display err)
              | Inr touched \<Rightarrow>
                  Inr \<lparr>po_session_id = session_id, po_operation_id = operation_id,
                    po_patch_display = patch_display, po_document = document, po_symbols = touched\<rparr>))"

fun lefts :: "('a + 'b) list \<Rightarrow> 'a list" where
  "lefts [] = []"
| "lefts (Inl x # xs) = x # lefts xs"
| "lefts (Inr _ # xs) = lefts xs"

fun rights :: "('a + 'b) list \<Rightarrow> 'b list" where
  "rights [] = []"
| "rights (Inl _ # xs) = rights xs"
| "rights (Inr y # xs) = y # rights xs"

text \<open>The map from keys of symbols to the operations that touch them.\<close>

definition add_operation ::
  "planned_operation \<Rightarrow> (string, planned_operation list) btree_map \<Rightarrow> (string, planned_operation list) btree_map" where
  "add_operation op m =
     fold (\<lambda>key m. bt_insert key ((case bt_get m key of Some ops \<Rightarrow> ops | None \<Rightarrow> []) @ [op]) m)
       (bs_collect (map ss_key (po_symbols op))) m"

definition by_symbol :: "planned_operation list \<Rightarrow> (string, planned_operation list) btree_map" where
  "by_symbol ops = fold add_operation ops []"

text \<open>\<open>find_map\<close>\<close>

definition symbol_of_key :: "string \<Rightarrow> planned_operation list \<Rightarrow> session_symbol option" where
  "symbol_of_key key ops =
     (case List.map_filter (\<lambda>op. find (\<lambda>s. ss_key s = key) (po_symbols op)) ops of
        [] \<Rightarrow> None | s # _ \<Rightarrow> Some s)"

definition overlap_conflicts :: "(string, planned_operation list) btree_map \<Rightarrow> session_conflict list" where
  "overlap_conflicts m =
     List.map_filter (\<lambda>(key, ops).
       if length (bs_collect (map po_session_id ops)) \<le> 1 then None
       else Some \<lparr>cf_kind = ''symbol_overlap'', cf_symbol = symbol_of_key key ops,
         cf_sessions = bs_collect (map po_session_id ops), cf_operation_ids = map po_operation_id ops,
         cf_patches = map po_patch_display ops,
         cf_message = ''multiple sessions modify the same symbol '' @ key\<rparr>) m"

definition lock_conflict ::
  "session_state \<Rightarrow> u64 \<Rightarrow> planned_operation \<Rightarrow> session_symbol \<Rightarrow> session_conflict option" where
  "lock_conflict st now_ms op s =
     (if ss_synthetic s then None
      else case find (\<lambda>l. lk_key l = ss_key s \<and> \<not> lock_is_expired l now_ms) (ses_locks st) of
        Some l \<Rightarrow>
          if lk_session_id l = po_session_id op then None
          else Some \<lparr>cf_kind = ''lock_ownership'', cf_symbol = Some s,
            cf_sessions = [po_session_id op, lk_session_id l], cf_operation_ids = [po_operation_id op],
            cf_patches = [po_patch_display op],
            cf_message = ''session '' @ in_backticks (po_session_id op) @ '' cannot merge changes for '' @
              ss_key s @ '' while lock is owned by '' @ in_backticks (lk_session_id l)\<rparr>
      | None \<Rightarrow>
          Some \<lparr>cf_kind = ''lock_missing'', cf_symbol = Some s, cf_sessions = [po_session_id op],
            cf_operation_ids = [po_operation_id op], cf_patches = [po_patch_display op],
            cf_message = ''session '' @ in_backticks (po_session_id op) @
              '' does not hold an active lock for '' @ ss_key s\<rparr>)"

definition lock_conflicts :: "session_state \<Rightarrow> u64 \<Rightarrow> planned_operation list \<Rightarrow> session_conflict list" where
  "lock_conflicts st now_ms ops =
     concat (map (\<lambda>op. List.map_filter (lock_conflict st now_ms op) (po_symbols op)) ops)"

definition analyze_plan ::
  "session_env \<Rightarrow> plan_files \<Rightarrow> session_state file_content \<Rightarrow> string \<Rightarrow> bool \<Rightarrow> u64 \<Rightarrow> plan_analysis outcome" where
  "analyze_plan env fs content plan_path enforce_locks now_ms =
     and_then (load_state (env_root env) content) (\<lambda>st.
     and_then (env_symbols env) (\<lambda>symbols.
     and_then (read_plan_document fs plan_path) (\<lambda>items.
       let entries = map (plan_entry env fs (bs_collect (map st_id (ses_sessions st))) symbols) items;
           ops = sort_key (\<lambda>op. (po_session_id op, po_operation_id op, po_patch_display op)) (rights entries);
           conflicts = lefts entries @ overlap_conflicts (by_symbol ops) @
             (if enforce_locks then lock_conflicts st now_ms ops else [])
       in Inr \<lparr>pa_operations = ops,
         pa_conflicts = sort_key (\<lambda>c. (cf_kind c, cf_sessions c, cf_operation_ids c,
           map_option ss_key (cf_symbol c))) conflicts\<rparr>)))"

section \<open>The commands on plans\<close>

record session_operation_summary =
  sos_session_id :: string
  sos_operation_id :: string
  sos_patch :: string
  sos_symbols :: "session_symbol list"

record session_conflict_response =
  scf_protocol_version :: string
  scf_phase :: string
  scf_command :: string
  scf_plan :: string
  scf_ok :: bool
  scf_operations :: "session_operation_summary list"
  scf_conflicts :: "session_conflict list"

record session_merge_response =
  smr_protocol_version :: string
  smr_phase :: string
  smr_command :: string
  smr_plan :: string
  smr_ok :: bool
  smr_valid :: bool
  smr_entry :: string
  smr_merged_files :: "string list"
  smr_operations :: "session_operation_summary list"
  smr_conflicts :: "session_conflict list"
  smr_diagnostics :: "diagnostic list"

definition summarize_operations :: "planned_operation list \<Rightarrow> session_operation_summary list" where
  "summarize_operations ops =
     map (\<lambda>op. \<lparr>sos_session_id = po_session_id op, sos_operation_id = po_operation_id op,
       sos_patch = po_patch_display op, sos_symbols = po_symbols op\<rparr>) ops"

definition detect_conflicts ::
  "session_env \<Rightarrow> plan_files \<Rightarrow> session_state file_content \<Rightarrow> string \<Rightarrow> u64 \<Rightarrow> session_conflict_response outcome" where
  "detect_conflicts env fs content plan_path now_ms =
     and_then (analyze_plan env fs content plan_path False now_ms) (\<lambda>plan. Inr
       \<lparr>scf_protocol_version = CLI_CONTRACT_VERSION, scf_phase = SESSION_PHASE, scf_command = ''conflicts'',
        scf_plan = display_path (env_canonical env) plan_path, scf_ok = (pa_conflicts plan = []),
        scf_operations = summarize_operations (pa_operations plan), scf_conflicts = pa_conflicts plan\<rparr>)"

text \<open>
  The copy of the project, of a type \<open>'t\<close>: how it is made, what applying a patch to it gives (whether
  it succeeded, the files changed, the messages of its conflicts), the entry file that its manifest
  names, which files exist, and what the front end reports on it.
\<close>

record patch_result =
  pr_ok :: bool
  pr_files_changed :: "string list"
  pr_conflict_messages :: "string list"

record 't merge_env =
  me_copy :: "'t outcome"
  me_temp_root :: string
  me_apply :: "patch_document \<Rightarrow> 't \<Rightarrow> (patch_result \<times> 't) outcome"
  me_manifest_main :: "'t \<Rightarrow> string option outcome"
  me_exists :: "'t \<Rightarrow> string \<Rightarrow> bool"
  me_frontend :: "'t \<Rightarrow> string \<Rightarrow> bool \<Rightarrow> diagnostic list outcome"

definition has_errors :: "diagnostic list \<Rightarrow> bool" where
  "has_errors diags = list_ex (\<lambda>d. d_severity d = SevError) diags"

definition resolve_merge_entry :: "'t merge_env \<Rightarrow> 't \<Rightarrow> string outcome" where
  "resolve_merge_entry me tree =
     and_then (me_manifest_main me tree) (\<lambda>main.
       case main of
         Some path \<Rightarrow> Inr (path_join (me_temp_root me) path)
       | None \<Rightarrow>
           let fallback = path_join (me_temp_root me) ''src/main.aic'' in
           if me_exists me tree fallback then Inr fallback
           else Inl (''unable to resolve merge entrypoint under '' @ me_temp_root me))"

text \<open>The loop over the operations, with the set of merged files and the conflicts.\<close>

fun apply_operations ::
  "session_env \<Rightarrow> 't merge_env \<Rightarrow> planned_operation list \<Rightarrow> 't \<Rightarrow> string list \<Rightarrow> session_conflict list \<Rightarrow>
     ('t \<times> string list \<times> session_conflict list) outcome" where
  "apply_operations env me [] tree merged conflicts = Inr (tree, merged, conflicts)"
| "apply_operations env me (op # ops) tree merged conflicts =
     and_then (me_apply me (po_document op) tree) (\<lambda>(response, tree').
       if pr_ok response then
         apply_operations env me ops tree'
           (fold bs_insert (map (relativize_path (env_canonical env) (me_temp_root me))
             (pr_files_changed response)) merged) conflicts
       else
         apply_operations env me ops tree' merged (conflicts @
           [\<lparr>cf_kind = ''patch_conflict'',
             cf_symbol = (case po_symbols op of [] \<Rightarrow> None | s # _ \<Rightarrow> Some s),
             cf_sessions = [po_session_id op], cf_operation_ids = [po_operation_id op],
             cf_patches = [po_patch_display op],
             cf_message = join_with ''; '' (pr_conflict_messages response)\<rparr>]))"

definition rejected_merge ::
  "string \<Rightarrow> string list \<Rightarrow> session_operation_summary list \<Rightarrow> session_conflict list \<Rightarrow> session_merge_response" where
  "rejected_merge plan merged_files operations conflicts =
     \<lparr>smr_protocol_version = CLI_CONTRACT_VERSION, smr_phase = SESSION_PHASE, smr_command = ''merge'',
      smr_plan = plan, smr_ok = False, smr_valid = False, smr_entry = [], smr_merged_files = merged_files,
      smr_operations = operations, smr_conflicts = conflicts, smr_diagnostics = []\<rparr>"

definition validate_merge ::
  "session_env \<Rightarrow> plan_files \<Rightarrow> 't merge_env \<Rightarrow> session_state file_content \<Rightarrow> string \<Rightarrow> bool \<Rightarrow> u64 \<Rightarrow>
     session_merge_response outcome" where
  "validate_merge env fs me content plan_path offline now_ms =
     and_then (analyze_plan env fs content plan_path True now_ms) (\<lambda>plan.
       let plan_text = display_path (env_canonical env) plan_path;
           operations = summarize_operations (pa_operations plan)
       in if pa_conflicts plan \<noteq> [] then Inr (rejected_merge plan_text [] operations (pa_conflicts plan))
          else and_then (me_copy me) (\<lambda>tree.
            and_then (apply_operations env me (pa_operations plan) tree [] []) (\<lambda>(tree', merged, conflicts).
              if conflicts \<noteq> [] then Inr (rejected_merge plan_text merged operations conflicts)
              else and_then (resolve_merge_entry me tree') (\<lambda>entry.
                and_then (me_frontend me tree' entry offline) (\<lambda>diagnostics. Inr
                  \<lparr>smr_protocol_version = CLI_CONTRACT_VERSION, smr_phase = SESSION_PHASE,
                   smr_command = ''merge'', smr_plan = plan_text, smr_ok = (\<not> has_errors diagnostics),
                   smr_valid = (\<not> has_errors diagnostics),
                   smr_entry = relativize_path (env_canonical env) (me_temp_root me) entry,
                   smr_merged_files = merged, smr_operations = operations, smr_conflicts = conflicts,
                   smr_diagnostics = diagnostics\<rparr>)))))"

section \<open>Texts\<close>

definition in_parens :: "string \<Rightarrow> string" where
  "in_parens s = ''('' @ s @ '')''"

definition lines_text :: "string list \<Rightarrow> string" where
  "lines_text ls = join_with [CHR 10] ls"

definition u64_str :: "u64 \<Rightarrow> string" where
  "u64_str n = nat_str (unat n)"

definition format_create_text :: "session_create_response \<Rightarrow> string" where
  "format_create_text r =
     lines_text ([''session create: '' @ sum_id (scr_session r)] @
       (case sum_label (scr_session r) of Some l \<Rightarrow> [''label: '' @ l] | None \<Rightarrow> []) @
       [''created_ms: '' @ u64_str (sum_created_ms (scr_session r))])"

definition expired_mark :: "bool \<Rightarrow> string" where
  "expired_mark b = (if b then '' [expired]'' else [])"

definition format_list_text :: "session_list_response \<Rightarrow> string" where
  "format_list_text r =
     lines_text ([''session list: '' @ nat_str (length (slist_sessions r)) @ '' session(s)''] @
       map (\<lambda>s. ''  '' @ sum_id s @ (case sum_label s of Some l \<Rightarrow> '' '' @ in_parens l | None \<Rightarrow> []) @
         '' locks='' @ nat_str (sum_active_locks s) @ '' created_ms='' @ u64_str (sum_created_ms s))
         (slist_sessions r) @
       (if slist_locks r = [] then [''locks: none'']
        else (''locks ('' @ nat_str (length (slist_locks r)) @ ''):'') #
          map (\<lambda>v. ''  '' @ ss_key (lv_target v) @ '' -> '' @ lv_session_id v @ '' expires='' @
            u64_str (lv_expires_ms v) @ expired_mark (lv_expired v)) (slist_locks r)))"

definition format_lock_text :: "session_lock_response \<Rightarrow> string" where
  "format_lock_text r =
     lines_text ([''session lock '' @ slr_action r @ '': '' @ (if slr_ok r then ''ok'' else ''denied''),
       ''session: '' @ slr_session_id r, ''target: '' @ ss_key (slr_target r), ''message: '' @ slr_message r] @
       (case slr_lock r of
          Some v \<Rightarrow> [''lease: owner='' @ lv_session_id v @ '' acquired='' @ u64_str (lv_acquired_ms v) @
            '' expires='' @ u64_str (lv_expires_ms v) @ expired_mark (lv_expired v)]
        | None \<Rightarrow> []))"

definition format_conflicts_text :: "session_conflict_response \<Rightarrow> string" where
  "format_conflicts_text r =
     lines_text ([''session conflicts: '' @ (if scf_ok r then ''none'' else ''detected''),
       ''operations: '' @ nat_str (length (scf_operations r))] @
       (if scf_conflicts r = [] then [''conflicts: none'']
        else (''conflicts ('' @ nat_str (length (scf_conflicts r)) @ ''):'') #
          map (\<lambda>c. ''  ['' @ cf_kind c @ ''] '' @
            (case cf_symbol c of Some s \<Rightarrow> ss_key s | None \<Rightarrow> ''<none>'') @ '' sessions='' @
            join_with '','' (cf_sessions c) @ '' ops='' @ join_with '','' (cf_operation_ids c))
            (scf_conflicts r)))"

definition format_merge_text :: "session_merge_response \<Rightarrow> string" where
  "format_merge_text r =
     lines_text ([''session merge: '' @ (if smr_valid r then ''valid'' else ''rejected'')] @
       (if smr_entry r = [] then [] else [''entry: '' @ smr_entry r]) @
       (if smr_merged_files r = [] then [] else [''files: '' @ join_with '', '' (smr_merged_files r)]) @
       (if smr_conflicts r = [] then [] else [''conflicts: '' @ nat_str (length (smr_conflicts r))]) @
       (if smr_diagnostics r = [] then [] else [''diagnostics: '' @ nat_str (length (smr_diagnostics r))]))"

section \<open>A plan without conflicts\<close>

lemma lefts_Nil: "lefts xs = [] \<longleftrightarrow> (\<forall>x \<in> set xs. \<exists>y. x = Inr y)"
  by (induction xs rule: lefts.induct) auto

lemma length_rights: "lefts xs = [] \<Longrightarrow> length (rights xs) = length xs"
  by (induction xs rule: lefts.induct) auto

lemma in_rights: "y \<in> set (rights xs) \<longleftrightarrow> Inr y \<in> set xs"
  by (induction xs rule: rights.induct) auto

lemma get_add_keys:
  "distinct keys \<Longrightarrow>
   bt_get (fold (\<lambda>key m. bt_insert key ((case bt_get m key of Some ops \<Rightarrow> ops | None \<Rightarrow> []) @ [op]) m) keys m) k =
     (if k \<in> set keys then Some ((case bt_get m k of Some ops \<Rightarrow> ops | None \<Rightarrow> []) @ [op]) else bt_get m k)"
  by (induction keys arbitrary: m) (auto simp: map_of_bt_insert)

lemma wf_add_keys:
  "bt_wf m \<Longrightarrow>
   bt_wf (fold (\<lambda>key m. bt_insert key ((case bt_get m key of Some ops \<Rightarrow> ops | None \<Rightarrow> []) @ [op]) m) keys m)"
  by (induction keys arbitrary: m) (auto simp: bt_wf_insert)

definition touches :: "planned_operation \<Rightarrow> string \<Rightarrow> bool" where
  "touches op key \<longleftrightarrow> key \<in> ss_key ` set (po_symbols op)"

lemma get_add_operation:
  "bt_get (add_operation op m) k =
     (if touches op k then Some ((case bt_get m k of Some ops \<Rightarrow> ops | None \<Rightarrow> []) @ [op]) else bt_get m k)"
  using bs_wf_collect [of "map ss_key (po_symbols op)"]
  by (simp add: add_operation_def touches_def get_add_keys bs_wf_def)

lemma by_symbol_wf: "bt_wf (by_symbol ops)"
proof -
  have "bt_wf m \<Longrightarrow> bt_wf (fold add_operation ops m)" for m
    by (induction ops arbitrary: m) (simp_all add: add_operation_def wf_add_keys)
  then show ?thesis by (simp add: by_symbol_def bt_wf_def)
qed

lemma get_by_symbol:
  "bt_get (by_symbol ops) k =
     (if filter (\<lambda>op. touches op k) ops = [] then None else Some (filter (\<lambda>op. touches op k) ops))"
proof -
  have "bt_get (fold add_operation ops m) k =
      (if filter (\<lambda>op. touches op k) ops = [] then bt_get m k
       else Some ((case bt_get m k of Some os \<Rightarrow> os | None \<Rightarrow> []) @ filter (\<lambda>op. touches op k) ops))" for m
    by (induction ops arbitrary: m) (auto simp: get_add_operation split: option.splits)
  from this [of "[]"] show ?thesis by (simp add: by_symbol_def)
qed

lemma bs_collect_single: "length (bs_collect xs) \<le> 1 \<longleftrightarrow> (\<forall>x \<in> set xs. \<forall>y \<in> set xs. x = y)"
proof -
  from bs_wf_collect [of xs] have "length (bs_collect xs) = card (set xs)"
    by (metis bs_wf_def distinct_card set_bs_collect)
  with card_le_Suc0_iff_eq [of "set xs"] show ?thesis by simp
qed

lemma overlap_conflicts_Nil:
  "overlap_conflicts (by_symbol ops) = [] \<longleftrightarrow>
     (\<forall>a \<in> set ops. \<forall>b \<in> set ops. \<forall>k. touches a k \<longrightarrow> touches b k \<longrightarrow> po_session_id a = po_session_id b)"
proof -
  have "distinct (map fst (by_symbol ops))" using by_symbol_wf bt.keys_distinct by blast
  note at = map_of_eq_Some_iff [OF this, symmetric]
  have entry: "(k, v) \<in> set (by_symbol ops) \<longleftrightarrow> v = filter (\<lambda>op. touches op k) ops \<and> v \<noteq> []" for k v
    unfolding at get_by_symbol by auto
  have "overlap_conflicts (by_symbol ops) = [] \<longleftrightarrow>
      (\<forall>(k, v) \<in> set (by_symbol ops). length (bs_collect (map po_session_id v)) \<le> 1)"
    by (auto simp: overlap_conflicts_def List.map_filter_def filter_empty_conv split: if_splits)
  also have "\<dots> \<longleftrightarrow> (\<forall>k v. (k, v) \<in> set (by_symbol ops) \<longrightarrow> length (bs_collect (map po_session_id v)) \<le> 1)"
    by auto
  also have "\<dots> \<longleftrightarrow> (\<forall>k. length (bs_collect (map po_session_id (filter (\<lambda>op. touches op k) ops))) \<le> 1)"
  proof -
    have "length (bs_collect (map po_session_id [])) \<le> 1" by (simp add: bs_collect_def)
    then show ?thesis unfolding entry by (metis (no_types, lifting))
  qed
  finally show ?thesis unfolding bs_collect_single by auto
qed

lemma lock_conflicts_Nil:
  "session_ok st \<Longrightarrow> lock_conflicts st now_ms ops = [] \<longleftrightarrow>
     (\<forall>op \<in> set ops. \<forall>s \<in> set (po_symbols op). \<not> ss_synthetic s \<longrightarrow>
        (\<exists>l. held st (ss_key s) = Some l \<and> \<not> lock_is_expired l now_ms \<and> lk_session_id l = po_session_id op))"
proof -
  assume ok: "session_ok st"
  have found: "find (\<lambda>l. lk_key l = k \<and> \<not> lock_is_expired l now_ms) (ses_locks st) =
      (case held st k of Some l \<Rightarrow> if lock_is_expired l now_ms then None else Some l | None \<Rightarrow> None)" for k
  proof (rule option_eqI)
    fix l
    have "find (\<lambda>l. lk_key l = k \<and> \<not> lock_is_expired l now_ms) (ses_locks st) = Some l \<longleftrightarrow>
        held st k = Some l \<and> \<not> lock_is_expired l now_ms"
    proof
      assume "find (\<lambda>l. lk_key l = k \<and> \<not> lock_is_expired l now_ms) (ses_locks st) = Some l"
      then show "held st k = Some l \<and> \<not> lock_is_expired l now_ms"
        by (auto simp: find_Some_iff held_iff [OF ok])
    next
      assume l: "held st k = Some l \<and> \<not> lock_is_expired l now_ms"
      then have "l \<in> set (ses_locks st)" "lk_key l = k" by (simp_all add: held_iff [OF ok])
      with l have "find (\<lambda>l. lk_key l = k \<and> \<not> lock_is_expired l now_ms) (ses_locks st) \<noteq> None"
        by (auto simp: find_None_iff)
      then obtain l' where l': "find (\<lambda>l. lk_key l = k \<and> \<not> lock_is_expired l now_ms) (ses_locks st) = Some l'"
        by blast
      then have "held st k = Some l'" by (auto simp: find_Some_iff held_iff [OF ok])
      with l l' show "find (\<lambda>l. lk_key l = k \<and> \<not> lock_is_expired l now_ms) (ses_locks st) = Some l" by simp
    qed
    then show "(find (\<lambda>l. lk_key l = k \<and> \<not> lock_is_expired l now_ms) (ses_locks st) = Some l) =
        ((case held st k of Some l \<Rightarrow> if lock_is_expired l now_ms then None else Some l | None \<Rightarrow> None) = Some l)"
      by (auto split: option.splits)
  qed
  have "lock_conflict st now_ms op s = None \<longleftrightarrow> ss_synthetic s \<or>
      (\<exists>l. held st (ss_key s) = Some l \<and> \<not> lock_is_expired l now_ms \<and> lk_session_id l = po_session_id op)" for op s
    by (auto simp: lock_conflict_def found split: option.splits)
  then show ?thesis
    by (auto simp: lock_conflicts_def List.map_filter_def filter_empty_conv)
qed


text \<open>The plan of session 1 to change an arm in the function that it has locked.\<close>

definition demo_files :: plan_files where
  "demo_files =
     \<lparr>pf_plan = (\<lambda>_. Stored [\<lparr>spo_session_id = ''sess-0001'', spo_operation_id = ''op'', spo_patch = ''a.json''\<rparr>]),
      pf_patch = (\<lambda>_. Inr \<lparr>pd_operations = [ModifyMatchArm None ''f'' 0 ''Err(e)'' ''0'']\<rparr>)\<rparr>"

lemma demo_plan:
  "case analyze_plan demo_env demo_files (Stored demo_state) ''plan.json'' True 1005 of
     Inr plan \<Rightarrow> pa_conflicts plan = [] \<and> map po_symbols (pa_operations plan) = [[demo_target]]
   | Inl _ \<Rightarrow> False"
  by code_simp


end
