(* ===== verification/Resolver.thy ===== *)
theory Resolver
  imports Effects "HOL-Library.Product_Lexorder"
begin

text \<open>
  Name resolution: \<open>src/resolver.rs\<close>. The mutable maps of
  \<open>resolve_with_item_modules_imports_and_files\<close> are the fields of a record; a step on an item is a
  function from this record to the next one, and \<open>None\<close> where \<open>Diagnostic::error\<close> panics on an
  unregistered code.
\<close>

section \<open>Maps of sets\<close>

type_synonym string_set = "string list"
type_synonym 'v name_map = "(string, 'v) btree_map"
type_synonym 'v module_map = "(string \<times> string, 'v) btree_map"

definition bt_has :: "('k, 'v) btree_map \<Rightarrow> 'k \<Rightarrow> bool" where
  "bt_has m k = (map_of m k \<noteq> None)"

text \<open>\<open>entry(k).or_insert(v)\<close>\<close>

definition bt_or_insert :: "'k::linorder \<Rightarrow> 'v \<Rightarrow> ('k, 'v) btree_map \<Rightarrow> ('k, 'v) btree_map" where
  "bt_or_insert k v m = (if bt_has m k then m else bt_insert k v m)"

text \<open>\<open>get(k).cloned().unwrap_or_default()\<close> on a map of sets, and \<open>entry(k).or_default().insert(x)\<close>.\<close>

definition bt_members :: "('k, 'a list) btree_map \<Rightarrow> 'k \<Rightarrow> 'a list" where
  "bt_members m k = (case map_of m k of Some s \<Rightarrow> s | None \<Rightarrow> [])"

definition bt_add ::
  "'k::linorder \<Rightarrow> 'a::linorder \<Rightarrow> ('k, 'a list) btree_map \<Rightarrow> ('k, 'a list) btree_map" where
  "bt_add k x m = bt_insert k (bs_insert x (bt_members m k)) m"

definition bt_remove :: "'k \<Rightarrow> ('k, 'v) btree_map \<Rightarrow> ('k, 'v) btree_map" where
  "bt_remove k m = filter (\<lambda>(k', _). k' \<noteq> k) m"

lemma bt_has_insert [simp]: "bt_has (bt_insert k v m) k' \<longleftrightarrow> k' = k \<or> bt_has m k'"
  by (simp add: bt_has_def map_of_bt_insert)

lemma bt_get_or_insert:
  "map_of (bt_or_insert k v m) k' =
     (if k' = k then Some (case map_of m k of Some w \<Rightarrow> w | None \<Rightarrow> v) else map_of m k')"
  by (auto simp: bt_or_insert_def bt_has_def map_of_bt_insert)

lemma bt_has_or_insert [simp]: "bt_has (bt_or_insert k v m) k' \<longleftrightarrow> k' = k \<or> bt_has m k'"
  by (simp add: bt_has_def bt_get_or_insert)

lemma bt_members_Nil [simp]: "bt_members [] k = []"
  by (simp add: bt_members_def)

lemma bt_members_add:
  "bt_members (bt_add k x m) k' = (if k' = k then bs_insert x (bt_members m k) else bt_members m k')"
  by (simp add: bt_add_def bt_members_def map_of_bt_insert)

lemma in_bt_add [simp]:
  "y \<in> set (bt_members (bt_add k x m) k') \<longleftrightarrow> k' = k \<and> y = x \<or> y \<in> set (bt_members m k')"
  by (auto simp: bt_members_add)

lemma map_of_bt_remove: "map_of (bt_remove k m) k' = (if k' = k then None else map_of m k')"
  by (induction m) (auto simp: bt_remove_def)

section \<open>Infos of declarations\<close>

definition RESOLVER_ROOT :: string where
  "RESOLVER_ROOT = ''<root>''"

record function_info =
  fi_symbol :: symbol_id
  fi_visibility :: visibility
  fi_is_async :: bool
  fi_is_unsafe :: bool
  fi_is_extern :: bool
  fi_extern_abi :: "string option"
  fi_generics :: "string list"
  fi_generic_bounds :: "string list name_map"
  fi_param_names :: "string list"
  fi_param_types :: "type_id list"
  fi_ret_type :: type_id
  fi_effects :: string_set
  fi_capabilities :: string_set
  fi_span :: span

record struct_info =
  sti_symbol :: symbol_id
  sti_module :: string
  sti_visibility :: visibility
  sti_generics :: "string list"
  sti_fields :: "type_id name_map"
  sti_field_visibility :: "visibility name_map"
  sti_default_fields :: string_set
  sti_invariant :: "ir_expr option"
  sti_span :: span

record enum_info =
  eni_symbol :: symbol_id
  eni_module :: string
  eni_visibility :: visibility
  eni_generics :: "string list"
  eni_variants :: "type_id option name_map"
  eni_span :: span

record trait_info =
  tri_symbol :: symbol_id
  tri_module :: string
  tri_visibility :: visibility
  tri_generics :: "string list"
  tri_methods :: "function_info name_map"
  tri_span :: span

record resolution =
  rs_functions :: "function_info name_map"
  rs_module_function_infos :: "function_info module_map"
  rs_module_struct_infos :: "struct_info module_map"
  rs_module_enum_infos :: "enum_info module_map"
  rs_structs :: "struct_info name_map"
  rs_enums :: "enum_info name_map"
  rs_traits :: "trait_info name_map"
  rs_trait_impls :: "string_set name_map"
  rs_imports :: string_set
  rs_module_imports :: "string_set name_map"
  rs_entry_module :: "string option"
  rs_function_modules :: "string_set name_map"
  rs_struct_modules :: "string_set name_map"
  rs_enum_modules :: "string_set name_map"
  rs_module_functions :: "string_set name_map"
  rs_module_exported_functions :: "string_set name_map"
  rs_module_exported_structs :: "string_set name_map"
  rs_module_exported_enums :: "string_set name_map"
  rs_visible_functions :: string_set
  rs_import_aliases :: "string name_map"
  rs_ambiguous_import_aliases :: string_set
  rs_module_import_aliases :: "string name_map name_map"
  rs_module_ambiguous_import_aliases :: "string_set name_map"

definition generic_names :: "ir_generic_param list \<Rightarrow> string list" where
  "generic_names gs = map igp_name gs"

definition function_info_for :: "ir_function \<Rightarrow> function_info" where
  "function_info_for f =
     \<lparr>fi_symbol = if_symbol f, fi_visibility = if_visibility f, fi_is_async = if_is_async f,
      fi_is_unsafe = if_is_unsafe f, fi_is_extern = if_is_extern f, fi_extern_abi = if_extern_abi f,
      fi_generics = generic_names (if_generics f),
      fi_generic_bounds = bt_collect (map (\<lambda>g. (igp_name g, igp_bounds g)) (if_generics f)),
      fi_param_names = map ip_name (if_params f), fi_param_types = map ip_ty (if_params f),
      fi_ret_type = if_ret_type f, fi_effects = bs_collect (if_effects f),
      fi_capabilities = bs_collect (if_capabilities f), fi_span = if_span f\<rparr>"

definition effective_visibility :: "string \<Rightarrow> visibility \<Rightarrow> string \<Rightarrow> visibility" where
  "effective_visibility module_name vis symbol_name =
     (if vis \<noteq> Private then vis
      else if starts_with module_name ''std.'' \<and> \<not> starts_with symbol_name ''aic_'' then Public
      else Private)"

definition resolver_base_type_name :: "string \<Rightarrow> string" where
  "resolver_base_type_name ty = hd (split_on CHR ''['' ty)"

definition method_name_key :: "string \<Rightarrow> string" where
  "method_name_key name = last_segment name"

definition resolver_module :: "ir_program \<Rightarrow> string list option list option \<Rightarrow> nat \<Rightarrow> string" where
  "resolver_module p item_modules index = declaring_module (irp_module p) item_modules index"

definition resolver_file :: "string name_map option \<Rightarrow> string \<Rightarrow> string \<Rightarrow> string" where
  "resolver_file module_files module_name fallback = declaring_file module_name fallback module_files"

section \<open>Types as text\<close>

text \<open>The state is the current piece (in order) and the depth of brackets, which saturates at zero.\<close>

fun resolver_split_from :: "nat \<Rightarrow> string \<Rightarrow> string \<Rightarrow> string list" where
  "resolver_split_from depth piece [] = (if str_trim piece = [] then [] else [str_trim piece])"
| "resolver_split_from depth piece (c # cs) =
     (if c = CHR ''['' then resolver_split_from (depth + 1) (piece @ [c]) cs
      else if c = CHR '']'' then resolver_split_from (depth - 1) (piece @ [c]) cs
      else if c = CHR '','' \<and> depth = 0 then str_trim piece # resolver_split_from depth [] cs
      else resolver_split_from depth (piece @ [c]) cs)"

definition resolver_split_top_level :: "string \<Rightarrow> string list" where
  "resolver_split_top_level input = resolver_split_from 0 [] input"

definition resolver_generic_args :: "string \<Rightarrow> string list option" where
  "resolver_generic_args ty =
     (case split_text ''['' ty of
        None \<Rightarrow> None
      | Some (base, rest) \<Rightarrow>
          if \<not> ends_with ty '']'' \<or> rest = [] then None
          else if butlast rest = [] then Some []
          else Some (resolver_split_top_level (butlast rest)))"

lemma length_resolver_split:
  "a \<in> set (resolver_split_from depth piece cs) \<Longrightarrow> length a \<le> length piece + length cs"
proof (induction depth piece cs rule: resolver_split_from.induct)
  case (1 depth piece)
  then show ?case using length_str_trim [of piece] by (auto split: if_splits)
next
  case (2 depth piece c cs)
  show ?case
  proof (cases "c = CHR '','' \<and> depth = 0")
    case True
    with 2(5) have "a = str_trim piece \<or> a \<in> set (resolver_split_from depth [] cs)" by simp
    with True 2(3) length_str_trim [of piece] show ?thesis by auto
  next
    case False
    with 2 show ?thesis by (simp split: if_splits)
  qed
qed

lemma length_resolver_generic_args:
  assumes "resolver_generic_args ty = Some args" "a \<in> set args"
  shows "length a < length ty"
proof -
  from assms obtain base rest where *: "split_text ''['' ty = Some (base, rest)"
    and "args = resolver_split_top_level (butlast rest)"
    by (auto simp: resolver_generic_args_def split: option.splits if_splits)
  with length_resolver_split [of a 0 "[]" "butlast rest"] assms(2) split_text_Some [OF *]
  show ?thesis by (simp add: resolver_split_top_level_def)
qed

function resolver_substitute :: "string \<Rightarrow> string name_map \<Rightarrow> string" where
  "resolver_substitute ty bindings =
     (case bt_get bindings ty of
        Some bound \<Rightarrow> bound
      | None \<Rightarrow>
          (case resolver_generic_args ty of
             None \<Rightarrow> ty
           | Some args \<Rightarrow>
               resolver_base_type_name ty @ ''['' @
               join_with '', '' (map (\<lambda>a. resolver_substitute a bindings) args) @ '']''))"
  by pat_completeness auto
termination
  by (relation "measure (\<lambda>(ty, _). length ty)") (auto simp: length_resolver_generic_args)

declare resolver_substitute.simps [simp del]

definition resolver_type_repr :: "(type_id, string) btree_map \<Rightarrow> type_id \<Rightarrow> string" where
  "resolver_type_repr reprs ty = (case bt_get reprs ty of Some r \<Rightarrow> r | None \<Rightarrow> ''<?>'')"

section \<open>The state of the pass\<close>

record res_state =
  rt_functions :: "function_info name_map"
  rt_module_function_infos :: "function_info module_map"
  rt_module_struct_infos :: "struct_info module_map"
  rt_module_enum_infos :: "enum_info module_map"
  rt_structs :: "struct_info name_map"
  rt_enums :: "enum_info name_map"
  rt_traits :: "trait_info name_map"
  rt_trait_impls :: "string_set name_map"
  rt_function_modules :: "string_set name_map"
  rt_struct_modules :: "string_set name_map"
  rt_enum_modules :: "string_set name_map"
  rt_module_functions :: "string_set name_map"
  rt_module_exported_functions :: "string_set name_map"
  rt_module_exported_structs :: "string_set name_map"
  rt_module_exported_enums :: "string_set name_map"
  rt_value_kinds :: "string module_map"
  rt_type_kinds :: "string module_map"
  rt_diagnostics :: "diagnostic list"

definition empty_res_state :: res_state where
  "empty_res_state =
     \<lparr>rt_functions = [], rt_module_function_infos = [], rt_module_struct_infos = [],
      rt_module_enum_infos = [], rt_structs = [], rt_enums = [], rt_traits = [], rt_trait_impls = [],
      rt_function_modules = [], rt_struct_modules = [], rt_enum_modules = [],
      rt_module_functions = [], rt_module_exported_functions = [], rt_module_exported_structs = [],
      rt_module_exported_enums = [], rt_value_kinds = [], rt_type_kinds = [], rt_diagnostics = []\<rparr>"

type_synonym res_step = "res_state \<Rightarrow> res_state option"

text \<open>A diagnostic with its help texts, appended to the list.\<close>

definition resolver_error ::
  "derive_reasoning \<Rightarrow> string \<Rightarrow> string \<Rightarrow> string list \<Rightarrow> string \<Rightarrow> span \<Rightarrow> res_step" where
  "resolver_error derive code message helps diag_file sp st =
     map_option (\<lambda>d. st\<lparr>rt_diagnostics := rt_diagnostics st @ [fold (with_help derive) helps d]\<rparr>)
       (diagnostic_error derive code message diag_file sp)"

text \<open>A loop whose body is a step.\<close>

fun each :: "('a \<Rightarrow> res_step) \<Rightarrow> 'a list \<Rightarrow> res_step" where
  "each f [] st = Some st"
| "each f (x # xs) st = Option.bind (f x st) (each f xs)"

definition skip :: res_step where
  "skip st = Some st"

definition and_step :: "res_step \<Rightarrow> res_step \<Rightarrow> res_step" where
  "and_step f g st = Option.bind (f st) g"

definition update :: "(res_state \<Rightarrow> res_state) \<Rightarrow> res_step" where
  "update f st = Some (f st)"

section \<open>Functions\<close>

definition duplicate_symbol ::
  "derive_reasoning \<Rightarrow> string \<Rightarrow> string \<Rightarrow> string \<Rightarrow> string \<Rightarrow> span \<Rightarrow> res_step" where
  "duplicate_symbol derive name existing_kind kind item_file sp =
     resolver_error derive ''E1100''
       (''duplicate symbol '' @ in_quotes name @ '', kinds '' @ in_quotes existing_kind @ '' and '' @ in_quotes kind)
       [''rename one declaration to keep symbol names unique per module''] item_file sp"

text \<open>
  A name enters the type namespace or the value namespace of its module; \<open>taken\<close> and \<open>free\<close> are
  what follows when the namespace has the name already and when it has not.
\<close>

definition declare_type ::
  "derive_reasoning \<Rightarrow> string \<Rightarrow> string \<Rightarrow> string \<Rightarrow> string \<Rightarrow> span \<Rightarrow> res_step \<Rightarrow> res_step" where
  "declare_type derive kind module_name name item_file sp free st =
     (let st' = st\<lparr>rt_type_kinds := bt_insert (module_name, name) kind (rt_type_kinds st)\<rparr> in
      case bt_get (rt_type_kinds st) (module_name, name) of
        Some existing_kind \<Rightarrow> duplicate_symbol derive name existing_kind kind item_file sp st'
      | None \<Rightarrow> free st')"

definition declare_value ::
  "derive_reasoning \<Rightarrow> string \<Rightarrow> string \<Rightarrow> string \<Rightarrow> string \<Rightarrow> span \<Rightarrow> res_step \<Rightarrow> res_step" where
  "declare_value derive kind module_name name item_file sp free st =
     (let st' = st\<lparr>rt_value_kinds := bt_insert (module_name, name) kind (rt_value_kinds st)\<rparr> in
      case bt_get (rt_value_kinds st) (module_name, name) of
        Some existing_kind \<Rightarrow> duplicate_symbol derive name existing_kind kind item_file sp st'
      | None \<Rightarrow> free st')"

definition add_function :: "string \<Rightarrow> ir_function \<Rightarrow> res_state \<Rightarrow> res_state" where
  "add_function module_name f st =
     (let name = if_name f;
          vis = effective_visibility module_name (if_visibility f) name;
          info = (function_info_for f)\<lparr>fi_visibility := vis\<rparr>
      in st\<lparr>rt_module_functions := bt_add module_name name (rt_module_functions st),
            rt_function_modules := bt_add name module_name (rt_function_modules st),
            rt_module_exported_functions :=
              (if vis \<noteq> Private then bt_add module_name name (rt_module_exported_functions st)
               else rt_module_exported_functions st),
            rt_module_function_infos := bt_insert (module_name, name) info (rt_module_function_infos st),
            rt_functions := bt_or_insert name info (rt_functions st)\<rparr>)"

definition register_function_item ::
  "derive_reasoning \<Rightarrow> string \<Rightarrow> string \<Rightarrow> ir_function \<Rightarrow> res_step" where
  "register_function_item derive module_name item_file f =
     (case decode_internal_type_alias (if_name f) of
        Some alias_name \<Rightarrow> declare_type derive ''type'' module_name alias_name item_file (if_span f) skip
      | None \<Rightarrow>
          (case decode_internal_const (if_name f) of
             Some const_name \<Rightarrow> declare_value derive ''const'' module_name const_name item_file (if_span f) skip
           | None \<Rightarrow>
               declare_value derive ''fn'' module_name (if_name f) item_file (if_span f)
                 (update (add_function module_name f))))"

section \<open>Structs, enums and traits\<close>

text \<open>The maps of fields that the loop over the fields of a struct fills.\<close>

definition struct_fields :: "ir_field list \<Rightarrow> type_id name_map" where
  "struct_fields fs = bt_collect (map (\<lambda>f. (ifd_name f, ifd_ty f)) fs)"

definition struct_field_visibility :: "string \<Rightarrow> ir_field list \<Rightarrow> visibility name_map" where
  "struct_field_visibility module_name fs =
     bt_collect (map (\<lambda>f. (ifd_name f, effective_visibility module_name (ifd_visibility f) (ifd_name f))) fs)"

definition struct_default_fields :: "ir_field list \<Rightarrow> string_set" where
  "struct_default_fields fs = bs_collect (map ifd_name (filter (\<lambda>f. ifd_default_value f \<noteq> None) fs))"

text \<open>The entries whose name an earlier entry has, in order: where \<open>insert\<close> returns \<open>Some\<close>.\<close>

fun repeated :: "('a \<Rightarrow> string) \<Rightarrow> string list \<Rightarrow> 'a list \<Rightarrow> 'a list" where
  "repeated key seen [] = []"
| "repeated key seen (x # xs) =
     (if key x \<in> set seen then x # repeated key seen xs else repeated key (key x # seen) xs)"

definition add_struct :: "string \<Rightarrow> ir_struct_def \<Rightarrow> res_state \<Rightarrow> res_state" where
  "add_struct module_name s st =
     (let name = isd_name s;
          vis = effective_visibility module_name (isd_visibility s) name;
          info = \<lparr>sti_symbol = isd_symbol s, sti_module = module_name, sti_visibility = vis,
                  sti_generics = generic_names (isd_generics s),
                  sti_fields = struct_fields (isd_fields s),
                  sti_field_visibility = struct_field_visibility module_name (isd_fields s),
                  sti_default_fields = struct_default_fields (isd_fields s),
                  sti_invariant = isd_invariant s, sti_span = isd_span s\<rparr>
      in st\<lparr>rt_struct_modules := bt_add name module_name (rt_struct_modules st),
            rt_module_exported_structs :=
              (if vis \<noteq> Private then bt_add module_name name (rt_module_exported_structs st)
               else rt_module_exported_structs st),
            rt_module_struct_infos := bt_insert (module_name, name) info (rt_module_struct_infos st),
            rt_structs := bt_or_insert name info (rt_structs st)\<rparr>)"

definition resolve_struct :: "derive_reasoning \<Rightarrow> string \<Rightarrow> string \<Rightarrow> ir_struct_def \<Rightarrow> res_step" where
  "resolve_struct derive module_name item_file s =
     declare_type derive ''struct'' module_name (isd_name s) item_file (isd_span s)
       (and_step
         (each (\<lambda>field. resolver_error derive ''E1101''
                  (''duplicate struct field '' @ in_quotes (isd_name s @ ''.'' @ ifd_name field)) []
                  item_file (ifd_span field))
            (repeated ifd_name [] (isd_fields s)))
         (update (add_struct module_name s)))"

definition add_enum :: "string \<Rightarrow> ir_enum_def \<Rightarrow> res_state \<Rightarrow> res_state" where
  "add_enum module_name e st =
     (let name = ied_name e;
          vis = effective_visibility module_name (ied_visibility e) name;
          info = \<lparr>eni_symbol = ied_symbol e, eni_module = module_name, eni_visibility = vis,
                  eni_generics = generic_names (ied_generics e),
                  eni_variants = bt_collect (map (\<lambda>v. (ivd_name v, ivd_payload v)) (ied_variants e)),
                  eni_span = ied_span e\<rparr>
      in st\<lparr>rt_enum_modules := bt_add name module_name (rt_enum_modules st),
            rt_module_exported_enums :=
              (if vis \<noteq> Private then bt_add module_name name (rt_module_exported_enums st)
               else rt_module_exported_enums st),
            rt_module_enum_infos := bt_insert (module_name, name) info (rt_module_enum_infos st),
            rt_enums := bt_or_insert name info (rt_enums st)\<rparr>)"

definition resolve_enum :: "derive_reasoning \<Rightarrow> string \<Rightarrow> string \<Rightarrow> ir_enum_def \<Rightarrow> res_step" where
  "resolve_enum derive module_name item_file e =
     declare_type derive ''enum'' module_name (ied_name e) item_file (ied_span e)
       (and_step
         (each (\<lambda>variant. resolver_error derive ''E1102''
                  (''duplicate enum variant '' @ in_quotes (ied_name e @ ''.'' @ ivd_name variant)) []
                  item_file (ivd_span variant))
            (repeated ivd_name [] (ied_variants e)))
         (update (add_enum module_name e)))"

text \<open>The signatures of a trait by the last segment of their names.\<close>

definition trait_method_info :: "string \<Rightarrow> ir_function \<Rightarrow> string \<times> function_info" where
  "trait_method_info module_name method =
     (method_name_key (if_name method),
      (function_info_for method)
        \<lparr>fi_visibility := effective_visibility module_name (if_visibility method) (if_name method)\<rparr>)"

definition trait_info_of :: "string \<Rightarrow> ir_trait_def \<Rightarrow> trait_info" where
  "trait_info_of module_name t =
     \<lparr>tri_symbol = itd_symbol t, tri_module = module_name,
      tri_visibility = effective_visibility module_name (itd_visibility t) (itd_name t),
      tri_generics = generic_names (itd_generics t),
      tri_methods = bt_collect (map (trait_method_info module_name) (itd_methods t)),
      tri_span = itd_span t\<rparr>"

definition add_trait :: "string \<Rightarrow> ir_trait_def \<Rightarrow> res_state \<Rightarrow> res_state" where
  "add_trait module_name t st =
     st\<lparr>rt_traits := bt_or_insert (itd_name t) (trait_info_of module_name t) (rt_traits st)\<rparr>"

definition resolve_trait :: "derive_reasoning \<Rightarrow> string \<Rightarrow> string \<Rightarrow> ir_trait_def \<Rightarrow> res_step" where
  "resolve_trait derive module_name item_file t =
     declare_type derive ''trait'' module_name (itd_name t) item_file (itd_span t)
       (and_step
         (each (\<lambda>method. resolver_error derive ''E1107''
                  (''duplicate trait method '' @
                   in_quotes (itd_name t @ ''.'' @ method_name_key (if_name method)))
                  [''keep exactly one signature per trait method name''] item_file (if_span method))
            (repeated (\<lambda>method. method_name_key (if_name method)) [] (itd_methods t)))
         (update (add_trait module_name t)))"

section \<open>Implementations\<close>

text \<open>The result of the first check that returns one.\<close>

fun first_some :: "'a option list \<Rightarrow> 'a option" where
  "first_some [] = None"
| "first_some (x # xs) = (case x of Some y \<Rightarrow> Some y | None \<Rightarrow> first_some xs)"

definition in_braces :: "string list \<Rightarrow> string" where
  "in_braces es = [CHR 0x27] @ ''{ '' @ join_with '', '' es @ '' }'' @ [CHR 0x27]"

definition bounds_mismatch :: "function_info \<Rightarrow> ir_function \<Rightarrow> nat \<times> string \<Rightarrow> string option" where
  "bounds_mismatch expected found = (\<lambda>(idx, generic).
     let expected_bounds = bt_members (fi_generic_bounds expected) generic;
         found_bounds = (if idx < length (if_generics found) then igp_bounds (if_generics found ! idx) else [])
     in if expected_bounds \<noteq> found_bounds then
          Some (''generic parameter '' @ nat_str (idx + 1) @ '' bounds differ: expected '' @
            in_quotes (join_with '' + '' expected_bounds) @ '', found '' @
            in_quotes (join_with '' + '' found_bounds))
        else None)"

definition param_mismatch :: "nat \<times> string \<times> string \<Rightarrow> string option" where
  "param_mismatch = (\<lambda>(idx, expected_ty, found_ty).
     if expected_ty \<noteq> found_ty then
       Some (''parameter '' @ nat_str (idx + 1) @ '' type mismatch: expected '' @ in_quotes expected_ty @
         '', found '' @ in_quotes found_ty)
     else None)"

definition trait_method_signature_mismatch ::
  "function_info \<Rightarrow> ir_function \<Rightarrow> (type_id, string) btree_map \<Rightarrow> string name_map \<Rightarrow> string option" where
  "trait_method_signature_mismatch expected found reprs bindings =
     (let expected_params = map (\<lambda>ty. resolver_substitute (resolver_type_repr reprs ty) bindings) (fi_param_types expected);
          found_params = map (\<lambda>p. resolver_type_repr reprs (ip_ty p)) (if_params found);
          expected_ret = (case bt_get reprs (fi_ret_type expected) of
             Some raw \<Rightarrow> resolver_substitute raw bindings | None \<Rightarrow> ''<?>'');
          found_ret = resolver_type_repr reprs (if_ret_type found);
          found_effects = bs_collect (if_effects found)
      in first_some
        ([if fi_is_async expected \<noteq> if_is_async found then Some ''async modifier does not match'' else None,
          if fi_is_unsafe expected \<noteq> if_is_unsafe found then Some ''unsafe modifier does not match'' else None,
          if length (fi_generics expected) \<noteq> length (if_generics found) then
            Some (''expected '' @ nat_str (length (fi_generics expected)) @ '' generic parameter(s), found '' @
              nat_str (length (if_generics found)))
          else None] @
         map (bounds_mismatch expected found) (enumerate 0 (fi_generics expected)) @
         [if length expected_params \<noteq> length found_params then
            Some (''expected '' @ nat_str (length expected_params) @ '' parameter(s), found '' @
              nat_str (length found_params))
          else None] @
         map param_mismatch (enumerate 0 (zip expected_params found_params)) @
         [if expected_ret \<noteq> found_ret then
            Some (''return type mismatch: expected '' @ in_quotes expected_ret @ '', found '' @ in_quotes found_ret)
          else None,
          if fi_effects expected \<noteq> found_effects then
            Some (''effects mismatch: expected '' @ in_braces (fi_effects expected) @ '', found '' @
              in_braces found_effects)
          else None]))"

definition declares_type :: "ir_program \<Rightarrow> string \<Rightarrow> bool" where
  "declares_type p name =
     list_ex (\<lambda>item. case item of IStruct s \<Rightarrow> isd_name s = name | IEnum e \<Rightarrow> ied_name e = name | _ \<Rightarrow> False)
       (irp_items p)"

definition resolve_inherent_impl ::
  "derive_reasoning \<Rightarrow> ir_program \<Rightarrow> (type_id, string) btree_map \<Rightarrow> string \<Rightarrow> string \<Rightarrow> ir_impl_def \<Rightarrow> res_step" where
  "resolve_inherent_impl derive p reprs module_name item_file d st =
     (let target_repr = (case Option.bind (iid_target d) (bt_get reprs) of
            Some r \<Rightarrow> r | None \<Rightarrow> iid_trait_name d);
          target_name = resolver_base_type_name target_repr;
          known = (bt_has (rt_structs st) target_name \<or> bt_has (rt_enums st) target_name \<or>
            declares_type p target_name)
      in and_step
           (if known then skip
            else resolver_error derive ''E1106'' (''unknown type '' @ in_quotes target_name @ '' in inherent impl'') []
              item_file (iid_span d))
           (each (register_function_item derive module_name item_file) (iid_methods d)) st)"

text \<open>The trait that the impl names: the registered one, or a declaration further down.\<close>

definition find_trait_item :: "ir_program \<Rightarrow> string \<Rightarrow> trait_info option" where
  "find_trait_item p name =
     first_some (map (\<lambda>item. case item of
         ITrait t \<Rightarrow> (if itd_name t = name then Some (trait_info_of RESOLVER_ROOT t) else None)
       | _ \<Rightarrow> None) (irp_items p))"

definition impl_trait_info :: "ir_program \<Rightarrow> res_state \<Rightarrow> string \<Rightarrow> trait_info option" where
  "impl_trait_info p st name =
     (case bt_get (rt_traits st) name of Some t \<Rightarrow> Some t | None \<Rightarrow> find_trait_item p name)"

definition impl_type_bindings ::
  "(type_id, string) btree_map \<Rightarrow> trait_info \<Rightarrow> type_id list \<Rightarrow> string name_map" where
  "impl_type_bindings reprs t args =
     fold (\<lambda>(name, arg). bt_insert name (resolver_type_repr reprs arg)) (zip (tri_generics t) args)
       (case args of [] \<Rightarrow> [] | a # _ \<Rightarrow> bt_insert ''Self'' (resolver_type_repr reprs a) [])"

definition impl_methods :: "ir_function list \<Rightarrow> ir_function name_map" where
  "impl_methods ms = bt_collect (map (\<lambda>m. (method_name_key (if_name m), m)) ms)"

definition check_impl_method ::
  "derive_reasoning \<Rightarrow> (type_id, string) btree_map \<Rightarrow> string name_map \<Rightarrow> trait_info \<Rightarrow> string \<Rightarrow> string \<Rightarrow>
   string \<times> ir_function \<Rightarrow> res_step" where
  "check_impl_method derive reprs bindings t trait_name item_file = (\<lambda>(method_name, method).
     case bt_get (tri_methods t) method_name of
       None \<Rightarrow>
         resolver_error derive ''E1109''
           (''method '' @ in_quotes method_name @ '' is not declared by trait '' @ in_quotes trait_name)
           [''remove this method or add it to the trait declaration''] item_file (if_span method)
     | Some expected \<Rightarrow>
         (case trait_method_signature_mismatch expected method reprs bindings of
            Some reason \<Rightarrow>
              resolver_error derive ''E1108''
                (''method '' @ in_quotes (trait_name @ ''.'' @ method_name) @
                 '' does not match trait signature: '' @ reason)
                [''match the trait method'' @ [CHR 0x27] @ ''s parameters, return type, and modifiers'']
                item_file (if_span method)
          | None \<Rightarrow> skip))"

text \<open>What follows once the trait is known and the number of its arguments is right.\<close>

definition check_trait_impl ::
  "derive_reasoning \<Rightarrow> (type_id, string) btree_map \<Rightarrow> string \<Rightarrow> string \<Rightarrow> string \<Rightarrow> ir_impl_def \<Rightarrow>
   trait_info \<Rightarrow> string \<Rightarrow> bool \<Rightarrow> res_step" where
  "check_trait_impl derive reprs diag_file module_name item_file d t key conflict =
     (let trait_name = iid_trait_name d;
          methods = impl_methods (iid_methods d);
          missing = filter (\<lambda>name. \<not> bt_has methods name) (map fst (tri_methods t));
          bindings = impl_type_bindings reprs t (iid_trait_args d)
      in and_step
           (if conflict then
              resolver_error derive ''E1105''
                (''conflicting impl for trait '' @ in_quotes trait_name @ '' with type arguments ['' @ key @ '']'')
                [''remove duplicate impl or use a different concrete type''] item_file (iid_span d)
            else skip)
         (and_step
           (each (\<lambda>method. resolver_error derive ''E1108''
                    (''duplicate method '' @ in_quotes (trait_name @ ''.'' @ method_name_key (if_name method)) @
                     '' in trait impl'')
                    [''keep one implementation per method in each trait impl''] diag_file (if_span method))
              (repeated (\<lambda>method. method_name_key (if_name method)) [] (iid_methods d)))
         (and_step
           (if missing = [] then skip
            else resolver_error derive ''E1107''
              (''impl for trait '' @ in_quotes trait_name @ '' is missing method(s): '' @
               join_with '', '' (sort missing))
              [''implement every method declared in the trait''] diag_file (iid_span d))
         (and_step
           (each (check_impl_method derive reprs bindings t trait_name item_file) methods)
           (each (register_function_item derive module_name item_file) (iid_methods d))))))"

definition resolve_trait_impl ::
  "derive_reasoning \<Rightarrow> ir_program \<Rightarrow> (type_id, string) btree_map \<Rightarrow> string \<Rightarrow> string \<Rightarrow> string \<Rightarrow>
   ir_impl_def \<Rightarrow> res_step" where
  "resolve_trait_impl derive p reprs diag_file module_name item_file d st =
     (let trait_name = iid_trait_name d in
      case impl_trait_info p st trait_name of
        None \<Rightarrow>
          resolver_error derive ''E1103'' (''unknown trait '' @ in_quotes trait_name @ '' in impl'') []
            item_file (iid_span d) st
      | Some t \<Rightarrow>
          (let arity = length (tri_generics t); count = length (iid_trait_args d) in
           if count \<noteq> arity \<and> \<not> (arity = 0 \<and> count = 1) then
             resolver_error derive ''E1104''
               (''impl for trait '' @ in_quotes trait_name @ '' expects '' @ nat_str arity @
                '' type arguments, found '' @ nat_str count) [] item_file (iid_span d) st
           else
             let key = join_with '', '' (map (resolver_type_repr reprs) (iid_trait_args d)) in
             check_trait_impl derive reprs diag_file module_name item_file d t key
               (key \<in> set (bt_members (rt_trait_impls st) trait_name))
               (st\<lparr>rt_trait_impls := bt_add trait_name key (rt_trait_impls st)\<rparr>)))"

definition resolve_item ::
  "derive_reasoning \<Rightarrow> ir_program \<Rightarrow> (type_id, string) btree_map \<Rightarrow> string \<Rightarrow> string list option list option \<Rightarrow>
   string name_map option \<Rightarrow> nat \<times> ir_item \<Rightarrow> res_step" where
  "resolve_item derive p reprs diag_file item_modules module_files = (\<lambda>(index, item).
     let module_name = resolver_module p item_modules index;
         item_file = resolver_file module_files module_name diag_file
     in case item of
          IFunction f \<Rightarrow> register_function_item derive module_name item_file f
        | IStruct s \<Rightarrow> resolve_struct derive module_name item_file s
        | IEnum e \<Rightarrow> resolve_enum derive module_name item_file e
        | ITrait t \<Rightarrow> resolve_trait derive module_name item_file t
        | IImpl d \<Rightarrow>
            if iid_is_inherent d then resolve_inherent_impl derive p reprs module_name item_file d
            else resolve_trait_impl derive p reprs diag_file module_name item_file d)"

section \<open>Imports and the whole pass\<close>

fun alias_loop :: "string list \<Rightarrow> string name_map \<times> string_set \<Rightarrow> string name_map \<times> string_set" where
  "alias_loop [] acc = acc"
| "alias_loop (import # rest) (aliases, ambiguous) =
     (let alias = last (split_on CHR ''.'' import) in
      if alias = [] then alias_loop rest (aliases, ambiguous)
      else case bt_get aliases alias of
        Some existing \<Rightarrow>
          if existing \<noteq> import then alias_loop rest (bt_remove alias aliases, bs_insert alias ambiguous)
          else alias_loop rest (aliases, ambiguous)
      | None \<Rightarrow>
          if alias \<notin> set ambiguous then alias_loop rest (bt_insert alias import aliases, ambiguous)
          else alias_loop rest (aliases, ambiguous))"

definition alias_maps_for_imports :: "string_set \<Rightarrow> string name_map \<times> string_set" where
  "alias_maps_for_imports imports = alias_loop imports ([], [])"

definition program_imports :: "ir_program \<Rightarrow> string_set" where
  "program_imports p = bs_collect (map (join_with ''.'') (irp_imports p))"

definition own_module_name :: "ir_program \<Rightarrow> string" where
  "own_module_name p = (case irp_module p of Some m \<Rightarrow> join_with ''.'' m | None \<Rightarrow> RESOLVER_ROOT)"

text \<open>The functions that the entry module sees: its own and the exported ones of its imports.\<close>

definition visible_names :: "string \<Rightarrow> string_set \<Rightarrow> res_state \<Rightarrow> string_set" where
  "visible_names own imports st =
     bs_collect (concat (map (\<lambda>m. bt_members (if m = own then rt_module_functions st
                                              else rt_module_exported_functions st) m)
       (bs_collect (own # imports))))"

definition finish_resolution ::
  "ir_program \<Rightarrow> string_set \<Rightarrow> string_set name_map \<Rightarrow> res_state \<Rightarrow> resolution" where
  "finish_resolution p imports module_imports st =
     (let (aliases, ambiguous) = alias_maps_for_imports imports
      in \<lparr>rs_functions = rt_functions st, rs_module_function_infos = rt_module_function_infos st,
          rs_module_struct_infos = rt_module_struct_infos st,
          rs_module_enum_infos = rt_module_enum_infos st, rs_structs = rt_structs st,
          rs_enums = rt_enums st, rs_traits = rt_traits st, rs_trait_impls = rt_trait_impls st,
          rs_imports = imports,
          rs_module_imports = fold (\<lambda>k. bt_or_insert k []) (map fst (rt_module_functions st)) module_imports,
          rs_entry_module = map_option (join_with ''.'') (irp_module p),
          rs_function_modules = rt_function_modules st, rs_struct_modules = rt_struct_modules st,
          rs_enum_modules = rt_enum_modules st, rs_module_functions = rt_module_functions st,
          rs_module_exported_functions = rt_module_exported_functions st,
          rs_module_exported_structs = rt_module_exported_structs st,
          rs_module_exported_enums = rt_module_exported_enums st,
          rs_visible_functions = visible_names (own_module_name p) imports st,
          rs_import_aliases = aliases, rs_ambiguous_import_aliases = ambiguous,
          rs_module_import_aliases =
            fold (\<lambda>k. bt_or_insert k []) (map fst (rt_module_functions st))
              (map (\<lambda>(m, is). (m, fst (alias_maps_for_imports is))) module_imports),
          rs_module_ambiguous_import_aliases =
            fold (\<lambda>k. bt_or_insert k []) (map fst (rt_module_functions st))
              (map (\<lambda>(m, is). (m, snd (alias_maps_for_imports is))) module_imports)\<rparr>)"

definition resolve_with_item_modules_imports_and_files ::
  "derive_reasoning \<Rightarrow> ir_program \<Rightarrow> string \<Rightarrow> string list option list option \<Rightarrow>
   string_set name_map option \<Rightarrow> string name_map option \<Rightarrow> (resolution \<times> diagnostic list) option" where
  "resolve_with_item_modules_imports_and_files derive p diag_file item_modules module_imports module_files =
     (let reprs = bt_collect (map (\<lambda>ty. (tdef_id ty, tdef_repr ty)) (irp_types p));
          given = (case module_imports of Some m \<Rightarrow> m | None \<Rightarrow> []);
          imports = (case bt_get given (own_module_name p) of Some is \<Rightarrow> is | None \<Rightarrow> program_imports p);
          all_imports = bt_or_insert (own_module_name p) imports given;
          ambiguous = snd (alias_maps_for_imports imports)
      in map_option (\<lambda>st. (finish_resolution p imports all_imports st, rt_diagnostics st))
           (and_step
             (each (resolve_item derive p reprs diag_file item_modules module_files)
                (enumerate 0 (irp_items p)))
             (each (\<lambda>alias. resolver_error derive ''E2104''
                      (''ambiguous import alias '' @ in_quotes alias @
                       '': multiple imports share this tail segment'')
                      [''use fully-qualified module prefixes in call sites''] diag_file (irp_span p))
                ambiguous)
             empty_res_state))"

definition resolve_with_item_modules_and_imports ::
  "derive_reasoning \<Rightarrow> ir_program \<Rightarrow> string \<Rightarrow> string list option list option \<Rightarrow>
   string_set name_map option \<Rightarrow> (resolution \<times> diagnostic list) option" where
  "resolve_with_item_modules_and_imports derive p diag_file item_modules module_imports =
     resolve_with_item_modules_imports_and_files derive p diag_file item_modules module_imports None"

definition resolve_with_item_modules ::
  "derive_reasoning \<Rightarrow> ir_program \<Rightarrow> string \<Rightarrow> string list option list option \<Rightarrow>
   (resolution \<times> diagnostic list) option" where
  "resolve_with_item_modules derive p diag_file item_modules =
     resolve_with_item_modules_and_imports derive p diag_file item_modules None"

definition resolve :: "derive_reasoning \<Rightarrow> ir_program \<Rightarrow> string \<Rightarrow> (resolution \<times> diagnostic list) option" where
  "resolve derive p diag_file = resolve_with_item_modules derive p diag_file None"

end
