(* ===== verification/ResolverProps.thy ===== *)
theory ResolverProps
  imports Resolver
begin

text \<open>
  Name resolution accepts a program only when its declarations are unique and its trait
  implementations conform, its tables agree with each other, and it never panics. A small calculus of
  the steps carries the proofs: what a step can do to the diagnostics and to the two namespaces.
\<close>

named_theorems total_rules \<open>steps that return\<close>
named_theorems keep_rules \<open>steps that preserve a predicate\<close>
named_theorems declare_rules \<open>what a silent step declares\<close>

section \<open>Steps return\<close>

definition total_step :: "res_step \<Rightarrow> bool" where
  "total_step f \<longleftrightarrow> (\<forall>st. f st \<noteq> None)"

lemma resolver_codes [simp]:
  "assert_registered ''E1100'' = Some ()" "assert_registered ''E1101'' = Some ()"
  "assert_registered ''E1102'' = Some ()" "assert_registered ''E1103'' = Some ()"
  "assert_registered ''E1104'' = Some ()" "assert_registered ''E1105'' = Some ()"
  "assert_registered ''E1106'' = Some ()" "assert_registered ''E1107'' = Some ()"
  "assert_registered ''E1108'' = Some ()" "assert_registered ''E1109'' = Some ()"
  "assert_registered ''E2104'' = Some ()"
  by code_simp+

lemma total_report [total_rules]:
  "assert_registered code = Some () \<Longrightarrow> total_step (resolver_error derive code msg helps diag_file sp)"
  by (simp add: total_step_def resolver_error_def diagnostic_error_def)

lemma total_skip [total_rules]: "total_step skip"
  by (simp add: total_step_def skip_def)

lemma total_update [total_rules]: "total_step (update f)"
  by (simp add: total_step_def update_def)

lemma total_and_step [total_rules]: "total_step f \<Longrightarrow> total_step g \<Longrightarrow> total_step (and_step f g)"
  unfolding total_step_def and_step_def by (metis bind_eq_None_conv option.collapse option.sel)

lemma total_each [total_rules]:
  assumes "\<And>x. x \<in> set xs \<Longrightarrow> total_step (f x)"
  shows "total_step (each f xs)"
proof -
  have "each f xs st \<noteq> None" for st
    using assms
  proof (induction xs arbitrary: st)
    case (Cons x xs)
    then have "f x st \<noteq> None" "\<And>s. each f xs s \<noteq> None" by (auto simp: total_step_def)
    then show ?case by (cases "f x st") auto
  qed simp
  then show ?thesis by (simp add: total_step_def)
qed

lemma total_if [total_rules]: "total_step f \<Longrightarrow> total_step g \<Longrightarrow> total_step (if c then f else g)"
  by simp

lemma total_declare [total_rules]:
  "total_step free \<Longrightarrow> total_step (declare_type derive kind m n item_file sp free)"
  "total_step free \<Longrightarrow> total_step (declare_value derive kind m n item_file sp free)"
  using total_report [of "''E1100''"]
  by (auto simp: total_step_def declare_type_def declare_value_def duplicate_symbol_def Let_def
      split: option.splits)

lemma total_register: "total_step (register_function_item derive m item_file f)"
  by (auto simp: register_function_item_def intro!: total_rules split: option.splits)

lemma total_check_impl_method:
  "total_step (check_impl_method derive reprs bindings t trait_name item_file nm)"
  by (auto simp: check_impl_method_def intro!: total_rules split: prod.splits option.splits)

lemma total_inherent: "total_step (resolve_inherent_impl derive p reprs m item_file d)"
proof -
  have "total_step (and_step (if c then skip else resolver_error derive ''E1106'' msg [] item_file (iid_span d))
      (each (register_function_item derive m item_file) (iid_methods d)))" for c msg
    by (intro total_rules total_register) simp
  then show ?thesis
    unfolding total_step_def by (simp add: resolve_inherent_impl_def Let_def)
qed

lemma total_check_trait_impl:
  "total_step (check_trait_impl derive reprs diag_file m item_file d t key conflict)"
  unfolding check_trait_impl_def Let_def
  by (intro total_rules total_register total_check_impl_method) simp_all

lemma total_trait_impl: "total_step (resolve_trait_impl derive p reprs diag_file m item_file d)"
  using total_report [of "''E1103''"] total_report [of "''E1104''"] total_check_trait_impl
  by (simp add: resolve_trait_impl_def total_step_def Let_def split: option.split)

lemma total_item: "total_step (resolve_item derive p reprs diag_file item_modules module_files ni)"
  by (cases ni)
    (auto simp: resolve_item_def resolve_struct_def resolve_enum_def resolve_trait_def Let_def
      intro!: total_rules total_register total_inherent total_trait_impl split: ir_item.splits)

section \<open>Steps preserve\<close>

definition keeps_res :: "(res_state \<Rightarrow> bool) \<Rightarrow> res_step \<Rightarrow> bool" where
  "keeps_res I f \<longleftrightarrow> (\<forall>st st'. I st \<longrightarrow> f st = Some st' \<longrightarrow> I st')"

lemma keeps_skip [keep_rules]: "keeps_res I skip"
  by (simp add: keeps_res_def skip_def)

lemma keeps_update [keep_rules]: "(\<And>st. I st \<Longrightarrow> I (f st)) \<Longrightarrow> keeps_res I (update f)"
  by (simp add: keeps_res_def update_def)

lemma keeps_and_step [keep_rules]: "keeps_res I f \<Longrightarrow> keeps_res I g \<Longrightarrow> keeps_res I (and_step f g)"
  unfolding keeps_res_def and_step_def bind_eq_Some_conv by blast

lemma keeps_each [keep_rules]:
  assumes "\<And>x. x \<in> set xs \<Longrightarrow> keeps_res I (f x)"
  shows "keeps_res I (each f xs)"
proof -
  have "I st \<Longrightarrow> each f xs st = Some st' \<Longrightarrow> I st'" for st st'
    using assms
  proof (induction xs arbitrary: st)
    case (Cons x xs)
    from Cons.prems(2) obtain s where "f x st = Some s" "each f xs s = Some st'"
      by (auto simp: bind_eq_Some_conv)
    with Cons.prems(1,3) Cons.IH [of s] show ?case by (auto simp: keeps_res_def)
  qed simp
  then show ?thesis by (auto simp: keeps_res_def)
qed

lemma keeps_if [keep_rules]: "keeps_res I f \<Longrightarrow> keeps_res I g \<Longrightarrow> keeps_res I (if c then f else g)"
  by simp

lemma keeps_report [keep_rules]:
  "(\<And>st ds. I st \<Longrightarrow> I (st\<lparr>rt_diagnostics := ds\<rparr>)) \<Longrightarrow> keeps_res I (resolver_error derive code msg helps diag_file sp)"
  by (auto simp: keeps_res_def resolver_error_def)

section \<open>Silent steps and the namespaces\<close>

text \<open>
  \<open>declares V T f\<close>: when \<open>f\<close> ends without a diagnostic there was none before it, and it has added the
  names \<open>V\<close> to the value namespaces and \<open>T\<close> to the type namespaces, all of them new.
\<close>

definition adds :: "'a list \<Rightarrow> ('a, string) btree_map \<Rightarrow> ('a, string) btree_map \<Rightarrow> bool" where
  "adds ns m m' \<longleftrightarrow> distinct ns \<and> set ns \<inter> fst ` set m = {} \<and> fst ` set m' = fst ` set m \<union> set ns"

definition declares :: "(string \<times> string) list \<Rightarrow> (string \<times> string) list \<Rightarrow> res_step \<Rightarrow> bool" where
  "declares V T f \<longleftrightarrow>
     (\<forall>st st'. f st = Some st' \<longrightarrow> rt_diagnostics st' = [] \<longrightarrow>
        rt_diagnostics st = [] \<and> adds V (rt_value_kinds st) (rt_value_kinds st') \<and>
        adds T (rt_type_kinds st) (rt_type_kinds st'))"

lemma adds_Nil [simp]: "adds [] m m' \<longleftrightarrow> fst ` set m' = fst ` set m"
  by (auto simp: adds_def)

lemma adds_append: "adds a m m1 \<Longrightarrow> adds b m1 m2 \<Longrightarrow> adds (a @ b) m m2"
  by (auto simp: adds_def)

lemma adds_insert: "map_of m k = None \<Longrightarrow> adds [k] m (bt_insert k v m)"
  using fst_bt_insert [of k v m] by (auto simp: adds_def map_of_eq_None_iff)

lemma declares_silent: "declares V T f \<Longrightarrow> f st = Some st' \<Longrightarrow> rt_diagnostics st' = [] \<Longrightarrow> rt_diagnostics st = []"
  by (simp add: declares_def)

lemma declares_skip [declare_rules]: "V = [] \<Longrightarrow> T = [] \<Longrightarrow> declares V T skip"
  by (simp add: declares_def skip_def)

lemma declares_update [declare_rules]:
  assumes "V = []" "T = []" "\<And>st. rt_diagnostics (f st) = rt_diagnostics st"
    and "\<And>st. rt_value_kinds (f st) = rt_value_kinds st" "\<And>st. rt_type_kinds (f st) = rt_type_kinds st"
  shows "declares V T (update f)"
  using assms by (auto simp: declares_def update_def)

lemma declares_report [declare_rules]: "declares V T (resolver_error derive code msg helps diag_file sp)"
  by (auto simp: declares_def resolver_error_def)

lemma declares_and_step [declare_rules]:
  assumes "declares V1 T1 f" "declares V2 T2 g" "V = V1 @ V2" "T = T1 @ T2"
  shows "declares V T (and_step f g)"
proof -
  have "rt_diagnostics st = [] \<and> adds V (rt_value_kinds st) (rt_value_kinds st') \<and>
      adds T (rt_type_kinds st) (rt_type_kinds st')"
    if *: "and_step f g st = Some st'" "rt_diagnostics st' = []" for st st'
  proof -
    from *(1) obtain s where s: "f st = Some s" "g s = Some st'"
      by (auto simp: and_step_def bind_eq_Some_conv)
    from assms(2) s(2) *(2) have g: "rt_diagnostics s = []" "adds V2 (rt_value_kinds s) (rt_value_kinds st')"
      "adds T2 (rt_type_kinds s) (rt_type_kinds st')" by (simp_all add: declares_def)
    from assms(1) s(1) g(1) have f: "rt_diagnostics st = []" "adds V1 (rt_value_kinds st) (rt_value_kinds s)"
      "adds T1 (rt_type_kinds st) (rt_type_kinds s)" by (simp_all add: declares_def)
    from f g show ?thesis unfolding assms(3,4) by (simp add: adds_append)
  qed
  then show ?thesis by (auto simp: declares_def)
qed

lemma declares_each [declare_rules]:
  assumes "\<And>x. x \<in> set xs \<Longrightarrow> declares (v x) (t x) (f x)"
  shows "declares (concat (map v xs)) (concat (map t xs)) (each f xs)"
  using assms
proof (induction xs)
  case Nil
  show ?case by (simp add: declares_def)
next
  case (Cons x xs)
  have "each f (x # xs) = and_step (f x) (each f xs)" by (simp add: fun_eq_iff and_step_def)
  moreover have "declares (concat (map v (x # xs))) (concat (map t (x # xs))) (and_step (f x) (each f xs))"
    by (rule declares_and_step [OF Cons.prems [of x] Cons.IH]) (use Cons.prems in auto)
  ultimately show ?case by simp
qed

lemma declares_each_quiet [declare_rules]:
  "(\<And>x. x \<in> set xs \<Longrightarrow> declares [] [] (f x)) \<Longrightarrow> declares [] [] (each f xs)"
  using declares_each [of xs "\<lambda>_. []" "\<lambda>_. []" f] by simp

lemma declares_if [declare_rules]: "declares V T f \<Longrightarrow> declares V T g \<Longrightarrow> declares V T (if c then f else g)"
  by simp

lemma declares_duplicate: "declares V T (duplicate_symbol derive name k1 k2 item_file sp)"
  unfolding duplicate_symbol_def by (rule declares_report)

lemma declares_type [declare_rules]:
  assumes "declares V T free" "T' = (m, n) # T"
  shows "declares V T' (declare_type derive kind m n item_file sp free)"
proof -
  let ?up = "\<lambda>st. st\<lparr>rt_type_kinds := bt_insert (m, n) kind (rt_type_kinds st)\<rparr>"
  have "rt_diagnostics st = [] \<and> adds V (rt_value_kinds st) (rt_value_kinds st') \<and>
      adds T' (rt_type_kinds st) (rt_type_kinds st')"
    if *: "declare_type derive kind m n item_file sp free st = Some st'" "rt_diagnostics st' = []" for st st'
  proof (cases "map_of (rt_type_kinds st) (m, n)")
    case (Some k)
    with * declares_silent [OF declares_duplicate, of derive n k kind item_file sp "?up st" st']
    show ?thesis by (auto simp: declare_type_def duplicate_symbol_def resolver_error_def Let_def)
  next
    case None
    with *(1) have "free (?up st) = Some st'" by (simp add: declare_type_def Let_def)
    with assms(1) *(2) have "rt_diagnostics (?up st) = []"
      "adds V (rt_value_kinds (?up st)) (rt_value_kinds st')"
      "adds T (rt_type_kinds (?up st)) (rt_type_kinds st')" unfolding declares_def by blast+
    with adds_append [OF adds_insert [OF None, of kind]] show ?thesis unfolding assms(2) by fastforce
  qed
  then show ?thesis by (auto simp: declares_def)
qed

lemma declares_value [declare_rules]:
  assumes "declares V T free" "V' = (m, n) # V"
  shows "declares V' T (declare_value derive kind m n item_file sp free)"
proof -
  let ?up = "\<lambda>st. st\<lparr>rt_value_kinds := bt_insert (m, n) kind (rt_value_kinds st)\<rparr>"
  have "rt_diagnostics st = [] \<and> adds V' (rt_value_kinds st) (rt_value_kinds st') \<and>
      adds T (rt_type_kinds st) (rt_type_kinds st')"
    if *: "declare_value derive kind m n item_file sp free st = Some st'" "rt_diagnostics st' = []" for st st'
  proof (cases "map_of (rt_value_kinds st) (m, n)")
    case (Some k)
    with * show ?thesis by (auto simp: declare_value_def duplicate_symbol_def resolver_error_def Let_def)
  next
    case None
    with *(1) have "free (?up st) = Some st'" by (simp add: declare_value_def Let_def)
    with assms(1) *(2) have "rt_diagnostics (?up st) = []"
      "adds V (rt_value_kinds (?up st)) (rt_value_kinds st')"
      "adds T (rt_type_kinds (?up st)) (rt_type_kinds st')" unfolding declares_def by blast+
    with adds_append [OF adds_insert [OF None, of kind]] show ?thesis unfolding assms(2) by fastforce
  qed
  then show ?thesis by (auto simp: declares_def)
qed

section \<open>What an item declares\<close>

definition function_values :: "string \<Rightarrow> ir_function \<Rightarrow> (string \<times> string) list" where
  "function_values m f =
     (if decode_internal_type_alias (if_name f) \<noteq> None then []
      else case decode_internal_const (if_name f) of Some c \<Rightarrow> [(m, c)] | None \<Rightarrow> [(m, if_name f)])"

definition function_types :: "string \<Rightarrow> ir_function \<Rightarrow> (string \<times> string) list" where
  "function_types m f = (case decode_internal_type_alias (if_name f) of Some a \<Rightarrow> [(m, a)] | None \<Rightarrow> [])"

definition item_values :: "string \<Rightarrow> ir_item \<Rightarrow> (string \<times> string) list" where
  "item_values m item =
     (case item of
        IFunction f \<Rightarrow> function_values m f
      | IImpl d \<Rightarrow> concat (map (function_values m) (iid_methods d))
      | _ \<Rightarrow> [])"

definition item_types :: "string \<Rightarrow> ir_item \<Rightarrow> (string \<times> string) list" where
  "item_types m item =
     (case item of
        IFunction f \<Rightarrow> function_types m f
      | IStruct s \<Rightarrow> [(m, isd_name s)]
      | IEnum e \<Rightarrow> [(m, ied_name e)]
      | ITrait t \<Rightarrow> [(m, itd_name t)]
      | IImpl d \<Rightarrow> concat (map (function_types m) (iid_methods d)))"

text \<open>The fields of a struct or the variants of an enum.\<close>

definition item_members :: "ir_item \<Rightarrow> string list" where
  "item_members item =
     (case item of IStruct s \<Rightarrow> map ifd_name (isd_fields s) | IEnum e \<Rightarrow> map ivd_name (ied_variants e) | _ \<Rightarrow> [])"

lemma declares_register:
  "declares (function_values m f) (function_types m f) (register_function_item derive m item_file f)"
  by (auto simp: register_function_item_def function_values_def function_types_def add_function_def Let_def
      intro!: declare_rules split: option.splits)

lemma declares_methods:
  "declares (concat (map (function_values m) fs)) (concat (map (function_types m) fs))
     (each (register_function_item derive m item_file) fs)"
  by (rule declares_each) (rule declares_register)

lemma declares_check_impl_method:
  "declares [] [] (check_impl_method derive reprs bindings t trait_name item_file nm)"
  by (auto simp: check_impl_method_def intro!: declare_rules split: prod.splits option.splits)

lemma declares_inherent:
  "declares (concat (map (function_values m) (iid_methods d))) (concat (map (function_types m) (iid_methods d)))
     (resolve_inherent_impl derive p reprs m item_file d)"
proof -
  have "declares (concat (map (function_values m) (iid_methods d))) (concat (map (function_types m) (iid_methods d)))
      (and_step (if c then skip else resolver_error derive ''E1106'' msg [] item_file (iid_span d))
        (each (register_function_item derive m item_file) (iid_methods d)))" for c msg
    by (rule declares_and_step [OF _ declares_methods, of "[]" "[]"]) (auto intro!: declare_rules)
  then show ?thesis
    unfolding declares_def by (simp add: resolve_inherent_impl_def Let_def)
qed

text \<open>A silent implementation: its trait is known, and every method has passed its check.\<close>

definition impl_checked ::
  "ir_program \<Rightarrow> (type_id, string) btree_map \<Rightarrow> res_state \<Rightarrow> ir_impl_def \<Rightarrow> bool" where
  "impl_checked p reprs st d \<longleftrightarrow>
     (\<exists>t. impl_trait_info p st (iid_trait_name d) = Some t \<and>
        (\<forall>n \<in> fst ` set (tri_methods t). bt_has (impl_methods (iid_methods d)) n) \<and>
        (\<forall>(n, f) \<in> set (impl_methods (iid_methods d)). \<exists>expected.
           bt_get (tri_methods t) n = Some expected \<and>
           trait_method_signature_mismatch expected f reprs (impl_type_bindings reprs t (iid_trait_args d)) = None))"

lemma each_silent:
  assumes "each f xs st = Some st'" "rt_diagnostics st' = []" "x \<in> set xs" "I st"
    and "\<And>x. x \<in> set xs \<Longrightarrow> declares (v x) (t x) (f x)" "\<And>x. x \<in> set xs \<Longrightarrow> keeps_res I (f x)"
  shows "\<exists>s s'. I s \<and> f x s = Some s' \<and> rt_diagnostics s' = []"
  using assms
proof (induction xs arbitrary: st)
  case (Cons y ys)
  from Cons.prems(1) obtain s where s: "f y st = Some s" "each f ys s = Some st'"
    by (auto simp: bind_eq_Some_conv)
  from declares_silent [OF declares_each s(2) Cons.prems(2)] Cons.prems(5) have q: "rt_diagnostics s = []"
    by auto
  show ?case
  proof (cases "x = y")
    case True
    with s q Cons.prems(4) show ?thesis by blast
  next
    case False
    from Cons.prems(4,6) s(1) have "I s" by (auto simp: keeps_res_def)
    with Cons.IH [OF s(2)] Cons.prems False show ?thesis by auto
  qed
qed simp

lemma each_reports_silent:
  "each (\<lambda>x. resolver_error derive (c x) (m x) (h x) (g x) (sp x)) xs st = Some st' \<Longrightarrow>
     rt_diagnostics st' = [] \<Longrightarrow> xs = []"
proof (induction xs arbitrary: st)
  case (Cons x xs)
  from Cons.prems(1) obtain s where s: "resolver_error derive (c x) (m x) (h x) (g x) (sp x) st = Some s"
    "each (\<lambda>x. resolver_error derive (c x) (m x) (h x) (g x) (sp x)) xs s = Some st'"
    by (auto simp: bind_eq_Some_conv)
  from Cons.IH [OF s(2) Cons.prems(2)] s Cons.prems(2) have "rt_diagnostics s = []" by simp
  with s(1) show ?case by (auto simp: resolver_error_def)
qed simp

lemma declares_check_trait_impl:
  "declares (concat (map (function_values m) (iid_methods d))) (concat (map (function_types m) (iid_methods d)))
     (check_trait_impl derive reprs diag_file m item_file d t key conflict)"
  unfolding check_trait_impl_def Let_def
  by (rule declares_and_step [of "[]" "[]"], (auto intro!: declare_rules) [1],
      rule declares_and_step [of "[]" "[]"], (auto intro!: declare_rules) [1],
      rule declares_and_step [of "[]" "[]"], (auto intro!: declare_rules) [1],
      rule declares_and_step [of "[]" "[]"], (auto intro!: declares_each_quiet declares_check_impl_method) [1],
      rule declares_methods) simp_all

lemma report_not_silent: "resolver_error derive c a b g sp st = Some st' \<Longrightarrow> rt_diagnostics st' \<noteq> []"
  by (auto simp: resolver_error_def)

text \<open>A silent implementation has reached its checks and passed them.\<close>

lemma trait_impl_silent:
  assumes "resolve_trait_impl derive p reprs diag_file m item_file d st = Some st'" "rt_diagnostics st' = []"
  obtains t key c where "impl_trait_info p st (iid_trait_name d) = Some t"
    "check_trait_impl derive reprs diag_file m item_file d t key c
       (st\<lparr>rt_trait_impls := bt_add (iid_trait_name d) key (rt_trait_impls st)\<rparr>) = Some st'"
  using assms
  by (auto simp: resolve_trait_impl_def Let_def split: option.splits if_splits dest: report_not_silent)

lemma declares_trait_impl:
  "declares (concat (map (function_values m) (iid_methods d))) (concat (map (function_types m) (iid_methods d)))
     (resolve_trait_impl derive p reprs diag_file m item_file d)"
  unfolding declares_def
proof (intro allI impI)
  fix st st'
  assume "resolve_trait_impl derive p reprs diag_file m item_file d st = Some st'"
    and silent: "rt_diagnostics st' = []"
  then obtain t key c where
    "check_trait_impl derive reprs diag_file m item_file d t key c
       (st\<lparr>rt_trait_impls := bt_add (iid_trait_name d) key (rt_trait_impls st)\<rparr>) = Some st'"
    by (rule trait_impl_silent)
  with declares_check_trait_impl [of m d derive reprs diag_file item_file t key c] silent
  show "rt_diagnostics st = [] \<and>
    adds (concat (map (function_values m) (iid_methods d))) (rt_value_kinds st) (rt_value_kinds st') \<and>
    adds (concat (map (function_types m) (iid_methods d))) (rt_type_kinds st) (rt_type_kinds st')"
    unfolding declares_def by fastforce
qed

lemma and_step_Some: "and_step f g st = Some st' \<longleftrightarrow> (\<exists>s. f st = Some s \<and> g s = Some st')"
  by (simp add: and_step_def bind_eq_Some_conv)

lemma check_impl_method_silent:
  assumes "check_impl_method derive reprs bindings t trait_name item_file (n, f) st = Some st'"
    and "rt_diagnostics st' = []"
  shows "\<exists>expected. bt_get (tri_methods t) n = Some expected \<and>
    trait_method_signature_mismatch expected f reprs bindings = None"
  using assms
  by (auto simp: check_impl_method_def split: option.splits dest: report_not_silent)

lemma check_trait_impl_silent:
  assumes "check_trait_impl derive reprs diag_file m item_file d t key c st = Some st'"
    and silent: "rt_diagnostics st' = []"
  shows "\<forall>n \<in> fst ` set (tri_methods t). bt_has (impl_methods (iid_methods d)) n"
    and "\<forall>(n, f) \<in> set (impl_methods (iid_methods d)). \<exists>expected.
      bt_get (tri_methods t) n = Some expected \<and>
      trait_method_signature_mismatch expected f reprs (impl_type_bindings reprs t (iid_trait_args d)) = None"
proof -
  let ?check = "check_impl_method derive reprs (impl_type_bindings reprs t (iid_trait_args d)) t
    (iid_trait_name d) item_file"
  let ?missing = "filter (\<lambda>name. \<not> bt_has (impl_methods (iid_methods d)) name) (map fst (tri_methods t))"
  from assms(1) obtain msg helps s2 s3 s4 where
    gaps: "(if ?missing = [] then skip
        else resolver_error derive ''E1107'' msg helps diag_file (iid_span d)) s2 = Some s3"
    and checks: "each ?check (impl_methods (iid_methods d)) s3 = Some s4"
    and rest: "each (register_function_item derive m item_file) (iid_methods d) s4 = Some st'"
    unfolding check_trait_impl_def Let_def and_step_Some by blast
  from declares_silent [OF declares_methods rest silent] have q4: "rt_diagnostics s4 = []" .
  have quiet: "declares [] [] (each ?check (impl_methods (iid_methods d)))"
    by (rule declares_each_quiet) (rule declares_check_impl_method)
  from declares_silent [OF quiet checks q4] have "rt_diagnostics s3 = []" .
  with gaps have "?missing = []" by (auto split: if_splits dest: report_not_silent)
  then show "\<forall>n \<in> fst ` set (tri_methods t). bt_has (impl_methods (iid_methods d)) n"
    by (auto simp: filter_empty_conv)
  show "\<forall>(n, f) \<in> set (impl_methods (iid_methods d)). \<exists>expected.
      bt_get (tri_methods t) n = Some expected \<and>
      trait_method_signature_mismatch expected f reprs (impl_type_bindings reprs t (iid_trait_args d)) = None"
  proof (intro ballI, clarify)
    fix n f
    assume "(n, f) \<in> set (impl_methods (iid_methods d))"
    from each_silent [OF checks q4 this, of "\<lambda>_. True" "\<lambda>_. []" "\<lambda>_. []"]
    obtain s s' where "?check (n, f) s = Some s'" "rt_diagnostics s' = []"
      by (auto simp: keeps_res_def declares_check_impl_method)
    then show "\<exists>expected. bt_get (tri_methods t) n = Some expected \<and>
        trait_method_signature_mismatch expected f reprs (impl_type_bindings reprs t (iid_trait_args d)) = None"
      by (rule check_impl_method_silent)
  qed
qed

lemma declares_item:
  "declares (item_values (resolver_module p item_modules i) item) (item_types (resolver_module p item_modules i) item)
     (resolve_item derive p reprs diag_file item_modules module_files (i, item))"
proof (cases item)
  case (IImpl d)
  then show ?thesis
    using declares_inherent declares_trait_impl
    by (simp add: resolve_item_def item_values_def item_types_def Let_def)
qed (auto simp: resolve_item_def item_values_def item_types_def resolve_struct_def resolve_enum_def
    resolve_trait_def add_struct_def add_enum_def add_trait_def Let_def
    intro!: declare_rules declares_register)

section \<open>The tables agree\<close>

text \<open>
  What the tables of one kind of declarations promise each other: \<open>infos\<close> is the table by module and
  name, \<open>modules\<close> gives the modules of a name, \<open>exported\<close> the visible names of a module, \<open>firsts\<close> an
  info for every declared name. \<open>kinds\<close> is the namespace that they are registered in.
\<close>

definition decl_table ::
  "string module_map \<Rightarrow> 'i module_map \<Rightarrow> string_set name_map \<Rightarrow> string_set name_map \<Rightarrow> 'i name_map \<Rightarrow>
   ('i \<Rightarrow> visibility) \<Rightarrow> bool" where
  "decl_table kinds infos modules exported firsts vis \<longleftrightarrow>
     (\<forall>m n. bt_has infos (m, n) \<longrightarrow> bt_has kinds (m, n)) \<and>
     (\<forall>m n. m \<in> set (bt_members modules n) \<longleftrightarrow> bt_has infos (m, n)) \<and>
     (\<forall>m n. n \<in> set (bt_members exported m) \<longleftrightarrow> (\<exists>i. bt_get infos (m, n) = Some i \<and> vis i \<noteq> Private)) \<and>
     (\<forall>n i. bt_get firsts n = Some i \<longrightarrow> (\<exists>m. bt_get infos (m, n) = Some i)) \<and>
     (\<forall>m n. bt_has infos (m, n) \<longrightarrow> bt_has firsts n)"

lemma decl_table_empty: "decl_table kinds [] [] [] [] vis"
  by (simp add: decl_table_def bt_has_def)

lemma decl_table_kinds:
  "decl_table kinds infos modules exported firsts vis \<Longrightarrow>
     decl_table (bt_insert k v kinds) infos modules exported firsts vis"
  unfolding decl_table_def bt_has_insert by blast

lemma decl_table_fresh:
  "decl_table kinds infos modules exported firsts vis \<Longrightarrow> bt_get kinds k = None \<Longrightarrow> bt_get infos k = None"
  by (cases k) (fastforce simp: decl_table_def bt_has_def)

lemma decl_table_add:
  assumes "decl_table kinds infos modules exported firsts vis" "bt_get infos (m, n) = None"
    and "bt_has kinds (m, n)" "exported' = (if vis i \<noteq> Private then bt_add m n exported else exported)"
  shows "decl_table kinds (bt_insert (m, n) i infos) (bt_add n m modules) exported' (bt_or_insert n i firsts) vis"
  using assms(1-3) unfolding assms(4) decl_table_def
  by (simp add: map_of_bt_insert bt_get_or_insert)
    (auto simp: bt_has_def split: option.splits; metis option.distinct(1))

definition res_tables :: "res_state \<Rightarrow> bool" where
  "res_tables st \<longleftrightarrow>
     decl_table (rt_value_kinds st) (rt_module_function_infos st) (rt_function_modules st)
       (rt_module_exported_functions st) (rt_functions st) fi_visibility \<and>
     decl_table (rt_type_kinds st) (rt_module_struct_infos st) (rt_struct_modules st)
       (rt_module_exported_structs st) (rt_structs st) sti_visibility \<and>
     decl_table (rt_type_kinds st) (rt_module_enum_infos st) (rt_enum_modules st)
       (rt_module_exported_enums st) (rt_enums st) eni_visibility \<and>
     (\<forall>m n. n \<in> set (bt_members (rt_module_functions st) m) \<longleftrightarrow> m \<in> set (bt_members (rt_function_modules st) n))"

lemma res_tables_diagnostics: "res_tables st \<Longrightarrow> res_tables (st\<lparr>rt_diagnostics := ds\<rparr>)"
  by (simp add: res_tables_def)

lemma keeps_tables_report [keep_rules]:
  "keeps_res res_tables (resolver_error derive code msg helps diag_file sp)"
  by (rule keeps_report) (rule res_tables_diagnostics)

text \<open>A declaration: what follows may rely on the name being new in its namespace.\<close>

lemma keeps_tables_declare_type:
  assumes "\<And>st st'. res_tables st \<Longrightarrow> bt_get (rt_module_struct_infos st) (m, n) = None \<Longrightarrow>
      bt_get (rt_module_enum_infos st) (m, n) = None \<Longrightarrow> bt_has (rt_type_kinds st) (m, n) \<Longrightarrow>
      free st = Some st' \<Longrightarrow> res_tables st'"
  shows "keeps_res res_tables (declare_type derive kind m n item_file sp free)"
proof -
  have up: "res_tables (st\<lparr>rt_type_kinds := bt_insert k v (rt_type_kinds st)\<rparr>)" if "res_tables st" for st k v
    using that by (simp add: res_tables_def decl_table_kinds)
  have "res_tables st'" if *: "res_tables st" "declare_type derive kind m n item_file sp free st = Some st'" for st st'
  proof (cases "bt_get (rt_type_kinds st) (m, n)")
    case None
    with *(1) have new: "bt_get (rt_module_struct_infos st) (m, n) = None"
      "bt_get (rt_module_enum_infos st) (m, n) = None"
      unfolding res_tables_def by (blast intro: decl_table_fresh)+
    from None *(2) have "free (st\<lparr>rt_type_kinds := bt_insert (m, n) kind (rt_type_kinds st)\<rparr>) = Some st'"
      by (simp add: declare_type_def Let_def)
    from assms [OF up [OF *(1)] _ _ _ this] new show ?thesis by simp
  next
    case (Some k)
    with *(2) have "duplicate_symbol derive n k kind item_file sp
        (st\<lparr>rt_type_kinds := bt_insert (m, n) kind (rt_type_kinds st)\<rparr>) = Some st'"
      by (simp add: declare_type_def Let_def)
    with keeps_tables_report up [OF *(1)] show ?thesis
      unfolding duplicate_symbol_def keeps_res_def by blast
  qed
  then show ?thesis by (simp add: keeps_res_def)
qed

lemma keeps_tables_declare_value:
  assumes "\<And>st st'. res_tables st \<Longrightarrow> bt_get (rt_module_function_infos st) (m, n) = None \<Longrightarrow>
      bt_has (rt_value_kinds st) (m, n) \<Longrightarrow> free st = Some st' \<Longrightarrow> res_tables st'"
  shows "keeps_res res_tables (declare_value derive kind m n item_file sp free)"
proof -
  have up: "res_tables (st\<lparr>rt_value_kinds := bt_insert k v (rt_value_kinds st)\<rparr>)" if "res_tables st" for st k v
    using that by (simp add: res_tables_def decl_table_kinds)
  have "res_tables st'" if *: "res_tables st" "declare_value derive kind m n item_file sp free st = Some st'" for st st'
  proof (cases "bt_get (rt_value_kinds st) (m, n)")
    case None
    with *(1) have new: "bt_get (rt_module_function_infos st) (m, n) = None"
      unfolding res_tables_def by (blast intro: decl_table_fresh)
    from None *(2) have "free (st\<lparr>rt_value_kinds := bt_insert (m, n) kind (rt_value_kinds st)\<rparr>) = Some st'"
      by (simp add: declare_value_def Let_def)
    from assms [OF up [OF *(1)] _ _ this] new show ?thesis by simp
  next
    case (Some k)
    with *(2) have "duplicate_symbol derive n k kind item_file sp
        (st\<lparr>rt_value_kinds := bt_insert (m, n) kind (rt_value_kinds st)\<rparr>) = Some st'"
      by (simp add: declare_value_def Let_def)
    with keeps_tables_report up [OF *(1)] show ?thesis
      unfolding duplicate_symbol_def keeps_res_def by blast
  qed
  then show ?thesis by (simp add: keeps_res_def)
qed

lemma add_function_tables:
  assumes "res_tables st" "bt_get (rt_module_function_infos st) (m, if_name f) = None"
    and "bt_has (rt_value_kinds st) (m, if_name f)"
  shows "res_tables (add_function m f st)"
  using assms unfolding res_tables_def add_function_def Let_def
  by (simp split del: if_split, intro conjI decl_table_add) auto

lemma keeps_tables_register: "keeps_res res_tables (register_function_item derive m item_file f)"
  by (auto simp: register_function_item_def update_def skip_def add_function_tables
      intro!: keeps_tables_declare_type keeps_tables_declare_value split: option.splits)

lemma add_struct_tables:
  assumes "res_tables st" "bt_get (rt_module_struct_infos st) (m, isd_name s) = None"
    and "bt_has (rt_type_kinds st) (m, isd_name s)"
  shows "res_tables (add_struct m s st)"
  using assms unfolding res_tables_def add_struct_def Let_def
  by (simp split del: if_split, intro conjI decl_table_add) auto

lemma add_enum_tables:
  assumes "res_tables st" "bt_get (rt_module_enum_infos st) (m, ied_name e) = None"
    and "bt_has (rt_type_kinds st) (m, ied_name e)"
  shows "res_tables (add_enum m e st)"
  using assms unfolding res_tables_def add_enum_def Let_def
  by (simp split del: if_split, intro conjI decl_table_add) auto

text \<open>The reports of repeated members come before the registration.\<close>

lemma tables_after_reports:
  assumes "and_step (each (\<lambda>x. resolver_error derive code (msg x) helps diag_file (sp x)) xs) (update g) st = Some st'"
    and "res_tables st"
    and "\<And>ds. res_tables (st\<lparr>rt_diagnostics := ds\<rparr>) \<Longrightarrow> res_tables (g (st\<lparr>rt_diagnostics := ds\<rparr>))"
  shows "res_tables st'"
proof -
  have "keeps_res (\<lambda>s. \<exists>ds. s = st\<lparr>rt_diagnostics := ds\<rparr>)
      (each (\<lambda>x. resolver_error derive code (msg x) helps diag_file (sp x)) xs)"
    by (intro keep_rules) (auto intro: exI [of _ "ds" for ds])
  moreover have "\<exists>ds. st = st\<lparr>rt_diagnostics := ds\<rparr>" by (rule exI [of _ "rt_diagnostics st"]) simp
  ultimately obtain ds where "st' = g (st\<lparr>rt_diagnostics := ds\<rparr>)"
    using assms(1) unfolding and_step_Some update_def keeps_res_def by blast
  with assms(2,3) show ?thesis by (simp add: res_tables_diagnostics)
qed

lemma keeps_tables_types:
  "keeps_res res_tables (resolve_struct derive m item_file s)"
  "keeps_res res_tables (resolve_enum derive m item_file e)"
  "keeps_res res_tables (resolve_trait derive m item_file t)"
proof -
  show "keeps_res res_tables (resolve_struct derive m item_file s)"
    unfolding resolve_struct_def
    by (rule keeps_tables_declare_type) (erule tables_after_reports, simp_all add: add_struct_tables)
  show "keeps_res res_tables (resolve_enum derive m item_file e)"
    unfolding resolve_enum_def
    by (rule keeps_tables_declare_type) (erule tables_after_reports, simp_all add: add_enum_tables)
  show "keeps_res res_tables (resolve_trait derive m item_file t)"
    unfolding resolve_trait_def
    by (rule keeps_tables_declare_type)
      (erule tables_after_reports, simp_all add: add_trait_def res_tables_def)
qed

lemma keeps_tables_check_method:
  "keeps_res res_tables (check_impl_method derive reprs bindings t trait_name item_file nm)"
  by (auto simp: check_impl_method_def intro!: keep_rules split: prod.splits option.splits)

lemma keeps_tables_inherent: "keeps_res res_tables (resolve_inherent_impl derive p reprs m item_file d)"
proof -
  have "keeps_res res_tables
      (and_step (if c then skip else resolver_error derive ''E1106'' msg [] item_file (iid_span d))
        (each (register_function_item derive m item_file) (iid_methods d)))" for c msg
    by (intro keep_rules keeps_tables_register)
  then show ?thesis
    unfolding keeps_res_def by (simp add: resolve_inherent_impl_def Let_def)
qed

lemma keeps_tables_check_trait_impl:
  "keeps_res res_tables (check_trait_impl derive reprs diag_file m item_file d t key c)"
  unfolding check_trait_impl_def Let_def
  by (intro keep_rules keeps_tables_register keeps_tables_check_method)

lemma keeps_tables_trait_impl: "keeps_res res_tables (resolve_trait_impl derive p reprs diag_file m item_file d)"
proof -
  have "res_tables st'"
    if "res_tables st" "resolve_trait_impl derive p reprs diag_file m item_file d st = Some st'" for st st'
  proof -
    have up: "res_tables (st\<lparr>rt_trait_impls := x\<rparr>)" for x using that(1) by (simp add: res_tables_def)
    note rep = keeps_tables_report [unfolded keeps_res_def, rule_format]
      and chk = keeps_tables_check_trait_impl [unfolded keeps_res_def, rule_format]
    show ?thesis
    proof (cases "impl_trait_info p st (iid_trait_name d)")
      case None
      with that(2) rep [OF that(1)] show ?thesis by (simp add: resolve_trait_impl_def)
    next
      case (Some t)
      with that(2) rep [OF that(1)] chk [OF up] show ?thesis
        by (simp add: resolve_trait_impl_def Let_def split: if_splits)
    qed
  qed
  then show ?thesis by (simp add: keeps_res_def)
qed

lemma keeps_tables_item:
  "keeps_res res_tables (resolve_item derive p reprs diag_file item_modules module_files ni)"
  by (cases ni)
    (auto simp: resolve_item_def Let_def keeps_tables_register keeps_tables_types keeps_tables_inherent
      keeps_tables_trait_impl split: ir_item.splits)

section \<open>The traits that implementations are checked against\<close>

definition traits_of :: "ir_program \<Rightarrow> res_state \<Rightarrow> bool" where
  "traits_of p st \<longleftrightarrow> (\<forall>n t. bt_get (rt_traits st) n = Some t \<longrightarrow>
     (\<exists>m td. ITrait td \<in> set (irp_items p) \<and> itd_name td = n \<and> t = trait_info_of m td))"

lemma keeps_declare [keep_rules]:
  assumes "\<And>st ds. I st \<Longrightarrow> I (st\<lparr>rt_diagnostics := ds\<rparr>)" "\<And>st k. I st \<Longrightarrow> I (st\<lparr>rt_type_kinds := k\<rparr>)"
    and "\<And>st k. I st \<Longrightarrow> I (st\<lparr>rt_value_kinds := k\<rparr>)" "keeps_res I free"
  shows "keeps_res I (declare_type derive kind m n item_file sp free)"
    and "keeps_res I (declare_value derive kind m n item_file sp free)"
proof -
  have dup: "I st'" if "I st" "duplicate_symbol derive n k kind item_file sp st = Some st'" for st st' k
    using keeps_report [of I, OF assms(1)] that unfolding keeps_res_def duplicate_symbol_def by blast
  have free: "I st'" if "I st" "free st = Some st'" for st st'
    using assms(4) that unfolding keeps_res_def by blast
  show "keeps_res I (declare_type derive kind m n item_file sp free)"
    unfolding keeps_res_def declare_type_def Let_def
    by (auto split: option.splits intro: dup [OF assms(2)] free [OF assms(2)])
  show "keeps_res I (declare_value derive kind m n item_file sp free)"
    unfolding keeps_res_def declare_value_def Let_def
    by (auto split: option.splits intro: dup [OF assms(3)] free [OF assms(3)])
qed

lemma keeps_traits_report [keep_rules]: "keeps_res (traits_of p) (resolver_error derive code msg helps diag_file sp)"
  by (rule keeps_report) (simp add: traits_of_def)

lemma keeps_traits_register: "keeps_res (traits_of p) (register_function_item derive m item_file f)"
  by (auto simp: register_function_item_def traits_of_def add_function_def Let_def
      intro!: keep_rules split: option.splits)

lemma keeps_traits_methods:
  "keeps_res (traits_of p) (check_impl_method derive reprs bindings t trait_name item_file nm)"
  "keeps_res (traits_of p) (check_trait_impl derive reprs diag_file m item_file d t key c)"
proof -
  show chk: "keeps_res (traits_of p) (check_impl_method derive reprs bindings t trait_name item_file nm)"
    for reprs bindings t trait_name item_file nm
    by (auto simp: check_impl_method_def intro!: keep_rules split: prod.splits option.splits)
  show "keeps_res (traits_of p) (check_trait_impl derive reprs diag_file m item_file d t key c)"
    unfolding check_trait_impl_def Let_def by (intro keep_rules keeps_traits_register chk)
qed

lemma keeps_traits_impls:
  "keeps_res (traits_of p) (resolve_inherent_impl derive q reprs m item_file d)"
  "keeps_res (traits_of p) (resolve_trait_impl derive q reprs diag_file m item_file d)"
proof -
  have "keeps_res (traits_of p)
      (and_step (if c then skip else resolver_error derive ''E1106'' msg [] item_file (iid_span d))
        (each (register_function_item derive m item_file) (iid_methods d)))" for c msg
    by (intro keep_rules keeps_traits_register)
  then show "keeps_res (traits_of p) (resolve_inherent_impl derive q reprs m item_file d)"
    unfolding keeps_res_def by (simp add: resolve_inherent_impl_def Let_def)
  have "traits_of p st'"
    if "traits_of p st" "resolve_trait_impl derive q reprs diag_file m item_file d st = Some st'" for st st'
  proof -
    have up: "traits_of p (st\<lparr>rt_trait_impls := x\<rparr>)" for x using that(1) by (simp add: traits_of_def)
    note rep = keeps_traits_report [unfolded keeps_res_def, rule_format]
      and chk = keeps_traits_methods(2) [unfolded keeps_res_def, rule_format]
    show ?thesis
    proof (cases "impl_trait_info q st (iid_trait_name d)")
      case None
      with that(2) rep [OF that(1)] show ?thesis by (simp add: resolve_trait_impl_def)
    next
      case (Some t)
      with that(2) rep [OF that(1)] chk [OF up] show ?thesis
        by (simp add: resolve_trait_impl_def Let_def split: if_splits)
    qed
  qed
  then show "keeps_res (traits_of p) (resolve_trait_impl derive q reprs diag_file m item_file d)"
    by (simp add: keeps_res_def)
qed

lemma keeps_traits_types:
  "keeps_res (traits_of p) (resolve_struct derive m item_file s)"
  "keeps_res (traits_of p) (resolve_enum derive m item_file e)"
  "ITrait t \<in> set (irp_items p) \<Longrightarrow> keeps_res (traits_of p) (resolve_trait derive m item_file t)"
proof -
  show "keeps_res (traits_of p) (resolve_struct derive m item_file s)"
    unfolding resolve_struct_def by (intro keep_rules) (simp_all add: traits_of_def add_struct_def Let_def)
  show "keeps_res (traits_of p) (resolve_enum derive m item_file e)"
    unfolding resolve_enum_def by (intro keep_rules) (simp_all add: traits_of_def add_enum_def Let_def)
  assume "ITrait t \<in> set (irp_items p)"
  then have "traits_of p st \<Longrightarrow> traits_of p (add_trait m t st)" for st
    by (auto simp: traits_of_def add_trait_def bt_get_or_insert split: option.splits)
  then show "keeps_res (traits_of p) (resolve_trait derive m item_file t)"
    unfolding resolve_trait_def by (intro keep_rules) (simp_all add: traits_of_def)
qed

lemma keeps_traits_item:
  "item \<in> set (irp_items p) \<Longrightarrow>
     keeps_res (traits_of p) (resolve_item derive p reprs diag_file item_modules module_files (i, item))"
  by (auto simp: resolve_item_def Let_def keeps_traits_register keeps_traits_types keeps_traits_impls
      split: ir_item.splits)

lemma impl_trait_found:
  assumes "traits_of p st" "impl_trait_info p st n = Some t"
  obtains m td where "ITrait td \<in> set (irp_items p)" "itd_name td = n" "t = trait_info_of m td"
proof (cases "bt_get (rt_traits st) n")
  case (Some t')
  with assms that show ?thesis by (auto simp: traits_of_def impl_trait_info_def)
next
  case None
  have "first_some xs = Some y \<Longrightarrow> Some y \<in> set xs" for xs and y :: trait_info
    by (induction xs) (auto split: option.splits)
  with None assms(2) that show ?thesis
    by (force simp: impl_trait_info_def find_trait_item_def split: ir_item.splits if_splits)
qed

end
