(* ===== verification/ResolverCorrect.thy ===== *)
theory ResolverCorrect
  imports ResolverProps
begin

text \<open>
  What name resolution guarantees, for a program and any division of its items into modules.
\<close>

section \<open>The whole pass\<close>

lemma resolve_steps:
  assumes "resolve_with_item_modules_imports_and_files derive p diag_file item_modules module_imports
    module_files = Some (r, ds)"
  obtains imps all_imports reprs st st' where
    "each (resolve_item derive p reprs diag_file item_modules module_files) (enumerate 0 (irp_items p))
       empty_res_state = Some st"
    "rt_diagnostics st' = ds" "r = finish_resolution p imps all_imports st'"
    "reprs = bt_collect (map (\<lambda>ty. (tdef_id ty, tdef_repr ty)) (irp_types p))"
    "each (\<lambda>alias. resolver_error derive ''E2104''
        (''ambiguous import alias '' @ in_quotes alias @ '': multiple imports share this tail segment'')
        [''use fully-qualified module prefixes in call sites''] diag_file (irp_span p))
       (snd (alias_maps_for_imports imps)) st = Some st'"
  using assms
  by (auto simp: resolve_with_item_modules_imports_and_files_def Let_def and_step_Some)

lemma each_reports_frame:
  assumes "each (\<lambda>x. resolver_error derive code (msg x) helps diag_file sp) xs st = Some st'"
  shows "\<exists>ds. st' = st\<lparr>rt_diagnostics := ds\<rparr>"
proof -
  have "keeps_res (\<lambda>s. \<exists>ds. s = st\<lparr>rt_diagnostics := ds\<rparr>)
      (each (\<lambda>x. resolver_error derive code (msg x) helps diag_file sp) xs)"
    by (intro keep_rules) auto
  moreover have "\<exists>ds. st = st\<lparr>rt_diagnostics := ds\<rparr>" by (rule exI [of _ "rt_diagnostics st"]) simp
  ultimately show ?thesis using assms unfolding keeps_res_def by blast
qed

lemma enumerate_item: "(i, x) \<in> set (enumerate 0 xs) \<Longrightarrow> x \<in> set xs"
  by (auto simp: in_set_enumerate_eq)

lemma item_enumerated:
  assumes "x \<in> set xs"
  obtains i where "(i, x) \<in> set (enumerate 0 xs)"
proof -
  have "x \<in> snd ` set (enumerate 0 xs)" using assms by (metis map_snd_enumerate set_map)
  with that show ?thesis by auto
qed

text \<open>A silent pass over the items.\<close>

lemma resolve_silent:
  assumes "resolve_with_item_modules_imports_and_files derive p diag_file item_modules module_imports
    module_files = Some (r, [])"
  obtains st where
    "each (resolve_item derive p (bt_collect (map (\<lambda>ty. (tdef_id ty, tdef_repr ty)) (irp_types p)))
       diag_file item_modules module_files) (enumerate 0 (irp_items p)) empty_res_state = Some st"
    "rt_diagnostics st = []"
proof -
  obtain imps st st' where *:
    "each (resolve_item derive p (bt_collect (map (\<lambda>ty. (tdef_id ty, tdef_repr ty)) (irp_types p)))
       diag_file item_modules module_files) (enumerate 0 (irp_items p)) empty_res_state = Some st"
    "rt_diagnostics st' = []"
    "each (\<lambda>alias. resolver_error derive ''E2104''
        (''ambiguous import alias '' @ in_quotes alias @ '': multiple imports share this tail segment'')
        [''use fully-qualified module prefixes in call sites''] diag_file (irp_span p))
       (snd (alias_maps_for_imports imps)) st = Some st'"
    by (rule resolve_steps [OF assms]) blast
  from declares_silent [OF declares_each_quiet *(3,2)] have "rt_diagnostics st = []"
    by (auto intro: declare_rules)
  with *(1) that show ?thesis by blast
qed

section \<open>Unique declarations\<close>

lemma repeated_Nil: "repeated key seen xs = [] \<longleftrightarrow> distinct (map key xs) \<and> set (map key xs) \<inter> set seen = {}"
  by (induction key seen xs rule: repeated.induct) auto

lemma silent_item:
  assumes "resolve_with_item_modules_imports_and_files derive p diag_file item_modules module_imports
    module_files = Some (r, [])" "(i, item) \<in> set (enumerate 0 (irp_items p))"
  obtains s s' where "traits_of p s"
    "resolve_item derive p (bt_collect (map (\<lambda>ty. (tdef_id ty, tdef_repr ty)) (irp_types p))) diag_file
       item_modules module_files (i, item) s = Some s'"
    "rt_diagnostics s' = []"
proof -
  from resolve_silent [OF assms(1)] obtain st where
    "each (resolve_item derive p (bt_collect (map (\<lambda>ty. (tdef_id ty, tdef_repr ty)) (irp_types p)))
       diag_file item_modules module_files) (enumerate 0 (irp_items p)) empty_res_state = Some st"
    "rt_diagnostics st = []" by blast
  from each_silent [OF this assms(2), of "traits_of p"
      "\<lambda>(i, item). item_values (resolver_module p item_modules i) item"
      "\<lambda>(i, item). item_types (resolver_module p item_modules i) item"] that
  show ?thesis
    using declares_item keeps_traits_item
    by (fastforce simp: traits_of_def empty_res_state_def dest: enumerate_item)
qed

lemma declare_type_silent:
  assumes "declare_type derive kind m n item_file sp free st = Some st'" "rt_diagnostics st' = []"
  shows "\<exists>s. free s = Some st'"
  using assms
  by (auto simp: declare_type_def duplicate_symbol_def Let_def dest: report_not_silent split: option.splits)

lemma reports_then_update_silent:
  assumes "and_step (each (\<lambda>x. resolver_error derive code (msg x) helps diag_file (sp x)) xs) (update g) st = Some st'"
    and "rt_diagnostics st' = []" "\<And>st. rt_diagnostics (g st) = rt_diagnostics st"
  shows "xs = []"
  using assms each_reports_silent by (fastforce simp: and_step_Some update_def)

lemma silent_members:
  assumes "resolve_item derive p reprs diag_file item_modules module_files (i, item) s = Some s'"
    "rt_diagnostics s' = []"
  shows "distinct (item_members item)"
    and "item = ITrait t \<Longrightarrow> distinct (map (\<lambda>f. method_name_key (if_name f)) (itd_methods t))"
proof -
  let ?m = "resolver_module p item_modules i"
  show "distinct (item_members item)"
  proof (cases item)
    case (IStruct d)
    with assms obtain s1 where "and_step
        (each (\<lambda>field. resolver_error derive ''E1101''
           (''duplicate struct field '' @ in_quotes (isd_name d @ ''.'' @ ifd_name field)) []
           (resolver_file module_files ?m diag_file) (ifd_span field)) (repeated ifd_name [] (isd_fields d)))
        (update (add_struct ?m d)) s1 = Some s'"
      by (auto simp: resolve_item_def resolve_struct_def Let_def dest: declare_type_silent)
    from reports_then_update_silent [OF this assms(2)] IStruct show ?thesis
      by (simp add: add_struct_def Let_def repeated_Nil item_members_def)
  next
    case (IEnum d)
    with assms obtain s1 where "and_step
        (each (\<lambda>variant. resolver_error derive ''E1102''
           (''duplicate enum variant '' @ in_quotes (ied_name d @ ''.'' @ ivd_name variant)) []
           (resolver_file module_files ?m diag_file) (ivd_span variant)) (repeated ivd_name [] (ied_variants d)))
        (update (add_enum ?m d)) s1 = Some s'"
      by (auto simp: resolve_item_def resolve_enum_def Let_def dest: declare_type_silent)
    from reports_then_update_silent [OF this assms(2)] IEnum show ?thesis
      by (simp add: add_enum_def Let_def repeated_Nil item_members_def)
  qed (simp_all add: item_members_def)
  assume "item = ITrait t"
  with assms obtain s1 where "and_step
      (each (\<lambda>method. resolver_error derive ''E1107''
         (''duplicate trait method '' @ in_quotes (itd_name t @ ''.'' @ method_name_key (if_name method)))
         [''keep exactly one signature per trait method name'']
         (resolver_file module_files ?m diag_file) (if_span method))
       (repeated (\<lambda>method. method_name_key (if_name method)) [] (itd_methods t)))
      (update (add_trait ?m t)) s1 = Some s'"
    by (auto simp: resolve_item_def resolve_trait_def Let_def dest: declare_type_silent)
  from reports_then_update_silent [OF this assms(2)]
  show "distinct (map (\<lambda>f. method_name_key (if_name f)) (itd_methods t))"
    by (simp add: add_trait_def repeated_Nil)
qed

text \<open>
  C29: a program that name resolution accepts without a diagnostic declares every name once: in every
  module the functions and constants have distinct names, the structs, enums, traits and type aliases
  have distinct names, and so have the fields of every struct and the variants of every enum. A
  function may share its name with a type.
\<close>

theorem accepted_names_unique:
  assumes "resolve_with_item_modules_imports_and_files derive p diag_file item_modules module_imports
    module_files = Some (r, [])"
  shows "distinct (concat (map (\<lambda>(i, item). item_values (resolver_module p item_modules i) item)
      (enumerate 0 (irp_items p)))) \<and>
    distinct (concat (map (\<lambda>(i, item). item_types (resolver_module p item_modules i) item)
      (enumerate 0 (irp_items p)))) \<and>
    (\<forall>item \<in> set (irp_items p). distinct (item_members item))"
proof -
  from resolve_silent [OF assms] obtain st where st:
    "each (resolve_item derive p (bt_collect (map (\<lambda>ty. (tdef_id ty, tdef_repr ty)) (irp_types p)))
       diag_file item_modules module_files) (enumerate 0 (irp_items p)) empty_res_state = Some st"
    "rt_diagnostics st = []" by blast
  have "declares (concat (map (\<lambda>(i, item). item_values (resolver_module p item_modules i) item)
        (enumerate 0 (irp_items p))))
      (concat (map (\<lambda>(i, item). item_types (resolver_module p item_modules i) item) (enumerate 0 (irp_items p))))
      (each (resolve_item derive p (bt_collect (map (\<lambda>ty. (tdef_id ty, tdef_repr ty)) (irp_types p)))
       diag_file item_modules module_files) (enumerate 0 (irp_items p)))"
    by (rule declares_each) (auto intro: declares_item split: prod.splits)
  with st have "distinct (concat (map (\<lambda>(i, item). item_values (resolver_module p item_modules i) item)
        (enumerate 0 (irp_items p))))"
      "distinct (concat (map (\<lambda>(i, item). item_types (resolver_module p item_modules i) item)
        (enumerate 0 (irp_items p))))"
    by (simp_all add: declares_def adds_def)
  moreover have "distinct (item_members item)" if item: "item \<in> set (irp_items p)" for item
  proof -
    from item obtain i where "(i, item) \<in> set (enumerate 0 (irp_items p))"
      by (rule item_enumerated)
    from silent_item [OF assms this] show ?thesis using silent_members(1) by metis
  qed
  ultimately show ?thesis by blast
qed

section \<open>Conforming implementations\<close>

lemma first_some_None: "first_some xs = None \<longleftrightarrow> (\<forall>x \<in> set xs. x = None)"
  by (induction xs) (auto split: option.splits)

text \<open>
  The method \<open>f\<close> has the signature that the trait asks for, once the type arguments of the
  implementation are put for the parameters of the trait.
\<close>

definition conforms ::
  "(type_id, string) btree_map \<Rightarrow> string name_map \<Rightarrow> ir_function \<Rightarrow> ir_function \<Rightarrow> bool" where
  "conforms reprs bindings expected f \<longleftrightarrow>
     if_is_async f = if_is_async expected \<and> if_is_unsafe f = if_is_unsafe expected \<and>
     length (if_generics f) = length (if_generics expected) \<and>
     map (\<lambda>x. resolver_type_repr reprs (ip_ty x)) (if_params f) =
       map (\<lambda>x. resolver_substitute (resolver_type_repr reprs (ip_ty x)) bindings) (if_params expected) \<and>
     (resolver_type_repr reprs (if_ret_type f) = resolver_substitute (resolver_type_repr reprs (if_ret_type expected)) bindings \<or>
      bt_get reprs (if_ret_type expected) = None \<and> resolver_type_repr reprs (if_ret_type f) = ''<?>'') \<and>
     set (if_effects f) = set (if_effects expected)"

lemma param_mismatch_None:
  assumes "length as = length bs"
  shows "(\<forall>x \<in> param_mismatch ` set (enumerate k (zip as bs)). x = None) \<longleftrightarrow> as = bs"
  using assms
proof (induction as arbitrary: bs k)
  case (Cons a as)
  then obtain b bs' where "bs = b # bs'" by (cases bs) auto
  with Cons.prems Cons.IH [of bs' "Suc k"] show ?case by (auto simp: param_mismatch_def)
qed simp

lemma mismatch_conforms:
  assumes "trait_method_signature_mismatch ((function_info_for g)\<lparr>fi_visibility := v\<rparr>) f reprs bindings = None"
  shows "conforms reprs bindings g f"
proof -
  let ?ps = "map (\<lambda>x. resolver_substitute (resolver_type_repr reprs (ip_ty x)) bindings) (if_params g)"
  let ?qs = "map (\<lambda>x. resolver_type_repr reprs (ip_ty x)) (if_params f)"
  let ?info = "(function_info_for g)\<lparr>fi_visibility := v\<rparr>"
  have params: "map (\<lambda>ty. resolver_substitute (resolver_type_repr reprs ty) bindings) (fi_param_types ?info) = ?ps"
    by (simp add: function_info_for_def)
  note checks = assms [unfolded trait_method_signature_mismatch_def params Let_def first_some_None]
  from checks have len: "length ?ps = length ?qs" by (auto split: if_splits)
  from checks have "\<forall>x \<in> param_mismatch ` set (enumerate 0 (zip ?ps ?qs)). x = None" by simp
  with param_mismatch_None [OF len] have "?ps = ?qs" by blast
  moreover from checks have "fi_effects ?info = bs_collect (if_effects f)"
    by (auto split: if_splits)
  then have "set (bs_collect (if_effects g)) = set (bs_collect (if_effects f))"
    by (simp add: function_info_for_def)
  moreover from checks have "fi_is_async ?info = if_is_async f" "fi_is_unsafe ?info = if_is_unsafe f"
    "length (fi_generics ?info) = length (if_generics f)"
    by (auto split: if_splits)
  moreover from checks have "(case bt_get reprs (fi_ret_type ?info) of
      Some raw \<Rightarrow> resolver_substitute raw bindings | None \<Rightarrow> ''<?>'') = resolver_type_repr reprs (if_ret_type f)"
    by (auto split: if_splits)
  ultimately show ?thesis
    by (auto simp: conforms_def function_info_for_def generic_names_def resolver_type_repr_def split: option.splits)
qed

lemma bt_get_collect_distinct:
  assumes "distinct (map key xs)" "x \<in> set xs"
  shows "map_of (bt_collect (map (\<lambda>x. (key x, g x)) xs)) (key x) = Some (g x)"
proof -
  have "map fst (rev (map (\<lambda>x. (key x, g x)) xs)) = rev (map key xs)" by (simp add: rev_map o_def)
  with assms show ?thesis
    unfolding bt_collect_get by (intro map_of_is_SomeI) (simp_all only: distinct_rev, auto)
qed

lemma bt_get_collect_Some:
  "map_of (bt_collect kvs) k = Some v \<Longrightarrow> (k, v) \<in> set kvs"
  using map_of_SomeD [of "rev kvs" k v] by (simp add: bt_collect_get)

lemma trait_methods_of_info:
  "tri_methods (trait_info_of m t) =
     bt_collect (map (\<lambda>f. (method_name_key (if_name f), snd (trait_method_info m f))) (itd_methods t))"
  by (simp add: trait_info_of_def trait_method_info_def) (simp add: trait_method_info_def [abs_def])

lemma impl_checked_conforms:
  assumes "check_trait_impl derive reprs diag_file m item_file d t key c st = Some st'"
    and "rt_diagnostics st' = []" "t = trait_info_of m' td"
    and names: "distinct (map (\<lambda>f. method_name_key (if_name f)) (itd_methods td))"
  shows "(\<forall>g \<in> set (itd_methods td). \<exists>f \<in> set (iid_methods d).
        method_name_key (if_name f) = method_name_key (if_name g) \<and>
        conforms reprs (impl_type_bindings reprs t (iid_trait_args d)) g f) \<and>
      (\<forall>f \<in> set (iid_methods d). \<exists>g \<in> set (itd_methods td).
        method_name_key (if_name f) = method_name_key (if_name g))"
proof -
  let ?key = "\<lambda>f. method_name_key (if_name f)"
  let ?b = "impl_type_bindings reprs t (iid_trait_args d)"
  note silent = check_trait_impl_silent [OF assms(1,2)]
  have methods: "tri_methods t = bt_collect (map (\<lambda>f. (?key f, snd (trait_method_info m' f))) (itd_methods td))"
    unfolding assms(3) by (rule trait_methods_of_info)
  have "\<exists>f \<in> set (iid_methods d). ?key f = ?key g \<and> conforms reprs ?b g f" if g: "g \<in> set (itd_methods td)" for g
  proof -
    from bt_get_collect_distinct [OF names g, where g = "\<lambda>f. snd (trait_method_info m' f)"]
    have get: "bt_get (tri_methods t) (?key g) = Some (snd (trait_method_info m' g))"
      unfolding methods by simp
    then have "?key g \<in> fst ` set (tri_methods t)" by (auto dest: map_of_SomeD intro: rev_image_eqI)
    with silent(1) obtain f where f: "bt_get (impl_methods (iid_methods d)) (?key g) = Some f"
      by (auto simp: bt_has_def)
    with silent(2) get
    have "trait_method_signature_mismatch (snd (trait_method_info m' g)) f reprs ?b = None"
      by (fastforce dest: map_of_SomeD)
    then have "conforms reprs ?b g f" by (auto simp: trait_method_info_def intro: mismatch_conforms)
    moreover from bt_get_collect_Some [of "map (\<lambda>m. (?key m, m)) (iid_methods d)"] f
    have "f \<in> set (iid_methods d)" "?key f = ?key g" unfolding impl_methods_def by fastforce+
    ultimately show ?thesis by blast
  qed
  moreover have "\<exists>g \<in> set (itd_methods td). ?key f = ?key g" if f: "f \<in> set (iid_methods d)" for f
  proof -
    have "bt_has (impl_methods (iid_methods d)) (?key f)"
    proof -
      have "?key f \<in> fst ` set (rev (map (\<lambda>m. (?key m, m)) (iid_methods d)))"
        using f by (simp add: image_image)
      then show ?thesis
        unfolding impl_methods_def bt_has_def bt_collect_get map_of_eq_None_iff by simp
    qed
    then obtain f' where "(?key f, f') \<in> set (impl_methods (iid_methods d))"
      by (auto simp: bt_has_def dest: map_of_SomeD)
    with silent(2) obtain e where "bt_get (tri_methods t) (?key f) = Some e" by blast
    with bt_get_collect_Some show ?thesis unfolding methods by fastforce
  qed
  ultimately show ?thesis by blast
qed


section \<open>Import aliases\<close>

definition import_tail :: "string \<Rightarrow> string" where
  "import_tail import = last (split_on CHR ''.'' import)"

definition ending_in :: "string set \<Rightarrow> string \<Rightarrow> string set" where
  "ending_in S a = {i \<in> S. import_tail i = a}"

lemma ending_in_insert:
  "ending_in (insert x S) a = (if import_tail x = a then insert x (ending_in S a) else ending_in S a)"
  by (auto simp: ending_in_def)

definition several :: "'a set \<Rightarrow> bool" where
  "several X \<longleftrightarrow> (\<exists>i \<in> X. \<exists>j \<in> X. i \<noteq> j)"

lemma several_cases: "X = {} \<or> (\<exists>x. X = {x}) \<or> several X"
proof (cases "X = {}")
  case False
  then obtain x where "x \<in> X" by blast
  then show ?thesis by (cases "X = {x}") (auto simp: several_def)
qed simp

lemma several_simps [simp]: "\<not> several {}" "\<not> several {x}"
  "several (insert x X) \<longleftrightarrow> \<not> X \<subseteq> {x}"
  by (auto simp: several_def)

definition aliases_ok :: "string set \<Rightarrow> string name_map \<times> string_set \<Rightarrow> bool" where
  "aliases_ok S acc \<longleftrightarrow>
     (\<forall>a i. bt_get (fst acc) a = Some i \<longleftrightarrow> a \<noteq> [] \<and> ending_in S a = {i}) \<and>
     (\<forall>a. a \<in> set (snd acc) \<longleftrightarrow> a \<noteq> [] \<and> several (ending_in S a))"

lemma aliases_ok_at:
  assumes "aliases_ok S (aliases, ambiguous)" "a \<noteq> []"
  shows "bt_get aliases a = Some i \<Longrightarrow> ending_in S a = {i}"
    and "a \<in> set ambiguous \<Longrightarrow> several (ending_in S a)"
    and "bt_get aliases a = None \<Longrightarrow> a \<notin> set ambiguous \<Longrightarrow> ending_in S a = {}"
proof -
  from assms show "bt_get aliases a = Some i \<Longrightarrow> ending_in S a = {i}"
    "a \<in> set ambiguous \<Longrightarrow> several (ending_in S a)" by (auto simp: aliases_ok_def)
  assume *: "bt_get aliases a = None" "a \<notin> set ambiguous"
  from several_cases [of "ending_in S a"] show "ending_in S a = {}"
  proof (elim disjE exE)
    fix x assume "ending_in S a = {x}"
    with assms have "bt_get aliases a = Some x" by (simp add: aliases_ok_def)
    with *(1) show ?thesis by simp
  next
    assume "several (ending_in S a)"
    with assms *(2) show ?thesis by (simp add: aliases_ok_def)
  qed
qed

definition alias_step :: "string \<Rightarrow> string name_map \<times> string_set \<Rightarrow> string name_map \<times> string_set" where
  "alias_step import acc = alias_loop [import] acc"

lemma alias_loop_Cons: "alias_loop (import # rest) acc = alias_loop rest (alias_step import acc)"
  by (cases acc) (auto simp: alias_step_def Let_def split: option.splits)

text \<open>Only what ends in the segment of the new import changes.\<close>

lemma aliases_ok_change:
  assumes "aliases_ok S (aliases, ambiguous)"
    and "\<And>a. a \<noteq> import_tail import \<Longrightarrow> bt_get aliases' a = bt_get aliases a"
    and "\<And>a. a \<noteq> import_tail import \<Longrightarrow> a \<in> set ambiguous' \<longleftrightarrow> a \<in> set ambiguous"
    and "\<And>i. bt_get aliases' (import_tail import) = Some i \<longleftrightarrow>
        import_tail import \<noteq> [] \<and> insert import (ending_in S (import_tail import)) = {i}"
    and "import_tail import \<in> set ambiguous' \<longleftrightarrow>
        import_tail import \<noteq> [] \<and> several (insert import (ending_in S (import_tail import)))"
  shows "aliases_ok (insert import S) (aliases', ambiguous')"
  unfolding aliases_ok_def
proof (intro conjI allI)
  fix a i
  show "bt_get (fst (aliases', ambiguous')) a = Some i \<longleftrightarrow> a \<noteq> [] \<and> ending_in (insert import S) a = {i}"
    using assms(1,2,4) by (cases "a = import_tail import") (auto simp: aliases_ok_def ending_in_insert)
  show "a \<in> set (snd (aliases', ambiguous')) \<longleftrightarrow> a \<noteq> [] \<and> several (ending_in (insert import S) a)"
    using assms(1,3,5) by (cases "a = import_tail import") (auto simp: aliases_ok_def ending_in_insert)
qed

lemma aliases_ok_step:
  assumes ok: "aliases_ok S (aliases, ambiguous)"
  shows "aliases_ok (insert import S) (alias_step import (aliases, ambiguous))"
proof -
  let ?a = "import_tail import"
  have empty: "bt_get aliases [] = None" "[] \<notin> set ambiguous"
    using ok by (auto simp: aliases_ok_def intro: ccontr)
  note at = aliases_ok_at [OF ok]
  consider (empty) "?a = []" | (clash) x where "?a \<noteq> []" "bt_get aliases ?a = Some x" "x \<noteq> import"
    | (again) "?a \<noteq> []" "bt_get aliases ?a = Some import"
    | (fresh) "?a \<noteq> []" "bt_get aliases ?a = None" "?a \<notin> set ambiguous"
    | (known) "?a \<noteq> []" "bt_get aliases ?a = None" "?a \<in> set ambiguous"
    by (cases "bt_get aliases ?a") auto
  then show ?thesis
  proof cases
    case empty
    have "aliases_ok (insert import S) (aliases, ambiguous)"
      by (rule aliases_ok_change [OF ok]) (use empty \<open>bt_get aliases [] = None\<close> \<open>[] \<notin> set ambiguous\<close> in simp_all)
    with empty show ?thesis by (simp add: alias_step_def import_tail_def Let_def)
  next
    case clash
    from at(1) [OF clash(1,2)] have "ending_in S ?a = {x}" .
    with clash have "aliases_ok (insert import S) (bt_remove ?a aliases, bs_insert ?a ambiguous)"
      by (intro aliases_ok_change [OF ok]) (auto simp: map_of_bt_remove)
    with clash show ?thesis by (simp add: alias_step_def import_tail_def Let_def)
  next
    case again
    from at(1) [OF again] have e: "ending_in S ?a = {import}" .
    have "?a \<notin> set ambiguous" using ok e by (auto simp: aliases_ok_def)
    with again e have "aliases_ok (insert import S) (aliases, ambiguous)"
      by (intro aliases_ok_change [OF ok]) auto
    with again show ?thesis by (simp add: alias_step_def import_tail_def Let_def)
  next
    case fresh
    from at(3) [OF fresh] have "ending_in S ?a = {}" .
    with fresh have "aliases_ok (insert import S) (bt_insert ?a import aliases, ambiguous)"
      by (intro aliases_ok_change [OF ok]) (auto simp: map_of_bt_insert)
    with fresh show ?thesis by (simp add: alias_step_def import_tail_def Let_def)
  next
    case known
    from at(2) [OF known(1,3)] have "several (ending_in S ?a)" .
    moreover from this have "\<not> ending_in S ?a \<subseteq> {import}" by (auto simp: several_def)
    ultimately have "aliases_ok (insert import S) (aliases, ambiguous)"
      using known by (intro aliases_ok_change [OF ok]) auto
    with known show ?thesis by (simp add: alias_step_def import_tail_def Let_def)
  qed
qed

lemma aliases_ok_loop: "aliases_ok S acc \<Longrightarrow> aliases_ok (S \<union> set imps) (alias_loop imps acc)"
proof (induction imps arbitrary: S acc)
  case (Cons x xs)
  from aliases_ok_step [of S "fst acc" "snd acc" x] Cons.prems
  have "aliases_ok (insert x S) (alias_step x acc)" by simp
  from Cons.IH [OF this] show ?case unfolding alias_loop_Cons by simp
qed simp

text \<open>
  C32: the last segment of an import is an alias of it exactly when no other import ends in the same
  segment, and it is ambiguous exactly when two different imports end in it, whatever their order.
\<close>

theorem import_aliases_correct:
  "(bt_get (fst (alias_maps_for_imports imps)) a = Some i \<longleftrightarrow> a \<noteq> [] \<and> ending_in (set imps) a = {i}) \<and>
   (a \<in> set (snd (alias_maps_for_imports imps)) \<longleftrightarrow> a \<noteq> [] \<and> several (ending_in (set imps) a))"
proof -
  have "aliases_ok ({} \<union> set imps) (alias_loop imps ([], []))"
    by (rule aliases_ok_loop) (simp add: aliases_ok_def ending_in_def)
  then show ?thesis by (simp add: aliases_ok_def alias_maps_for_imports_def)
qed

section \<open>Tables of the result\<close>

lemma members_visible:
  "n \<in> set (visible_names own imps st) \<longleftrightarrow>
     n \<in> set (bt_members (rt_module_functions st) own) \<or>
     (\<exists>m \<in> set imps - {own}. n \<in> set (bt_members (rt_module_exported_functions st) m))"
  by (auto simp: visible_names_def)

lemma resolve_tables:
  assumes "resolve_with_item_modules_imports_and_files derive p diag_file item_modules module_imports
    module_files = Some (r, ds)"
  obtains st imps all_imports where "res_tables st" "r = finish_resolution p imps all_imports st"
proof -
  obtain imps all_imports reprs st st' where *:
    "each (resolve_item derive p reprs diag_file item_modules module_files) (enumerate 0 (irp_items p))
       empty_res_state = Some st"
    "r = finish_resolution p imps all_imports st'"
    "each (\<lambda>alias. resolver_error derive ''E2104''
        (''ambiguous import alias '' @ in_quotes alias @ '': multiple imports share this tail segment'')
        [''use fully-qualified module prefixes in call sites''] diag_file (irp_span p))
       (snd (alias_maps_for_imports imps)) st = Some st'"
    by (rule resolve_steps [OF assms]) blast
  have "res_tables empty_res_state"
    by (simp add: res_tables_def empty_res_state_def decl_table_empty)
  moreover have "keeps_res res_tables
      (each (resolve_item derive p reprs diag_file item_modules module_files) (enumerate 0 (irp_items p)))"
    by (rule keeps_each) (rule keeps_tables_item)
  ultimately have "res_tables st" using *(1) unfolding keeps_res_def by blast
  with each_reports_frame [OF *(3)] have "res_tables st'" by (auto simp: res_tables_diagnostics)
  with *(2) that show ?thesis by blast
qed

text \<open>
  C31: the tables that name resolution returns agree, with or without diagnostics. A function is listed
  under its module exactly when its module is listed under it and the table of infos has it; it is
  exported exactly when its info is not private; the table by bare name has an info for every declared
  name and only infos of declared functions; and the entry module sees its own functions and the
  exported functions of its imports, nothing else.
\<close>

theorem resolution_tables_agree:
  assumes "resolve_with_item_modules_imports_and_files derive p diag_file item_modules module_imports
    module_files = Some (r, ds)"
  shows "(n \<in> set (bt_members (rs_module_functions r) m) \<longleftrightarrow> bt_has (rs_module_function_infos r) (m, n)) \<and>
    (m \<in> set (bt_members (rs_function_modules r) n) \<longleftrightarrow> bt_has (rs_module_function_infos r) (m, n)) \<and>
    (n \<in> set (bt_members (rs_module_exported_functions r) m) \<longleftrightarrow>
       (\<exists>i. bt_get (rs_module_function_infos r) (m, n) = Some i \<and> fi_visibility i \<noteq> Private)) \<and>
    (bt_get (rs_functions r) n = Some i \<longrightarrow> (\<exists>m. bt_get (rs_module_function_infos r) (m, n) = Some i)) \<and>
    (bt_has (rs_functions r) n \<longleftrightarrow> (\<exists>m. bt_has (rs_module_function_infos r) (m, n))) \<and>
    (n \<in> set (rs_visible_functions r) \<longleftrightarrow>
       n \<in> set (bt_members (rs_module_functions r) (own_module_name p)) \<or>
       (\<exists>m' \<in> set (rs_imports r) - {own_module_name p}.
          n \<in> set (bt_members (rs_module_exported_functions r) m')))"
proof -
  from resolve_tables [OF assms] obtain st imps all_imports where "res_tables st"
    "r = finish_resolution p imps all_imports st" by blast
  note st = this
  have fields: "rs_module_functions r = rt_module_functions st"
    "rs_module_function_infos r = rt_module_function_infos st"
    "rs_function_modules r = rt_function_modules st"
    "rs_module_exported_functions r = rt_module_exported_functions st"
    "rs_functions r = rt_functions st" "rs_imports r = imps"
    "rs_visible_functions r = visible_names (own_module_name p) imps st"
    unfolding st(2) finish_resolution_def split_def Let_def by simp_all
  from st(1) have table: "decl_table (rt_value_kinds st) (rt_module_function_infos st) (rt_function_modules st)
      (rt_module_exported_functions st) (rt_functions st) fi_visibility"
    and both: "\<And>m n. n \<in> set (bt_members (rt_module_functions st) m) \<longleftrightarrow>
      m \<in> set (bt_members (rt_function_modules st) n)"
    unfolding res_tables_def by blast+
  note table' = table [unfolded decl_table_def]
  have firsts: "bt_has (rt_functions st) n \<longleftrightarrow> (\<exists>m. bt_has (rt_module_function_infos st) (m, n))"
    using table' unfolding bt_has_def by (metis not_None_eq)
  from table' both firsts show ?thesis unfolding fields members_visible by blast
qed

section \<open>Every diagnostic is registered\<close>

text \<open>
  C33: name resolution returns on every program: each of its diagnostics has a registered code, so
  none of them panics.
\<close>

theorem resolve_never_panics:
  "resolve_with_item_modules_imports_and_files derive p diag_file item_modules module_imports module_files \<noteq> None"
proof -
  have "total_step (and_step
      (each (resolve_item derive p reprs diag_file item_modules module_files) (enumerate 0 (irp_items p)))
      (each (\<lambda>alias. resolver_error derive ''E2104''
          (''ambiguous import alias '' @ in_quotes alias @ '': multiple imports share this tail segment'')
          [''use fully-qualified module prefixes in call sites''] diag_file (irp_span p)) ambiguous))"
    for reprs ambiguous
    by (intro total_rules total_item) simp
  from this [unfolded total_step_def, rule_format] show ?thesis
    unfolding resolve_with_item_modules_imports_and_files_def Let_def option.map_disc_iff .
qed

section \<open>A program\<close>

text \<open>
  \<open>trait Order[T] { fn less(a: T, b: T) -> Bool; } impl Order[Int] { fn less(a: Int, b: Int) -> Bool }
  struct less { at: Int }\<close>: the implementation conforms, and the function shares its name with a type.
\<close>

definition demo_method :: "string \<Rightarrow> type_id \<Rightarrow> ir_function" where
  "demo_method name ty =
     \<lparr>if_symbol = 0, if_name = name, if_visibility = Private, if_attrs = [], if_is_async = False,
      if_is_unsafe = False, if_is_extern = False, if_extern_abi = None, if_is_intrinsic = False,
      if_intrinsic_abi = None, if_generics = [],
      if_params =
        [\<lparr>ip_symbol = 1, ip_name = ''a'', ip_attrs = [], ip_ty = ty, ip_span = span_new 0 0\<rparr>,
         \<lparr>ip_symbol = 2, ip_name = ''b'', ip_attrs = [], ip_ty = ty, ip_span = span_new 0 0\<rparr>],
      if_ret_type = 3, if_effects = [], if_capabilities = [], if_requires = None, if_ensures = None,
      if_body = IBlock 0 [] None (span_new 0 0), if_span = span_new 0 0\<rparr>"

definition demo_impl :: ir_impl_def where
  "demo_impl =
     \<lparr>iid_symbol = 5, iid_trait_name = ''Order'', iid_visibility = Private, iid_attrs = [],
      iid_trait_args = [2], iid_target = None, iid_methods = [demo_method ''less'' 2],
      iid_is_inherent = False, iid_span = span_new 0 0\<rparr>"

definition demo_resolved :: ir_program where
  "demo_resolved =
     \<lparr>irp_schema_version = 1, irp_module = None, irp_imports = [[''std'', ''io'']],
      irp_items =
        [IImpl demo_impl,
         ITrait \<lparr>itd_symbol = 3, itd_name = ''Order'', itd_visibility = Public, itd_attrs = [],
           itd_generics = [\<lparr>igp_name = ''T'', igp_bounds = []\<rparr>],
           itd_methods = [demo_method ''less'' 1], itd_span = span_new 0 0\<rparr>,
         IStruct \<lparr>isd_symbol = 4, isd_name = ''less'', isd_visibility = Private, isd_attrs = [],
           isd_generics = [], isd_fields =
             [\<lparr>ifd_symbol = 6, ifd_name = ''at'', ifd_visibility = Private, ifd_attrs = [], ifd_ty = 2,
               ifd_default_value = None, ifd_span = span_new 0 0\<rparr>],
           isd_invariant = None, isd_span = span_new 0 0\<rparr>],
      irp_symbols = [], irp_types =
        [\<lparr>tdef_id = 1, tdef_repr = ''T''\<rparr>, \<lparr>tdef_id = 2, tdef_repr = ''Int''\<rparr>,
         \<lparr>tdef_id = 3, tdef_repr = ''Bool''\<rparr>],
      irp_generic_instantiations = [], irp_span = span_new 0 0, irp_expr_type_hints = []\<rparr>"

abbreviation demo_run :: "(resolution \<times> diagnostic list) option" where
  "demo_run \<equiv> resolve_with_item_modules_imports_and_files (\<lambda>_. None) demo_resolved ''m.aic'' None None None"

lemma demo_run_silent: "map_option snd demo_run = Some []"
  by code_simp

lemma demo_run_obtain:
  obtains r where "demo_run = Some (r, [])"
  using demo_run_silent by (cases demo_run) auto

lemma accepted_names_unique_witness:
  "\<exists>r. demo_run = Some (r, []) \<and>
     distinct (concat (map (\<lambda>(i, item). item_types (resolver_module demo_resolved None i) item)
       (enumerate 0 (irp_items demo_resolved))))"
proof -
  obtain r where "demo_run = Some (r, [])" by (rule demo_run_obtain)
  from accepted_names_unique [OF this] this show ?thesis by blast
qed


lemma resolution_tables_agree_witness:
  "\<exists>r. demo_run = Some (r, []) \<and> bt_has (rs_module_function_infos r) (''<root>'', ''less'')"
proof -
  obtain r where r: "demo_run = Some (r, [])" by (rule demo_run_obtain)
  have "(case demo_run of Some (r, _) \<Rightarrow> ''less'' \<in> set (bt_members (rs_module_functions r) ''<root>'') | None \<Rightarrow> False)"
    by code_simp
  then have "''less'' \<in> set (bt_members (rs_module_functions r) ''<root>'')"
    unfolding r option.case prod.case .
  then have "bt_has (rs_module_function_infos r) (''<root>'', ''less'')"
    using resolution_tables_agree [OF r, of "''less''" "''<root>''"] by blast
  with r show ?thesis by blast
qed

end
