(* ===== verification/CheckerTables.thy ===== *)
theory CheckerTables
  imports Resolver
begin

text \<open>
  The tables of the type checker: \<open>src/typecheck.rs\<close>, \<open>Checker::new\<close>, with the fields of \<open>Checker\<close>
  that the modelled parts of the type checker read or write.
\<close>

record fn_sig =
  fs_symbol :: "symbol_id option"
  fs_is_async :: bool
  fs_is_unsafe :: bool
  fs_is_extern :: bool
  fs_extern_abi :: "string option"
  fs_params :: "string list"
  fs_param_names :: "string list"
  fs_ret :: string
  fs_effects :: string_set
  fs_capabilities :: string_set
  fs_generic_params :: "string list"
  fs_generic_bounds :: "string list name_map"

record alias_def =
  al_generics :: "string list"
  al_target :: string

record call_edge =
  ce_callee :: string
  ce_file :: string
  ce_span :: span

record function_span_info =
  fsi_file :: string
  fsi_function_span :: span
  fsi_body_span :: span

record checker =
  ck_program :: ir_program
  ck_resolution :: resolution
  ck_file :: string
  ck_diagnostics :: "diagnostic list"
  ck_types :: "(type_id, string) btree_map"
  ck_functions :: "fn_sig name_map"
  ck_module_functions :: "fn_sig module_map"
  ck_function_module_by_symbol :: "(symbol_id, string) btree_map"
  ck_generic_arity :: "nat name_map"
  ck_type_aliases :: "alias_def name_map"
  ck_const_types :: "string name_map"
  ck_effect_usage :: "string_set name_map"
  ck_effect_reasons :: "string list name_map name_map"
  ck_call_graph :: "call_edge list name_map"
  ck_function_spans :: "function_span_info name_map"
  ck_current_function :: "string option"
  ck_current_module :: "string option"

definition type_text :: "(type_id, string) btree_map \<Rightarrow> type_id \<Rightarrow> string" where
  "type_text types ty = (case bt_get types ty of Some r \<Rightarrow> r | None \<Rightarrow> ''<?>'')"

definition sig_of_info :: "(type_id, string) btree_map \<Rightarrow> function_info \<Rightarrow> fn_sig" where
  "sig_of_info types info =
     \<lparr>fs_symbol = Some (fi_symbol info), fs_is_async = fi_is_async info, fs_is_unsafe = fi_is_unsafe info,
      fs_is_extern = fi_is_extern info, fs_extern_abi = fi_extern_abi info,
      fs_params = map (type_text types) (fi_param_types info), fs_param_names = fi_param_names info,
      fs_ret = type_text types (fi_ret_type info), fs_effects = fi_effects info,
      fs_capabilities = fi_capabilities info, fs_generic_params = fi_generics info,
      fs_generic_bounds = fi_generic_bounds info\<rparr>"

definition std_sig :: "string \<Rightarrow> string \<Rightarrow> string \<Rightarrow> string_set \<Rightarrow> fn_sig" where
  "std_sig param name result effs =
     \<lparr>fs_symbol = None, fs_is_async = False, fs_is_unsafe = False, fs_is_extern = False,
      fs_extern_abi = None, fs_params = [param], fs_param_names = [name], fs_ret = result,
      fs_effects = effs, fs_capabilities = effs, fs_generic_params = [], fs_generic_bounds = []\<rparr>"

text \<open>The signatures of the functions that need no declaration.\<close>

definition std_signatures :: "(string \<times> fn_sig) list" where
  "std_signatures =
     [(''print_int'', std_sig ''Int'' ''value'' ''()'' [''io'']),
      (''print_str'', std_sig ''String'' ''value'' ''()'' [''io'']),
      (''print_float'', std_sig ''Float'' ''value'' ''()'' [''io'']),
      (''len'', std_sig ''String'' ''value'' ''Int'' []),
      (''panic'', std_sig ''String'' ''message'' ''()'' [''io''])]"

text \<open>Aliases and constants are functions with encoded names; the first declaration of a name counts.\<close>

definition alias_tables ::
  "(type_id, string) btree_map \<Rightarrow> ir_item list \<Rightarrow> alias_def name_map \<times> string name_map" where
  "alias_tables types items =
     fold (\<lambda>item (aliases, consts). case item of
         IFunction f \<Rightarrow>
           (case decode_internal_type_alias (if_name f) of
              Some a \<Rightarrow>
                (bt_or_insert a
                   \<lparr>al_generics = generic_names (if_generics f), al_target = type_text types (if_ret_type f)\<rparr> aliases,
                 consts)
            | None \<Rightarrow>
                (case decode_internal_const (if_name f) of
                   Some c \<Rightarrow> (aliases, bt_or_insert c (type_text types (if_ret_type f)) consts)
                 | None \<Rightarrow> (aliases, consts)))
       | _ \<Rightarrow> (aliases, consts)) items ([], [])"

definition insert_all :: "('k::linorder \<times> 'v) list \<Rightarrow> ('k, 'v) btree_map \<Rightarrow> ('k, 'v) btree_map" where
  "insert_all kvs m = fold (\<lambda>(k, v). bt_insert k v) kvs m"

definition checker_new :: "ir_program \<Rightarrow> resolution \<Rightarrow> string \<Rightarrow> checker" where
  "checker_new p r diag_file =
     (let types = bt_collect (map (\<lambda>ty. (tdef_id ty, tdef_repr ty)) (irp_types p));
          (aliases, consts) = alias_tables types (irp_items p);
          functions = bt_collect (map (\<lambda>(name, info). (name, sig_of_info types info)) (rs_functions r));
          module_functions =
            bt_collect (map (\<lambda>(key, info). (key, sig_of_info types info)) (rs_module_function_infos r));
          arity = insert_all [(''Option'', 1), (''Result'', 2), (''Async'', 1), (''Ref'', 1), (''RefMut'', 1)] [];
          arity = insert_all (map (\<lambda>(name, info). (name, length (sti_generics info))) (rs_structs r)) arity;
          arity = insert_all (map (\<lambda>(name, info). (name, length (eni_generics info))) (rs_enums r)) arity;
          arity = insert_all (map (\<lambda>(name, a). (name, length (al_generics a))) aliases) arity
      in \<lparr>ck_program = p, ck_resolution = r, ck_file = diag_file, ck_diagnostics = [], ck_types = types,
          ck_functions = insert_all std_signatures functions, ck_module_functions = module_functions,
          ck_function_module_by_symbol =
            bt_collect (map (\<lambda>((m, _), info). (fi_symbol info, m)) (rs_module_function_infos r)),
          ck_generic_arity = arity, ck_type_aliases = aliases, ck_const_types = consts,
          ck_effect_usage = [], ck_effect_reasons = [], ck_call_graph = [], ck_function_spans = [],
          ck_current_function = None, ck_current_module = None\<rparr>)"

section \<open>Keys of functions\<close>

definition qualified_function_key :: "string \<Rightarrow> string \<Rightarrow> string" where
  "qualified_function_key m name = (if m = RESOLVER_ROOT then name else m @ ''::'' @ name)"

definition current_function_key_for :: "checker \<Rightarrow> string \<Rightarrow> string" where
  "current_function_key_for ck name =
     qualified_function_key (case ck_current_module ck of Some m \<Rightarrow> m | None \<Rightarrow> RESOLVER_ROOT) name"

definition fn_sig_for_key :: "checker \<Rightarrow> string \<Rightarrow> fn_sig option" where
  "fn_sig_for_key ck key =
     (case Option.bind (split_text ''::'' key) (bt_get (ck_module_functions ck)) of
        Some s \<Rightarrow> Some s
      | None \<Rightarrow>
          (case bt_get (ck_module_functions ck) (RESOLVER_ROOT, key) of
             Some s \<Rightarrow> Some s
           | None \<Rightarrow> bt_get (ck_functions ck) key))"

definition resolution_has_function_key :: "checker \<Rightarrow> string \<Rightarrow> bool" where
  "resolution_has_function_key ck key =
     (let infos = rs_module_function_infos (ck_resolution ck) in
      (case split_text ''::'' key of Some mn \<Rightarrow> bt_has infos mn | None \<Rightarrow> False) \<or>
      bt_has infos (RESOLVER_ROOT, key) \<or> bt_has (rs_functions (ck_resolution ck)) key)"

definition local_function_key :: "checker \<Rightarrow> string \<Rightarrow> string option" where
  "local_function_key ck name =
     (case ck_current_module ck of
        Some m \<Rightarrow>
          if bt_has (ck_module_functions ck) (m, name) then Some (qualified_function_key m name) else None
      | None \<Rightarrow> None)"

definition resolved_function_key :: "checker \<Rightarrow> string \<Rightarrow> string option \<Rightarrow> string" where
  "resolved_function_key ck resolved_name resolved_module =
     (case resolved_module of
        Some m \<Rightarrow> qualified_function_key m resolved_name
      | None \<Rightarrow>
          (case local_function_key ck resolved_name of
             Some key \<Rightarrow> key
           | None \<Rightarrow>
               (case bt_members (rs_function_modules (ck_resolution ck)) resolved_name of
                  [m] \<Rightarrow> qualified_function_key m resolved_name
                | _ \<Rightarrow> resolved_name)))"

definition record_call_edge :: "string \<Rightarrow> span \<Rightarrow> checker \<Rightarrow> checker" where
  "record_call_edge callee sp ck =
     (case ck_current_function ck of
        None \<Rightarrow> ck
      | Some caller \<Rightarrow>
          ck\<lparr>ck_call_graph :=
            bt_insert caller
              (bt_members (ck_call_graph ck) caller @
               [\<lparr>ce_callee = callee, ce_file = ck_file ck, ce_span = sp\<rparr>]) (ck_call_graph ck)\<rparr>)"

text \<open>The functions of the program (methods of implementations are not among them), with their keys.\<close>

definition function_entry :: "checker \<Rightarrow> ir_item \<Rightarrow> (string \<times> string) option" where
  "function_entry ck item =
     (case item of
        IFunction f \<Rightarrow>
          if decode_internal_type_alias (if_name f) = None \<and> decode_internal_const (if_name f) = None then
            let m = (case bt_get (ck_function_module_by_symbol ck) (if_symbol f) of
                Some m \<Rightarrow> m
              | None \<Rightarrow>
                  (case rs_entry_module (ck_resolution ck) of Some m \<Rightarrow> m | None \<Rightarrow> RESOLVER_ROOT))
            in Some (if_name f, qualified_function_key m (if_name f))
          else None
      | _ \<Rightarrow> None)"

definition user_function_entries :: "checker \<Rightarrow> (string \<times> string) list" where
  "user_function_entries ck = List.map_filter (function_entry ck) (irp_items (ck_program ck))"

definition is_std_module :: "string \<Rightarrow> bool" where
  "is_std_module m = (m = ''std'' \<or> starts_with m ''std.'')"

text \<open>\<open>rsplit_once("::")\<close>: the module is what precedes the last separator.\<close>

definition key_module :: "string \<Rightarrow> string option" where
  "key_module key =
     (if contains_text ''::'' key
      then Some (take (length key - length (last_segment key) - 2) key) else None)"

definition is_std_function :: "checker \<Rightarrow> string \<Rightarrow> bool" where
  "is_std_function ck key =
     (case key_module key of
        Some m \<Rightarrow> is_std_module m
      | None \<Rightarrow>
          (case Option.bind (bt_get (rs_functions (ck_resolution ck)) key)
                  (\<lambda>info. bt_get (ck_function_module_by_symbol ck) (fi_symbol info)) of
             Some m \<Rightarrow> is_std_module m
           | None \<Rightarrow> False))"

end
