(* ===== verification/CallEffects.thy ===== *)
theory CallEffects
  imports CheckerTables
begin

text \<open>
  Effects along calls: the passes of \<open>src/typecheck.rs\<close> that run once every body has been checked and
  the call graph is known. The set \<open>visiting\<close> and the map \<open>memo\<close> of \<open>compute_effect_closure\<close> are
  passed in and, for \<open>memo\<close>, returned; \<open>visiting\<close> is the same after a call as before it. Reading
  the source of a file is the argument \<open>source_of\<close>.
\<close>

section \<open>The closure of a function\<close>

definition sig_effects :: "checker \<Rightarrow> string \<Rightarrow> string_set" where
  "sig_effects ck f = (case fn_sig_for_key ck f of Some s \<Rightarrow> fs_effects s | None \<Rightarrow> [])"

definition sig_capabilities :: "checker \<Rightarrow> string \<Rightarrow> string_set" where
  "sig_capabilities ck f = (case fn_sig_for_key ck f of Some s \<Rightarrow> fs_capabilities s | None \<Rightarrow> [])"

text \<open>\<open>BTreeSet::extend\<close> and the elements of \<open>BTreeSet::difference\<close>.\<close>

definition bs_extend :: "'a::linorder list \<Rightarrow> 'a list \<Rightarrow> 'a list" where
  "bs_extend xs s = fold bs_insert xs s"

definition bs_difference :: "'a list \<Rightarrow> 'a list \<Rightarrow> 'a list" where
  "bs_difference xs ys = filter (\<lambda>x. x \<notin> set ys) xs"

lemma set_bs_extend [simp]: "set (bs_extend xs s) = set xs \<union> set s"
  by (simp add: bs_extend_def fold_bs_insert)

lemma set_bs_difference [simp]: "set (bs_difference xs ys) = set xs - set ys"
  by (auto simp: bs_difference_def)

type_synonym effect_memo = "string_set name_map"

text \<open>Every call either enters a function of the call graph that is not yet visited, or moves on.\<close>

definition unvisited :: "checker \<Rightarrow> string_set \<Rightarrow> nat" where
  "unvisited ck visiting = card (fst ` set (ck_call_graph ck) - set visiting)"

lemma unvisited_less:
  "f \<notin> set visiting \<Longrightarrow> bt_get (ck_call_graph ck) f = Some edges \<Longrightarrow>
     unvisited ck (bs_insert f visiting) < unvisited ck visiting"
proof -
  assume *: "f \<notin> set visiting" "bt_get (ck_call_graph ck) f = Some edges"
  then have "f \<in> fst ` set (ck_call_graph ck) - set visiting"
    by (auto dest!: map_of_SomeD intro: rev_image_eqI)
  then show "unvisited ck (bs_insert f visiting) < unvisited ck visiting"
    unfolding unvisited_def by (intro psubset_card_mono) auto
qed

function (sequential) compute_effect_closure ::
    "checker \<Rightarrow> string \<Rightarrow> string_set \<Rightarrow> effect_memo \<Rightarrow> string_set \<times> effect_memo"
  and closure_edges ::
    "checker \<Rightarrow> call_edge list \<Rightarrow> string_set \<Rightarrow> effect_memo \<Rightarrow> string_set \<Rightarrow> string_set \<times> effect_memo" where
  "compute_effect_closure ck f visiting memo =
     (case bt_get memo f of
        Some cached \<Rightarrow> (cached, memo)
      | None \<Rightarrow>
          if f \<in> set visiting then (sig_effects ck f, memo)
          else
            (let (required, memo') =
               (case bt_get (ck_call_graph ck) f of
                  Some edges \<Rightarrow> closure_edges ck edges (bs_insert f visiting) memo (sig_effects ck f)
                | None \<Rightarrow> (sig_effects ck f, memo))
             in (required, bt_insert f required memo')))"
| "closure_edges ck [] visiting memo required = (required, memo)"
| "closure_edges ck (edge # edges) visiting memo required =
     (let required = bs_extend (sig_effects ck (ce_callee edge)) required in
      if resolution_has_function_key ck (ce_callee edge) then
        (let (closure, memo') = compute_effect_closure ck (ce_callee edge) visiting memo
         in closure_edges ck edges visiting memo' (bs_extend closure required))
      else closure_edges ck edges visiting memo required)"
  by pat_completeness auto

termination
  by (relation "inv_image (less_than <*lex*> less_than) (\<lambda>x. case x of
      Inl (ck, _, visiting, _) \<Rightarrow> (unvisited ck visiting, 0::nat)
    | Inr (ck, edges, visiting, _, _) \<Rightarrow> (unvisited ck visiting, Suc (length edges)))")
    (auto simp: unvisited_less)

declare compute_effect_closure.simps [simp del]

section \<open>A path to an effect\<close>

record effect_path =
  ep_nodes :: "string list"
  ep_file :: string
  ep_span :: span

type_synonym path_entry = "string \<times> string list \<times> (string \<times> span) option"

text \<open>
  The loop over the edges of a node. It returns the path when a callee declares the effect, else the
  visited set and the entries that it appends to the queue.
\<close>

fun path_edges ::
  "checker \<Rightarrow> string \<Rightarrow> string list \<Rightarrow> (string \<times> span) option \<Rightarrow> call_edge list \<Rightarrow> string_set \<Rightarrow>
   effect_path + string_set \<times> path_entry list" where
  "path_edges ck effect path first_site [] visited = Inr (visited, [])"
| "path_edges ck effect path first_site (edge # edges) visited =
     (let next_path = path @ [ce_callee edge];
          site = (case first_site of Some s \<Rightarrow> s | None \<Rightarrow> (ce_file edge, ce_span edge))
      in if effect \<in> set (sig_effects ck (ce_callee edge)) then
           Inl \<lparr>ep_nodes = next_path, ep_file = fst site, ep_span = snd site\<rparr>
         else if \<not> resolution_has_function_key ck (ce_callee edge) \<or> ce_callee edge \<in> set visited then
           path_edges ck effect path first_site edges visited
         else
           (case path_edges ck effect path first_site edges (bs_insert (ce_callee edge) visited) of
              Inl found \<Rightarrow> Inl found
            | Inr (visited', entries) \<Rightarrow> Inr (visited', (ce_callee edge, next_path, Some site) # entries)))"

definition edges_of :: "checker \<Rightarrow> string \<Rightarrow> call_edge list" where
  "edges_of ck f = bt_members (ck_call_graph ck) f"

text \<open>
  The callees of the call graph that are not visited: each turn either enters some of them into the
  queue or shortens it.
\<close>

definition unseen :: "checker \<Rightarrow> string_set \<Rightarrow> nat" where
  "unseen ck visited =
     card ((\<Union>(_, es) \<in> set (ck_call_graph ck). ce_callee ` set es) - set visited)"

lemma unseen_insert:
  assumes "edge \<in> set (edges_of ck f)" "ce_callee edge \<notin> set visited"
  shows "unseen ck (bs_insert (ce_callee edge) visited) < unseen ck visited"
proof -
  let ?callees = "\<Union>(_, es) \<in> set (ck_call_graph ck). ce_callee ` set es"
  from assms(1) obtain es where "(f, es) \<in> set (ck_call_graph ck)" "edge \<in> set es"
    by (cases "bt_get (ck_call_graph ck) f") (auto simp: edges_of_def bt_members_def dest: map_of_SomeD)
  then have "ce_callee edge \<in> ?callees" by force
  moreover have "finite ?callees" by auto
  ultimately show ?thesis
    unfolding unseen_def using assms(2) by (intro psubset_card_mono) auto
qed

lemma path_edges_unseen:
  "set edges \<subseteq> set (edges_of ck f) \<Longrightarrow> path_edges ck effect path site edges visited = Inr (visited', entries) \<Longrightarrow>
     unseen ck visited' + length entries \<le> unseen ck visited"
proof (induction ck effect path site edges visited arbitrary: visited' entries rule: path_edges.induct)
  case (2 ck effect path first_site edge edges visited)
  show ?case
  proof (cases "\<not> resolution_has_function_key ck (ce_callee edge) \<or> ce_callee edge \<in> set visited")
    case True
    with 2(4) have "path_edges ck effect path first_site edges visited = Inr (visited', entries)"
      by (auto simp: Let_def split: if_splits)
    with 2 True show ?thesis by (auto simp: Let_def split: if_splits)
  next
    case False
    with 2(4) obtain entries' where
      "path_edges ck effect path first_site edges (bs_insert (ce_callee edge) visited) = Inr (visited', entries')"
      "length entries = Suc (length entries')" "effect \<notin> set (sig_effects ck (ce_callee edge))"
      by (auto simp: Let_def split: if_splits sum.splits)
    with 2 False have "unseen ck visited' + length entries' \<le> unseen ck (bs_insert (ce_callee edge) visited)"
      by simp
    with unseen_insert [of edge ck f visited] 2(3) False \<open>length entries = _\<close> show ?thesis by simp
  qed
qed simp

function path_loop ::
  "checker \<Rightarrow> string \<Rightarrow> string_set \<Rightarrow> path_entry list \<Rightarrow> effect_path option" where
  "path_loop ck effect visited queue =
     (case queue of
        [] \<Rightarrow> None
      | (node, path, first_site) # rest \<Rightarrow>
          (case path_edges ck effect path first_site (edges_of ck node) visited of
             Inl found \<Rightarrow> Some found
           | Inr (visited', entries) \<Rightarrow> path_loop ck effect visited' (rest @ entries)))"
  by pat_completeness auto
termination
  by (relation "measure (\<lambda>(ck, _, visited, queue). 2 * unseen ck visited + length queue)")
    (auto dest!: path_edges_unseen [OF subset_refl] dest: sym)

declare path_loop.simps [simp del]

definition find_effect_path :: "checker \<Rightarrow> string \<Rightarrow> string \<Rightarrow> effect_path option" where
  "find_effect_path ck start effect = path_loop ck effect [start] [(start, [start], None)]"

section \<open>Clauses in the text of a signature\<close>

definition is_ident_byte :: "char \<Rightarrow> bool" where
  "is_ident_byte c = (let n = of_char c :: nat in
     c = CHR ''_'' \<or> 48 \<le> n \<and> n \<le> 57 \<or> 65 \<le> n \<and> n \<le> 90 \<or> 97 \<le> n \<and> n \<le> 122)"

definition is_space_byte :: "char \<Rightarrow> bool" where
  "is_space_byte c \<longleftrightarrow> of_char c \<in> {9, 10, 12, 13, 32 :: nat}"

definition str_find :: "string \<Rightarrow> string \<Rightarrow> nat option" where
  "str_find p s = map_option (\<lambda>(lead, _). length lead) (split_text p s)"

text \<open>A keyword that is not part of a longer identifier.\<close>

definition keyword_at :: "string \<Rightarrow> string \<Rightarrow> nat \<Rightarrow> bool" where
  "keyword_at keyword s idx =
     (let after = idx + length keyword in
      (idx = 0 \<or> \<not> is_ident_byte (s ! (idx - 1))) \<and> (length s \<le> after \<or> \<not> is_ident_byte (s ! after)))"

definition skip_while :: "(char \<Rightarrow> bool) \<Rightarrow> string \<Rightarrow> nat \<Rightarrow> nat" where
  "skip_while P s i = i + length (takeWhile P (drop i s))"

function find_clause :: "string \<Rightarrow> string \<Rightarrow> nat \<Rightarrow> (nat \<times> nat) option" where
  "find_clause keyword s start =
     (if start < length s then
        (case str_find keyword (drop start s) of
           None \<Rightarrow> None
         | Some found \<Rightarrow>
             (let idx = start + found;
                  cursor = skip_while is_space_byte s (idx + length keyword);
                  close = skip_while (\<lambda>c. c \<noteq> CHR ''}'') s (cursor + 1)
              in if \<not> keyword_at keyword s idx \<or> length s \<le> cursor \<or> s ! cursor \<noteq> CHR ''{''
                 then find_clause keyword s (idx + 1)
                 else if length s \<le> close then None
                 else Some (idx, close + 1)))
      else None)"
  by pat_completeness auto
termination
  by (relation "measure (\<lambda>(_, s, start). length s - start)") auto

definition find_effect_clause :: "string \<Rightarrow> (nat \<times> nat) option" where
  "find_effect_clause signature = find_clause ''effects'' signature 0"

definition find_capability_clause :: "string \<Rightarrow> (nat \<times> nat) option" where
  "find_capability_clause signature = find_clause ''capabilities'' signature 0"

function find_keyword_from :: "string \<Rightarrow> string \<Rightarrow> nat \<Rightarrow> nat option" where
  "find_keyword_from keyword s start =
     (if start < length s then
        (case str_find keyword (drop start s) of
           None \<Rightarrow> None
         | Some found \<Rightarrow>
             if keyword_at keyword s (start + found) then Some (start + found)
             else find_keyword_from keyword s (start + found + 1))
      else None)"
  by pat_completeness auto
termination
  by (relation "measure (\<lambda>(_, s, start). length s - start)") auto

declare find_clause.simps [simp del] find_keyword_from.simps [simp del]

definition find_keyword :: "string \<Rightarrow> string \<Rightarrow> nat option" where
  "find_keyword signature keyword = find_keyword_from keyword signature 0"

section \<open>Fixes\<close>

definition is_char_boundary :: "string \<Rightarrow> nat \<Rightarrow> bool" where
  "is_char_boundary s i =
     (i = 0 \<or> i = length s \<or> i < length s \<and> (let n = of_char (s ! i) :: nat in n < 128 \<or> 192 \<le> n))"

text \<open>The text between the start of a function and its body, when the spans are positions of the source.\<close>

definition signature_text :: "string \<Rightarrow> span \<Rightarrow> span \<Rightarrow> string option" where
  "signature_text source fsp bsp =
     (if span_end fsp < span_start fsp \<or> span_start bsp < span_start fsp \<or>
         length source < span_start bsp \<or> length source < span_start fsp \<or> length source < span_end fsp
      then None
      else if \<not> is_char_boundary source (span_start fsp) \<or> \<not> is_char_boundary source (span_end fsp) \<or>
         \<not> is_char_boundary source (span_start bsp)
      then None
      else Some (drop (span_start fsp) (take (span_start bsp) source)))"

definition contract_keyword :: "string \<Rightarrow> nat option" where
  "contract_keyword signature =
     (case (find_keyword signature ''requires'', find_keyword signature ''ensures'') of
        (Some a, Some b) \<Rightarrow> Some (min a b)
      | (Some a, None) \<Rightarrow> Some a
      | (None, b) \<Rightarrow> b)"

definition clause_text :: "string \<Rightarrow> string_set \<Rightarrow> string" where
  "clause_text keyword names = keyword @ '' { '' @ join_with '', '' names @ '' }''"

definition fix_at :: "string \<Rightarrow> string \<Rightarrow> nat \<Rightarrow> nat \<Rightarrow> suggested_fix" where
  "fix_at message replacement from until =
     \<lparr>sf_message = message, sf_replacement = Some replacement, sf_start = Some from, sf_end = Some until\<rparr>"

definition effect_declaration_fix ::
  "string \<Rightarrow> string \<Rightarrow> span \<Rightarrow> span \<Rightarrow> string_set \<Rightarrow> suggested_fix option" where
  "effect_declaration_fix name source fsp bsp required =
     (if required = [] then None
      else case signature_text source fsp bsp of
        None \<Rightarrow> None
      | Some signature \<Rightarrow>
          (let base = span_start fsp; text = clause_text ''effects'' required in
           case find_effect_clause signature of
             Some (from, until) \<Rightarrow>
               Some (fix_at (''update effect declaration on '' @ in_quotes name @ '' to include required effects'')
                 text (base + from) (base + until))
           | None \<Rightarrow>
               (let (at, replacement) =
                  (case contract_keyword signature of
                     Some rel \<Rightarrow> (rel, text @ '' '')
                   | None \<Rightarrow> (length signature, '' '' @ text))
                in Some (fix_at (''add missing effects declaration to function '' @ in_quotes name)
                     replacement (base + at) (base + at)))))"

definition capability_declaration_fix ::
  "checker \<Rightarrow> string \<Rightarrow> string \<Rightarrow> span \<Rightarrow> span \<Rightarrow> string_set \<Rightarrow> suggested_fix option" where
  "capability_declaration_fix ck name source fsp bsp required =
     (if required = [] then None
      else case signature_text source fsp bsp of
        None \<Rightarrow> None
      | Some signature \<Rightarrow>
          (let base = span_start fsp;
               declared = (case bt_get (ck_functions ck) name of Some s \<Rightarrow> fs_capabilities s | None \<Rightarrow> []);
               text = clause_text ''capabilities'' (bs_extend required declared);
               added = ''add missing capabilities declaration to function '' @ in_quotes name
           in case find_capability_clause signature of
                Some (from, until) \<Rightarrow>
                  Some (fix_at
                    (''update capability declaration on '' @ in_quotes name @ '' to include required capabilities'')
                    text (base + from) (base + until))
              | None \<Rightarrow>
                  (case find_effect_clause signature of
                     Some (_, until) \<Rightarrow> Some (fix_at added ('' '' @ text) (base + until) (base + until))
                   | None \<Rightarrow>
                       (let (at, replacement) =
                          (case contract_keyword signature of
                             Some rel \<Rightarrow> (rel, text @ '' '')
                           | None \<Rightarrow> (length signature, '' '' @ text))
                        in Some (fix_at added replacement (base + at) (base + at))))))"

section \<open>The passes\<close>

text \<open>The fix is attached when the spans of the function are known and its source can be read.\<close>

definition attach_fix ::
  "derive_reasoning \<Rightarrow> (string \<Rightarrow> string option) \<Rightarrow> checker \<Rightarrow> string \<Rightarrow>
   (string \<Rightarrow> span \<Rightarrow> span \<Rightarrow> suggested_fix option) \<Rightarrow> diagnostic \<Rightarrow> diagnostic" where
  "attach_fix derive source_of ck key mk d =
     (case bt_get (ck_function_spans ck) key of
        None \<Rightarrow> d
      | Some info \<Rightarrow>
          (case source_of (fsi_file info) of
             None \<Rightarrow> d
           | Some source \<Rightarrow>
               (case mk source (fsi_function_span info) (fsi_body_span info) of
                  Some fx \<Rightarrow> with_fix derive fx d
                | None \<Rightarrow> d)))"

definition push_diagnostic :: "diagnostic option \<Rightarrow> checker \<Rightarrow> checker option" where
  "push_diagnostic d ck = map_option (\<lambda>d. ck\<lparr>ck_diagnostics := ck_diagnostics ck @ [d]\<rparr>) d"

text \<open>A loop that changes the checker and may panic.\<close>

fun checker_each :: "('a \<Rightarrow> checker \<Rightarrow> checker option) \<Rightarrow> 'a list \<Rightarrow> checker \<Rightarrow> checker option" where
  "checker_each f [] ck = Some ck"
| "checker_each f (x # xs) ck = Option.bind (f x ck) (checker_each f xs)"

fun closures_of :: "checker \<Rightarrow> string list \<Rightarrow> effect_memo \<Rightarrow> (string \<times> string_set) list" where
  "closures_of ck [] memo = []"
| "closures_of ck (key # keys) memo =
     (let (closure, memo') = compute_effect_closure ck key [] memo
      in (key, closure) # closures_of ck keys memo')"

definition effect_usage_of :: "checker \<Rightarrow> string \<Rightarrow> string_set" where
  "effect_usage_of ck key = bt_members (ck_effect_usage ck) key"

definition path_nodes_or :: "checker \<Rightarrow> string \<Rightarrow> string \<Rightarrow> string \<Rightarrow> string list" where
  "path_nodes_or ck name key effect =
     (case find_effect_path ck key effect of Some p \<Rightarrow> ep_nodes p | None \<Rightarrow> [name])"

definition report_transitive_effect ::
  "derive_reasoning \<Rightarrow> (string \<Rightarrow> string option) \<Rightarrow> string \<Rightarrow> string \<Rightarrow> string_set \<Rightarrow> string \<Rightarrow>
   checker \<Rightarrow> checker option" where
  "report_transitive_effect derive source_of name key closure effect ck =
     (case find_effect_path ck key effect of
        None \<Rightarrow> Some ck
      | Some path \<Rightarrow>
          if length (ep_nodes path) < 3 then Some ck
          else push_diagnostic
            (map_option (\<lambda>d.
               attach_fix derive source_of ck key (\<lambda>source fsp bsp. effect_declaration_fix name source fsp bsp closure)
                 (with_help derive
                   (''declare '' @ in_backticks (''effects { '' @ effect @ '' }'') @ '' on '' @ in_quotes name @
                    '' or refactor the call chain'') d))
              (diagnostic_error derive ''E2005''
                (''function '' @ in_quotes name @ '' requires transitive effect '' @ in_quotes effect @
                 '' via call path '' @ join_with '' -> '' (ep_nodes path)) (ep_file path) (ep_span path))) ck)"

definition check_transitive_function ::
  "derive_reasoning \<Rightarrow> (string \<Rightarrow> string option) \<Rightarrow> string \<times> string \<Rightarrow> checker \<Rightarrow> checker option" where
  "check_transitive_function derive source_of = (\<lambda>(name, key) ck.
     let closure = effect_usage_of ck key;
         reasons = bt_collect (map (\<lambda>e. (e, path_nodes_or ck name key e)) closure)
     in checker_each (report_transitive_effect derive source_of name key closure)
          (bs_difference closure (sig_effects ck key))
          (ck\<lparr>ck_effect_reasons := bt_insert key reasons (ck_effect_reasons ck)\<rparr>))"

definition check_transitive_effects ::
  "derive_reasoning \<Rightarrow> (string \<Rightarrow> string option) \<Rightarrow> checker \<Rightarrow> checker option" where
  "check_transitive_effects derive source_of ck =
     (let entries = user_function_entries ck;
          usage = insert_all (closures_of ck (map snd entries) []) (ck_effect_usage ck)
      in checker_each (check_transitive_function derive source_of) entries (ck\<lparr>ck_effect_usage := usage\<rparr>))"

definition missing_capability ::
  "derive_reasoning \<Rightarrow> checker \<Rightarrow> string \<Rightarrow> string \<Rightarrow> string \<Rightarrow> diagnostic option" where
  "missing_capability derive ck name key capability =
     (let declare = ''declare '' @ in_backticks (''capabilities { '' @ capability @ '' }'') @ '' on '' @ in_quotes name in
      case find_effect_path ck key capability of
        Some path \<Rightarrow>
          map_option (with_help derive (declare @ '' and thread authority through callers''))
            (diagnostic_error derive ''E2009''
              (''function '' @ in_quotes name @ '' requires capability '' @ in_quotes capability @
               '' via call path '' @ join_with '' -> '' (ep_nodes path)) (ep_file path) (ep_span path))
      | None \<Rightarrow>
          map_option (with_help derive declare)
            (diagnostic_error derive ''E2009''
              (''function '' @ in_quotes name @ '' declares effect '' @ in_quotes capability @
               '' but is missing capability '' @ in_quotes capability)
              (case bt_get (ck_function_spans ck) key of Some info \<Rightarrow> fsi_file info | None \<Rightarrow> ck_file ck)
              (case bt_get (ck_function_spans ck) key of
                 Some info \<Rightarrow> fsi_function_span info | None \<Rightarrow> span_new 0 0)))"

definition check_capability_function ::
  "derive_reasoning \<Rightarrow> (string \<Rightarrow> string option) \<Rightarrow> string \<times> string \<Rightarrow> checker \<Rightarrow> checker option" where
  "check_capability_function derive source_of = (\<lambda>(name, key) ck.
     if is_std_function ck key then Some ck
     else let required = effect_usage_of ck key in
       checker_each (\<lambda>capability ck. push_diagnostic
           (map_option (attach_fix derive source_of ck key
               (\<lambda>source fsp bsp. capability_declaration_fix ck name source fsp bsp required))
             (missing_capability derive ck name key capability)) ck)
         (bs_difference required (sig_capabilities ck key)) ck)"

definition check_capability_authority ::
  "derive_reasoning \<Rightarrow> (string \<Rightarrow> string option) \<Rightarrow> checker \<Rightarrow> checker option" where
  "check_capability_authority derive source_of ck =
     checker_each (check_capability_function derive source_of) (user_function_entries ck) ck"

text \<open>Both passes, as \<open>run\<close> calls them.\<close>

definition check_effects_and_capabilities ::
  "derive_reasoning \<Rightarrow> (string \<Rightarrow> string option) \<Rightarrow> checker \<Rightarrow> checker option" where
  "check_effects_and_capabilities derive source_of ck =
     Option.bind (check_transitive_effects derive source_of ck) (check_capability_authority derive source_of)"

end
