(* ===== verification/EffectPaths.thy ===== *)
theory EffectPaths
  imports CallEffects
begin

text \<open>
  The call graph as a relation: the effects that a function can reach, what the computed closure has
  to do with them, and the paths that the diagnostics print.
\<close>

section \<open>Reachable effects\<close>

definition calls :: "checker \<Rightarrow> string \<Rightarrow> string \<Rightarrow> bool" where
  "calls ck f g \<longleftrightarrow> (\<exists>e \<in> set (edges_of ck f). ce_callee e = g) \<and> resolution_has_function_key ck g"

text \<open>The effects that a function declares and those that its callees declare.\<close>

definition direct_effects :: "checker \<Rightarrow> string \<Rightarrow> string set" where
  "direct_effects ck f =
     set (sig_effects ck f) \<union> (\<Union>e \<in> set (edges_of ck f). set (sig_effects ck (ce_callee e)))"

definition reach_effects :: "checker \<Rightarrow> string \<Rightarrow> string set" where
  "reach_effects ck f = (\<Union>g \<in> {g. (calls ck)\<^sup>*\<^sup>* f g}. direct_effects ck g)"

definition no_recursion :: "checker \<Rightarrow> bool" where
  "no_recursion ck \<longleftrightarrow> (\<forall>f. \<not> (calls ck)\<^sup>+\<^sup>+ f f)"

text \<open>What the check of the bodies (E2001) requires: a caller declares the effects of its callees.\<close>

definition callers_declare :: "checker \<Rightarrow> bool" where
  "callers_declare ck \<longleftrightarrow>
     (\<forall>f. \<forall>e \<in> set (edges_of ck f). set (sig_effects ck (ce_callee e)) \<subseteq> set (sig_effects ck f))"

lemma reach_unfold:
  "reach_effects ck f =
     set (sig_effects ck f) \<union>
     (\<Union>e \<in> set (edges_of ck f). set (sig_effects ck (ce_callee e)) \<union>
        (if resolution_has_function_key ck (ce_callee e) then reach_effects ck (ce_callee e) else {}))"
  (is "_ = ?rhs")
proof
  show "reach_effects ck f \<subseteq> ?rhs"
  proof
    fix x assume "x \<in> reach_effects ck f"
    then obtain g where g: "(calls ck)\<^sup>*\<^sup>* f g" "x \<in> direct_effects ck g" by (auto simp: reach_effects_def)
    from g(1) show "x \<in> ?rhs"
    proof (cases rule: converse_rtranclpE)
      case base
      with g(2) show ?thesis by (auto simp: direct_effects_def)
    next
      case (step h)
      with g(2) have "x \<in> reach_effects ck h" by (auto simp: reach_effects_def)
      with step(1) show ?thesis by (fastforce simp: calls_def)
    qed
  qed
  have "x \<in> reach_effects ck f"
    if "e \<in> set (edges_of ck f)" "resolution_has_function_key ck (ce_callee e)"
      "x \<in> reach_effects ck (ce_callee e)" for e x
  proof -
    from that(1,2) have "calls ck f (ce_callee e)" by (auto simp: calls_def)
    with that(3) show ?thesis
      by (auto simp: reach_effects_def intro: converse_rtranclp_into_rtranclp [of "calls ck"])
  qed
  moreover have "direct_effects ck f \<subseteq> reach_effects ck f" by (auto simp: reach_effects_def)
  ultimately show "?rhs \<subseteq> reach_effects ck f"
    by (auto simp: direct_effects_def split: if_splits)
qed

lemma sig_effects_reach: "set (sig_effects ck f) \<subseteq> reach_effects ck f"
  by (subst reach_unfold) blast

lemma reach_when_declared:
  assumes "callers_declare ck"
  shows "reach_effects ck f = set (sig_effects ck f)"
proof -
  have "direct_effects ck g \<subseteq> set (sig_effects ck f)" if "(calls ck)\<^sup>*\<^sup>* f g" for g
    using that
  proof (induction rule: converse_rtranclp_induct)
    case base
    with assms show ?case by (auto simp: direct_effects_def callers_declare_def)
  next
    case (step h i)
    with assms show ?case by (fastforce simp: calls_def callers_declare_def)
  qed
  then show ?thesis using sig_effects_reach by (fastforce simp: reach_effects_def)
qed

section \<open>The closure lies between the declared and the reachable effects\<close>

definition memo_sound :: "checker \<Rightarrow> effect_memo \<Rightarrow> bool" where
  "memo_sound ck memo \<longleftrightarrow>
     (\<forall>f s. bt_get memo f = Some s \<longrightarrow> set (sig_effects ck f) \<subseteq> set s \<and> set s \<subseteq> reach_effects ck f)"

lemma memo_sound_insert:
  "memo_sound ck memo \<Longrightarrow> set (sig_effects ck f) \<subseteq> set s \<Longrightarrow> set s \<subseteq> reach_effects ck f \<Longrightarrow>
     memo_sound ck (bt_insert f s memo)"
  by (simp add: memo_sound_def map_of_bt_insert)

lemma edges_of_Some: "bt_get (ck_call_graph ck) f = Some edges \<Longrightarrow> edges_of ck f = edges"
  by (simp add: edges_of_def bt_members_def)

lemma edges_of_None: "bt_get (ck_call_graph ck) f = None \<Longrightarrow> edges_of ck f = []"
  by (simp add: edges_of_def bt_members_def)

lemma closure_sound:
  "compute_effect_closure ck f visiting memo = (s, memo') \<Longrightarrow> memo_sound ck memo \<Longrightarrow>
     set (sig_effects ck f) \<subseteq> set s \<and> set s \<subseteq> reach_effects ck f \<and> memo_sound ck memo'"
  "closure_edges ck edges visiting memo required = (s, memo') \<Longrightarrow> memo_sound ck memo \<Longrightarrow>
     set required \<subseteq> set s \<and>
     set s \<subseteq> set required \<union> (\<Union>e \<in> set edges. set (sig_effects ck (ce_callee e)) \<union>
        (if resolution_has_function_key ck (ce_callee e) then reach_effects ck (ce_callee e) else {})) \<and>
     memo_sound ck memo'"
proof (induction ck f visiting memo and ck edges visiting memo required
    arbitrary: s memo' and s memo' rule: compute_effect_closure_closure_edges.induct)
  case (1 ck f visiting memo)
  show ?case
  proof (cases "bt_get memo f")
    case (Some c)
    with 1 show ?thesis by (auto simp: compute_effect_closure.simps memo_sound_def)
  next
    case None
    show ?thesis
    proof (cases "f \<in> set visiting")
      case True
      with None 1(2) have "s = sig_effects ck f" "memo' = memo" by (simp_all add: compute_effect_closure.simps)
      with 1(3) sig_effects_reach [of ck f] show ?thesis by simp
    next
      case False
      show ?thesis
      proof (cases "bt_get (ck_call_graph ck) f")
        case None' : None
        with None False 1(2) have "s = sig_effects ck f" "memo' = bt_insert f (sig_effects ck f) memo"
          by (auto simp: compute_effect_closure.simps)
        with memo_sound_insert [OF 1(3) subset_refl sig_effects_reach, of f] sig_effects_reach [of ck f]
        show ?thesis by simp
      next
        case (Some edges)
        obtain r m where r: "closure_edges ck edges (bs_insert f visiting) memo (sig_effects ck f) = (r, m)"
          by fastforce
        with None False Some 1(2) have s: "s = r" "memo' = bt_insert f r m"
          by (auto simp: compute_effect_closure.simps)
        from 1(1) [OF None False Some r 1(3)] have "set (sig_effects ck f) \<subseteq> set r"
          "set r \<subseteq> reach_effects ck f" "memo_sound ck m"
          unfolding reach_unfold [of ck f] edges_of_Some [OF Some] by blast+
        then show ?thesis unfolding s by (auto intro: memo_sound_insert)
      qed
    qed
  qed
next
  case (3 ck edge edges visiting memo required)
  let ?r = "bs_extend (sig_effects ck (ce_callee edge)) required"
  show ?case
  proof (cases "resolution_has_function_key ck (ce_callee edge)")
    case True
    obtain c m where c: "compute_effect_closure ck (ce_callee edge) visiting memo = (c, m)" by fastforce
    with True 3(4) have rest: "closure_edges ck edges visiting m (bs_extend c ?r) = (s, memo')" by simp
    from 3(1) [OF refl True c 3(5)] have c': "set c \<subseteq> reach_effects ck (ce_callee edge)" "memo_sound ck m" by auto
    from 3(2) [OF refl True c [symmetric] refl rest c'(2)] c'(1) True show ?thesis by auto
  next
    case False
    with 3 show ?thesis by (auto simp: Let_def)
  qed
qed simp

section \<open>Without recursion the closure is exact\<close>

definition memo_exact :: "checker \<Rightarrow> effect_memo \<Rightarrow> bool" where
  "memo_exact ck memo \<longleftrightarrow> (\<forall>f s. bt_get memo f = Some s \<longrightarrow> set s = reach_effects ck f)"

lemma memo_exact_insert:
  "memo_exact ck memo \<Longrightarrow> set s = reach_effects ck f \<Longrightarrow> memo_exact ck (bt_insert f s memo)"
  by (simp add: memo_exact_def map_of_bt_insert)

text \<open>No function that is being visited can be reached again.\<close>

definition off_path :: "checker \<Rightarrow> string_set \<Rightarrow> string \<Rightarrow> bool" where
  "off_path ck visiting f \<longleftrightarrow> (\<forall>v \<in> set visiting. \<not> (calls ck)\<^sup>*\<^sup>* f v)"

lemma off_path_call:
  assumes "no_recursion ck" "off_path ck visiting f" "calls ck f g"
  shows "off_path ck (bs_insert f visiting) g"
proof -
  have "\<not> (calls ck)\<^sup>*\<^sup>* g f"
  proof
    assume "(calls ck)\<^sup>*\<^sup>* g f"
    with assms(3) have "(calls ck)\<^sup>+\<^sup>+ f f" by (rule rtranclp_into_tranclp2)
    with assms(1) show False by (simp add: no_recursion_def)
  qed
  moreover have "\<not> (calls ck)\<^sup>*\<^sup>* g v" if "v \<in> set visiting" for v
    using assms(2,3) that by (auto simp: off_path_def dest: converse_rtranclp_into_rtranclp)
  ultimately show ?thesis by (auto simp: off_path_def)
qed

lemma closure_exact:
  "compute_effect_closure ck f visiting memo = (s, memo') \<Longrightarrow> no_recursion ck \<Longrightarrow> memo_exact ck memo \<Longrightarrow>
     off_path ck visiting f \<Longrightarrow> set s = reach_effects ck f \<and> memo_exact ck memo'"
  "closure_edges ck edges visiting memo required = (s, memo') \<Longrightarrow> no_recursion ck \<Longrightarrow> memo_exact ck memo \<Longrightarrow>
     (\<And>e. e \<in> set edges \<Longrightarrow> resolution_has_function_key ck (ce_callee e) \<Longrightarrow>
        off_path ck visiting (ce_callee e)) \<Longrightarrow>
     set s = set required \<union> (\<Union>e \<in> set edges. set (sig_effects ck (ce_callee e)) \<union>
        (if resolution_has_function_key ck (ce_callee e) then reach_effects ck (ce_callee e) else {})) \<and>
     memo_exact ck memo'"
proof (induction ck f visiting memo and ck edges visiting memo required
    arbitrary: s memo' and s memo' rule: compute_effect_closure_closure_edges.induct)
  case (1 ck f visiting memo)
  show ?case
  proof (cases "bt_get memo f")
    case (Some c)
    with 1 show ?thesis by (auto simp: compute_effect_closure.simps memo_exact_def)
  next
    case None
    from 1(5) have False: "f \<notin> set visiting" by (auto simp: off_path_def)
    show ?thesis
    proof (cases "bt_get (ck_call_graph ck) f")
      case None' : None
      with None False 1(2) have "s = sig_effects ck f" "memo' = bt_insert f (sig_effects ck f) memo"
        by (auto simp: compute_effect_closure.simps)
      moreover have "set (sig_effects ck f) = reach_effects ck f"
        by (subst reach_unfold) (simp add: edges_of_None [OF None'])
      ultimately show ?thesis using 1(4) by (simp add: memo_exact_insert)
    next
      case (Some edges)
      obtain r m where r: "closure_edges ck edges (bs_insert f visiting) memo (sig_effects ck f) = (r, m)"
        by fastforce
      with None False Some 1(2) have s: "s = r" "memo' = bt_insert f r m"
        by (auto simp: compute_effect_closure.simps)
      have "off_path ck (bs_insert f visiting) (ce_callee e)"
        if "e \<in> set edges" "resolution_has_function_key ck (ce_callee e)" for e
        using that by (intro off_path_call [OF 1(3,5)]) (auto simp: calls_def edges_of_Some [OF Some])
      from 1(1) [OF None False Some r 1(3,4) this] have "set r = reach_effects ck f" "memo_exact ck m"
        unfolding reach_unfold [of ck f] edges_of_Some [OF Some] by blast+
      then show ?thesis unfolding s by (simp add: memo_exact_insert)
    qed
  qed
next
  case (3 ck edge edges visiting memo required)
  let ?r = "bs_extend (sig_effects ck (ce_callee edge)) required"
  have off: "off_path ck visiting (ce_callee e)"
    if "e \<in> set edges" "resolution_has_function_key ck (ce_callee e)" for e using 3(7) that by simp
  show ?case
  proof (cases "resolution_has_function_key ck (ce_callee edge)")
    case True
    obtain c m where c: "compute_effect_closure ck (ce_callee edge) visiting memo = (c, m)" by fastforce
    with True 3(4) have rest: "closure_edges ck edges visiting m (bs_extend c ?r) = (s, memo')" by simp
    have "off_path ck visiting (ce_callee edge)" using 3(7) True by simp
    from 3(1) [OF refl True c 3(5,6) this] have c': "set c = reach_effects ck (ce_callee edge)" "memo_exact ck m" by auto
    from 3(2) [OF refl True c [symmetric] refl rest 3(5) c'(2) off] c'(1) True show ?thesis by auto
  next
    case False
    with 3(3) [OF refl False _ 3(5,6) off, of s memo'] 3(4) show ?thesis by (auto simp: Let_def)
  qed
qed simp

lemma closures_exact:
  assumes "no_recursion ck"
  shows "memo_exact ck memo \<Longrightarrow> (key, s) \<in> set (closures_of ck keys memo) \<Longrightarrow> set s = reach_effects ck key"
proof (induction keys arbitrary: memo)
  case (Cons k ks)
  obtain c m where c: "compute_effect_closure ck k [] memo = (c, m)" by fastforce
  have "off_path ck [] k" by (simp add: off_path_def)
  from closure_exact(1) [OF c assms Cons.prems(1) this] Cons c show ?case by auto
qed simp

lemma closures_sound:
  "memo_sound ck memo \<Longrightarrow> (key, s) \<in> set (closures_of ck keys memo) \<Longrightarrow>
     set (sig_effects ck key) \<subseteq> set s \<and> set s \<subseteq> reach_effects ck key"
proof (induction keys arbitrary: memo)
  case (Cons k ks)
  obtain c m where c: "compute_effect_closure ck k [] memo = (c, m)" by fastforce
  from closure_sound(1) [OF c Cons.prems(1)] Cons c show ?case by auto
qed simp

lemma fst_closures: "map fst (closures_of ck keys memo) = keys"
  by (induction keys arbitrary: memo) (auto split: prod.split)

lemma get_insert_all: "map_of (insert_all kvs m) k = (case map_of (rev kvs) k of Some v \<Rightarrow> Some v | None \<Rightarrow> map_of m k)"
  by (simp add: insert_all_def bt.get_fold_ins)

text \<open>The usage that the first pass stores for a function.\<close>

lemma usage_stored:
  assumes "key \<in> set keys"
  shows "\<exists>s. map_of (insert_all (closures_of ck keys []) m) key = Some s \<and> (key, s) \<in> set (closures_of ck keys [])"
proof -
  have "key \<in> fst ` set (rev (closures_of ck keys []))"
    using assms by (simp flip: set_map add: fst_closures)
  then obtain s where "map_of (rev (closures_of ck keys [])) key = Some s"
    by (metis map_of_eq_None_iff not_None_eq)
  moreover from this have "(key, s) \<in> set (closures_of ck keys [])" by (auto dest: map_of_SomeD)
  ultimately show ?thesis by (simp add: get_insert_all)
qed

section \<open>Paths\<close>

text \<open>
  A call path from \<open>s\<close>: every node calls the next one. Its site is the place of its first call.
\<close>

definition call_path :: "checker \<Rightarrow> string \<Rightarrow> string list \<Rightarrow> bool" where
  "call_path ck s path \<longleftrightarrow> path \<noteq> [] \<and> hd path = s \<and> successively (calls ck) path"

definition first_call :: "checker \<Rightarrow> string \<Rightarrow> string list \<Rightarrow> string \<Rightarrow> span \<Rightarrow> bool" where
  "first_call ck s path diag_file sp \<longleftrightarrow>
     (\<exists>e \<in> set (edges_of ck s). path ! 1 = ce_callee e \<and> ce_file e = diag_file \<and> ce_span e = sp)"

text \<open>A path to an effect: a call path and one more call, to a function that declares the effect.\<close>

definition leads_to :: "checker \<Rightarrow> string \<Rightarrow> string \<Rightarrow> string list \<Rightarrow> bool" where
  "leads_to ck s effect nodes \<longleftrightarrow>
     (\<exists>path e. nodes = path @ [ce_callee e] \<and> call_path ck s path \<and> e \<in> set (edges_of ck (last path)) \<and>
        effect \<in> set (sig_effects ck (ce_callee e)))"

lemma call_path_single [simp]: "call_path ck s [s]"
  by (simp add: call_path_def)

lemma call_path_snoc: "call_path ck s path \<Longrightarrow> calls ck (last path) g \<Longrightarrow> call_path ck s (path @ [g])"
  by (auto simp: call_path_def successively_append_iff)

lemma call_path_reach: "(calls ck)\<^sup>*\<^sup>* s g \<longleftrightarrow> (\<exists>path. call_path ck s path \<and> last path = g)"
proof
  assume "(calls ck)\<^sup>*\<^sup>* s g"
  then show "\<exists>path. call_path ck s path \<and> last path = g"
  proof (induction rule: rtranclp_induct)
    case base
    show ?case by (rule exI [of _ "[s]"]) simp
  next
    case (step g h)
    then obtain path where "call_path ck s path" "last path = g" by blast
    with step(2) have "call_path ck s (path @ [h])" by (simp add: call_path_snoc)
    then show ?case by (intro exI [of _ "path @ [h]"]) simp
  qed
next
  assume "\<exists>path. call_path ck s path \<and> last path = g"
  then obtain path where "call_path ck s path" "last path = g" by blast
  then show "(calls ck)\<^sup>*\<^sup>* s g"
  proof (induction path arbitrary: s)
    case (Cons x xs)
    then show ?case
      by (cases xs) (auto simp: call_path_def intro: converse_rtranclp_into_rtranclp)
  qed (simp add: call_path_def)
qed

text \<open>An entry of the queue.\<close>

definition entry_ok :: "checker \<Rightarrow> string \<Rightarrow> path_entry \<Rightarrow> bool" where
  "entry_ok ck s = (\<lambda>(node, path, site). call_path ck s path \<and> last path = node \<and>
     (case site of None \<Rightarrow> path = [s] | Some (fl, sp) \<Rightarrow> 2 \<le> length path \<and> first_call ck s path fl sp))"

text \<open>Every node within \<open>k\<close> nodes of \<open>s\<close> has been visited; an entry has a shortest path to its node.\<close>

definition within :: "checker \<Rightarrow> string \<Rightarrow> nat \<Rightarrow> string_set \<Rightarrow> bool" where
  "within ck s k visited \<longleftrightarrow> (\<forall>path. call_path ck s path \<and> length path \<le> k \<longrightarrow> last path \<in> set visited)"

definition shortest :: "checker \<Rightarrow> string \<Rightarrow> path_entry \<Rightarrow> bool" where
  "shortest ck s = (\<lambda>(node, path, _).
     \<forall>path'. call_path ck s path' \<and> last path' = node \<longrightarrow> length path \<le> length path')"

definition settled :: "checker \<Rightarrow> string \<Rightarrow> string_set \<Rightarrow> string \<Rightarrow> bool" where
  "settled ck effect visited n \<longleftrightarrow>
     (\<forall>e \<in> set (edges_of ck n). effect \<notin> set (sig_effects ck (ce_callee e)) \<and>
        (resolution_has_function_key ck (ce_callee e) \<longrightarrow> ce_callee e \<in> set visited))"

definition entry_length :: "path_entry \<Rightarrow> nat" where
  "entry_length = (\<lambda>(_, path, _). length path)"

definition loop_ok :: "checker \<Rightarrow> string \<Rightarrow> string \<Rightarrow> string_set \<Rightarrow> path_entry list \<Rightarrow> bool" where
  "loop_ok ck s effect visited queue \<longleftrightarrow>
     s \<in> set visited \<and>
     (\<forall>q \<in> set queue. entry_ok ck s q \<and> shortest ck s q \<and> fst q \<in> set visited) \<and>
     (\<forall>n \<in> set visited. n \<in> fst ` set queue \<or> settled ck effect visited n) \<and>
     sorted (map entry_length queue) \<and>
     (\<forall>q \<in> set queue. within ck s (entry_length (hd queue)) visited \<and>
        entry_length q \<le> Suc (entry_length (hd queue)))"

lemma path_edges_found:
  "path_edges ck effect path site edges visited = Inl p \<Longrightarrow>
     \<exists>e \<in> set edges. ep_nodes p = path @ [ce_callee e] \<and> effect \<in> set (sig_effects ck (ce_callee e)) \<and>
       (ep_file p, ep_span p) = (case site of Some st \<Rightarrow> st | None \<Rightarrow> (ce_file e, ce_span e))"
  by (induction ck effect path site edges visited rule: path_edges.induct)
    (auto simp: Let_def split: if_splits sum.splits option.splits)

lemma path_edges_continue:
  "path_edges ck effect path site edges visited = Inr (visited', entries) \<Longrightarrow>
     set visited' = set visited \<union> fst ` set entries \<and>
     (\<forall>e \<in> set edges. effect \<notin> set (sig_effects ck (ce_callee e)) \<and>
        (resolution_has_function_key ck (ce_callee e) \<longrightarrow> ce_callee e \<in> set visited')) \<and>
     (\<forall>q \<in> set entries. \<exists>e \<in> set edges. resolution_has_function_key ck (ce_callee e) \<and>
        ce_callee e \<notin> set visited \<and>
        q = (ce_callee e, path @ [ce_callee e], Some (case site of Some st \<Rightarrow> st | None \<Rightarrow> (ce_file e, ce_span e))))"
proof (induction ck effect path site edges visited arbitrary: visited' entries rule: path_edges.induct)
  case (2 ck effect path site edge edges visited)
  let ?site = "case site of Some st \<Rightarrow> st | None \<Rightarrow> (ce_file edge, ce_span edge)"
  from 2(3) have eff: "effect \<notin> set (sig_effects ck (ce_callee edge))"
    by (auto simp: Let_def split: if_splits)
  show ?case
  proof (cases "\<not> resolution_has_function_key ck (ce_callee edge) \<or> ce_callee edge \<in> set visited")
    case True
    with 2(3) eff have "path_edges ck effect path site edges visited = Inr (visited', entries)"
      by (auto simp: Let_def)
    from 2(1) [OF refl refl eff True this] True eff show ?thesis by auto
  next
    case False
    with 2(3) eff obtain es where es:
      "path_edges ck effect path site edges (bs_insert (ce_callee edge) visited) = Inr (visited', es)"
      "entries = (ce_callee edge, path @ [ce_callee edge], Some ?site) # es"
      by (auto simp: Let_def split: sum.splits)
    from 2(2) [OF refl refl eff False es(1)] False eff show ?thesis unfolding es(2) by auto
  qed
qed simp

lemma entry_length_simps [simp]: "entry_length (n, path, site) = length path"
  by (simp add: entry_length_def)

lemma within_mono: "within ck s k V \<Longrightarrow> set V \<subseteq> set V' \<Longrightarrow> within ck s k V'"
  by (auto simp: within_def)

lemma settled_mono: "settled ck effect V n \<Longrightarrow> set V \<subseteq> set V' \<Longrightarrow> settled ck effect V' n"
  by (auto simp: settled_def)

lemma settled_call: "settled ck effect V n \<Longrightarrow> calls ck n g \<Longrightarrow> g \<in> set V"
  by (auto simp: settled_def calls_def)

lemma entry_ok_next:
  assumes "entry_ok ck s (node, path, site)" "e \<in> set (edges_of ck node)"
    and "resolution_has_function_key ck (ce_callee e)"
  shows "entry_ok ck s (ce_callee e, path @ [ce_callee e],
    Some (case site of Some st \<Rightarrow> st | None \<Rightarrow> (ce_file e, ce_span e)))"
proof -
  from assms have "call_path ck s (path @ [ce_callee e])"
    by (intro call_path_snoc) (auto simp: entry_ok_def calls_def)
  moreover have "path \<noteq> []" using assms(1) by (auto simp: entry_ok_def call_path_def)
  ultimately show ?thesis
    using assms(1,2)
    by (cases site) (auto simp: entry_ok_def first_call_def nth_append Suc_le_eq)
qed

text \<open>A node that is newly entered is one call further away than the node that is taken.\<close>

lemma loop_ok_next_within:
  assumes queue: "loop_ok ck s effect V ((node, path, site) # rest)"
    and V': "set V \<subseteq> set V'" "settled ck effect V' node"
    and far: "\<forall>q \<in> set rest. entry_length q = Suc (length path)"
  shows "within ck s (Suc (length path)) V'"
  unfolding within_def
proof (intro allI impI, elim conjE)
  fix p assume p: "call_path ck s p" "length p \<le> Suc (length path)"
  from queue have near: "within ck s (length path) V" "path \<noteq> []"
    by (auto simp: loop_ok_def entry_ok_def call_path_def)
  show "last p \<in> set V'"
  proof (cases "length p \<le> length path")
    case True
    with near p V'(1) show ?thesis by (auto simp: within_def)
  next
    case False
    then have len: "length p = Suc (length path)" using p(2) by simp
    define p' where "p' = butlast p"
    have "length p' = length path" using len by (simp add: p'_def)
    with near(2) have "p' \<noteq> []" by auto
    have "p = p' @ [last p]" using len by (cases p rule: rev_cases) (auto simp: p'_def)
    with p(1) have "call_path ck s (p' @ [last p])" by simp
    with \<open>p' \<noteq> []\<close> have p': "call_path ck s p'" "calls ck (last p') (last p)"
      by (simp_all add: call_path_def successively_append_iff)
    with near(1) \<open>length p' = _\<close> have "last p' \<in> set V" by (auto simp: within_def)
    with queue consider "last p' = node" | "last p' \<in> fst ` set rest" | "settled ck effect V (last p')"
      by (auto simp: loop_ok_def)
    then show ?thesis
    proof cases
      case 1
      with V'(2) p'(2) settled_call show ?thesis by blast
    next
      case 2
      then obtain q where q: "q \<in> set rest" "fst q = last p'" by auto
      with queue have "shortest ck s q" by (auto simp: loop_ok_def)
      with p'(1) q(2) have "entry_length q \<le> length p'" by (cases q) (auto simp: shortest_def)
      with far q(1) \<open>length p' = _\<close> show ?thesis by auto
    next
      case 3
      with V'(1) p'(2) settled_call show ?thesis by blast
    qed
  qed
qed

lemma loop_ok_next:
  assumes queue: "loop_ok ck s effect V ((node, path, site) # rest)"
    and step: "path_edges ck effect path site (edges_of ck node) V = Inr (V', entries)"
  shows "loop_ok ck s effect V' (rest @ entries)"
proof -
  note edges = path_edges_continue [OF step]
  from edges have mono: "set V \<subseteq> set V'" and V': "set V' = set V \<union> fst ` set entries" by auto
  from edges have node: "settled ck effect V' node" unfolding settled_def by blast
  from queue have head: "entry_ok ck s (node, path, site)" "within ck s (length path) V"
    and rest: "\<forall>q \<in> set rest. length path \<le> entry_length q \<and> entry_length q \<le> Suc (length path)"
    by (auto simp: loop_ok_def)
  have new: "entry_ok ck s q \<and> shortest ck s q \<and> fst q \<in> set V' \<and> entry_length q = Suc (length path)"
    if q: "q \<in> set entries" for q
  proof -
    from edges q obtain e where e: "e \<in> set (edges_of ck node)" "resolution_has_function_key ck (ce_callee e)"
      "ce_callee e \<notin> set V"
      "q = (ce_callee e, path @ [ce_callee e], Some (case site of Some st \<Rightarrow> st | None \<Rightarrow> (ce_file e, ce_span e)))"
      by blast
    have "Suc (length path) \<le> length p" if "call_path ck s p" "last p = ce_callee e" for p
      using head(2) that e(3) by (auto simp: within_def not_less_eq_eq [symmetric])
    then have "shortest ck s q" by (simp add: shortest_def e(4))
    moreover have "fst q \<in> set V'" using q V' by auto
    ultimately show ?thesis using entry_ok_next [OF head(1) e(1,2)] by (simp add: e(4))
  qed
  have sorted: "sorted (map entry_length (rest @ entries))"
  proof -
    have "map entry_length entries = replicate (length entries) (Suc (length path))"
      using new by (simp add: list_eq_iff_nth_eq)
    then show ?thesis using queue rest by (auto simp: loop_ok_def sorted_append)
  qed
  have heads: "within ck s (entry_length (hd (rest @ entries))) V'" if "rest @ entries \<noteq> []"
  proof (cases "\<exists>q \<in> set rest. entry_length q = length path")
    case True
    then have "rest \<noteq> []" by auto
    with queue have "\<forall>q \<in> set rest. entry_length (hd rest) \<le> entry_length q"
      by (cases rest) (auto simp: loop_ok_def)
    with True rest \<open>rest \<noteq> []\<close> have "entry_length (hd rest) = length path"
      by (metis hd_in_set le_antisym)
    with head(2) mono \<open>rest \<noteq> []\<close> show ?thesis by (auto intro: within_mono)
  next
    case False
    with rest have far: "\<forall>q \<in> set rest. entry_length q = Suc (length path)" by (metis le_Suc_eq le_antisym)
    with new that have "entry_length (hd (rest @ entries)) = Suc (length path)"
      by (cases rest) (auto simp: neq_Nil_conv)
    with loop_ok_next_within [OF queue mono node far] show ?thesis by simp
  qed
  have lengths: "entry_length q \<le> Suc (entry_length (hd (rest @ entries)))" if "q \<in> set (rest @ entries)" for q
  proof -
    have "hd (rest @ entries) \<in> set (rest @ entries)" using that by (intro hd_in_set) auto
    then consider "hd (rest @ entries) \<in> set rest" | "hd (rest @ entries) \<in> set entries" by auto
    then have "length path \<le> entry_length (hd (rest @ entries))"
      using rest new by cases (blast, simp)
    moreover have "entry_length q \<le> Suc (length path)"
    proof (cases "q \<in> set rest")
      case False
      with that new [of q] show ?thesis by simp
    qed (use rest in blast)
    ultimately show ?thesis by simp
  qed
  have members: "\<forall>q \<in> set (rest @ entries). entry_ok ck s q \<and> shortest ck s q \<and> fst q \<in> set V'"
    using queue new mono by (auto simp: loop_ok_def)
  have cover: "\<forall>n \<in> set V'. n \<in> fst ` set (rest @ entries) \<or> settled ck effect V' n"
    using queue node settled_mono [OF _ mono] unfolding V' by (auto simp: loop_ok_def)
  have "s \<in> set V'" using queue mono by (auto simp: loop_ok_def)
  moreover have "within ck s (entry_length (hd (rest @ entries))) V' \<and>
      entry_length q \<le> Suc (entry_length (hd (rest @ entries)))" if "q \<in> set (rest @ entries)" for q
    using heads lengths [OF that] that by (metis list.set(1) emptyE)
  ultimately show ?thesis unfolding loop_ok_def using sorted members cover by blast
qed

text \<open>What the result says: a shortest path to the effect, or that there is none.\<close>

definition path_result :: "checker \<Rightarrow> string \<Rightarrow> string \<Rightarrow> effect_path option \<Rightarrow> bool" where
  "path_result ck s effect result \<longleftrightarrow>
     (case result of
        Some p \<Rightarrow> leads_to ck s effect (ep_nodes p) \<and> first_call ck s (ep_nodes p) (ep_file p) (ep_span p) \<and>
          (\<forall>nodes. leads_to ck s effect nodes \<longrightarrow> length (ep_nodes p) \<le> length nodes)
      | None \<Rightarrow> \<not> (\<exists>nodes. leads_to ck s effect nodes))"

lemma found_path:
  assumes queue: "loop_ok ck s effect V ((node, path, site) # rest)"
    and step: "path_edges ck effect path site (edges_of ck node) V = Inl p"
  shows "path_result ck s effect (Some p)"
proof -
  from path_edges_found [OF step] obtain e where e: "e \<in> set (edges_of ck node)"
    "ep_nodes p = path @ [ce_callee e]" "effect \<in> set (sig_effects ck (ce_callee e))"
    "(ep_file p, ep_span p) = (case site of Some st \<Rightarrow> st | None \<Rightarrow> (ce_file e, ce_span e))" by blast
  from queue have head: "entry_ok ck s (node, path, site)" "within ck s (length path) V"
    by (auto simp: loop_ok_def)
  then have path: "call_path ck s path" "last path = node" "path \<noteq> []"
    by (auto simp: entry_ok_def call_path_def)
  have "leads_to ck s effect (ep_nodes p)"
    using path e(1,3) unfolding leads_to_def e(2) by blast
  moreover have "first_call ck s (ep_nodes p) (ep_file p) (ep_span p)"
    using head(1) e by (cases site) (auto simp: entry_ok_def first_call_def nth_append Suc_le_eq)
  moreover have "length (ep_nodes p) \<le> length nodes" if nodes: "leads_to ck s effect nodes" for nodes
  proof (rule ccontr)
    assume short: "\<not> length (ep_nodes p) \<le> length nodes"
    from nodes obtain path' e' where p': "nodes = path' @ [ce_callee e']" "call_path ck s path'"
      "e' \<in> set (edges_of ck (last path'))" "effect \<in> set (sig_effects ck (ce_callee e'))"
      by (auto simp: leads_to_def)
    with short have less: "length path' < length path" by (simp add: e(2))
    with head(2) p'(2) have "last path' \<in> set V" by (simp add: within_def)
    moreover have "\<not> settled ck effect V (last path')" using p'(3,4) by (auto simp: settled_def)
    ultimately obtain q where q: "q \<in> set ((node, path, site) # rest)" "fst q = last path'"
      using queue unfolding loop_ok_def by fastforce
    with queue have "shortest ck s q" "length path \<le> entry_length q" by (auto simp: loop_ok_def)
    with q(2) p'(2) less show False by (cases q) (auto simp: shortest_def)
  qed
  ultimately show ?thesis by (simp add: path_result_def)
qed

lemma path_loop_result: "loop_ok ck s effect V queue \<Longrightarrow> path_result ck s effect (path_loop ck effect V queue)"
proof (induction ck effect V queue rule: path_loop.induct)
  case (1 ck effect V queue)
  show ?case
  proof (cases queue)
    case Nil
    with 1(2) have V: "s \<in> set V" "\<forall>n \<in> set V. settled ck effect V n" by (simp_all add: loop_ok_def)
    have "g \<in> set V" if "(calls ck)\<^sup>*\<^sup>* s g" for g
      using that by (induction rule: rtranclp_induct) (use V settled_call in blast)+
    then have "\<not> leads_to ck s effect nodes" for nodes
      using V(2) call_path_reach by (fastforce simp: leads_to_def settled_def)
    with Nil show ?thesis by (simp add: path_loop.simps path_result_def)
  next
    case (Cons q rest)
    obtain node path site where q: "q = (node, path, site)" by (cases q) auto
    show ?thesis
    proof (cases "path_edges ck effect path site (edges_of ck node) V")
      case (Inl p)
      with found_path 1(2) show ?thesis unfolding Cons q by (simp add: path_loop.simps)
    next
      case (Inr r)
      then obtain V' entries where r: "r = (V', entries)" by (cases r) auto
      with Inr 1(2) have "loop_ok ck s effect V' (rest @ entries)"
        unfolding Cons q by (auto intro: loop_ok_next)
      from 1(1) [OF Cons q [symmetric] refl Inr r [symmetric] this] show ?thesis
        unfolding Cons q by (subst path_loop.simps) (simp add: Inr r)
    qed
  qed
qed

lemma find_effect_path_result:
  "path_result ck start effect (find_effect_path ck start effect)"
proof -
  have "length path' \<ge> Suc 0" if "call_path ck start path'" for path'
    using that by (cases path') (auto simp: call_path_def)
  moreover have "within ck start (Suc 0) [start]"
  proof -
    have "last path = start" if "call_path ck start path" "length path \<le> Suc 0" for path
      using that by (cases path) (auto simp: call_path_def)
    then show ?thesis by (auto simp: within_def)
  qed
  ultimately have "loop_ok ck start effect [start] [(start, [start], None)]"
    by (simp add: loop_ok_def entry_ok_def shortest_def)
  then show ?thesis unfolding find_effect_path_def by (rule path_loop_result)
qed

text \<open>
  C35: the call path in a diagnostic about effects is right: it starts at the function, each of its
  functions calls the next one, the last one declares the effect, no call path to a function that
  declares the effect is shorter, and the place that is shown is the first call of the path. When
  there is no path, no function that can be reached by calls declares the effect.
\<close>

theorem effect_path_shortest:
  "path_result ck start effect (find_effect_path ck start effect)"
  by (rule find_effect_path_result)

end
