(* ===== verification/EffectAuthority.thy ===== *)
theory EffectAuthority
  imports EffectPaths
begin

text \<open>
  What it means that the effect passes of the type checker report nothing, and a program where the
  closure that they compute is incomplete.
\<close>

section \<open>What the passes change\<close>

text \<open>The checker after some diagnostics: nothing that the passes read has changed.\<close>

definition reported :: "checker \<Rightarrow> diagnostic list \<Rightarrow> string list name_map name_map \<Rightarrow> checker" where
  "reported ck ds rs = ck\<lparr>ck_diagnostics := ck_diagnostics ck @ ds, ck_effect_reasons := rs\<rparr>"

lemma reported_fields [simp]:
  "ck_program (reported ck ds rs) = ck_program ck" "ck_resolution (reported ck ds rs) = ck_resolution ck"
  "ck_file (reported ck ds rs) = ck_file ck" "ck_functions (reported ck ds rs) = ck_functions ck"
  "ck_module_functions (reported ck ds rs) = ck_module_functions ck"
  "ck_function_module_by_symbol (reported ck ds rs) = ck_function_module_by_symbol ck"
  "ck_effect_usage (reported ck ds rs) = ck_effect_usage ck"
  "ck_call_graph (reported ck ds rs) = ck_call_graph ck"
  "ck_diagnostics (reported ck ds rs) = ck_diagnostics ck @ ds"
  "ck_effect_reasons (reported ck ds rs) = rs"
  by (simp_all add: reported_def)

lemma reported_read [simp]:
  "fn_sig_for_key (reported ck ds rs) f = fn_sig_for_key ck f"
  "resolution_has_function_key (reported ck ds rs) f = resolution_has_function_key ck f"
  "edges_of (reported ck ds rs) f = edges_of ck f" "effect_usage_of (reported ck ds rs) f = effect_usage_of ck f"
  "is_std_function (reported ck ds rs) f = is_std_function ck f"
  "function_entry (reported ck ds rs) item = function_entry ck item"
  unfolding fn_sig_for_key_def resolution_has_function_key_def edges_of_def effect_usage_of_def
    is_std_function_def function_entry_def reported_fields
  by (rule refl)+

lemma reported_sigs [simp]:
  "sig_effects (reported ck ds rs) f = sig_effects ck f"
  "sig_capabilities (reported ck ds rs) f = sig_capabilities ck f"
  "user_function_entries (reported ck ds rs) = user_function_entries ck"
  by (simp_all add: sig_effects_def sig_capabilities_def user_function_entries_def map_filter_def)

lemma reported_reported [simp]: "reported (reported ck ds rs) ds' rs' = reported ck (ds @ ds') rs'"
  by (simp add: reported_def)

lemma reported_id: "ck = reported ck [] (ck_effect_reasons ck)"
  by (simp add: reported_def)

definition reports_only :: "(checker \<Rightarrow> checker option) \<Rightarrow> bool" where
  "reports_only f \<longleftrightarrow> (\<forall>ck. \<exists>ds rs. f ck = Some (reported ck ds rs))"

lemma reports_onlyD: "reports_only f \<Longrightarrow> \<exists>ds rs. f ck = Some (reported ck ds rs)"
  by (simp add: reports_only_def)

lemma reports_only_Some: "reports_only Some"
  unfolding reports_only_def using reported_id by fastforce

lemma reports_only_each:
  assumes "\<And>x. x \<in> set xs \<Longrightarrow> reports_only (f x)"
  shows "reports_only (checker_each f xs)"
  using assms
proof (induction xs)
  case Nil
  then show ?case using reports_only_Some by (simp add: reports_only_def)
next
  case (Cons x xs)
  then have "reports_only (f x)" "reports_only (checker_each f xs)" by simp_all
  then show ?case unfolding reports_only_def by (metis bind.bind_lunit checker_each.simps(2) reported_reported)
qed

lemma effect_codes [simp]: "assert_registered ''E2005'' = Some ()" "assert_registered ''E2009'' = Some ()"
  by code_simp+

lemma push_diagnostic_Some: "push_diagnostic (Some d) ck = Some (reported ck [d] (ck_effect_reasons ck))"
  by (simp add: push_diagnostic_def reported_def)

lemma diagnostic_error_effect:
  "\<exists>d. diagnostic_error derive ''E2005'' message fl sp = Some d"
  "\<exists>d. diagnostic_error derive ''E2009'' message fl sp = Some d"
  by (simp_all add: diagnostic_error_def)

lemma missing_capability_Some: "\<exists>d. missing_capability derive ck name key capability = Some d"
  by (simp add: missing_capability_def diagnostic_error_def Let_def split: option.split)

lemma reports_transitive: "reports_only (report_transitive_effect derive source_of name key closure effect)"
  unfolding reports_only_def
proof
  fix ck
  have quiet: "\<exists>ds rs. Some ck = Some (reported ck ds rs)" using reported_id by blast
  show "\<exists>ds rs. report_transitive_effect derive source_of name key closure effect ck = Some (reported ck ds rs)"
  proof (cases "find_effect_path ck key effect")
    case None
    then have "report_transitive_effect derive source_of name key closure effect ck = Some ck"
      by (simp add: report_transitive_effect_def)
    with quiet show ?thesis by metis
  next
    case (Some p)
    show ?thesis
    proof (cases "length (ep_nodes p) < 3")
      case True
      with Some have "report_transitive_effect derive source_of name key closure effect ck = Some ck"
        by (simp add: report_transitive_effect_def)
      with quiet show ?thesis by metis
    next
      case False
      with Some show ?thesis
        unfolding report_transitive_effect_def diagnostic_error_def
        by (auto simp: push_diagnostic_Some)
    qed
  qed
qed

lemma reports_transitive_function: "reports_only (check_transitive_function derive source_of entry)"
proof (cases entry)
  case (Pair name key)
  have "\<exists>ds rs. check_transitive_function derive source_of entry ck = Some (reported ck ds rs)" for ck
  proof -
    let ?f = "report_transitive_effect derive source_of name key (effect_usage_of ck key)"
    obtain rs where "ck\<lparr>ck_effect_reasons := bt_insert key (bt_collect (map (\<lambda>e. (e, path_nodes_or ck name key e))
        (effect_usage_of ck key))) (ck_effect_reasons ck)\<rparr> = reported ck [] rs"
      by (simp add: reported_def)
    moreover have "reports_only (checker_each ?f (bs_difference (effect_usage_of ck key) (sig_effects ck key)))"
      by (rule reports_only_each) (rule reports_transitive)
    ultimately show ?thesis
      unfolding check_transitive_function_def Pair prod.case Let_def reports_only_def
      by (metis append_Nil reported_reported)
  qed
  then show ?thesis by (simp add: reports_only_def)
qed

lemma reports_capability_function: "reports_only (check_capability_function derive source_of entry)"
proof (cases entry)
  case (Pair name key)
  have "\<exists>ds rs. check_capability_function derive source_of entry ck = Some (reported ck ds rs)" for ck
  proof -
    let ?f = "\<lambda>capability c. push_diagnostic
        (map_option (attach_fix derive source_of c key
            (\<lambda>source fsp bsp. capability_declaration_fix c name source fsp bsp (effect_usage_of ck key)))
          (missing_capability derive c name key capability)) c"
    have "reports_only (checker_each ?f (bs_difference (effect_usage_of ck key) (sig_capabilities ck key)))"
    proof (rule reports_only_each)
      show "reports_only (?f capability)" for capability
        using missing_capability_Some unfolding reports_only_def
        by (metis option.simps(9) push_diagnostic_Some)
    qed
    then show ?thesis
      using reports_only_Some unfolding check_capability_function_def Pair prod.case Let_def reports_only_def
      by simp
  qed
  then show ?thesis by (simp add: reports_only_def)
qed

text \<open>A loop that leaves the diagnostics as they are has done so at every element.\<close>

lemma each_no_report:
  assumes "checker_each f xs ck = Some ck'" "ck_diagnostics ck' = ck_diagnostics ck" "x \<in> set xs"
    and "\<And>x. x \<in> set xs \<Longrightarrow> reports_only (f x)"
  shows "\<exists>rs rs'. f x (reported ck [] rs) = Some (reported ck [] rs')"
  using assms
proof (induction xs arbitrary: ck)
  case (Cons y ys)
  from Cons.prems(4) obtain ds rs where y: "f y ck = Some (reported ck ds rs)"
    using reports_onlyD by (metis list.set_intros(1))
  have "reports_only (checker_each f ys)" by (rule reports_only_each) (use Cons.prems(4) in simp)
  then obtain ds' rs' where ys: "checker_each f ys (reported ck ds rs) = Some (reported (reported ck ds rs) ds' rs')"
    using reports_onlyD by blast
  with y Cons.prems(1) have ck': "ck' = reported ck (ds @ ds') rs'" by simp
  with Cons.prems(2) have empty: "ds = []" "ds' = []" by simp_all
  show ?case
  proof (cases "x = y")
    case True
    with y empty reported_id [of ck] show ?thesis by metis
  next
    case False
    with Cons.prems(3) have "x \<in> set ys" by simp
    from ys have "checker_each f ys (reported ck ds rs) = Some ck'" unfolding ck' by simp
    from Cons.IH [OF this _ \<open>x \<in> set ys\<close>] Cons.prems(2,4) empty
    obtain r r' where "f x (reported (reported ck [] rs) [] r) = Some (reported (reported ck [] rs) [] r')" by auto
    then show ?thesis by auto
  qed
qed simp

section \<open>Silence\<close>

lemma push_some_loud: "push_diagnostic (Some d) (reported ck [] rs) \<noteq> Some (reported ck [] rs')"
  by (auto simp: push_diagnostic_Some reported_def dest: arg_cong [of _ _ ck_diagnostics])

lemma capability_silent:
  assumes "check_capability_function derive source_of (name, key) c = Some c'"
    and "ck_diagnostics c' = ck_diagnostics c" "\<not> is_std_function c key"
  shows "set (effect_usage_of c key) \<subseteq> set (sig_capabilities c key)"
proof (rule ccontr)
  assume "\<not> ?thesis"
  then obtain x where x: "x \<in> set (bs_difference (effect_usage_of c key) (sig_capabilities c key))" by auto
  let ?f = "\<lambda>capability c'. push_diagnostic
      (map_option (attach_fix derive source_of c' key
          (\<lambda>source fsp bsp. capability_declaration_fix c' name source fsp bsp (effect_usage_of c key)))
        (missing_capability derive c' name key capability)) c'"
  have "checker_each ?f (bs_difference (effect_usage_of c key) (sig_capabilities c key)) c = Some c'"
    using assms(1,3) by (simp add: check_capability_function_def Let_def)
  moreover have "reports_only (?f y)" for y
    using missing_capability_Some unfolding reports_only_def by (metis option.simps(9) push_diagnostic_Some)
  ultimately obtain rs rs' where "?f x (reported c [] rs) = Some (reported c [] rs')"
    using each_no_report [OF _ assms(2) x] by blast
  with missing_capability_Some [of derive "reported c [] rs" name key x] push_some_loud show False by auto
qed

lemma transitive_silent:
  assumes "check_transitive_function derive source_of (name, key) c = Some c'"
    and "ck_diagnostics c' = ck_diagnostics c"
    and "x \<in> set (effect_usage_of c key)" "x \<notin> set (sig_effects c key)"
  shows "\<exists>rs. case find_effect_path (reported c [] rs) key x of Some p \<Rightarrow> length (ep_nodes p) < 3 | None \<Rightarrow> True"
proof -
  let ?f = "report_transitive_effect derive source_of name key (effect_usage_of c key)"
  obtain rs where rs: "c\<lparr>ck_effect_reasons := bt_insert key (bt_collect (map (\<lambda>e. (e, path_nodes_or c name key e))
      (effect_usage_of c key))) (ck_effect_reasons c)\<rparr> = reported c [] rs"
    by (simp add: reported_def)
  from assms(1) have "checker_each ?f (bs_difference (effect_usage_of c key) (sig_effects c key))
      (reported c [] rs) = Some c'"
    unfolding check_transitive_function_def prod.case Let_def rs .
  from each_no_report [OF this, of x] assms(2-4) reports_transitive
  obtain r r' where "?f x (reported (reported c [] rs) [] r) = Some (reported (reported c [] rs) [] r')" by auto
  then have f: "?f x (reported c [] r) = Some (reported c [] r')" by simp
  show ?thesis
  proof (rule exI [of _ r], cases "find_effect_path (reported c [] r) key x")
    case (Some p)
    have "length (ep_nodes p) < 3"
    proof (rule ccontr)
      assume "\<not> ?thesis"
      with f Some push_some_loud show False
        unfolding report_transitive_effect_def diagnostic_error_def by auto
    qed
    with Some show "case find_effect_path (reported c [] r) key x of
        Some p \<Rightarrow> length (ep_nodes p) < 3 | None \<Rightarrow> True" by simp
  qed simp
qed

text \<open>Where the relation on functions reads the checker.\<close>

lemma calls_cong:
  assumes "ck_functions c = ck_functions ck" "ck_module_functions c = ck_module_functions ck"
    and "ck_resolution c = ck_resolution ck" "ck_call_graph c = ck_call_graph ck"
  shows "calls c = calls ck" "sig_effects c = sig_effects ck" "edges_of c = edges_of ck"
    "sig_capabilities c = sig_capabilities ck" "direct_effects c = direct_effects ck"
    "leads_to c = leads_to ck"
proof -
  have sig: "fn_sig_for_key c = fn_sig_for_key ck" unfolding fn_sig_for_key_def [abs_def] assms by (rule refl)
  show [simp]: "edges_of c = edges_of ck" unfolding edges_of_def [abs_def] assms by (rule refl)
  show [simp]: "sig_effects c = sig_effects ck" unfolding sig_effects_def [abs_def] sig by (rule refl)
  show "sig_capabilities c = sig_capabilities ck" unfolding sig_capabilities_def [abs_def] sig by (rule refl)
  show "direct_effects c = direct_effects ck" by (simp add: direct_effects_def [abs_def])
  have "resolution_has_function_key c = resolution_has_function_key ck"
    unfolding resolution_has_function_key_def [abs_def] assms by (rule refl)
  then show [simp]: "calls c = calls ck" by (simp add: calls_def [abs_def])
  show "leads_to c = leads_to ck" by (simp add: leads_to_def [abs_def] call_path_def)
qed

lemma reach_leads:
  assumes "x \<in> reach_effects ck s"
  shows "x \<in> set (sig_effects ck s) \<or> (\<exists>nodes. leads_to ck s x nodes)"
proof -
  from assms obtain g where g: "(calls ck)\<^sup>*\<^sup>* s g" "x \<in> direct_effects ck g" by (auto simp: reach_effects_def)
  then obtain path where path: "call_path ck s path" "last path = g" by (auto simp: call_path_reach)
  show ?thesis
  proof (cases "x \<in> set (sig_effects ck g)")
    case False
    with g(2) path show ?thesis by (auto simp: direct_effects_def leads_to_def)
  next
    case True
    from g(1) show ?thesis
    proof (cases rule: rtranclp.cases)
      case rtrancl_refl
      with True show ?thesis by simp
    next
      case (rtrancl_into_rtrancl h)
      then obtain path' e where "call_path ck s path'" "last path' = h" "e \<in> set (edges_of ck h)" "ce_callee e = g"
        by (auto simp: call_path_reach calls_def)
      with True show ?thesis by (auto simp: leads_to_def)
    qed
  qed
qed

section \<open>Authority\<close>

lemma usage_between:
  assumes "key \<in> set keys" "u = insert_all (closures_of ck keys []) m"
  shows "set (sig_effects ck key) \<subseteq> set (bt_members u key)"
    and "no_recursion ck \<or> callers_declare ck \<Longrightarrow> set (bt_members u key) = reach_effects ck key"
proof -
  from usage_stored [OF assms(1), of ck m] obtain c where
    c: "bt_members u key = c" "(key, c) \<in> set (closures_of ck keys [])"
    unfolding assms(2) bt_members_def by fastforce
  have "set (sig_effects ck key) \<subseteq> set c \<and> set c \<subseteq> reach_effects ck key"
    by (rule closures_sound [OF _ c(2)]) (simp add: memo_sound_def)
  then show "set (sig_effects ck key) \<subseteq> set (bt_members u key)" unfolding c(1) by simp
  assume "no_recursion ck \<or> callers_declare ck"
  then show "set (bt_members u key) = reach_effects ck key"
  proof
    assume "no_recursion ck"
    from closures_exact [OF this _ c(2)] show ?thesis unfolding c(1) by (simp add: memo_exact_def)
  next
    assume "callers_declare ck"
    with \<open>set (sig_effects ck key) \<subseteq> set c \<and> _\<close> show ?thesis unfolding c(1) by (auto simp: reach_when_declared)
  qed
qed


text \<open>
  A silent run: the checker that carries the effect usage of every entry, on which neither pass
  reports anything for any entry.
\<close>

definition with_usage :: "checker \<Rightarrow> checker" where
  "with_usage ck = ck\<lparr>ck_effect_usage :=
     insert_all (closures_of ck (map snd (user_function_entries ck)) []) (ck_effect_usage ck)\<rparr>"

lemma with_usage_fields [simp]:
  "ck_functions (with_usage ck) = ck_functions ck" "ck_module_functions (with_usage ck) = ck_module_functions ck"
  "ck_resolution (with_usage ck) = ck_resolution ck" "ck_call_graph (with_usage ck) = ck_call_graph ck"
  "ck_program (with_usage ck) = ck_program ck" "ck_diagnostics (with_usage ck) = ck_diagnostics ck"
  "ck_function_module_by_symbol (with_usage ck) = ck_function_module_by_symbol ck"
  by (simp_all add: with_usage_def)

lemmas with_usage_cong = calls_cong [OF with_usage_fields(1-4)]

lemma with_usage_std: "is_std_function (with_usage ck) key = is_std_function ck key"
  unfolding is_std_function_def with_usage_fields by (rule refl)

lemma with_usage_entries: "user_function_entries (with_usage ck) = user_function_entries ck"
proof -
  have "function_entry (with_usage ck) = function_entry ck"
    unfolding function_entry_def [abs_def] with_usage_fields by (rule refl)
  then show ?thesis by (simp add: user_function_entries_def)
qed

lemma with_usage_reach:
  assumes "(name, key) \<in> set (user_function_entries ck)" "no_recursion ck \<or> callers_declare ck"
  shows "set (effect_usage_of (with_usage ck) key) = reach_effects ck key"
  using usage_between(2) [OF _ refl assms(2), of key] assms(1)
  by (force simp: effect_usage_of_def with_usage_def)

lemma silent_run:
  assumes "check_effects_and_capabilities derive source_of ck = Some ck'"
    and "ck_diagnostics ck' = ck_diagnostics ck" and "entry \<in> set (user_function_entries ck)"
  shows "\<exists>q q'. check_capability_function derive source_of entry (reported (with_usage ck) [] q) =
      Some (reported (with_usage ck) [] q')"
    and "\<exists>t t'. check_transitive_function derive source_of entry (reported (with_usage ck) [] t) =
      Some (reported (with_usage ck) [] t')"
proof -
  let ?t = "check_transitive_function derive source_of" and ?c = "check_capability_function derive source_of"
  let ?u = "with_usage ck" and ?es = "user_function_entries ck"
  from assms(1) obtain ck2 where ck2: "checker_each ?t ?es ?u = Some ck2"
    "checker_each ?c (user_function_entries ck2) ck2 = Some ck'"
    by (auto simp: check_effects_and_capabilities_def check_transitive_effects_def check_capability_authority_def
        with_usage_def [symmetric] Let_def bind_eq_Some_conv)
  have "reports_only (checker_each ?t ?es)" by (rule reports_only_each) (rule reports_transitive_function)
  from reports_onlyD [OF this, of ?u] ck2(1) obtain ds rs where r2: "ck2 = reported ?u ds rs" by auto
  have "reports_only (checker_each ?c (user_function_entries ck2))"
    by (rule reports_only_each) (rule reports_capability_function)
  from reports_onlyD [OF this, of ck2] ck2(2) obtain ds' rs' where r': "ck' = reported ck2 ds' rs'" by auto
  with assms(2) r2 have silent: "ds = []" "ds' = []" by simp_all
  with r2 r' have diags: "ck_diagnostics ck2 = ck_diagnostics ?u" "ck_diagnostics ck' = ck_diagnostics ck2"
    by simp_all
  have entry2: "entry \<in> set (user_function_entries ck2)" using assms(3) with_usage_entries r2 by simp
  from each_no_report [OF ck2(2) diags(2) entry2] reports_capability_function
  show "\<exists>q q'. ?c entry (reported ?u [] q) = Some (reported ?u [] q')" unfolding r2 silent by auto
  from each_no_report [OF ck2(1) diags(1) assms(3)] reports_transitive_function
  show "\<exists>t t'. ?t entry (reported ?u [] t) = Some (reported ?u [] t')" by blast
qed

text \<open>When the path that the pass finds is short, a direct callee declares the effect.\<close>

lemma short_path_direct:
  assumes "case find_effect_path c key x of Some p \<Rightarrow> length (ep_nodes p) < 3 | None \<Rightarrow> True"
    and "leads_to c key x nodes"
  shows "x \<in> direct_effects c key"
proof -
  from find_effect_path_result [of c key x] assms(2) obtain p where p: "find_effect_path c key x = Some p"
    "leads_to c key x (ep_nodes p)" by (auto simp: path_result_def split: option.splits)
  with assms(1) have "length (ep_nodes p) < 3" by simp
  with p(2) obtain path e where path: "call_path c key path" "length path < 2"
    "e \<in> set (edges_of c (last path))" "x \<in> set (sig_effects c (ce_callee e))"
    by (auto simp: leads_to_def)
  then have "last path = key" by (cases path) (auto simp: call_path_def)
  with path(3,4) show ?thesis by (auto simp: direct_effects_def)
qed


section \<open>Programs\<close>

text \<open>
  Signatures, a resolution and a call graph from a table of functions: a name with its effects, its
  capabilities and its callees.
\<close>

definition graph_sig :: "string_set \<Rightarrow> string_set \<Rightarrow> fn_sig" where
  "graph_sig effs caps = (std_sig ''Int'' ''x'' ''Int'' effs)\<lparr>fs_capabilities := caps\<rparr>"

definition graph_function :: "nat \<times> string \<times> 'a \<Rightarrow> ir_function" where
  "graph_function = (\<lambda>(i, name, _).
     \<lparr>if_symbol = i, if_name = name, if_visibility = Private, if_attrs = [], if_is_async = False,
      if_is_unsafe = False, if_is_extern = False, if_extern_abi = None, if_is_intrinsic = False,
      if_intrinsic_abi = None, if_generics = [], if_params = [], if_ret_type = 1, if_effects = [],
      if_capabilities = [], if_requires = None, if_ensures = None,
      if_body = IBlock 0 [] None (span_new 0 0), if_span = span_new 0 0\<rparr>)"

definition graph_checker :: "(string \<times> string_set \<times> string_set \<times> string list) list \<Rightarrow> checker" where
  "graph_checker table =
     (let fs = map graph_function (enumerate 0 table);
          p = \<lparr>irp_schema_version = 1, irp_module = None, irp_imports = [], irp_items = map IFunction fs,
               irp_symbols = [], irp_types = [], irp_generic_instantiations = [],
               irp_span = span_new 0 0, irp_expr_type_hints = []\<rparr>;
          r = finish_resolution p [] [] (fold (add_function RESOLVER_ROOT) fs empty_res_state)
      in (checker_new p r ''m.aic'')
        \<lparr>ck_module_functions := bt_collect (map (\<lambda>(f, e, c, _). ((RESOLVER_ROOT, f), graph_sig e c)) table),
         ck_call_graph := bt_collect (map (\<lambda>(f, _, _, gs).
           (f, map (\<lambda>g. \<lparr>ce_callee = g, ce_file = ''m.aic'', ce_span = span_new 0 0\<rparr>) gs)) table)\<rparr>)"

text \<open>Every function declares what it needs; \<open>even\<close> and \<open>odd\<close> call each other.\<close>

definition honest :: checker where
  "honest = graph_checker
     [(''even'', [''io''], [''io''], [''odd'']), (''main'', [''io''], [''io''], [''even'']),
      (''odd'', [''io''], [''io''], [''even'', ''print_int''])]"

lemma honest_silent:
  "map_option ck_diagnostics (check_effects_and_capabilities (\<lambda>_. None) (\<lambda>_. None) honest) = Some []"
  by code_simp

text \<open>
  \<open>f\<close> calls \<open>g\<close> and \<open>h\<close>, \<open>g\<close> calls \<open>f\<close> back, and only \<open>h\<close> declares an effect. The closure of \<open>g\<close> is
  stored while \<open>f\<close> is being visited, before \<open>h\<close> has been looked at.
\<close>

definition knot :: checker where
  "knot = graph_checker [(''f'', [], [], [''g'', ''h'']), (''g'', [], [], [''f'']), (''h'', [''io''], [''io''], [])]"

lemma knot_closures:
  "closures_of knot (map snd (user_function_entries knot)) [] =
     [(''f'', [''io'']), (''g'', []), (''h'', [''io''])]"
  by code_simp

text \<open>The effects of a caller are checked edge by edge.\<close>

lemma callers_declare_table:
  assumes "list_all (\<lambda>(f, es). list_all (\<lambda>e. list_all (\<lambda>x. x \<in> set (sig_effects ck f)) (sig_effects ck (ce_callee e))) es)
    (ck_call_graph ck)"
  shows "callers_declare ck"
  unfolding callers_declare_def
proof (intro allI ballI)
  fix f e assume "e \<in> set (edges_of ck f)"
  then obtain es where "(f, es) \<in> set (ck_call_graph ck)" "e \<in> set es"
    by (cases "bt_get (ck_call_graph ck) f") (auto simp: edges_of_def bt_members_def dest: map_of_SomeD)
  with assms show "set (sig_effects ck (ce_callee e)) \<subseteq> set (sig_effects ck f)"
    by (fastforce simp: list_all_iff)
qed


text \<open>The closure of \<open>g\<close> misses the effect that \<open>g\<close> reaches through \<open>f\<close>.\<close>

lemma closure_of_recursion_incomplete:
  "''io'' \<in> reach_effects knot ''g'' \<and>
   bt_get (closures_of knot (map snd (user_function_entries knot)) []) ''g'' = Some []"
proof -
  have "ce_callee (hd (edges_of knot ''g'')) = ''f''" "edges_of knot ''g'' \<noteq> []"
    "resolution_has_function_key knot ''f''" by code_simp+
  then have "calls knot ''g'' ''f''" by (cases "edges_of knot ''g''") (auto simp: calls_def)
  moreover have "''h'' \<in> set (map ce_callee (edges_of knot ''f''))" "''io'' \<in> set (sig_effects knot ''h'')"
    by code_simp+
  then have "''io'' \<in> direct_effects knot ''f''" by (auto simp: direct_effects_def)
  ultimately have "''io'' \<in> reach_effects knot ''g''" by (auto simp: reach_effects_def)
  then show ?thesis by (simp add: knot_closures)
qed

end
