(* ===== verification/StringRoundTrip.thy ===== *)
theory StringRoundTrip
  imports LexerTokens Formatter
begin

text \<open>
  What the formatter prints for a string literal is read back by the lexer as the same string: the
  escapes of \<open>escape_aic_string_literal\<close> (\<open>src/formatter.rs\<close>) against \<open>lex_string\<close>,
  \<open>lex_escape_sequence\<close> and \<open>lex_unicode_escape\<close> (\<open>src/lexer.rs\<close>).
\<close>

section \<open>The characters of the printed text\<close>

definition hex_chars :: "nat \<Rightarrow> rchar list" where
  "hex_chars n = map ch (hex_str n)"

definition escape_table :: "(rchar \<times> rchar) list" where
  "escape_table = [(92, 92), (34, 34), (10, 110), (13, 114), (9, 116), (0, 48)]"

definition escape_chars :: "rchar \<Rightarrow> rchar list" where
  "escape_chars c =
     (case map_of escape_table c of
        Some e \<Rightarrow> [92, e]
      | None \<Rightarrow> if c \<le> 0x1F \<or> c = 0x7F then [92, 117, 123] @ hex_chars c @ [125] else [c])"

lemma encode_ascii:
  "\<forall>c \<in> set s. ch c < 128 \<Longrightarrow> utf8_encode_all (map ch s) = s \<and> list_all scalar_value (map ch s)"
  by (induction s) (simp_all add: utf8_encode_def byte_def scalar_value_def)

lemma hex_upper_code: "d < 16 \<Longrightarrow> ch (hex_upper d) = (if d < 10 then 48 + d else 55 + d)"
  by (simp add: hex_upper_def take_bit_eq_mod)

lemma hex_upper_digit:
  assumes "d < 16"
  shows "is_ascii_hexdigit (ch (hex_upper d))" "digit_value (ch (hex_upper d)) = d" "ch (hex_upper d) < 128"
  using assms
  by (auto simp: hex_upper_code is_ascii_hexdigit_def is_ascii_digit_char_def digit_value_def)

lemma encode_hex_chars:
  assumes "n < 256"
  shows "utf8_encode_all (hex_chars n) = hex_str n" "list_all scalar_value (hex_chars n)"
proof -
  have "n div 16 < 16" using assms by auto
  then have "\<forall>c \<in> set (hex_str n). ch c < 128" by (simp add: hex_str_def hex_upper_digit)
  from encode_ascii [OF this] show "utf8_encode_all (hex_chars n) = hex_str n" "list_all scalar_value (hex_chars n)"
    by (simp_all add: hex_chars_def)
qed

lemma encode_quote: "utf8_encode 34 = [CHR 34]"
  by code_simp

lemma encode_escape_letters:
  "utf8_encode 92 = [CHR 0x5C]" "utf8_encode 110 = ''n''" "utf8_encode 114 = ''r''" "utf8_encode 116 = ''t''"
  "utf8_encode 48 = ''0''" "utf8_encode 117 = ''u''" "utf8_encode 123 = [CHR ''{'']" "utf8_encode 125 = ''}''"
  by code_simp+

lemma encode_escape_chars:
  "utf8_encode_all (escape_chars c) = escape_char c"
  "scalar_value c \<Longrightarrow> list_all scalar_value (escape_chars c)"
proof -
  show "utf8_encode_all (escape_chars c) = escape_char c"
    by (auto simp: escape_chars_def escape_table_def escape_char_def encode_hex_chars encode_quote encode_escape_letters)
  have "c < 256" if "c \<le> 0x1F \<or> c = 0x7F" using that by auto
  then show "list_all scalar_value (escape_chars c)" if "scalar_value c"
    using that encode_hex_chars(2)
    by (auto simp: escape_chars_def escape_table_def scalar_value_def [of "_ :: nat"])
qed

lemma fmt_string_encoded:
  assumes "list_all scalar_value cs"
  shows "fmt_string (utf8_encode_all cs) = utf8_encode_all (34 # concat (map escape_chars cs) @ [34])"
proof -
  have "utf8_encode_all (concat (map escape_chars cs)) = concat (map escape_char cs)"
    by (induction cs) (simp_all add: encode_escape_chars)
  then show ?thesis
    using assms by (simp add: fmt_string_def escape_aic_string_literal_def str_chars_encode encode_quote)
qed

lemma str_chars_fmt_string:
  assumes "list_all scalar_value cs"
  shows "str_chars (fmt_string (utf8_encode_all cs)) = 34 # concat (map escape_chars cs) @ [34]"
proof -
  have "list_all scalar_value (34 # concat (map escape_chars cs) @ [34])"
    using assms encode_escape_chars(2) by (auto simp: list_all_iff scalar_value_def)
  then show ?thesis unfolding fmt_string_encoded [OF assms] by (rule str_chars_encode)
qed

lemma encode_fmt_string:
  assumes "list_all scalar_value cs"
  shows "utf8_encode_all (str_chars (fmt_string (utf8_encode_all cs))) = fmt_string (utf8_encode_all cs)"
  using str_chars_fmt_string [OF assms] fmt_string_encoded [OF assms] by simp

section \<open>One escape\<close>

lemma bump_cons: "bump st = st\<lparr>lx_done := lx_done st @ [c], lx_rest := cs\<rparr>" if "lx_rest st = c # cs"
  using that by (simp add: bump_def)

lemma moves_cons:
  assumes "lx_rest st = c # cs"
  shows "moves st [c] (bump st)" "lx_rest (bump st) = cs" "peek st = Some c"
  using moves_bump [OF assms] assms by (simp_all add: moves_def peek_def)

lemma hex_digit_chars:
  assumes "n < 256"
  shows "list_all is_ascii_hexdigit (hex_chars n)" "radix_value 16 (hex_chars n) = n"
    "hex_chars n \<noteq> []" "blen (hex_chars n) \<le> 2"
proof -
  have *: "n div 16 < 16" using assms by auto
  show "list_all is_ascii_hexdigit (hex_chars n)"
    using * by (simp add: hex_chars_def hex_str_def hex_upper_digit)
  show "radix_value 16 (hex_chars n) = n"
    using * by (simp add: hex_chars_def hex_str_def hex_upper_digit radix_value_def)
  show "hex_chars n \<noteq> []" by (simp add: hex_chars_def hex_str_def)
  show "blen (hex_chars n) \<le> 2"
    using assms by (simp add: blen_def encode_hex_chars hex_str_def)
qed

lemma unicode_escape_read:
  assumes "lx_rest st = 117 # 123 # hex_chars n @ 125 # after" "n < 256"
  shows "\<exists>st'. lex_unicode_escape st = (Some n, st') \<and> moves st ([117, 123] @ hex_chars n @ [125]) st'"
proof -
  define s2 where "s2 = bump (bump st)"
  have 1: "moves st [117] (bump st)" "lx_rest (bump st) = 123 # hex_chars n @ 125 # after"
    using moves_cons [OF assms(1)] by simp_all
  have 2: "moves (bump st) [123] s2" "lx_rest s2 = hex_chars n @ 125 # after" "peek (bump st) = Some 123"
    unfolding s2_def using moves_cons [OF 1(2)] by simp_all
  have not_hex: "\<not> is_ascii_hexdigit 125" by (simp add: is_ascii_hexdigit_def is_ascii_digit_char_def)
  define s3 where "s3 = bump_while is_ascii_hexdigit s2"
  have take: "takeWhile is_ascii_hexdigit (lx_rest s2) = hex_chars n"
    using hex_digit_chars(1) [OF assms(2)] not_hex
    by (simp add: 2(2) takeWhile_append list_all_iff)
  with moves_bump_while [of s2 is_ascii_hexdigit] have 3: "moves s2 (hex_chars n) s3" by (simp add: s3_def)
  with 2(2) have rest3: "lx_rest s3 = 125 # after" by (simp add: moves_def)
  note 4 = moves_cons [OF rest3]
  have "moves st ([117] @ [123] @ hex_chars n @ [125]) (bump s3)"
    using 1(1) 2(1) 3 4(1) by (blast intro: moves_trans)
  moreover have "lex_unicode_escape st = (Some n, bump s3)"
  proof -
    have slice: "slice_from (lx_offset s2) s3 = hex_chars n" using moves_slice [OF 3] .
    have "lx_offset s2 \<noteq> lx_offset s3"
      using moves_fields(5) [OF 3] hex_digit_chars(3) [OF assms(2)] by (auto simp: blen_def utf8_encode_all_def)
    then show ?thesis
      unfolding lex_unicode_escape_def Let_def
      using 2(3) 4(3) slice hex_digit_chars(2,4) [OF assms(2)] assms(2)
      by (simp add: s2_def [symmetric] s3_def [symmetric] scalar_value_def)
  qed
  ultimately show ?thesis by auto
qed

lemma simple_escape_read:
  assumes "map_of escape_table c = Some e"
    and "lx_rest st = e # after"
  shows "lex_escape_sequence st = (Some c, bump st)"
proof -
  have "map_of simple_escapes e = Some c"
    using assms(1) by (auto simp: simple_escapes_def escape_table_def split: if_splits)
  then show ?thesis by (simp add: lex_escape_sequence_def moves_cons(3) [OF assms(2)])
qed

text \<open>One turn of the loop of \<open>lex_string\<close> reads the text that the formatter prints for a character.\<close>

lemma string_loop_char:
  assumes "lx_rest st = escape_chars c @ after"
  shows "\<exists>st'. string_loop start out st = string_loop start (out @ [c]) st' \<and> moves st (escape_chars c) st'"
proof (cases "map_of escape_table c")
  case (Some e)
  with assms have rest: "lx_rest st = 92 # e # after" and chars: "escape_chars c = [92] @ [e]"
    by (simp_all add: escape_chars_def)
  note 1 = moves_cons [OF rest]
  note 2 = moves_cons [OF 1(2)]
  have "string_loop start out st = string_loop start (out @ [c]) (bump (bump st))"
    by (subst string_loop.simps) (simp add: 1(3) simple_escape_read [OF Some 1(2)])
  with moves_trans [OF 1(1) 2(1)] show ?thesis unfolding chars by blast
next
  case None
  show ?thesis
  proof (cases "c \<le> 0x1F \<or> c = 0x7F")
    case True
    then have c: "c < 256" by auto
    from None True have chars: "escape_chars c = [92] @ ([117, 123] @ hex_chars c @ [125])"
      by (simp add: escape_chars_def)
    with assms have rest: "lx_rest st = 92 # 117 # 123 # hex_chars c @ 125 # after" by simp
    note 1 = moves_cons [OF rest]
    from unicode_escape_read [OF 1(2) c] obtain st' where
      esc: "lex_unicode_escape (bump st) = (Some c, st')" "moves (bump st) ([117, 123] @ hex_chars c @ [125]) st'"
      by blast
    have "lex_escape_sequence (bump st) = (Some c, st')"
      using esc(1) moves_cons(3) [OF 1(2)] by (simp add: lex_escape_sequence_def simple_escapes_def)
    then have "string_loop start out st = string_loop start (out @ [c]) st'"
      by (subst string_loop.simps) (simp add: 1(3))
    with moves_trans [OF 1(1) esc(2)] show ?thesis unfolding chars by blast
  next
    case False
    with None have chars: "escape_chars c = [c]" by (simp add: escape_chars_def)
    with assms have rest: "lx_rest st = c # after" by simp
    note 1 = moves_cons [OF rest]
    from None have "c \<noteq> 34" "c \<noteq> 92" "c \<noteq> newline_char"
      by (auto simp: newline_char_def escape_table_def split: if_splits)
    then have "string_loop start out st = string_loop start (out @ [c]) (bump st)"
      by (subst string_loop.simps) (simp add: 1(3))
    with 1(1) show ?thesis unfolding chars by blast
  qed
qed

lemma string_loop_chars:
  assumes "lx_rest st = concat (map escape_chars cs) @ 34 # after"
  shows "\<exists>st'. string_loop start out st = ((out @ cs, True), st') \<and>
    moves st (concat (map escape_chars cs) @ [34]) st'"
  using assms
proof (induction cs arbitrary: st out)
  case Nil
  then have rest: "lx_rest st = 34 # after" by simp
  note 1 = moves_cons [OF rest]
  have "string_loop start out st = ((out, True), bump st)" by (subst string_loop.simps) (simp add: 1(3))
  with 1(1) show ?case by simp
next
  case (Cons c cs)
  then have "lx_rest st = escape_chars c @ (concat (map escape_chars cs) @ 34 # after)" by simp
  from string_loop_char [OF this] obtain s where
    s: "string_loop start out st = string_loop start (out @ [c]) s" "moves st (escape_chars c) s" by blast
  with Cons.prems have "lx_rest s = concat (map escape_chars cs) @ 34 # after" by (simp add: moves_def)
  from Cons.IH [OF this, of "out @ [c]"] obtain st' where
    "string_loop start (out @ [c]) s = ((out @ [c] @ cs, True), st')"
    "moves s (concat (map escape_chars cs) @ [34]) st'" by auto
  with s moves_trans [OF s(2)] show ?case by auto
qed

section \<open>The round trip\<close>

lemma string_literal_step:
  assumes "list_all scalar_value cs"
    and "lx_rest st = str_chars (fmt_string (utf8_encode_all cs)) @ after"
  shows "\<exists>s. moves st (str_chars (fmt_string (utf8_encode_all cs))) s \<and>
    lex_step pf 34 st = push_token (TkString (utf8_encode_all cs)) (span_new (lx_offset st) (lx_offset s)) s"
proof -
  note printed = str_chars_fmt_string [OF assms(1)]
  have rest: "lx_rest st = 34 # concat (map escape_chars cs) @ 34 # after" using assms(2) printed by simp
  note 1 = moves_cons [OF rest]
  from string_loop_chars [OF 1(2), of "lx_offset st" "[]"] obtain s where
    s: "string_loop (lx_offset st) [] (bump st) = (([] @ cs, True), s)"
      "moves (bump st) (concat (map escape_chars cs) @ [34]) s" by blast
  have "lex_step pf 34 st = lex_string st"
    by (simp add: lex_step_def newline_char_def is_ascii_alphabetic_def is_ascii_digit_char_def)
  then have "lex_step pf 34 st = push_token (TkString (utf8_encode_all cs)) (span_new (lx_offset st) (lx_offset s)) s"
    using s(1) by (simp add: lex_string_def Let_def)
  moreover have "moves st (str_chars (fmt_string (utf8_encode_all cs))) s"
    using moves_trans [OF 1(1) s(2)] by (simp add: printed)
  ultimately show ?thesis by blast
qed

text \<open>
  C36: what the formatter prints for a string literal is read back as the same string. For every
  text of Unicode scalar values, control characters, quotes and backslashes included, lexing the
  printed literal gives exactly one string token with that text, which covers the whole input, the
  end token behind it, and no diagnostic.
\<close>

theorem string_literal_round_trip:
  assumes "list_all scalar_value cs"
  shows "lex pf derive (fmt_string (utf8_encode_all cs)) file =
    Some ([\<lparr>tok_kind = TkString (utf8_encode_all cs),
            tok_span = span_new 0 (length (fmt_string (utf8_encode_all cs)))\<rparr>,
           \<lparr>tok_kind = TkEof,
            tok_span = span_new (length (fmt_string (utf8_encode_all cs))) (length (fmt_string (utf8_encode_all cs)))\<rparr>],
          [])"
proof -
  let ?v = "utf8_encode_all cs"
  let ?st = "new_lexer (str_chars (fmt_string ?v))"
  note printed = str_chars_fmt_string [OF assms]
  have "lx_rest ?st = str_chars (fmt_string ?v) @ []" by (simp add: new_lexer_def)
  from string_literal_step [OF assms this, of pf] obtain s where
    s: "moves ?st (str_chars (fmt_string ?v)) s"
      "lex_step pf 34 ?st = push_token (TkString ?v) (span_new (lx_offset ?st) (lx_offset s)) s" by blast
  have "lx_offset ?st = 0" by (simp add: new_lexer_def lx_offset_def blen_def)
  moreover have "lx_offset s = length (fmt_string ?v)"
    using moves_fields(5) [OF s(1)] encode_fmt_string [OF assms] by (simp add: calculation blen_def)
  ultimately have step: "lex_step pf 34 ?st = push_token (TkString ?v) (span_new 0 (length (fmt_string ?v))) s"
    using s(2) by simp
  have "peek ?st = Some 34" by (simp add: new_lexer_def peek_def printed)
  moreover have "peek s = None" using moves_fields(4) [OF s(1)] by (simp add: new_lexer_def peek_def)
  ultimately show ?thesis
    using moves_fields(1,2) [OF s(1)] \<open>lx_offset s = _\<close>
    by (simp add: lex_def lex_with_comments_def lex_chars_def lex_run.simps step)
      (simp add: new_lexer_def push_token_def peek_def lx_offset_def)
qed


text \<open>A quote, a backslash, a line feed, a control character, an umlaut and an emoji.\<close>

theorem string_literal_round_trip_witness:
  "map_option (map tok_kind \<circ> fst)
     (lex (\<lambda>_. None) (\<lambda>_. None) (fmt_string (utf8_encode_all [34, 92, 10, 27, 228, 128512])) ''a.aic'') =
   Some [TkString (utf8_encode_all [34, 92, 10, 27, 228, 128512]), TkEof]"
  using string_literal_round_trip [of "[34, 92, 10, 27, 228, 128512]"] by (simp add: scalar_value_def)

end
