(* ===== verification/TypeRelations.thy ===== *)
theory TypeRelations
  imports CheckerTables
begin

text \<open>
  Types as text and the relations on them: \<open>src/typecheck.rs\<close>. The type checker compares types by
  their printed form, such as \<open>Result[Vec[Int8], FsError]\<close>: it takes the text apart at its brackets
  and its top-level commas. Here are the functions that split, expand, substitute, merge and compare
  such texts, the inference of type arguments, and the kinds of the integer types.
\<close>

section \<open>Taking a type apart\<close>

definition NEVER_TYPE :: string where
  "NEVER_TYPE = ''!''"

definition base_type_name :: "string \<Rightarrow> string" where
  "base_type_name ty = hd (split_on CHR ''['' ty)"

definition canonical_builtin_type_name :: "string \<Rightarrow> string" where
  "canonical_builtin_type_name base = (if base = ''Float'' then ''Float64'' else base)"

text \<open>The state is the current piece (in order) and the depth of brackets.\<close>

fun split_args_from :: "int \<Rightarrow> string \<Rightarrow> string \<Rightarrow> string list" where
  "split_args_from depth piece [] = (if str_trim piece = [] then [] else [str_trim piece])"
| "split_args_from depth piece (c # cs) =
     (if c = CHR ''['' then split_args_from (depth + 1) (piece @ [c]) cs
      else if c = CHR '']'' then split_args_from (depth - 1) (piece @ [c]) cs
      else if c = CHR '','' \<and> depth = 0 then str_trim piece # split_args_from depth [] cs
      else split_args_from depth (piece @ [c]) cs)"

definition type_split_top_level :: "string \<Rightarrow> string list" where
  "type_split_top_level input = split_args_from 0 [] input"

text \<open>The text between the first opening and the last closing bracket.\<close>

definition type_generic_args :: "string \<Rightarrow> string list option" where
  "type_generic_args ty =
     (case split_text ''['' ty of
        None \<Rightarrow> None
      | Some (_, rest) \<Rightarrow> map_option (\<lambda>(inside, _). type_split_top_level inside) (rsplit_once CHR '']'' rest))"

definition generic_args_or_empty :: "string \<Rightarrow> string list" where
  "generic_args_or_empty ty = (case type_generic_args ty of Some args \<Rightarrow> args | None \<Rightarrow> [])"

definition applied_type :: "string \<Rightarrow> string list \<Rightarrow> string" where
  "applied_type base args = base @ ''['' @ join_with '', '' args @ '']''"

lemma length_split_args:
  "a \<in> set (split_args_from depth piece cs) \<Longrightarrow> length a \<le> length piece + length cs"
proof (induction depth piece cs rule: split_args_from.induct)
  case (1 depth piece)
  then show ?case using length_str_trim [of piece] by (auto split: if_splits)
next
  case (2 depth piece c cs)
  show ?case
  proof (cases "c = CHR '','' \<and> depth = 0")
    case True
    with 2(5) have "a = str_trim piece \<or> a \<in> set (split_args_from depth [] cs)" by simp
    with True 2(3) length_str_trim [of piece] show ?thesis by auto
  next
    case False
    with 2 show ?thesis by (simp split: if_splits)
  qed
qed

lemma length_type_generic_args:
  assumes "type_generic_args ty = Some args" "a \<in> set args"
  shows "length a < length ty"
proof -
  from assms(1) obtain base rest inside behind where *: "split_text ''['' ty = Some (base, rest)"
    and inside: "rsplit_once CHR '']'' rest = Some (inside, behind)" "args = type_split_top_level inside"
    by (auto simp: type_generic_args_def split: option.splits)
  then have "length inside \<le> length rest" by (auto simp: rsplit_once_def Let_def split: if_splits)
  with length_split_args [of a 0 "[]" inside] assms(2) split_text_Some [OF *] inside(2) show ?thesis
    by (simp add: type_split_top_level_def)
qed

lemma length_type_args: "a \<in> set (generic_args_or_empty ty) \<Longrightarrow> length a < length ty"
  by (cases "type_generic_args ty") (auto simp: generic_args_or_empty_def length_type_generic_args)

definition extract_tuple_field_type :: "string \<Rightarrow> nat \<Rightarrow> string option" where
  "extract_tuple_field_type ty index =
     (let trimmed = str_trim ty in
      if starts_with trimmed ''('' \<and> ends_with trimmed '')'' then
        (let fields = type_split_top_level (butlast (tl trimmed))
         in if index < length fields then Some (fields ! index) else None)
      else None)"


section \<open>Names\<close>

definition contains_unresolved_type :: "string \<Rightarrow> bool" where
  "contains_unresolved_type ty = contains_text ''<?>'' ty"

definition ascii_uppercase :: "char \<Rightarrow> bool" where
  "ascii_uppercase c = (let n = of_char c :: nat in 65 \<le> n \<and> n \<le> 90)"

definition is_symbolic_generic_name :: "string \<Rightarrow> bool" where
  "is_symbolic_generic_name ty =
     (length ty \<le> 4 \<and> CHR ''['' \<notin> set ty \<and> CHR '']'' \<notin> set ty \<and> CHR '','' \<notin> set ty \<and> CHR ''.'' \<notin> set ty \<and>
      list_all ascii_uppercase ty)"

function contains_symbolic_generic_type :: "string \<Rightarrow> bool" where
  "contains_symbolic_generic_type ty =
     (is_symbolic_generic_name ty \<or>
      (case type_generic_args ty of
         Some args \<Rightarrow> list_ex contains_symbolic_generic_type args
       | None \<Rightarrow> False))"
  by pat_completeness auto
termination
  by (relation "measure length") (auto simp: length_type_generic_args)

declare contains_symbolic_generic_type.simps [simp del]

function type_uses_generic_param :: "string \<Rightarrow> string \<Rightarrow> bool" where
  "type_uses_generic_param generic ty =
     (ty = generic \<or>
      (case type_generic_args ty of
         Some args \<Rightarrow> list_ex (type_uses_generic_param generic) args
       | None \<Rightarrow> False))"
  by pat_completeness auto
termination
  by (relation "measure (\<lambda>(_, ty). length ty)") (auto simp: length_type_generic_args)

declare type_uses_generic_param.simps [simp del]

definition type_uses_self :: "string \<Rightarrow> bool" where
  "type_uses_self ty = type_uses_generic_param ''Self'' ty"

text \<open>The last part of a name with dots: \<open>rsplit('.').next()\<close>.\<close>

definition unqualified_name :: "string \<Rightarrow> string" where
  "unqualified_name name = rev (takeWhile (\<lambda>c. c \<noteq> CHR ''.'') (rev name))"

definition parse_dyn_trait_name :: "string \<Rightarrow> string option" where
  "parse_dyn_trait_name ty =
     (case strip_prefix ''dyn '' (str_trim ty) of
        None \<Rightarrow> None
      | Some rest \<Rightarrow> if str_trim rest = [] then None else Some (str_trim rest))"

function canonical_trait_impl_type :: "string \<Rightarrow> string" where
  "canonical_trait_impl_type ty =
     (let trimmed = str_trim ty in
      case parse_dyn_trait_name trimmed of
        Some trait_name \<Rightarrow> ''dyn '' @ unqualified_name trait_name
      | None \<Rightarrow>
          (case type_generic_args trimmed of
             Some args \<Rightarrow>
               applied_type (unqualified_name (base_type_name trimmed)) (map canonical_trait_impl_type args)
           | None \<Rightarrow> unqualified_name trimmed))"
  by pat_completeness auto
termination
proof (relation "measure length", simp)
  fix ty trimmed args a
  assume "trimmed = str_trim ty" "type_generic_args trimmed = Some args" "a \<in> set args"
  then have "length a < length trimmed" by (simp add: length_type_generic_args)
  with \<open>trimmed = str_trim ty\<close> length_str_trim [of ty] show "(a, ty) \<in> measure length" by simp
qed

declare canonical_trait_impl_type.simps [simp del]

definition binding_root :: "string \<Rightarrow> string" where
  "binding_root target = hd (split_on CHR ''.'' target)"

definition targets_overlap :: "string \<Rightarrow> string \<Rightarrow> bool" where
  "targets_overlap left right =
     (left = right \<or>
      (case strip_prefix right left of Some suffix \<Rightarrow> starts_with suffix ''.'' | None \<Rightarrow> False) \<or>
      (case strip_prefix left right of Some suffix \<Rightarrow> starts_with suffix ''.'' | None \<Rightarrow> False))"

section \<open>Integer and float types\<close>

type_synonym u128 = "128 word"

datatype integer_kind = IntKind | ISizeKind | USizeKind | FixedKind bool nat

datatype float_kind = F32Kind | F64Kind

datatype integer_literal_value = NonNegative u128 | NegativeMagnitude u128

definition FIXED_WIDTH_INTEGER_PRIMITIVES :: "string list" where
  "FIXED_WIDTH_INTEGER_PRIMITIVES =
     [''Int8'', ''Int16'', ''Int32'', ''Int64'', ''Int128'', ''UInt8'', ''UInt16'', ''UInt32'', ''UInt64'',
      ''UInt128'', ''ISize'', ''USize'', ''UInt'']"

definition integer_kinds :: "(string \<times> integer_kind) list" where
  "integer_kinds =
     [(''Int'', IntKind), (''ISize'', ISizeKind), (''USize'', USizeKind), (''UInt'', USizeKind),
      (''Int8'', FixedKind True 8), (''Int16'', FixedKind True 16), (''Int32'', FixedKind True 32),
      (''Int64'', FixedKind True 64), (''Int128'', FixedKind True 128), (''UInt8'', FixedKind False 8),
      (''UInt16'', FixedKind False 16), (''UInt32'', FixedKind False 32), (''UInt64'', FixedKind False 64),
      (''UInt128'', FixedKind False 128)]"

definition parse_integer_kind :: "string \<Rightarrow> integer_kind option" where
  "parse_integer_kind ty = map_of integer_kinds (base_type_name ty)"

definition integer_kind_type_name :: "integer_kind \<Rightarrow> string" where
  "integer_kind_type_name kind =
     (case map_of (map (\<lambda>(name, k). (k, name)) integer_kinds) kind of Some name \<Rightarrow> name | None \<Rightarrow> ''<?>'')"

definition integer_kind_from_literal_kind :: "int_literal_kind \<Rightarrow> integer_kind" where
  "integer_kind_from_literal_kind kind =
     FixedKind (ilk_signedness kind = Signed)
       (case ilk_width kind of W8 \<Rightarrow> 8 | W16 \<Rightarrow> 16 | W32 \<Rightarrow> 32 | W64 \<Rightarrow> 64 | W128 \<Rightarrow> 128)"

text \<open>In \<open>u128\<close>, where a shift by the full width is an overflow and \<open>1 << bits\<close> is below it.\<close>

definition integer_unsigned_max :: "nat \<Rightarrow> u128" where
  "integer_unsigned_max bits = (if bits = 128 then - 1 else push_bit bits 1 - 1)"

definition integer_signed_max :: "nat \<Rightarrow> u128" where
  "integer_signed_max bits = push_bit (bits - 1) 1 - 1"

definition integer_signed_min_magnitude :: "nat \<Rightarrow> u128" where
  "integer_signed_min_magnitude bits = push_bit (bits - 1) 1"

definition u128_str :: "u128 \<Rightarrow> string" where
  "u128_str w = nat_str (unat w)"

definition integer_kind_range_text :: "integer_kind \<Rightarrow> string \<times> string" where
  "integer_kind_range_text kind =
     (case kind of
        IntKind \<Rightarrow> (int_str (- (2 ^ 63)), int_str (2 ^ 63 - 1))
      | ISizeKind \<Rightarrow> (int_str (- (2 ^ 63)), int_str (2 ^ 63 - 1))
      | USizeKind \<Rightarrow> (''0'', nat_str (2 ^ 64 - 1))
      | FixedKind sgn_bit bits \<Rightarrow>
          if sgn_bit then (''-'' @ u128_str (integer_signed_min_magnitude bits), u128_str (integer_signed_max bits))
          else (''0'', u128_str (integer_unsigned_max bits)))"

definition integer_literal_value_text :: "integer_literal_value \<Rightarrow> string" where
  "integer_literal_value_text v =
     (case v of NonNegative n \<Rightarrow> u128_str n | NegativeMagnitude n \<Rightarrow> ''-'' @ u128_str n)"

definition integer_literal_fits_kind :: "integer_literal_value \<Rightarrow> integer_kind \<Rightarrow> bool" where
  "integer_literal_fits_kind v kind =
     (case kind of
        USizeKind \<Rightarrow> (case v of NonNegative n \<Rightarrow> n \<le> 0xFFFFFFFFFFFFFFFF | NegativeMagnitude _ \<Rightarrow> False)
      | FixedKind sgn_bit bits \<Rightarrow>
          if sgn_bit then
            (case v of
               NonNegative n \<Rightarrow> n \<le> integer_signed_max bits
             | NegativeMagnitude n \<Rightarrow> n \<le> integer_signed_min_magnitude bits)
          else (case v of NonNegative n \<Rightarrow> n \<le> integer_unsigned_max bits | NegativeMagnitude _ \<Rightarrow> False)
      | _ \<Rightarrow>
          (case v of
             NonNegative n \<Rightarrow> n \<le> 0x7FFFFFFFFFFFFFFF
           | NegativeMagnitude n \<Rightarrow> n \<le> 0x7FFFFFFFFFFFFFFF + 1))"

definition integer_kind_props :: "integer_kind \<Rightarrow> bool \<times> nat" where
  "integer_kind_props kind =
     (case kind of
        IntKind \<Rightarrow> (True, 64) | ISizeKind \<Rightarrow> (True, 64) | USizeKind \<Rightarrow> (False, 64)
      | FixedKind sgn_bit bits \<Rightarrow> (sgn_bit, bits))"

definition integer_conversion_is_lossless :: "integer_kind \<Rightarrow> integer_kind \<Rightarrow> bool" where
  "integer_conversion_is_lossless expected found =
     (let (expected_signed, expected_bits) = integer_kind_props expected;
          (found_signed, found_bits) = integer_kind_props found
      in case (expected_signed, found_signed) of
           (True, True) \<Rightarrow> found_bits \<le> expected_bits
         | (True, False) \<Rightarrow> found_bits < expected_bits
         | (False, False) \<Rightarrow> found_bits \<le> expected_bits
         | (False, True) \<Rightarrow> False)"

definition parse_float_kind :: "string \<Rightarrow> float_kind option" where
  "parse_float_kind ty =
     map_of [(''Float32'', F32Kind), (''Float64'', F64Kind), (''Float'', F64Kind)] (base_type_name ty)"

definition float_kind_type_name :: "float_kind \<Rightarrow> string" where
  "float_kind_type_name kind = (case kind of F32Kind \<Rightarrow> ''Float32'' | F64Kind \<Rightarrow> ''Float64'')"


section \<open>Substitution\<close>

function substitute_type_vars :: "string name_map \<Rightarrow> string_set \<Rightarrow> string \<Rightarrow> string" where
  "substitute_type_vars bindings generic_params ty =
     (if ty \<in> set generic_params then (case bt_get bindings ty of Some bound \<Rightarrow> bound | None \<Rightarrow> ''<?>'')
      else (case type_generic_args ty of
              None \<Rightarrow> ty
            | Some args \<Rightarrow>
                applied_type (base_type_name ty) (map (substitute_type_vars bindings generic_params) args)))"
  by pat_completeness auto
termination
  by (relation "measure (\<lambda>(_, _, ty). length ty)") (auto simp: length_type_generic_args)

declare substitute_type_vars.simps [simp del]

definition bindings_from_applied_type :: "string \<Rightarrow> string list \<Rightarrow> string name_map option" where
  "bindings_from_applied_type applied_ty generic_params =
     (if generic_params = [] then Some []
      else (case type_generic_args applied_ty of
              None \<Rightarrow> None
            | Some args \<Rightarrow>
                if length args \<noteq> length generic_params then None
                else Some (bt_collect (zip generic_params args))))"

text \<open>
  \<open>expand_aliases\<close>: the set of the aliases that are being expanded grows towards the set of all
  aliases, so that an alias that mentions itself is left as it is.
\<close>

function expand_aliases :: "alias_def name_map \<Rightarrow> string_set \<Rightarrow> string \<Rightarrow> string" where
  "expand_aliases aliases visiting ty =
     (let base = base_type_name ty;
          canonical_base = canonical_builtin_type_name base;
          normalized_args =
            (case type_generic_args ty of
               Some args \<Rightarrow> Some (map (expand_aliases aliases visiting) args)
             | None \<Rightarrow> None)
      in case bt_get aliases base of
           None \<Rightarrow>
             (case normalized_args of
                Some args \<Rightarrow> applied_type canonical_base args
              | None \<Rightarrow> if canonical_base \<noteq> base then canonical_base else ty)
         | Some alias \<Rightarrow>
             if base \<in> set visiting then ty
             else if al_generics alias = [] then expand_aliases aliases (bs_insert base visiting) (al_target alias)
             else (case normalized_args of
                     Some args \<Rightarrow>
                       if length args \<noteq> length (al_generics alias) then applied_type base args
                       else expand_aliases aliases (bs_insert base visiting)
                              (substitute_type_vars (bt_collect (zip (al_generics alias) args))
                                (bs_collect (al_generics alias)) (al_target alias))
                   | None \<Rightarrow> ty))"
  by pat_completeness auto

termination
proof (relation "inv_image (less_than <*lex*> less_than) (\<lambda>(aliases, visiting, ty).
    (card (fst ` set aliases - set visiting), length ty))", goal_cases)
  case 1
  show ?case by (intro wf_inv_image wf_lex_prod) simp_all
next
  case (2 aliases visiting ty)
  then show ?case by (simp add: length_type_generic_args)
next
  case (3 aliases visiting ty)
  then have "base_type_name ty \<in> fst ` set aliases - set visiting"
    by (auto dest!: map_of_SomeD intro: rev_image_eqI)
  then have "card (fst ` set aliases - set (bs_insert (base_type_name ty) visiting)) < card (fst ` set aliases - set visiting)"
    by (intro psubset_card_mono) auto
  with 3 show ?case by simp
next
  case (4 aliases visiting ty)
  then have "base_type_name ty \<in> fst ` set aliases - set visiting"
    by (auto dest!: map_of_SomeD intro: rev_image_eqI)
  then have "card (fst ` set aliases - set (bs_insert (base_type_name ty) visiting)) < card (fst ` set aliases - set visiting)"
    by (intro psubset_card_mono) auto
  with 4 show ?case by simp
qed

declare expand_aliases.simps [simp del]

definition normalize_type :: "checker \<Rightarrow> string \<Rightarrow> string" where
  "normalize_type ck ty = expand_aliases (ck_type_aliases ck) [] ty"

section \<open>Compatibility\<close>

text \<open>Both texts apply the same one of three type constructors, and one of them has a hole.\<close>

definition open_application :: "string \<Rightarrow> string \<Rightarrow> string \<Rightarrow> bool" where
  "open_application lead expected found \<longleftrightarrow>
     starts_with expected lead \<and> starts_with found lead \<and>
     (contains_text ''<?>'' expected \<or> contains_text ''<?>'' found)"

definition trivially_compatible :: "string \<Rightarrow> string \<Rightarrow> bool" where
  "trivially_compatible expected found \<longleftrightarrow>
     expected = found \<or> expected = ''<?>'' \<or> found = ''<?>'' \<or> open_application ''Option['' expected found \<or>
     open_application ''Result['' expected found \<or> open_application ''Async['' expected found"

text \<open>The answer on two integer types or two float types, if they are such types.\<close>

definition numeric_compatible :: "string \<Rightarrow> string \<Rightarrow> bool option" where
  "numeric_compatible expected found =
     (case (parse_integer_kind expected, parse_integer_kind found) of
        (Some e, Some f) \<Rightarrow> Some (integer_conversion_is_lossless e f)
      | _ \<Rightarrow>
          (case (parse_float_kind expected, parse_float_kind found) of
             (Some e, Some f) \<Rightarrow> Some (e = f)
           | _ \<Rightarrow> None))"

definition same_shape :: "string \<Rightarrow> string \<Rightarrow> bool" where
  "same_shape expected found \<longleftrightarrow>
     generic_args_or_empty expected \<noteq> [] \<and> generic_args_or_empty found \<noteq> [] \<and>
     base_type_name expected = base_type_name found \<and>
     length (generic_args_or_empty expected) = length (generic_args_or_empty found)"

definition trait_is_implemented_for :: "checker \<Rightarrow> string \<Rightarrow> string \<Rightarrow> bool" where
  "trait_is_implemented_for ck bound_trait bound_ty =
     (let key = (\<lambda>ty. canonical_trait_impl_type (normalize_type ck ty)) in
      list_ex (\<lambda>(trait_name, impls).
          unqualified_name trait_name = unqualified_name bound_trait \<and> list_ex (\<lambda>ty. key ty = key bound_ty) impls)
        (rs_trait_impls (ck_resolution ck)))"

function types_compatible_with_dyn :: "checker \<Rightarrow> string \<Rightarrow> string \<Rightarrow> bool" where
  "types_compatible_with_dyn ck expected found =
     (found = NEVER_TYPE \<or> trivially_compatible expected found \<or>
      (case numeric_compatible expected found of
         Some answer \<Rightarrow> answer
       | None \<Rightarrow>
           (case parse_dyn_trait_name expected of
              Some expected_trait \<Rightarrow>
                (case parse_dyn_trait_name found of
                   Some found_trait \<Rightarrow> unqualified_name expected_trait = unqualified_name found_trait
                 | None \<Rightarrow> trait_is_implemented_for ck expected_trait found)
            | None \<Rightarrow>
                same_shape expected found \<and>
                list_all (\<lambda>p. types_compatible_with_dyn ck (fst p) (snd p))
                  (zip (generic_args_or_empty expected) (generic_args_or_empty found)))))"
  by pat_completeness auto
termination
  by (relation "measure (\<lambda>(_, expected, _). length expected)") (auto dest!: set_zip_leftD simp: length_type_args)

declare types_compatible_with_dyn.simps [simp del]

definition types_compatible :: "checker \<Rightarrow> string \<Rightarrow> string \<Rightarrow> bool" where
  "types_compatible ck expected found =
     types_compatible_with_dyn ck (normalize_type ck expected) (normalize_type ck found)"

text \<open>The relation that the inference uses: every type is taken to implement a trait.\<close>

function type_compatible :: "string \<Rightarrow> string \<Rightarrow> bool" where
  "type_compatible expected found =
     (trivially_compatible expected found \<or>
      (case numeric_compatible expected found of
         Some answer \<Rightarrow> answer
       | None \<Rightarrow>
           (case parse_dyn_trait_name expected of
              Some expected_trait \<Rightarrow>
                (case parse_dyn_trait_name found of
                   Some found_trait \<Rightarrow> unqualified_name expected_trait = unqualified_name found_trait
                 | None \<Rightarrow> True)
            | None \<Rightarrow>
                same_shape expected found \<and>
                list_all (\<lambda>p. type_compatible (fst p) (snd p))
                  (zip (generic_args_or_empty expected) (generic_args_or_empty found)))))"
  by pat_completeness auto
termination
  by (relation "measure (\<lambda>(expected, _). length expected)") (auto dest!: set_zip_leftD simp: length_type_args)

declare type_compatible.simps [simp del]

section \<open>Merging\<close>

definition applications_of :: "string \<Rightarrow> nat \<Rightarrow> string \<Rightarrow> string \<Rightarrow> bool" where
  "applications_of name arity a b \<longleftrightarrow>
     starts_with a (name @ ''['') \<and> starts_with b (name @ ''['') \<and>
     length (generic_args_or_empty a) = arity \<and> length (generic_args_or_empty b) = arity"

function merge_types :: "string \<Rightarrow> string \<Rightarrow> string" where
  "merge_types a b =
     (if a = b then a
      else if a = ''<?>'' then b
      else if b = ''<?>'' then a
      else
        (let merged = map (\<lambda>p. merge_types (fst p) (snd p)) (zip (generic_args_or_empty a) (generic_args_or_empty b)) in
         if applications_of ''Option'' 1 a b then applied_type ''Option'' merged
         else if applications_of ''Result'' 2 a b then applied_type ''Result'' merged
         else if applications_of ''Async'' 1 a b then applied_type ''Async'' merged
         else if same_shape a b then applied_type (base_type_name a) merged
         else ''<?>''))"
  by pat_completeness auto
termination
  by (relation "measure (\<lambda>(a, _). length a)") (auto dest!: set_zip_leftD simp: length_type_args)

declare merge_types.simps [simp del]

definition merge_compatible_types :: "checker \<Rightarrow> string \<Rightarrow> string \<Rightarrow> string" where
  "merge_compatible_types ck left right =
     (if left = right then left
      else if left = NEVER_TYPE then right
      else if right = NEVER_TYPE then left
      else if \<not> types_compatible ck left right then ''<?>''
      else if \<not> contains_unresolved_type left then left
      else if \<not> contains_unresolved_type right then right
      else merge_types (normalize_type ck left) (normalize_type ck right))"

section \<open>Inference of type arguments\<close>

text \<open>A parameter type that is a generic parameter: the binding so far against the type that was found.\<close>

definition bind_generic :: "string \<Rightarrow> string \<Rightarrow> string name_map \<Rightarrow> bool \<times> string name_map" where
  "bind_generic name found bindings =
     (case bt_get bindings name of
        None \<Rightarrow> (True, bt_insert name found bindings)
      | Some bound \<Rightarrow>
          (case parse_dyn_trait_name bound of
             Some bound_trait \<Rightarrow>
               (case parse_dyn_trait_name found of
                  Some found_trait \<Rightarrow> (unqualified_name bound_trait = unqualified_name found_trait, bindings)
                | None \<Rightarrow> (True, bindings))
           | None \<Rightarrow>
               if contains_unresolved_type bound \<and> \<not> contains_unresolved_type found
               then (True, bt_insert name found bindings)
               else if contains_unresolved_type found \<and> \<not> contains_unresolved_type bound then (True, bindings)
               else if type_compatible bound found then (True, bt_insert name (merge_types bound found) bindings)
               else (False, bindings)))"

text \<open>The length of the longest expected type bounds the recursion.\<close>

fun longest_expected :: "(string \<times> string) list \<Rightarrow> nat" where
  "longest_expected [] = 0"
| "longest_expected ((e, _) # ps) = max (length e) (longest_expected ps)"

lemma longest_expected_less:
  "(\<And>e f. (e, f) \<in> set ps \<Longrightarrow> length e < n) \<Longrightarrow> 0 < n \<Longrightarrow> longest_expected ps < n"
  by (induction ps rule: longest_expected.induct) auto

function (sequential) infer_generic_bindings ::
    "string_set \<Rightarrow> string \<Rightarrow> string \<Rightarrow> string name_map \<Rightarrow> bool \<times> string name_map"
  and infer_each :: "string_set \<Rightarrow> (string \<times> string) list \<Rightarrow> string name_map \<Rightarrow> bool \<times> string name_map" where
  "infer_generic_bindings generic_params expected found bindings =
     (if expected \<in> set generic_params then bind_generic expected found bindings
      else if generic_args_or_empty expected = [] \<or> generic_args_or_empty found = []
      then (type_compatible expected found, bindings)
      else if \<not> same_shape expected found then (False, bindings)
      else infer_each generic_params (zip (generic_args_or_empty expected) (generic_args_or_empty found)) bindings)"
| "infer_each generic_params [] bindings = (True, bindings)"
| "infer_each generic_params ((e, f) # ps) bindings =
     (case infer_generic_bindings generic_params e f bindings of
        (True, bindings') \<Rightarrow> infer_each generic_params ps bindings'
      | (False, bindings') \<Rightarrow> (False, bindings'))"
  by pat_completeness auto

termination
proof (relation "inv_image (less_than <*lex*> less_than) (\<lambda>x. case x of
      Inl (_, expected, _, _) \<Rightarrow> (length expected, 0::nat)
    | Inr (_, ps, _) \<Rightarrow> (longest_expected ps, Suc (length ps)))", goal_cases)
  case (2 generic_params expected found bindings)
  then obtain a where "a \<in> set (generic_args_or_empty expected)" by (cases "generic_args_or_empty expected") auto
  then have "0 < length expected" using length_type_args by fastforce
  then have "longest_expected (zip (generic_args_or_empty expected) (generic_args_or_empty found)) < length expected"
    by (intro longest_expected_less) (auto simp: length_type_args dest!: set_zip_leftD)
  then show ?case by simp
qed (auto simp: max_def)

declare infer_generic_bindings.simps [simp del]


section \<open>Function types and other texts\<close>

definition type_parse_fn :: "string \<Rightarrow> (string list \<times> string) option" where
  "type_parse_fn ty =
     (if base_type_name ty \<noteq> ''Fn'' then None
      else (case type_generic_args ty of
              None \<Rightarrow> None
            | Some args \<Rightarrow> if args = [] then None else Some (butlast args, last args)))"

definition render_fn_type :: "string list \<Rightarrow> string \<Rightarrow> string" where
  "render_fn_type params ret_ty = ''Fn['' @ join_with '', '' (params @ [ret_ty]) @ '']''"

definition await_bridge_types :: "((string \<times> string) \<times> string) list" where
  "await_bridge_types =
     [((''AsyncIntOp'', ''NetError''), ''Result[Int, NetError]''),
      ((''AsyncStringOp'', ''NetError''), ''Result[Bytes, NetError]''),
      ((''AsyncIntOp'', ''TlsError''), ''Result[Int, TlsError]''),
      ((''AsyncStringOp'', ''TlsError''), ''Result[Bytes, TlsError]''),
      ((''AsyncFsBoolOp'', ''FsError''), ''Result[Bool, FsError]''),
      ((''AsyncFsTextOp'', ''FsError''), ''Result[String, FsError]''),
      ((''AsyncFsBytesOp'', ''FsError''), ''Result[Bytes, FsError]'')]"

definition await_bridge_submit_type :: "string \<Rightarrow> string option" where
  "await_bridge_submit_type ty =
     (if base_type_name ty \<noteq> ''Result'' then None
      else (case type_generic_args ty of
              Some [ok, err] \<Rightarrow> map_of await_bridge_types (str_trim ok, str_trim err)
            | _ \<Rightarrow> None))"

definition is_c_abi_compatible_extern_return_type :: "string \<Rightarrow> bool" where
  "is_c_abi_compatible_extern_return_type ty =
     (if ty = ''()'' then True
      else if contains_unresolved_type ty then False
      else
        (let base = canonical_builtin_type_name (base_type_name ty) in
         (base \<in> {''Int'', ''Bool'', ''Float32'', ''Float64'', ''Char'', ''String''} \<or>
          base \<in> set FIXED_WIDTH_INTEGER_PRIMITIVES) \<and> type_generic_args ty = None))"

definition is_c_abi_compatible_extern_param_type :: "string \<Rightarrow> bool" where
  "is_c_abi_compatible_extern_param_type ty =
     (if canonical_builtin_type_name (base_type_name ty) = ''String''
      then type_generic_args ty = None \<and> \<not> contains_unresolved_type ty
      else is_c_abi_compatible_extern_return_type ty)"

definition preflight_builtin_types :: "string list" where
  "preflight_builtin_types =
     [''()'', ''Bool'', ''String'', ''Char'', ''Bytes'', ''ByteBuffer'', ''JsonValue'', ''Option'', ''Result'',
      ''Async'', ''Ref'', ''RefMut'', ''Tuple'', ''Vec'', ''Map'', ''Set'', ''Deque'', ''Int'', ''Float32'', ''Float64'',
      ''ISize'', ''USize'', ''UInt'']"

definition preflight_builtin_type_known :: "string \<Rightarrow> bool" where
  "preflight_builtin_type_known base =
     (base \<in> set preflight_builtin_types \<or> base \<in> set FIXED_WIDTH_INTEGER_PRIMITIVES)"

definition preflight_render_target :: "string option \<Rightarrow> string \<Rightarrow> string" where
  "preflight_render_target m name =
     (case m of
        None \<Rightarrow> name
      | Some module_name \<Rightarrow>
          if module_name = [] \<or> module_name = ''<root>'' then name else module_name @ ''.'' @ name)"

definition preflight_render_signature ::
  "string option \<Rightarrow> string \<Rightarrow> fn_sig \<Rightarrow> (string \<times> string) list \<Rightarrow> string \<Rightarrow> string" where
  "preflight_render_signature m name sig parameters return_type =
     (if fs_is_extern sig then ''extern '' @ (case fs_extern_abi sig of Some abi \<Rightarrow> abi @ '' '' | None \<Rightarrow> []) else []) @
     (if fs_is_unsafe sig then ''unsafe '' else []) @
     (if fs_is_async sig then ''async '' else []) @
     ''fn '' @ preflight_render_target m name @
     (if fs_generic_params sig = [] then [] else ''['' @ join_with '', '' (fs_generic_params sig) @ '']'') @
     ''('' @ join_with '', '' (map (\<lambda>(n, ty). n @ '': '' @ ty) parameters) @ '') -> '' @ return_type"

definition equality_is_supported :: "string \<Rightarrow> bool" where
  "equality_is_supported ty =
     (contains_unresolved_type ty \<or> ty = NEVER_TYPE \<or> parse_integer_kind ty \<noteq> None \<or> parse_float_kind ty \<noteq> None \<or>
      ty \<in> {''Bool'', ''Char'', ''String''})"

definition is_std_module_name :: "string \<Rightarrow> bool" where
  "is_std_module_name m = (m = ''std'' \<or> starts_with m ''std.'')"

definition foreign_primitives :: "(string \<times> string) list" where
  "foreign_primitives =
     [(''i8'', ''Int8''), (''i16'', ''Int16''), (''i32'', ''Int32''), (''I32'', ''Int32''), (''i64'', ''Int64''),
      (''I64'', ''Int64''), (''i128'', ''Int128''), (''I128'', ''Int128''), (''u8'', ''UInt8''), (''U8'', ''UInt8''),
      (''u16'', ''UInt16''), (''U16'', ''UInt16''), (''u32'', ''UInt32''), (''U32'', ''UInt32''),
      (''u64'', ''UInt64''), (''U64'', ''UInt64''), (''u128'', ''UInt128''), (''U128'', ''UInt128''),
      (''isize'', ''ISize''), (''usize'', ''USize''), (''f32'', ''Float32''), (''F32'', ''Float32''),
      (''f64'', ''Float64''), (''F64'', ''Float64''), (''double'', ''Float64''), (''int'', ''Int''),
      (''integer'', ''Int''), (''Integer'', ''Int''), (''float'', ''Float''), (''bool'', ''Bool''),
      (''boolean'', ''Bool''), (''Boolean'', ''Bool''), (''str'', ''String''), (''string'', ''String''),
      (''Str'', ''String''), (''char'', ''Char''), (''Unit'', ''()''), (''unit'', ''()''), (''void'', ''()''),
      (''Void'', ''()''), (''List'', ''Vec''), (''Array'', ''Vec''), (''HashMap'', ''Map''), (''Dict'', ''Map''),
      (''Dictionary'', ''Map''), (''HashSet'', ''Set'')]"

definition foreign_primitive_type_name :: "string \<Rightarrow> string option" where
  "foreign_primitive_type_name name = map_of foreign_primitives name"

end
