(* ===== verification/TypeTrees.thy ===== *)
theory TypeTrees
  imports TypeRelations
begin

text \<open>
  Types as trees. A type is printed from a tree of names and arguments; the functions of
  \<open>src/typecheck.rs\<close> work on the printed text. Here the functions on texts are related to functions
  on trees: taking a printed type apart gives back its name and its arguments, substitution in the
  text is substitution in the tree, and the relation on texts is a relation on trees.
\<close>

datatype type_tree = TypeTree string "type_tree list"

fun render_type :: "type_tree \<Rightarrow> string" where
  "render_type (TypeTree n ts) = (if ts = [] then n else applied_type n (map render_type ts))"

text \<open>Names as the parser makes them: ASCII, without brackets and commas, and without space around them.\<close>

definition solid :: "string \<Rightarrow> bool" where
  "solid s \<longleftrightarrow> s \<noteq> [] \<and> list_all (\<lambda>c. of_char c < (128 :: nat)) s \<and>
     \<not> is_whitespace (of_char (hd s)) \<and> \<not> is_whitespace (of_char (last s))"

definition plain_name :: "string \<Rightarrow> bool" where
  "plain_name n \<longleftrightarrow> solid n \<and> CHR ''['' \<notin> set n \<and> CHR '']'' \<notin> set n \<and> CHR '','' \<notin> set n"

fun plain_type :: "type_tree \<Rightarrow> bool" where
  "plain_type (TypeTree n ts) \<longleftrightarrow> plain_name n \<and> list_all plain_type ts"

section \<open>White space around a printed type\<close>

lemma encode_ascii_text:
  "list_all (\<lambda>c. of_char c < (128 :: nat)) s \<Longrightarrow>
     utf8_encode_all (map of_char s) = s \<and> list_all scalar_value (map of_char s)"
  by (induction s) (simp_all add: utf8_encode_def byte_def scalar_value_def)

lemma str_chars_ascii: "list_all (\<lambda>c. of_char c < (128 :: nat)) s \<Longrightarrow> str_chars s = map of_char s"
  using encode_ascii_text [of s] str_chars_encode [of "map of_char s"] by simp

lemma str_trim_ascii:
  "list_all (\<lambda>c. of_char c < (128 :: nat)) s \<Longrightarrow> str_trim s = utf8_encode_all (trim (map of_char s))"
  by (simp add: str_trim_def str_chars_ascii)

lemma trim_solid:
  assumes "cs \<noteq> []" "\<not> is_whitespace (hd cs)" "\<not> is_whitespace (last cs)"
  shows "trim cs = cs"
proof -
  have "dropWhile is_whitespace cs = cs" using assms by (cases cs) auto
  moreover have "dropWhile is_whitespace (rev cs) = rev cs"
    using assms by (cases "rev cs") (auto simp: hd_rev [symmetric] simp del: hd_rev)
  ultimately show ?thesis by (simp add: trim_def trim_start_def trim_end_def)
qed

lemma str_trim_solid:
  assumes "solid s"
  shows "str_trim s = s" "str_trim (CHR '' '' # s) = s"
proof -
  have t: "trim (map of_char s) = map of_char s"
    using assms by (intro trim_solid) (auto simp: solid_def hd_map last_map)
  have a: "list_all (\<lambda>c. of_char c < (128 :: nat)) s" using assms by (simp add: solid_def)
  with t show "str_trim s = s" by (simp add: str_trim_ascii encode_ascii_text)
  have "trim (of_char CHR '' '' # map of_char s) = trim (map of_char s)"
    by (simp add: trim_def trim_start_def is_whitespace_def)
  with a t show "str_trim (CHR '' '' # s) = s" by (simp add: str_trim_ascii encode_ascii_text)
qed

lemma solid_applied: "solid n \<Longrightarrow> list_all solid args \<Longrightarrow> solid (applied_type n args)"
proof -
  assume *: "solid n" "list_all solid args"
  have "list_all (\<lambda>c. of_char c < (128 :: nat)) (join_with '', '' args)"
    using *(2) by (induction "'', ''" args rule: join_with.induct) (auto simp: solid_def)
  with *(1) show ?thesis by (auto simp: solid_def applied_type_def is_whitespace_def)
qed

lemma solid_render: "plain_type t \<Longrightarrow> solid (render_type t)"
  by (induction t rule: render_type.induct) (auto simp: plain_name_def list_all_iff intro!: solid_applied)

section \<open>Splitting at commas\<close>

text \<open>A text that contains no comma outside its brackets is read as a whole, at every depth.\<close>

definition closed_text :: "string \<Rightarrow> bool" where
  "closed_text s \<longleftrightarrow>
     (\<forall>d piece after. 0 \<le> d \<longrightarrow> split_args_from d piece (s @ after) = split_args_from d (piece @ s) after)"

lemma closed_textD: "closed_text s \<Longrightarrow> 0 \<le> d \<Longrightarrow> split_args_from d piece (s @ after) = split_args_from d (piece @ s) after"
  by (simp add: closed_text_def)

lemma closed_plain: "plain_name n \<Longrightarrow> closed_text n"
proof -
  have "split_args_from d piece (s @ after) = split_args_from d (piece @ s) after"
    if "CHR ''['' \<notin> set s" "CHR '']'' \<notin> set s" "CHR '','' \<notin> set s" for d piece s after
    using that by (induction s arbitrary: piece) auto
  then show "plain_name n \<Longrightarrow> ?thesis" by (simp add: closed_text_def plain_name_def)
qed

lemma split_nested_join:
  assumes "list_all closed_text args" "0 < d"
  shows "split_args_from d piece (join_with '', '' args @ after) = split_args_from d (piece @ join_with '', '' args) after"
  using assms(1)
proof (induction "'', ''" args arbitrary: piece rule: join_with.induct)
  case (2 x)
  with assms(2) show ?case by (simp add: closed_textD)
next
  case (3 x y ys)
  have "split_args_from d piece (join_with '', '' (x # y # ys) @ after) =
      split_args_from d (piece @ x) ('', '' @ join_with '', '' (y # ys) @ after)"
    using 3(2) assms(2) by (simp add: closed_textD)
  also have "\<dots> = split_args_from d (piece @ x @ '', '') (join_with '', '' (y # ys) @ after)"
    using assms(2) by simp
  also have "\<dots> = split_args_from d (piece @ join_with '', '' (x # y # ys)) after"
    using 3 by simp
  finally show ?case .
qed simp

lemma closed_applied:
  assumes "closed_text n" "list_all closed_text args"
  shows "closed_text (applied_type n args)"
  unfolding closed_text_def
proof (intro allI impI)
  fix d :: int and piece after
  assume "0 \<le> d"
  then show "split_args_from d piece (applied_type n args @ after) =
      split_args_from d (piece @ applied_type n args) after"
    using split_nested_join [OF assms(2), of "d + 1" "piece @ n @ ''[''" "CHR '']'' # after"]
      closed_textD [OF assms(1)]
    by (simp add: applied_type_def)
qed

lemma closed_render: "plain_type t \<Longrightarrow> closed_text (render_type t)"
  by (induction t rule: render_type.induct) (auto simp: closed_plain list_all_iff intro!: closed_applied)

lemma split_top_level_join:
  assumes "list_all closed_text args" "list_all solid args"
  shows "split_args_from 0 [] (join_with '', '' args) = args"
    "args \<noteq> [] \<Longrightarrow> split_args_from 0 '' '' (join_with '', '' args) = args"
proof -
  have trim: "str_trim (lead @ x) = x" "x \<noteq> []" if "solid x" "lead \<in> {[], '' ''}" for x lead
    using that str_trim_solid [of x] by (auto simp: solid_def)
  have split: "split_args_from 0 lead (join_with '', '' args) = args"
    if "args \<noteq> []" "lead \<in> {[], '' ''}" for lead
    using assms that
  proof (induction "'', ''" args arbitrary: lead rule: join_with.induct)
    case (2 x)
    then show ?case using closed_textD [of x 0 lead "[]"] trim [of x lead] by simp
  next
    case (3 x y ys)
    have "split_args_from 0 lead (join_with '', '' (x # y # ys)) =
        split_args_from 0 (lead @ x) ('', '' @ join_with '', '' (y # ys))"
      using 3(2) by (simp add: closed_textD)
    also have "\<dots> = x # split_args_from 0 '' '' (join_with '', '' (y # ys))"
      using 3 trim [of x lead] by simp
    finally show ?case using 3 by simp
  qed simp
  show "split_args_from 0 [] (join_with '', '' args) = args"
    using split [of "[]"] str_trim_def by (cases "args = []") (simp_all add: str_trim_def trim_def trim_start_def trim_end_def)
  show "args \<noteq> [] \<Longrightarrow> split_args_from 0 '' '' (join_with '', '' args) = args" by (rule split) simp_all
qed

section \<open>Taking a printed type apart\<close>

lemma split_text_bracket: "CHR ''['' \<notin> set n \<Longrightarrow> split_text ''['' (n @ CHR ''['' # s) = Some (n, s)"
  by (induction n) (auto simp: strip_prefix_def starts_with_def)

lemma split_text_no_bracket: "CHR ''['' \<notin> set n \<Longrightarrow> split_text ''['' n = None"
  by (induction n) (auto simp: strip_prefix_def starts_with_def)

lemma base_type_render: "plain_type (TypeTree n ts) \<Longrightarrow> base_type_name (render_type (TypeTree n ts)) = n"
  by (auto simp: base_type_name_def plain_name_def applied_type_def split_on_no_sep split_on_append)

lemma extract_applied:
  assumes "plain_name n" "list_all closed_text args" "list_all solid args"
  shows "type_generic_args (applied_type n args) = Some args"
proof -
  have "rsplit_once CHR '']'' (join_with '', '' args @ '']'') = Some (join_with '', '' args, [])"
    by (simp add: rsplit_once_def)
  with assms split_text_bracket [of n] split_top_level_join(1) [OF assms(2,3)] show ?thesis
    by (simp add: type_generic_args_def applied_type_def type_split_top_level_def plain_name_def)
qed

lemma extract_render:
  assumes "plain_type (TypeTree n ts)"
  shows "type_generic_args (render_type (TypeTree n ts)) = (if ts = [] then None else Some (map render_type ts))"
proof (cases "ts = []")
  case True
  with assms show ?thesis by (simp add: type_generic_args_def split_text_no_bracket plain_name_def)
next
  case False
  have "list_all closed_text (map render_type ts)" "list_all solid (map render_type ts)"
    using assms by (auto simp: list_all_iff closed_render solid_render)
  with False assms show ?thesis by (simp add: extract_applied)
qed

lemma generic_args_render:
  "plain_type (TypeTree n ts) \<Longrightarrow> generic_args_or_empty (render_type (TypeTree n ts)) = map render_type ts"
  using extract_render [of n ts] by (auto simp: generic_args_or_empty_def)

end
