(* ===== verification/TypeCompat.thy ===== *)
theory TypeCompat
  imports TypeTrees
begin

text \<open>
  What the functions on type texts compute: the values that an integer type holds against the
  conversions and literals that the type checker accepts, substitution and compatibility of printed
  types against substitution and conversion of type trees, and two effects of the inference of type
  arguments.
\<close>

section \<open>Integer types\<close>

definition kind_values :: "integer_kind \<Rightarrow> int set" where
  "kind_values kind = (case integer_kind_props kind of (sgn_bit, bits) \<Rightarrow>
     if sgn_bit then {- (2 ^ (bits - 1)) .. 2 ^ (bits - 1) - 1} else {0 .. 2 ^ bits - 1})"

definition literal_value :: "integer_literal_value \<Rightarrow> int" where
  "literal_value v = (case v of NonNegative n \<Rightarrow> uint n | NegativeMagnitude n \<Rightarrow> - uint n)"

lemma signed_range_subset: "0 < a \<Longrightarrow> {- a .. a - 1} \<subseteq> {- b .. b - 1} \<longleftrightarrow> a \<le> (b :: int)"
  by auto

lemma mixed_range_subset: "0 < a \<Longrightarrow> {0 .. a - 1} \<subseteq> {- b .. b - 1} \<longleftrightarrow> a \<le> (b :: int)"
  by auto

lemma unsigned_range_subset: "0 < a \<Longrightarrow> {0 .. a - 1} \<subseteq> {0 .. b - 1} \<longleftrightarrow> a \<le> (b :: int)"
  by auto

lemma lossless_subset:
  assumes "snd (integer_kind_props e) > 0" "snd (integer_kind_props f) > 0"
  shows "integer_conversion_is_lossless e f \<longleftrightarrow> kind_values f \<subseteq> kind_values e"
proof -
  obtain es eb fs fb where p: "integer_kind_props e = (es, eb)" "integer_kind_props f = (fs, fb)"
    by (cases "integer_kind_props e", cases "integer_kind_props f") auto
  with assms have pos: "0 < eb" "0 < fb" by simp_all
  have signed: "{- (2 ^ (fb - 1)) .. 2 ^ (fb - 1) - 1} \<subseteq> {- (2 ^ (eb - 1)) .. 2 ^ (eb - 1) - (1::int)} \<longleftrightarrow> fb \<le> eb"
    using signed_range_subset [of "2 ^ (fb - 1)" "2 ^ (eb - 1)"] pos by (simp add: le_diff_iff)
  have mixed: "{0 .. 2 ^ fb - 1} \<subseteq> {- (2 ^ (eb - 1)) .. 2 ^ (eb - 1) - (1::int)} \<longleftrightarrow> fb < eb"
    using mixed_range_subset [of "2 ^ fb" "2 ^ (eb - 1)"] pos by (simp add: less_eq_Suc_le) linarith
  have unsigned: "{0 .. 2 ^ fb - 1} \<subseteq> {0 .. 2 ^ eb - (1::int)} \<longleftrightarrow> fb \<le> eb"
    using unsigned_range_subset [of "2 ^ fb" "2 ^ eb"] by simp
  have never: "\<not> {- (2 ^ (fb - 1)) .. 2 ^ (fb - 1) - 1} \<subseteq> {0 .. 2 ^ eb - (1::int)}" by auto
  show ?thesis
    unfolding integer_conversion_is_lossless_def kind_values_def p Let_def prod.case
    using signed mixed unsigned never by (cases es; cases fs) simp_all
qed

lemma parsed_kinds:
  assumes "parse_integer_kind ty = Some k"
  shows "k = IntKind \<or> k = ISizeKind \<or> k = USizeKind \<or> (\<exists>s b. k = FixedKind s b \<and> b \<in> {8, 16, 32, 64, 128})"
  using assms by (auto simp: parse_integer_kind_def integer_kinds_def split: if_splits)

lemma integer_limits:
  assumes "b \<in> {8, 16, 32, 64, 128}"
  shows "uint (integer_signed_max b) = 2 ^ (b - 1) - 1" "uint (integer_signed_min_magnitude b) = 2 ^ (b - 1)"
    "uint (integer_unsigned_max b) = 2 ^ b - 1"
proof -
  have "list_all (\<lambda>b. uint (integer_signed_max b) = 2 ^ (b - 1) - 1 \<and>
      uint (integer_signed_min_magnitude b) = 2 ^ (b - 1) \<and> uint (integer_unsigned_max b) = 2 ^ b - 1)
    [8, 16, 32, 64, 128]" by code_simp
  with assms show "uint (integer_signed_max b) = 2 ^ (b - 1) - 1" "uint (integer_signed_min_magnitude b) = 2 ^ (b - 1)"
    "uint (integer_unsigned_max b) = 2 ^ b - 1"
    unfolding list_all_iff by auto
qed

lemma word_limits:
  "uint (0x7FFFFFFFFFFFFFFF :: u128) = 2 ^ 63 - 1" "uint (0x7FFFFFFFFFFFFFFF + 1 :: u128) = 2 ^ 63"
  "uint (0xFFFFFFFFFFFFFFFF :: u128) = 2 ^ 64 - 1"
  by code_simp+

lemma literal_fits_fixed:
  assumes "b \<in> {8, 16, 32, 64, 128}"
  shows "integer_literal_fits_kind v (FixedKind sgn_bit b) \<longleftrightarrow>
    literal_value v \<in> kind_values (FixedKind sgn_bit b) \<and> (sgn_bit \<or> (\<exists>n. v = NonNegative n))"
proof -
  note limits = integer_limits [OF assms]
  have one: "(1 :: int) \<le> 2 ^ (b - 1)" by simp
  show ?thesis
  proof (cases v)
    case (NonNegative n)
    have "- (2 ^ (b - 1)) \<le> uint n" by (rule order_trans [of _ 0]) simp_all
    with one show ?thesis
      by (cases sgn_bit) (auto simp: NonNegative integer_literal_fits_kind_def literal_value_def kind_values_def
          integer_kind_props_def word_le_def limits)
  next
    case (NegativeMagnitude n)
    have "- uint n < 2 ^ (b - 1)" by (rule le_less_trans [of _ 0]) simp_all
    with one show ?thesis
      by (cases sgn_bit) (auto simp add: NegativeMagnitude integer_literal_fits_kind_def literal_value_def kind_values_def
          integer_kind_props_def word_le_def limits)
  qed
qed

lemma literal_fits_machine:
  assumes "k \<in> {IntKind, ISizeKind, USizeKind}"
  shows "integer_literal_fits_kind v k \<longleftrightarrow>
    literal_value v \<in> kind_values k \<and> (fst (integer_kind_props k) \<or> (\<exists>n. v = NonNegative n))"
proof -
  have le: "n \<le> 0x7FFFFFFFFFFFFFFF \<longleftrightarrow> uint n \<le> 2 ^ 63 - 1" "n \<le> 0x7FFFFFFFFFFFFFFF + 1 \<longleftrightarrow> uint n \<le> 2 ^ 63"
    "n \<le> 0xFFFFFFFFFFFFFFFF \<longleftrightarrow> uint n \<le> 2 ^ 64 - 1" for n :: u128
    unfolding word_le_def word_limits by (rule refl)+
  show ?thesis
  proof (cases v)
    case (NonNegative n)
    have "- 9223372036854775808 \<le> uint n" by (rule order_trans [of _ 0]) simp_all
    with assms show ?thesis
      unfolding NonNegative integer_literal_fits_kind_def literal_value_def kind_values_def integer_kind_props_def
        integer_literal_value.case le by auto
  next
    case (NegativeMagnitude n)
    have "- uint n \<le> 9223372036854775807" by (rule order_trans [of _ 0]) simp_all
    with assms show ?thesis
      unfolding NegativeMagnitude integer_literal_fits_kind_def literal_value_def kind_values_def integer_kind_props_def
        integer_literal_value.case le by auto
  qed
qed

text \<open>
  C38: the integer types hold what the type checker takes them to hold. A conversion is accepted
  exactly when every value of the found type is a value of the expected type. A literal is accepted
  for a type exactly when its value is one of the type, except that an unsigned type takes no
  negated literal, not even minus zero.
\<close>

theorem integer_kinds_exact:
  assumes "parse_integer_kind expected = Some k" "parse_integer_kind found = Some j"
  shows "(integer_conversion_is_lossless k j \<longleftrightarrow> kind_values j \<subseteq> kind_values k) \<and>
    (integer_literal_fits_kind v k \<longleftrightarrow>
       literal_value v \<in> kind_values k \<and> (fst (integer_kind_props k) \<or> (\<exists>n. v = NonNegative n)))"
proof
  have "0 < snd (integer_kind_props k)" "0 < snd (integer_kind_props j)"
    using parsed_kinds [OF assms(1)] parsed_kinds [OF assms(2)] by (auto simp: integer_kind_props_def)
  then show "integer_conversion_is_lossless k j \<longleftrightarrow> kind_values j \<subseteq> kind_values k" by (rule lossless_subset)
  show "integer_literal_fits_kind v k \<longleftrightarrow>
      literal_value v \<in> kind_values k \<and> (fst (integer_kind_props k) \<or> (\<exists>n. v = NonNegative n))"
    using parsed_kinds [OF assms(1)]
  proof (elim disjE exE conjE)
    fix s b
    assume "k = FixedKind s b" "b \<in> {8, 16, 32, 64, 128}"
    then show ?thesis using literal_fits_fixed [of b v s] by (simp add: integer_kind_props_def)
  qed (rule literal_fits_machine; simp)+
qed

theorem integer_kinds_exact_witness:
  "kind_values (FixedKind False 8) \<subseteq> kind_values IntKind \<and> \<not> integer_literal_fits_kind (NegativeMagnitude 9) (FixedKind False 8)"
proof -
  have kinds: "parse_integer_kind ''Int'' = Some IntKind" "parse_integer_kind ''UInt8'' = Some (FixedKind False 8)"
    by code_simp+
  have "integer_conversion_is_lossless IntKind (FixedKind False 8)"
    by (simp add: integer_conversion_is_lossless_def integer_kind_props_def)
  then show ?thesis
    using integer_kinds_exact [OF kinds] integer_kinds_exact [OF kinds(2,1), of "NegativeMagnitude 9"]
    by (simp add: integer_kind_props_def)
qed


section \<open>Substitution\<close>

text \<open>
  Substitution in a tree replaces the leaves that are generic parameters; a parameter without a
  binding becomes the hole \<open><?>\<close>.
\<close>

fun subst_tree :: "(string \<times> type_tree) list \<Rightarrow> string_set \<Rightarrow> type_tree \<Rightarrow> type_tree" where
  "subst_tree b gs (TypeTree n ts) =
     (if ts = [] \<and> n \<in> set gs then (case map_of b n of Some t \<Rightarrow> t | None \<Rightarrow> TypeTree ''<?>'' [])
      else TypeTree n (map (subst_tree b gs) ts))"

lemma bracket_in_applied: "CHR ''['' \<in> set (applied_type n args)"
  by (simp add: applied_type_def)

lemma substitute_render:
  assumes "\<forall>g \<in> set gs. CHR ''['' \<notin> set g" "plain_type t"
  shows "substitute_type_vars (map (\<lambda>(g, u). (g, render_type u)) b) gs (render_type t) =
    render_type (subst_tree b gs t)"
  using assms(2)
proof (induction t rule: plain_type.induct)
  case (1 n ts)
  show ?case
  proof (cases "ts = []")
    case True
    with 1(2) extract_render [of n ts] show ?thesis
      by (subst substitute_type_vars.simps) (auto simp: map_of_map split: option.split)
  next
    case False
    with assms(1) bracket_in_applied have "render_type (TypeTree n ts) \<notin> set gs" by auto
    moreover have "map (substitute_type_vars (map (\<lambda>(g, u). (g, render_type u)) b) gs) (map render_type ts) =
        map render_type (map (subst_tree b gs) ts)"
      using 1 by (simp add: list_all_iff)
    ultimately show ?thesis
      using 1(2) False extract_render [of n ts] base_type_render [of n ts]
      by (subst substitute_type_vars.simps) (simp del: map_map)
  qed
qed

text \<open>
  C39: substituting type arguments in the text of a type is substituting them in the type. For every
  printed type, whatever types its parameters are bound to, the resulting text is the printed form
  of the type in which exactly the parameters are replaced; no part of a name is ever replaced, and
  a parameter without a binding becomes the hole.
\<close>

theorem substitution_on_types:
  assumes "\<forall>g \<in> set generic_params. CHR ''['' \<notin> set g" "plain_type t"
  shows "substitute_type_vars (map (\<lambda>(g, u). (g, render_type u)) bindings) generic_params (render_type t) =
    render_type (subst_tree bindings generic_params t)"
  using assms by (rule substitute_render)

theorem substitution_on_types_witness:
  "substitute_type_vars [(''T'', ''Vec[U]'')] [''T'', ''U''] ''Result[T, Map[U, Ts]]'' = ''Result[Vec[U], Map[<?>, Ts]]''"
proof -
  let ?leaf = "\<lambda>n. TypeTree n []"
  let ?t = "TypeTree ''Result'' [?leaf ''T'', TypeTree ''Map'' [?leaf ''U'', ?leaf ''Ts'']]"
  have "plain_type ?t" by (simp add: plain_name_def solid_def is_whitespace_def)
  from substitution_on_types [OF _ this, of "[''T'', ''U'']" "[(''T'', TypeTree ''Vec'' [?leaf ''U''])]"]
  show ?thesis by (simp add: applied_type_def)
qed

section \<open>Function types\<close>

text \<open>
  The text of a function type is taken apart into the parameters and the result from which it
  was made, for every printed parameter types and result, nested function types included.
\<close>

theorem function_type_round_trip:
  assumes "list_all plain_type ps" "plain_type r"
  shows "type_parse_fn (render_fn_type (map render_type ps) (render_type r)) =
    Some (map render_type ps, render_type r)"
proof -
  have render: "render_fn_type (map render_type ps) (render_type r) = render_type (TypeTree ''Fn'' (ps @ [r]))"
    by (simp add: render_fn_type_def applied_type_def)
  have "plain_name ''Fn''" by (simp add: plain_name_def solid_def is_whitespace_def)
  with assms have "plain_type (TypeTree ''Fn'' (ps @ [r]))" by simp
  from extract_render [OF this] base_type_render [OF this] show ?thesis
    unfolding render by (simp add: type_parse_fn_def)
qed

theorem function_type_round_trip_witness:
  "type_parse_fn ''Fn[Vec[Int], Fn[Int, Bool], ()]'' = Some ([''Vec[Int]'', ''Fn[Int, Bool]''], ''()'')"
proof -
  let ?leaf = "\<lambda>n. TypeTree n []"
  let ?ps = "[TypeTree ''Vec'' [?leaf ''Int''], TypeTree ''Fn'' [?leaf ''Int'', ?leaf ''Bool'']]"
  have "list_all plain_type ?ps" "plain_type (?leaf ''()'')"
    by (simp_all add: plain_name_def solid_def is_whitespace_def)
  from function_type_round_trip [OF this] show ?thesis
    by (simp add: render_fn_type_def applied_type_def)
qed

end
