(* ===== verification/TypeConversion.thy ===== *)
theory TypeConversion
  imports TypeCompat
begin

text \<open>
  When the type checker accepts a value of one type where another type is expected: the relation
  that \<open>types_compatible_with_dyn\<close> decides on texts is, on types without holes and traits, the
  conversion of integers to wider integer types, inside any type constructor.
\<close>

section \<open>The relation on types\<close>

inductive converts :: "type_tree \<Rightarrow> type_tree \<Rightarrow> bool" where
  same: "converts t t"
| integer: "map_of integer_kinds n = Some k \<Longrightarrow> map_of integer_kinds m = Some j \<Longrightarrow>
     kind_values j \<subseteq> kind_values k \<Longrightarrow> converts (TypeTree n ts) (TypeTree m us)"
| floating: "parse_float_kind n = Some k \<Longrightarrow> parse_float_kind m = Some k \<Longrightarrow>
     converts (TypeTree n ts) (TypeTree m us)"
| inside: "ts \<noteq> [] \<Longrightarrow> list_all2 converts ts us \<Longrightarrow> converts (TypeTree n ts) (TypeTree n us)"

text \<open>Names that stand for a type of values, and types made of such names.\<close>

definition concrete_name :: "string \<Rightarrow> bool" where
  "concrete_name n \<longleftrightarrow>
     plain_name n \<and> \<not> contains_text ''<?>'' n \<and> \<not> starts_with n ''dyn '' \<and> n \<noteq> NEVER_TYPE"

fun concrete_type :: "type_tree \<Rightarrow> bool" where
  "concrete_type (TypeTree n ts) \<longleftrightarrow> concrete_name n \<and> list_all concrete_type ts"

lemma concrete_plain: "concrete_type t \<Longrightarrow> plain_type t"
  by (induction t rule: concrete_type.induct) (auto simp: concrete_name_def list_all_iff)

section \<open>Searching in a printed type\<close>

text \<open>A pattern does not reach over a character that is not in it.\<close>

lemma starts_with_before: "c \<notin> set p \<Longrightarrow> starts_with (s @ c # t) p \<longleftrightarrow> starts_with s p"
proof (induction s arbitrary: p)
  case Nil
  then show ?case by (cases p) (auto simp: starts_with_def)
next
  case (Cons x s)
  then show ?case by (cases p) (auto simp: starts_with_def)
qed

lemma contains_apart:
  "c \<notin> set p \<Longrightarrow> p \<noteq> [] \<Longrightarrow> contains_text p (s @ c # t) \<longleftrightarrow> contains_text p s \<or> contains_text p t"
proof (induction s)
  case Nil
  then show ?case using starts_with_before [of c p "[]" t] by (auto simp: starts_with_def)
next
  case (Cons x s)
  then show ?case using starts_with_before [of c p "x # s" t] by auto
qed

lemma contains_applied:
  assumes "\<not> contains_text ''<?>'' n" "list_all (\<lambda>a. \<not> contains_text ''<?>'' a) args"
  shows "\<not> contains_text ''<?>'' (applied_type n args)"
proof -
  have "\<not> contains_text ''<?>'' (join_with '', '' args @ CHR '']'' # [])"
    using assms(2)
  proof (induction "'', ''" args rule: join_with.induct)
    case (2 x)
    then show ?case using contains_apart [of "CHR '']''" "''<?>''" x "[]"] by simp
  next
    case (3 x y ys)
    then show ?case
      using contains_apart [of "CHR '',''" "''<?>''" x "CHR '' '' # join_with '', '' (y # ys) @ '']''"]
        contains_apart [of "CHR '' ''" "''<?>''" "[]" "join_with '', '' (y # ys) @ '']''"] by simp
  qed (simp add: starts_with_def)
  then show ?thesis
    using assms(1) contains_apart [of "CHR ''[''" "''<?>''" n "join_with '', '' args @ '']''"]
    by (simp add: applied_type_def)
qed

lemma concrete_resolved: "concrete_type t \<Longrightarrow> \<not> contains_text ''<?>'' (render_type t)"
proof (induction t rule: concrete_type.induct)
  case (1 n ts)
  then have "list_all (\<lambda>a. \<not> contains_text ''<?>'' a) (map render_type ts)" by (simp add: list_all_iff)
  with 1 contains_applied [of n "map render_type ts"] show ?case by (auto simp: concrete_name_def)
qed

lemma contains_self: "contains_text ''<?>'' ''<?>''"
  by (simp add: starts_with_def)

lemma concrete_not_hole: "concrete_type t \<Longrightarrow> render_type t \<noteq> ''<?>''"
  using concrete_resolved [of t] contains_self by metis

lemma render_not_never:
  assumes "concrete_type t"
  shows "render_type t \<noteq> NEVER_TYPE"
proof (cases t)
  case (TypeTree n ts)
  have "CHR ''['' \<notin> set NEVER_TYPE" by (simp add: NEVER_TYPE_def)
  with assms bracket_in_applied [of n "map render_type ts"] show ?thesis
    by (auto simp: TypeTree concrete_name_def)
qed

lemma trivially_render:
  assumes "concrete_type s" "concrete_type t"
  shows "trivially_compatible (render_type s) (render_type t) \<longleftrightarrow> render_type s = render_type t"
  using assms concrete_resolved concrete_not_hole
  by (auto simp: trivially_compatible_def open_application_def)

lemma dyn_render:
  assumes "concrete_type t"
  shows "parse_dyn_trait_name (render_type t) = None"
proof (cases t)
  case (TypeTree n ts)
  with assms have "\<not> starts_with n ''dyn ''" by (simp add: concrete_name_def)
  then have "\<not> starts_with (render_type t) ''dyn ''"
    using starts_with_before [of "CHR ''[''" "''dyn ''" n] by (simp add: TypeTree applied_type_def)
  then show ?thesis
    using str_trim_solid(1) [OF solid_render [OF concrete_plain [OF assms]]]
    by (simp add: parse_dyn_trait_name_def strip_prefix_def)
qed

text \<open>Printing is injective on plain types.\<close>

lemma render_injective: "plain_type s \<Longrightarrow> plain_type t \<Longrightarrow> render_type s = render_type t \<Longrightarrow> s = t"
proof (induction s arbitrary: t rule: plain_type.induct)
  case (1 n ts)
  obtain m us where t: "t = TypeTree m us" by (cases t)
  from 1 have name: "n = m" using base_type_render [of n ts] base_type_render [of m us] t by simp
  from 1 have args: "map render_type ts = map render_type us"
    using generic_args_render [of n ts] generic_args_render [of m us] t by simp
  have "ts = us"
  proof (rule list.inj_map_strong [OF _ args])
    fix a b
    assume "a \<in> set ts" "b \<in> set us" "render_type a = render_type b"
    with 1 show "a = b" by (simp add: t list_all_iff)
  qed
  with name t show ?case by simp
qed

section \<open>The checker decides the relation\<close>

lemma parsed_numeric:
  assumes "plain_type (TypeTree n ts)"
  shows "parse_integer_kind (render_type (TypeTree n ts)) = map_of integer_kinds n"
    "parse_float_kind (render_type (TypeTree n ts)) = parse_float_kind n"
proof -
  note base = base_type_render [OF assms]
  show "parse_integer_kind (render_type (TypeTree n ts)) = map_of integer_kinds n"
    unfolding parse_integer_kind_def base by (rule refl)
  have "base_type_name n = n"
    using assms by (simp add: base_type_name_def split_on_no_sep plain_name_def)
  then show "parse_float_kind (render_type (TypeTree n ts)) = parse_float_kind n"
    unfolding parse_float_kind_def base by simp
qed

lemma float_not_integer:
  assumes "parse_float_kind n = Some k" "plain_name n"
  shows "map_of integer_kinds n = None"
proof -
  have "base_type_name n = n"
    using assms(2) by (simp add: base_type_name_def split_on_no_sep plain_name_def)
  with assms(1) have "map_of [(''Float32'', F32Kind), (''Float64'', F64Kind), (''Float'', F64Kind)] n = Some k"
    by (simp only: parse_float_kind_def)
  from map_of_SomeD [OF this] have "n \<in> {''Float32'', ''Float64'', ''Float''}" by auto
  moreover have "map_of integer_kinds ''Float32'' = None" "map_of integer_kinds ''Float64'' = None"
    "map_of integer_kinds ''Float'' = None" by code_simp+
  ultimately show ?thesis by blast
qed

lemma lossless_values:
  assumes "map_of integer_kinds n = Some k" "map_of integer_kinds m = Some j"
  shows "integer_conversion_is_lossless k j \<longleftrightarrow> kind_values j \<subseteq> kind_values k"
proof -
  have "0 < snd (integer_kind_props k)" if "map_of integer_kinds n = Some k" for n k
    using that by (auto simp: integer_kinds_def integer_kind_props_def split: if_splits)
  with assms lossless_subset show ?thesis by blast
qed

lemma compatible_render:
  assumes "concrete_type (TypeTree n ts)" "concrete_type (TypeTree m us)"
  shows "types_compatible_with_dyn ck (render_type (TypeTree n ts)) (render_type (TypeTree m us)) \<longleftrightarrow>
    TypeTree n ts = TypeTree m us \<or>
    (case (map_of integer_kinds n, map_of integer_kinds m) of
       (Some k, Some j) \<Rightarrow> kind_values j \<subseteq> kind_values k
     | _ \<Rightarrow>
         (case (parse_float_kind n, parse_float_kind m) of
            (Some k, Some j) \<Rightarrow> k = j
          | _ \<Rightarrow>
              n = m \<and> ts \<noteq> [] \<and>
              list_all2 (\<lambda>s t. types_compatible_with_dyn ck (render_type s) (render_type t)) ts us))"
proof -
  let ?s = "TypeTree n ts" and ?t = "TypeTree m us"
  note plain = concrete_plain [OF assms(1)] concrete_plain [OF assms(2)]
  have never: "render_type ?t \<noteq> NEVER_TYPE" using assms(2) by (rule render_not_never)
  have trivial: "trivially_compatible (render_type ?s) (render_type ?t) \<longleftrightarrow> ?s = ?t"
    using trivially_render [OF assms] render_injective [OF plain] by blast
  have shape: "same_shape (render_type ?s) (render_type ?t) \<longleftrightarrow>
      n = m \<and> ts \<noteq> [] \<and> us \<noteq> [] \<and> length ts = length us"
    unfolding same_shape_def generic_args_render [OF plain(1)] generic_args_render [OF plain(2)]
      base_type_render [OF plain(1)] base_type_render [OF plain(2)] by auto
  have inner: "list_all (\<lambda>p. types_compatible_with_dyn ck (fst p) (snd p))
      (zip (map render_type ts) (map render_type us)) \<longleftrightarrow>
      list_all2 (\<lambda>s t. types_compatible_with_dyn ck (render_type s) (render_type t)) ts us"
    if "length ts = length us"
    using that by (auto simp: list_all2_iff list_all_iff zip_map_map)
  show ?thesis
    by (subst types_compatible_with_dyn.simps)
      (auto simp: never trivial dyn_render [OF assms(1)] numeric_compatible_def parsed_numeric [OF plain(1)]
        parsed_numeric [OF plain(2)] shape generic_args_render [OF plain(1)] generic_args_render [OF plain(2)]
        inner lossless_values list_all2_lengthD simp del: render_type.simps split: option.splits)
qed

lemma compatible_converts:
  assumes "concrete_type expected" "concrete_type found"
  shows "types_compatible_with_dyn ck (render_type expected) (render_type found) \<longleftrightarrow> converts expected found"
  using assms
proof (induction expected arbitrary: found rule: concrete_type.induct)
  case (1 n ts)
  obtain m us where t: "found = TypeTree m us" by (cases found)
  have name: "plain_name n" using 1(2) by (simp add: concrete_name_def)
  have inside: "list_all2 (\<lambda>s t. types_compatible_with_dyn ck (render_type s) (render_type t)) ts us \<longleftrightarrow>
      list_all2 converts ts us"
    by (rule list.rel_cong [OF refl refl]) (use 1 in \<open>auto simp: t list_all_iff\<close>)
  let ?same = "TypeTree n ts = TypeTree m us"
  let ?rest = "case (map_of integer_kinds n, map_of integer_kinds m) of
       (Some k, Some j) \<Rightarrow> kind_values j \<subseteq> kind_values k
     | _ \<Rightarrow> (case (parse_float_kind n, parse_float_kind m) of
            (Some k, Some j) \<Rightarrow> k = j
          | _ \<Rightarrow> n = m \<and> ts \<noteq> [] \<and> list_all2 converts ts us)"
  from compatible_render [of n ts m us ck] 1(2,3)
  have "types_compatible_with_dyn ck (render_type (TypeTree n ts)) (render_type found) \<longleftrightarrow> ?same \<or> ?rest"
    unfolding t inside by blast
  moreover have "converts (TypeTree n ts) found \<longleftrightarrow> ?same \<or> ?rest"
  proof
    assume "converts (TypeTree n ts) found"
    then show "?same \<or> ?rest"
      unfolding t by cases (use name in \<open>auto dest: float_not_integer split: option.splits\<close>)
  next
    assume "?same \<or> ?rest"
    then show "converts (TypeTree n ts) found"
      unfolding t by (auto intro: converts.intros split: option.splits)
  qed
  ultimately show ?case by blast
qed




section \<open>Where the inference and the relation go wrong\<close>

text \<open>
  The parameters of a function type convert in the same direction as its result: a function on
  \<open>Int8\<close> is accepted where a function on \<open>Int64\<close> is expected.
\<close>

lemma function_parameters_covariant:
  "types_compatible_with_dyn ck ''Fn[Int64, Int]'' ''Fn[Int8, Int]''"
proof -
  let ?f = "\<lambda>n. TypeTree ''Fn'' [TypeTree n [], TypeTree ''Int'' []]"
  have concrete: "concrete_type (?f ''Int64'')" "concrete_type (?f ''Int8'')"
    by (simp_all add: concrete_name_def plain_name_def solid_def is_whitespace_def NEVER_TYPE_def starts_with_def)
  have "converts (TypeTree ''Int64'' []) (TypeTree ''Int8'' [])"
    by (rule integer [of _ "FixedKind True 64" _ "FixedKind True 8"])
      (simp_all add: integer_kinds_def kind_values_def integer_kind_props_def)
  then have "converts (?f ''Int64'') (?f ''Int8'')" by (intro inside) (simp_all add: same)
  with compatible_converts [OF concrete, of ck] show ?thesis by (simp add: applied_type_def)
qed

text \<open>
  Two arguments of different integer types for one type parameter make its binding a hole, and then
  the next argument replaces the hole, whatever its type is.
\<close>

lemma tuple_arguments:
  "generic_args_or_empty ''Tuple[T, T]'' = [''T'', ''T'']" "base_type_name ''Tuple[T, T]'' = ''Tuple''"
  "generic_args_or_empty ''Tuple[T, T, T]'' = [''T'', ''T'', ''T'']" "base_type_name ''Tuple[T, T, T]'' = ''Tuple''"
  "generic_args_or_empty ''Tuple[Int64, Int8]'' = [''Int64'', ''Int8'']" "base_type_name ''Tuple[Int64, Int8]'' = ''Tuple''"
  "generic_args_or_empty ''Tuple[Int64, Int8, String]'' = [''Int64'', ''Int8'', ''String'']"
  "base_type_name ''Tuple[Int64, Int8, String]'' = ''Tuple''"
proof -
  let ?leaf = "\<lambda>n. TypeTree n []"
  have args: "generic_args_or_empty (applied_type ''Tuple'' ns) = ns" "base_type_name (applied_type ''Tuple'' ns) = ''Tuple''"
    if "list_all plain_name ns" "ns \<noteq> []" for ns
  proof -
    have "plain_type (TypeTree ''Tuple'' (map ?leaf ns))"
      using that by (simp add: list_all_iff plain_name_def [of "''Tuple''"] solid_def [of "''Tuple''"] is_whitespace_def)
    from generic_args_render [OF this] base_type_render [OF this] that(2)
    show "generic_args_or_empty (applied_type ''Tuple'' ns) = ns" "base_type_name (applied_type ''Tuple'' ns) = ''Tuple''"
      by (simp_all add: comp_def)
  qed
  have plain: "plain_name ''T''" "plain_name ''Int64''" "plain_name ''Int8''" "plain_name ''String''"
    by (simp_all add: plain_name_def solid_def is_whitespace_def)
  show "generic_args_or_empty ''Tuple[T, T]'' = [''T'', ''T'']" "base_type_name ''Tuple[T, T]'' = ''Tuple''"
    using args [of "[''T'', ''T'']"] plain by (simp_all add: applied_type_def)
  show "generic_args_or_empty ''Tuple[T, T, T]'' = [''T'', ''T'', ''T'']" "base_type_name ''Tuple[T, T, T]'' = ''Tuple''"
    using args [of "[''T'', ''T'', ''T'']"] plain by (simp_all add: applied_type_def)
  show "generic_args_or_empty ''Tuple[Int64, Int8]'' = [''Int64'', ''Int8'']" "base_type_name ''Tuple[Int64, Int8]'' = ''Tuple''"
    using args [of "[''Int64'', ''Int8'']"] plain by (simp_all add: applied_type_def)
  show "generic_args_or_empty ''Tuple[Int64, Int8, String]'' = [''Int64'', ''Int8'', ''String'']"
    "base_type_name ''Tuple[Int64, Int8, String]'' = ''Tuple''"
    using args [of "[''Int64'', ''Int8'', ''String'']"] plain by (simp_all add: applied_type_def)
qed

lemma integers_forgotten:
  "bind_generic ''T'' ''Int8'' [(''T'', ''Int64'')] = (True, [(''T'', ''<?>'')])"
  "bind_generic ''T'' ''String'' [(''T'', ''<?>'')] = (True, [(''T'', ''String'')])"
proof -
  have leaf: "generic_args_or_empty ''Int64'' = []" "generic_args_or_empty ''Int8'' = []"
    by (simp_all add: generic_args_or_empty_def type_generic_args_def strip_prefix_def starts_with_def)
  have dyn: "parse_dyn_trait_name s = None" if "solid s" "\<not> starts_with s ''dyn ''" for s
    using that by (simp add: parse_dyn_trait_name_def strip_prefix_def str_trim_solid)
  have solid: "solid ''Int64''" "solid ''Int8''" "solid ''String''" "solid ''<?>''"
    by (simp_all add: solid_def is_whitespace_def)
  have "parse_integer_kind ''Int64'' = Some (FixedKind True 64)" "parse_integer_kind ''Int8'' = Some (FixedKind True 8)"
    by code_simp+
  then have "type_compatible ''Int64'' ''Int8''"
    by (simp add: type_compatible.simps numeric_compatible_def integer_conversion_is_lossless_def integer_kind_props_def)
  moreover have "merge_types ''Int64'' ''Int8'' = ''<?>''"
    by (simp add: merge_types.simps leaf applications_of_def same_shape_def)
  ultimately show "bind_generic ''T'' ''Int8'' [(''T'', ''Int64'')] = (True, [(''T'', ''<?>'')])"
    using dyn [OF solid(1)] by (simp add: bind_generic_def starts_with_def contains_unresolved_type_def)
  show "bind_generic ''T'' ''String'' [(''T'', ''<?>'')] = (True, [(''T'', ''String'')])"
    using dyn [OF solid(4)] by (simp add: bind_generic_def starts_with_def contains_unresolved_type_def)
qed

lemma inference_forgets_binding:
  "infer_generic_bindings [''T''] ''Tuple[T, T]'' ''Tuple[Int64, Int8]'' [] = (True, [(''T'', ''<?>'')])"
  "infer_generic_bindings [''T''] ''Tuple[T, T, T]'' ''Tuple[Int64, Int8, String]'' [] = (True, [(''T'', ''String'')])"
proof -
  have first: "bind_generic ''T'' ''Int64'' [] = (True, [(''T'', ''Int64'')])" by (simp add: bind_generic_def)
  have param: "infer_generic_bindings [''T''] ''T'' found b = bind_generic ''T'' found b" for found b
    by (simp add: infer_generic_bindings.simps)
  show "infer_generic_bindings [''T''] ''Tuple[T, T]'' ''Tuple[Int64, Int8]'' [] = (True, [(''T'', ''<?>'')])"
    by (subst infer_generic_bindings.simps)
      (simp add: tuple_arguments same_shape_def param first integers_forgotten)
  show "infer_generic_bindings [''T''] ''Tuple[T, T, T]'' ''Tuple[Int64, Int8, String]'' [] = (True, [(''T'', ''String'')])"
    by (subst infer_generic_bindings.simps)
      (simp add: tuple_arguments same_shape_def param first integers_forgotten)
qed

end
