(* ===== verification/Instantiations.thy ===== *)
theory Instantiations
  imports TypeRelations
begin

text \<open>
  The generic instantiations that the type checker collects for the code generator:
  \<open>src/typecheck.rs\<close>, \<open>record_instantiation\<close> with the names that it makes, the types that are visible
  from a module, and the list that \<open>finish\<close> returns. The fields of \<open>Checker\<close> that only these functions
  use are the record \<open>instantiation_table\<close>.
\<close>

section \<open>Visible types\<close>

definition module_matches_current :: "checker \<Rightarrow> string \<Rightarrow> bool" where
  "module_matches_current ck m = (ck_current_module ck = Some m)"

definition current_module_name :: "checker \<Rightarrow> string" where
  "current_module_name ck =
     (case ck_current_module ck of
        Some m \<Rightarrow> m
      | None \<Rightarrow> (case rs_entry_module (ck_resolution ck) of Some m \<Rightarrow> m | None \<Rightarrow> ''<root>''))"

definition imports_for_current_module :: "checker \<Rightarrow> string_set" where
  "imports_for_current_module ck =
     (case bt_get (rs_module_imports (ck_resolution ck)) (current_module_name ck) of
        Some ms \<Rightarrow> ms
      | None \<Rightarrow> rs_imports (ck_resolution ck))"

definition module_is_imported_in_current_scope :: "checker \<Rightarrow> string \<Rightarrow> bool" where
  "module_is_imported_in_current_scope ck m =
     (module_matches_current ck m \<or> m \<in> set (imports_for_current_module ck))"

definition field_is_accessible_from_current :: "checker \<Rightarrow> string \<Rightarrow> visibility \<Rightarrow> bool" where
  "field_is_accessible_from_current ck owner v = (module_matches_current ck owner \<or> v \<noteq> Private)"

definition function_is_accessible_from_current :: "checker \<Rightarrow> string \<Rightarrow> function_info \<Rightarrow> bool" where
  "function_is_accessible_from_current ck m info =
     (module_matches_current ck m \<or> fi_visibility info \<noteq> Private)"

definition prefer_local_callable_modules :: "checker \<Rightarrow> string list \<Rightarrow> string list" where
  "prefer_local_callable_modules ck candidates =
     (let local = filter (module_matches_current ck) candidates;
          user = filter (\<lambda>m. \<not> is_std_module_name m) candidates
      in if length candidates \<le> 1 then candidates
         else if local \<noteq> [] then local
         else if user \<noteq> [] then user
         else candidates)"

text \<open>
  The loop over the imports, for structs and for enums: \<open>usable\<close> says that an info may be used here,
  \<open>sym_of\<close> is its symbol, and \<open>seen\<close> holds the symbols that are already listed.
\<close>

fun imported_candidates ::
  "('a \<Rightarrow> bool) \<Rightarrow> ('a \<Rightarrow> symbol_id) \<Rightarrow> 'a module_map \<Rightarrow> string \<Rightarrow> symbol_id list \<Rightarrow> string list \<Rightarrow> 'a list" where
  "imported_candidates usable sym_of infos short seen [] = []"
| "imported_candidates usable sym_of infos short seen (m # ms) =
     (case bt_get infos (m, short) of
        None \<Rightarrow> imported_candidates usable sym_of infos short seen ms
      | Some info \<Rightarrow>
          if usable info \<and> sym_of info \<notin> set seen
          then info # imported_candidates usable sym_of infos short (bs_insert (sym_of info) seen) ms
          else imported_candidates usable sym_of infos short seen ms)"

definition visible_candidates ::
  "checker \<Rightarrow> ('a \<Rightarrow> bool) \<Rightarrow> ('a \<Rightarrow> symbol_id) \<Rightarrow> 'a module_map \<Rightarrow> 'a name_map \<Rightarrow> string \<Rightarrow> 'a list" where
  "visible_candidates ck usable sym_of infos globals name =
     (case rsplit_once CHR ''.'' name of
        Some (m, short) \<Rightarrow> (case bt_get infos (m, short) of Some info \<Rightarrow> filter usable [info] | None \<Rightarrow> [])
      | None \<Rightarrow>
          (let short = unqualified_name name;
               own = (case bt_get infos (current_module_name ck, short) of
                        Some info \<Rightarrow> filter usable [info] | None \<Rightarrow> []);
               out = own @ imported_candidates usable sym_of infos short (map sym_of own)
                       (imports_for_current_module ck)
           in if out = [] then (case bt_get globals short of Some info \<Rightarrow> filter usable [info] | None \<Rightarrow> [])
              else out))"

definition visible_struct_candidates :: "checker \<Rightarrow> string \<Rightarrow> struct_info list" where
  "visible_struct_candidates ck name =
     visible_candidates ck (\<lambda>info. field_is_accessible_from_current ck (sti_module info) (sti_visibility info))
       sti_symbol (rs_module_struct_infos (ck_resolution ck)) (rs_structs (ck_resolution ck)) name"

definition visible_enum_candidates :: "checker \<Rightarrow> string \<Rightarrow> enum_info list" where
  "visible_enum_candidates ck name =
     visible_candidates ck (\<lambda>info. field_is_accessible_from_current ck (eni_module info) (eni_visibility info))
       eni_symbol (rs_module_enum_infos (ck_resolution ck)) (rs_enums (ck_resolution ck)) name"

definition first_candidate :: "'a list \<Rightarrow> 'a option" where
  "first_candidate xs = (case xs of [] \<Rightarrow> None | x # _ \<Rightarrow> Some x)"

definition visible_struct_info :: "checker \<Rightarrow> string \<Rightarrow> struct_info option" where
  "visible_struct_info ck name = first_candidate (visible_struct_candidates ck name)"

definition visible_enum_info :: "checker \<Rightarrow> string \<Rightarrow> enum_info option" where
  "visible_enum_info ck name = first_candidate (visible_enum_candidates ck name)"

definition find_struct :: "checker \<Rightarrow> string \<Rightarrow> struct_info option" where
  "find_struct ck ty =
     (let base = base_type_name (normalize_type ck ty) in
      case visible_struct_info ck base of
        Some info \<Rightarrow> Some info
      | None \<Rightarrow> visible_struct_info ck (unqualified_name base))"

definition find_enum :: "checker \<Rightarrow> string \<Rightarrow> enum_info option" where
  "find_enum ck ty =
     (let base = base_type_name (normalize_type ck ty) in
      case visible_enum_info ck base of
        Some info \<Rightarrow> Some info
      | None \<Rightarrow> visible_enum_info ck (unqualified_name base))"

definition extract_expected_enum_name :: "checker \<Rightarrow> string \<Rightarrow> string option" where
  "extract_expected_enum_name ck expected =
     (let base = base_type_name (normalize_type ck expected) in
      if visible_enum_info ck base \<noteq> None then Some (unqualified_name base) else None)"

definition second_arg :: "string \<Rightarrow> string option" where
  "second_arg ty = (case type_generic_args ty of Some (_ # err # _) \<Rightarrow> Some err | _ \<Rightarrow> None)"

definition extract_result_error_expected :: "checker \<Rightarrow> string \<Rightarrow> string option" where
  "extract_result_error_expected ck expected =
     (let expected_norm = normalize_type ck expected in
      if base_type_name expected_norm = ''Result'' then second_arg expected_norm
      else if base_type_name expected_norm = ''Async'' then
        (case type_generic_args expected_norm of
           Some (inner # _) \<Rightarrow> if base_type_name inner = ''Result'' then second_arg inner else None
         | _ \<Rightarrow> None)
      else None)"

section \<open>Names of instantiations\<close>

fun upper_hex :: "nat \<Rightarrow> string" where
  "upper_hex n =
     (if n < 16 then [char_of (if n < 10 then 48 + n else 55 + n)]
      else upper_hex (n div 16) @ [char_of (if n mod 16 < 10 then 48 + n mod 16 else 55 + n mod 16)])"

declare upper_hex.simps [simp del]

text \<open>\<open>{:02X}\<close>\<close>

definition hex_code :: "rchar \<Rightarrow> string" where
  "hex_code c = (if c < 16 then ''0'' else []) @ upper_hex c"

definition mangle_char :: "rchar \<Rightarrow> string" where
  "mangle_char c =
     (if 65 \<le> c \<and> c \<le> 90 \<or> 97 \<le> c \<and> c \<le> 122 \<or> 48 \<le> c \<and> c \<le> 57 \<or> c = 95 then utf8_encode c
      else if c = of_char CHR ''['' then ''_lb_''
      else if c = of_char CHR '']'' then ''_rb_''
      else if c = of_char CHR '','' then ''_c_''
      else if c = of_char CHR '' '' then []
      else ''_x'' @ hex_code c @ ''_'')"

definition mangle_component :: "string \<Rightarrow> string" where
  "mangle_component input = concat (map mangle_char (str_chars input))"

definition mangle_instantiation :: "string \<Rightarrow> string \<Rightarrow> string list \<Rightarrow> string" where
  "mangle_instantiation kind_tag name type_args =
     kind_tag @ ''_'' @ mangle_component name @ concat (map (\<lambda>a. ''_'' @ mangle_component a) type_args)"

definition instantiation_kind_tag :: "generic_instantiation_kind \<Rightarrow> string" where
  "instantiation_kind_tag kind = (case kind of GikFunction \<Rightarrow> ''fn'' | GikStruct \<Rightarrow> ''struct'' | GikEnum \<Rightarrow> ''enum'')"

section \<open>The table\<close>

record pending_instantiation =
  pi_kind :: generic_instantiation_kind
  pi_name :: string
  pi_symbol :: "symbol_id option"
  pi_type_args :: "string list"
  pi_mangled :: string

record instantiation_table =
  it_mangled_keys :: "string name_map"
  it_seen :: "pending_instantiation name_map"
  it_diagnostics :: "diagnostic list"

definition empty_instantiations :: instantiation_table where
  "empty_instantiations = \<lparr>it_mangled_keys = [], it_seen = [], it_diagnostics = []\<rparr>"

definition instantiation_key :: "generic_instantiation_kind \<Rightarrow> string \<Rightarrow> string list \<Rightarrow> string" where
  "instantiation_key kind name type_args =
     instantiation_kind_tag kind @ ''::'' @ name @ ''['' @ join_with '', '' type_args @ '']''"

definition concrete_args :: "string list \<Rightarrow> bool" where
  "concrete_args type_args \<longleftrightarrow> type_args \<noteq> [] \<and> \<not> list_ex contains_unresolved_type type_args"

definition mangling_collision :: "derive_reasoning \<Rightarrow> string \<Rightarrow> string \<Rightarrow> string \<Rightarrow> span \<Rightarrow> diagnostic option" where
  "mangling_collision derive diag_file key existing_key sp =
     map_option (with_help derive ''refine mangling strategy to keep instantiation keys unique'')
       (diagnostic_error derive ''E1255''
          (''generic instantiation mangling collision: '' @ in_quotes key @ '' conflicts with '' @
            in_quotes existing_key)
          diag_file sp)"

text \<open>\<open>None\<close> is the panic on a code that is not registered.\<close>

definition record_instantiation ::
  "derive_reasoning \<Rightarrow> string \<Rightarrow> generic_instantiation_kind \<Rightarrow> string \<Rightarrow> symbol_id option \<Rightarrow> string list \<Rightarrow> span \<Rightarrow>
   instantiation_table \<Rightarrow> instantiation_table option" where
  "record_instantiation derive diag_file kind name target type_args sp it =
     (if \<not> concrete_args type_args then Some it
      else
        (let key = instantiation_key kind name type_args;
             mangled = mangle_instantiation (instantiation_kind_tag kind) name type_args;
             entry = \<lparr>pi_kind = kind, pi_name = name, pi_symbol = target, pi_type_args = type_args, pi_mangled = mangled\<rparr>
         in case bt_get (it_mangled_keys it) mangled of
              Some existing_key \<Rightarrow>
                if existing_key \<noteq> key then
                  map_option (\<lambda>d. it\<lparr>it_diagnostics := it_diagnostics it @ [d]\<rparr>)
                    (mangling_collision derive diag_file key existing_key sp)
                else Some (it\<lparr>it_seen := bt_or_insert key entry (it_seen it)\<rparr>)
            | None \<Rightarrow>
                Some (it\<lparr>it_mangled_keys := bt_insert mangled key (it_mangled_keys it),
                         it_seen := bt_or_insert key entry (it_seen it)\<rparr>)))"

text \<open>The types that an applied type contains are recorded first, the innermost before the outer ones.\<close>

definition record_applied_base ::
  "derive_reasoning \<Rightarrow> checker \<Rightarrow> string \<Rightarrow> string list \<Rightarrow> span \<Rightarrow> instantiation_table \<Rightarrow> instantiation_table option" where
  "record_applied_base derive ck base args sp it =
     (if base = ''Option'' \<or> base = ''Result'' then
        record_instantiation derive (ck_file ck) GikEnum base None args sp it
      else case visible_enum_info ck base of
        Some info \<Rightarrow>
          if length (eni_generics info) = length args then
            record_instantiation derive (ck_file ck) GikEnum base (Some (eni_symbol info)) args sp it
          else Some it
      | None \<Rightarrow>
          (case visible_struct_info ck base of
             Some info \<Rightarrow>
               if length (sti_generics info) = length args then
                 record_instantiation derive (ck_file ck) GikStruct base (Some (sti_symbol info)) args sp it
               else Some it
           | None \<Rightarrow> Some it))"

fun longest_text :: "string list \<Rightarrow> nat" where
  "longest_text [] = 0"
| "longest_text (s # ss) = max (length s) (longest_text ss)"

lemma longest_text_less: "(\<And>s. s \<in> set ss \<Longrightarrow> length s < n) \<Longrightarrow> 0 < n \<Longrightarrow> longest_text ss < n"
  by (induction ss) auto

function (sequential) record_instantiation_from_applied_type ::
    "derive_reasoning \<Rightarrow> checker \<Rightarrow> span \<Rightarrow> string \<Rightarrow> instantiation_table \<Rightarrow> instantiation_table option"
  and record_each_applied ::
    "derive_reasoning \<Rightarrow> checker \<Rightarrow> span \<Rightarrow> string list \<Rightarrow> instantiation_table \<Rightarrow> instantiation_table option" where
  "record_instantiation_from_applied_type derive ck sp ty it =
     (case type_generic_args ty of
        None \<Rightarrow> Some it
      | Some args \<Rightarrow>
          if \<not> concrete_args args then Some it
          else Option.bind (record_each_applied derive ck sp args it)
                 (record_applied_base derive ck (base_type_name ty) args sp))"
| "record_each_applied derive ck sp [] it = Some it"
| "record_each_applied derive ck sp (arg # args) it =
     Option.bind (record_instantiation_from_applied_type derive ck sp arg it)
       (record_each_applied derive ck sp args)"
  by pat_completeness auto

termination
proof (relation "inv_image (less_than <*lex*> less_than) (\<lambda>x. case x of
      Inl (_, _, _, ty, _) \<Rightarrow> (length ty, 0::nat)
    | Inr (_, _, _, args, _) \<Rightarrow> (longest_text args, Suc (length args)))", goal_cases)
  case (2 derive ck sp ty it args)
  then obtain a where "a \<in> set args" by (cases args) (auto simp: concrete_args_def)
  with 2 have "length a < length ty" by (simp add: length_type_generic_args)
  then have "0 < length ty" by linarith
  with 2 have "longest_text args < length ty"
    by (intro longest_text_less) (auto dest: length_type_generic_args)
  then show ?case by simp
qed (auto simp: max_def)

declare record_instantiation_from_applied_type.simps [simp del]

text \<open>The part of \<open>finish\<close> that numbers the instantiations, in the order of their keys.\<close>

definition generic_instantiations :: "instantiation_table \<Rightarrow> generic_instantiation list" where
  "generic_instantiations it =
     map (\<lambda>(i, _, p). \<lparr>gi_id = i + 1, gi_kind = pi_kind p, gi_name = pi_name p, gi_symbol = pi_symbol p,
                      gi_type_args = pi_type_args p, gi_mangled = pi_mangled p\<rparr>)
       (enumerate 0 (it_seen it))"

end
