(* ===== verification/InstantiationTable.thy ===== *)
theory InstantiationTable
  imports Instantiations TypeTrees
begin

text \<open>
  What the table of instantiations guarantees to the code generator, which names a function after
  the mangled text: the names are distinct, and nothing that was requested is missing unless a
  collision was reported.
\<close>

section \<open>The invariant\<close>

text \<open>
  A request is recorded under its key, and the mangled name of a recorded request leads back to its
  key; so two recorded requests never share a name.
\<close>

definition entry_ok :: "string name_map \<Rightarrow> string \<Rightarrow> pending_instantiation \<Rightarrow> bool" where
  "entry_ok names key p \<longleftrightarrow>
     key = instantiation_key (pi_kind p) (pi_name p) (pi_type_args p) \<and>
     pi_mangled p = mangle_instantiation (instantiation_kind_tag (pi_kind p)) (pi_name p) (pi_type_args p) \<and>
     concrete_args (pi_type_args p) \<and> bt_get names (pi_mangled p) = Some key"

definition table_ok :: "instantiation_table \<Rightarrow> bool" where
  "table_ok it \<longleftrightarrow>
     bt_wf (it_seen it) \<and> (\<forall>key p. bt_get (it_seen it) key = Some p \<longrightarrow> entry_ok (it_mangled_keys it) key p)"

text \<open>
  A step of the recording: the table stays correct, nothing is forgotten, and no diagnostic is
  withdrawn.
\<close>

definition table_step :: "instantiation_table \<Rightarrow> instantiation_table \<Rightarrow> bool" where
  "table_step it it' \<longleftrightarrow>
     (table_ok it \<longrightarrow> table_ok it') \<and> (\<forall>key. bt_has (it_seen it) key \<longrightarrow> bt_has (it_seen it') key) \<and>
     (\<exists>ds. it_diagnostics it' = it_diagnostics it @ ds)"

lemma table_step_refl [simp]: "table_step it it"
  by (simp add: table_step_def)

lemma table_step_trans: "table_step a b \<Longrightarrow> table_step b c \<Longrightarrow> table_step a c"
  unfolding table_step_def by (metis append_assoc)

lemma table_ok_empty: "table_ok empty_instantiations"
  by (simp add: table_ok_def empty_instantiations_def bt_wf_def)

lemma bt_wf_or_insert: "bt_wf m \<Longrightarrow> bt_wf (bt_or_insert k v m)"
  by (simp add: bt_or_insert_def bt_wf_insert)

lemma table_ok_insert:
  assumes "table_ok it" "entry_ok names key p"
    and "\<And>mangled key'. bt_get (it_mangled_keys it) mangled = Some key' \<Longrightarrow> bt_get names mangled = Some key'"
  shows "table_ok (it\<lparr>it_mangled_keys := names, it_seen := bt_or_insert key p (it_seen it)\<rparr>)"
proof -
  have old: "entry_ok names key' q" if "bt_get (it_seen it) key' = Some q" for key' q
  proof -
    from assms(1) that have "entry_ok (it_mangled_keys it) key' q" by (simp add: table_ok_def)
    with assms(3) show ?thesis unfolding entry_ok_def by blast
  qed
  have "entry_ok names key' q" if "bt_get (bt_or_insert key p (it_seen it)) key' = Some q" for key' q
    using that old assms(2) by (auto simp: bt_get_or_insert split: if_splits option.splits)
  with assms(1) show ?thesis by (simp add: table_ok_def bt_wf_or_insert)
qed

definition recorded :: "instantiation_table \<Rightarrow> generic_instantiation_kind \<Rightarrow> string \<Rightarrow> string list \<Rightarrow> bool" where
  "recorded it kind name type_args \<longleftrightarrow> bt_has (it_seen it) (instantiation_key kind name type_args)"

lemma record_step:
  assumes "record_instantiation derive diag_file kind name target type_args sp it = Some it'"
  shows "table_step it it'"
    and "concrete_args type_args \<Longrightarrow> recorded it' kind name type_args \<or> it_diagnostics it' \<noteq> it_diagnostics it"
proof -
  let ?key = "instantiation_key kind name type_args"
  let ?mangled = "mangle_instantiation (instantiation_kind_tag kind) name type_args"
  let ?p = "\<lparr>pi_kind = kind, pi_name = name, pi_symbol = target, pi_type_args = type_args, pi_mangled = ?mangled\<rparr>"
  let ?seen = "bt_or_insert ?key ?p (it_seen it)"
  have "table_step it it' \<and>
      (concrete_args type_args \<longrightarrow> recorded it' kind name type_args \<or> it_diagnostics it' \<noteq> it_diagnostics it)"
  proof (cases "concrete_args type_args")
    case False
    with assms show ?thesis by (simp add: record_instantiation_def)
  next
    case True
    show ?thesis
    proof (cases "bt_get (it_mangled_keys it) ?mangled")
      case None
      with assms True have it': "it' = it\<lparr>it_mangled_keys := bt_insert ?mangled ?key (it_mangled_keys it), it_seen := ?seen\<rparr>"
        by (simp add: record_instantiation_def Let_def)
      have "entry_ok (bt_insert ?mangled ?key (it_mangled_keys it)) ?key ?p"
        using True by (simp add: entry_ok_def map_of_bt_insert)
      then have "table_ok it \<Longrightarrow> table_ok it'"
        unfolding it' using None by (intro table_ok_insert) (auto simp: map_of_bt_insert)
      then show ?thesis by (auto simp: table_step_def recorded_def it')
    next
      case (Some key')
      show ?thesis
      proof (cases "key' = ?key")
        case True
        with Some assms \<open>concrete_args type_args\<close> have it': "it' = it\<lparr>it_mangled_keys := it_mangled_keys it, it_seen := ?seen\<rparr>"
          by (simp add: record_instantiation_def Let_def)
        have "entry_ok (it_mangled_keys it) ?key ?p"
          using True Some \<open>concrete_args type_args\<close> by (simp add: entry_ok_def)
        then have "table_ok it \<Longrightarrow> table_ok it'" unfolding it' by (intro table_ok_insert) auto
        then show ?thesis by (auto simp: table_step_def recorded_def it')
      next
        case False
        with Some assms True obtain d where "it' = it\<lparr>it_diagnostics := it_diagnostics it @ [d]\<rparr>"
          by (auto simp: record_instantiation_def Let_def)
        then show ?thesis by (simp add: table_step_def table_ok_def)
      qed
    qed
  qed
  then show "table_step it it'"
    "concrete_args type_args \<Longrightarrow> recorded it' kind name type_args \<or> it_diagnostics it' \<noteq> it_diagnostics it"
    by simp_all
qed

lemma record_applied_base_step: "record_applied_base derive ck base args sp it = Some it' \<Longrightarrow> table_step it it'"
  by (auto simp: record_applied_base_def split: if_splits option.splits dest: record_step(1))

lemma record_applied_step:
  "record_instantiation_from_applied_type derive ck sp ty it = Some it' \<Longrightarrow> table_step it it'"
  "record_each_applied derive ck sp args it = Some it' \<Longrightarrow> table_step it it'"
proof (induction derive ck sp ty it and derive ck sp args it arbitrary: it' and it'
    rule: record_instantiation_from_applied_type_record_each_applied.induct)
  case (1 derive ck sp ty it)
  show ?case
  proof (cases "type_generic_args ty")
    case None
    with 1(2) show ?thesis by (simp add: record_instantiation_from_applied_type.simps)
  next
    case (Some args)
    show ?thesis
    proof (cases "concrete_args args")
      case False
      with 1(2) Some show ?thesis by (simp add: record_instantiation_from_applied_type.simps)
    next
      case True
      with 1(2) Some obtain s where s: "record_each_applied derive ck sp args it = Some s"
        "record_applied_base derive ck (base_type_name ty) args sp s = Some it'"
        by (auto simp: record_instantiation_from_applied_type.simps bind_eq_Some_conv)
      from 1(1) Some True s(1) have "table_step it s" by blast
      with record_applied_base_step [OF s(2)] table_step_trans show ?thesis by blast
    qed
  qed
next
  case (3 derive ck sp arg args it)
  from 3(3) obtain s where s: "record_instantiation_from_applied_type derive ck sp arg it = Some s"
    "record_each_applied derive ck sp args s = Some it'"
    by (auto simp: bind_eq_Some_conv)
  from 3(1) [OF s(1)] 3(2) [OF s] table_step_trans show ?case by blast
qed simp

section \<open>Runs\<close>

text \<open>A request: an instantiation that a call or a literal names, or a type whose parts are recorded.\<close>

datatype instantiation_request =
    RequestNamed generic_instantiation_kind string "symbol_id option" "string list" span
  | RequestType string span

fun record_request ::
  "derive_reasoning \<Rightarrow> checker \<Rightarrow> instantiation_request \<Rightarrow> instantiation_table \<Rightarrow> instantiation_table option" where
  "record_request derive ck (RequestNamed kind name target type_args sp) it =
     record_instantiation derive (ck_file ck) kind name target type_args sp it"
| "record_request derive ck (RequestType ty sp) it =
     record_instantiation_from_applied_type derive ck sp ty it"

fun record_requests ::
  "derive_reasoning \<Rightarrow> (checker \<times> instantiation_request) list \<Rightarrow> instantiation_table \<Rightarrow> instantiation_table option" where
  "record_requests derive [] it = Some it"
| "record_requests derive ((ck, r) # rs) it = Option.bind (record_request derive ck r it) (record_requests derive rs)"

lemma record_request_step: "record_request derive ck r it = Some it' \<Longrightarrow> table_step it it'"
  by (cases r) (auto dest: record_step(1) record_applied_step(1))

lemma record_requests_step: "record_requests derive rs it = Some it' \<Longrightarrow> table_step it it'"
proof (induction derive rs it rule: record_requests.induct)
  case (2 derive ck r rs it)
  then obtain s where "record_request derive ck r it = Some s" "record_requests derive rs s = Some it'"
    by (auto simp: bind_eq_Some_conv)
  with 2 record_request_step table_step_trans show ?case by blast
qed simp

lemma record_requests_recorded:
  assumes "record_requests derive rs it = Some it'" "it_diagnostics it' = it_diagnostics it"
    and "(ck, RequestNamed kind name target type_args sp) \<in> set rs" "concrete_args type_args"
  shows "recorded it' kind name type_args"
  using assms
proof (induction derive rs it rule: record_requests.induct)
  case (2 derive c r rs it)
  then obtain s where s: "record_request derive c r it = Some s" "record_requests derive rs s = Some it'"
    by (auto simp: bind_eq_Some_conv)
  note steps = record_request_step [OF s(1)] record_requests_step [OF s(2)]
  from steps obtain ds ds' where "it_diagnostics s = it_diagnostics it @ ds" "it_diagnostics it' = it_diagnostics s @ ds'"
    unfolding table_step_def by blast
  with "2.prems"(2) have same: "it_diagnostics s = it_diagnostics it" "it_diagnostics it' = it_diagnostics s"
    by simp_all
  show ?case
  proof (cases "(c, r) = (ck, RequestNamed kind name target type_args sp)")
    case True
    with s(1) have "record_instantiation derive (ck_file ck) kind name target type_args sp it = Some s" by simp
    from record_step(2) [OF this "2.prems"(4)] same(1) have "recorded s kind name type_args" by simp
    with steps(2) show ?thesis by (auto simp: recorded_def table_step_def)
  next
    case False
    with "2.prems"(3) have "(ck, RequestNamed kind name target type_args sp) \<in> set rs" by auto
    from "2.IH" [OF s(1) s(2) same(2) this "2.prems"(4)] show ?thesis .
  qed
qed simp

lemma mangled_distinct:
  assumes "table_ok it"
  shows "distinct (map (\<lambda>(_, p). pi_mangled p) (it_seen it))"
proof -
  have d: "distinct (map fst (it_seen it))" using assms bt.keys_distinct by (auto simp: table_ok_def)
  have get: "entry_ok (it_mangled_keys it) key p" if "(key, p) \<in> set (it_seen it)" for key p
    using assms that d by (auto simp: table_ok_def)
  have "inj_on (\<lambda>(_, p). pi_mangled p) (set (it_seen it))"
  proof (rule inj_onI, clarify)
    fix k p k' p'
    assume *: "(k, p) \<in> set (it_seen it)" "(k', p') \<in> set (it_seen it)" "pi_mangled p = pi_mangled p'"
    from get [OF *(1)] have "bt_get (it_mangled_keys it) (pi_mangled p) = Some k" unfolding entry_ok_def by blast
    moreover from get [OF *(2)] have "bt_get (it_mangled_keys it) (pi_mangled p') = Some k'"
      unfolding entry_ok_def by blast
    ultimately have "k = k'" using *(3) by simp
    with * d show "k = k' \<and> p = p'" by (metis map_of_eq_Some_iff option.inject)
  qed
  with d show ?thesis by (simp add: distinct_map)
qed


section \<open>Collisions\<close>

definition word_char :: "char \<Rightarrow> bool" where
  "word_char c \<longleftrightarrow>
     (let n = of_char c :: nat in 65 \<le> n \<and> n \<le> 90 \<or> 97 \<le> n \<and> n \<le> 122 \<or> 48 \<le> n \<and> n \<le> 57 \<or> n = 95)"

lemma mangle_word: "list_all word_char s \<Longrightarrow> mangle_component s = s"
proof -
  assume s: "list_all word_char s"
  then have "list_all (\<lambda>c. of_char c < (128 :: nat)) s" by (auto simp: list_all_iff word_char_def Let_def)
  moreover have "mangle_char (of_char c) = [c]" if "word_char c" for c
    using that by (auto simp: mangle_char_def word_char_def Let_def utf8_encode_def byte_def)
  then have "concat (map (mangle_char \<circ> of_char) s) = s" using s by (induction s) auto
  ultimately show ?thesis by (simp add: mangle_component_def str_chars_ascii)
qed

text \<open>The functions \<open>f[A, B]\<close> and \<open>f_A[B]\<close> get one name: the second request is reported and dropped.\<close>

definition colliding_requests :: "checker \<Rightarrow> (checker \<times> instantiation_request) list" where
  "colliding_requests ck =
     [(ck, RequestNamed GikFunction ''f'' (Some 1) [''A'', ''B''] (span_new 0 1)),
      (ck, RequestNamed GikFunction ''f_A'' (Some 2) [''B''] (span_new 2 3))]"

lemma words_concrete:
  "list_all word_char ''f''" "list_all word_char ''f_A''" "list_all word_char ''A''" "list_all word_char ''B''"
  "list_all word_char ''Int''" "concrete_args [''A'', ''B'']" "concrete_args [''B'']" "concrete_args [''Int'']"
  by (simp_all add: word_char_def concrete_args_def contains_unresolved_type_def starts_with_def)

lemma mangled_words:
  "mangle_component ''f'' = ''f''" "mangle_component ''f_A'' = ''f_A''" "mangle_component ''A'' = ''A''"
  "mangle_component ''B'' = ''B''" "mangle_component ''Int'' = ''Int''"
  by (rule mangle_word, rule words_concrete)+

lemma E1255_registered: "assert_registered ''E1255'' = Some ()"
  by code_simp

lemma colliding_run:
  "\<exists>it. record_requests derive (colliding_requests ck) empty_instantiations = Some it \<and>
     map gi_mangled (generic_instantiations it) = [''fn_f_A_B''] \<and> length (it_diagnostics it) = 1"
  by (simp add: colliding_requests_def record_instantiation_def empty_instantiations_def words_concrete Let_def
      mangle_instantiation_def mangled_words instantiation_kind_tag_def instantiation_key_def mangling_collision_def
      diagnostic_error_def E1255_registered bt_or_insert_def bt_has_def generic_instantiations_def)


text \<open>
  Generic functions of the same name in two modules share a key: only the symbol of the first one
  that is called reaches the code generator.
\<close>

lemma second_symbol_dropped:
  "\<exists>it. record_requests derive
      [(ck, RequestNamed GikFunction ''f'' (Some 1) [''Int''] (span_new 0 1)),
       (ck, RequestNamed GikFunction ''f'' (Some 2) [''Int''] (span_new 2 3))] empty_instantiations = Some it \<and>
     map gi_symbol (generic_instantiations it) = [Some 1] \<and> it_diagnostics it = []"
  by (simp add: record_instantiation_def empty_instantiations_def words_concrete Let_def mangle_instantiation_def
      mangled_words instantiation_kind_tag_def instantiation_key_def bt_or_insert_def bt_has_def
      generic_instantiations_def)

end
