(* ===== verification/Spec2Isabelle.thy ===== *)
theory Spec2Isabelle
  imports IrBuilderSim Diagnostics ContractProgram DivisorFacts Usefulness Effects ParserTotal Formatter StateLock SessionPlans ResolverCorrect EffectAuthority StringRoundTrip TypeConversion InstantiationTable
begin

text \<open>
  Verification of the AICore compiler.
\<close>

end
